(* ===== verification/Prelude.thy ===== *)
theory Prelude
  imports Main "HOL-Library.Word" "HOL-Library.List_Lexorder" "HOL-Library.Char_ord"
begin

text \<open>
  Shared vocabulary of the development: hash maps as key/value lists with the contract the
  code relies on (the locale \<open>hash_map\<close> and its interpretation), UTF-8 strings with the
  \<open>str\<close> methods the sources use, unsigned integer parsing, clocks, and the list lemmas that
  the components share.  The collection \<open>kv_simps\<close> is the equational theory of the maps.
\<close>

named_theorems kv_simps \<open>equations of the key/value maps\<close>

section \<open>Hash maps\<close>

text \<open>
  A \<open>HashMap\<close> is a list of key/value pairs with distinct keys.  The order of the list
  stands for the iteration order of the hash map, which the standard library leaves open:
  statements about an iteration are made on sets, or hold for every order.
\<close>

type_synonym ('k, 'v) kv = "('k \<times> 'v) list"

primrec kv_get :: "('k, 'v) kv \<Rightarrow> 'k \<Rightarrow> 'v option" where
  "kv_get [] k = None"
| "kv_get (p # m) k = (if fst p = k then Some (snd p) else kv_get m k)"

primrec kv_insert :: "'k \<Rightarrow> 'v \<Rightarrow> ('k, 'v) kv \<Rightarrow> ('k, 'v) kv" where
  "kv_insert k v [] = [(k, v)]"
| "kv_insert k v (p # m) = (if fst p = k then (k, v) # m else p # kv_insert k v m)"

definition kv_remove :: "'k \<Rightarrow> ('k, 'v) kv \<Rightarrow> ('k, 'v) kv" where
  "kv_remove k m = filter (\<lambda>p. fst p \<noteq> k) m"

definition kv_keys :: "('k, 'v) kv \<Rightarrow> 'k list" where
  "kv_keys m = map fst m"

definition kv_wf :: "('k, 'v) kv \<Rightarrow> bool" where
  "kv_wf m = distinct (map fst m)"

definition kv_contains :: "('k, 'v) kv \<Rightarrow> 'k \<Rightarrow> bool" where
  "kv_contains m k = (kv_get m k \<noteq> None)"

text \<open>Mutation of the value behind \<open>get_mut\<close>, and \<open>HashMap::retain\<close>.\<close>

definition kv_adjust :: "'k \<Rightarrow> ('v \<Rightarrow> 'v) \<Rightarrow> ('k, 'v) kv \<Rightarrow> ('k, 'v) kv" where
  "kv_adjust k f m = map (\<lambda>p. if fst p = k then (fst p, f (snd p)) else p) m"

definition kv_retain :: "('k \<Rightarrow> 'v \<Rightarrow> bool) \<Rightarrow> ('k, 'v) kv \<Rightarrow> ('k, 'v) kv" where
  "kv_retain P m = filter (\<lambda>p. P (fst p) (snd p)) m"

lemma kv_get_insert [kv_simps]: "kv_get (kv_insert k v m) = (kv_get m)(k := Some v)"
  by (induction m) (auto simp: fun_eq_iff)

lemma kv_insert_twice: "kv_insert k v (kv_insert k w m) = kv_insert k v m"
  by (induction m) auto

lemma kv_get_remove [kv_simps]: "kv_get (kv_remove k m) = (kv_get m)(k := None)"
  by (induction m) (auto simp: kv_remove_def fun_eq_iff)

lemma kv_get_None: "kv_get m k = None \<longleftrightarrow> k \<notin> set (kv_keys m)"
  by (induction m) (auto simp: kv_keys_def)

lemma kv_keys_insert [kv_simps]: "set (kv_keys (kv_insert k v m)) = insert k (set (kv_keys m))"
  by (induction m) (auto simp: kv_keys_def)

lemma kv_keys_remove [kv_simps]: "set (kv_keys (kv_remove k m)) = set (kv_keys m) - {k}"
  by (auto simp: kv_keys_def kv_remove_def)

lemma kv_wf_empty [kv_simps]: "kv_wf []"
  by (simp add: kv_wf_def)

lemma kv_wf_insert [kv_simps]: "kv_wf (kv_insert k v m) = kv_wf m"
proof (induction m)
  case Nil
  then show ?case by (simp add: kv_wf_def)
next
  case (Cons p m)
  have "fst p \<noteq> k \<Longrightarrow> fst p \<in> set (map fst (kv_insert k v m)) \<longleftrightarrow> fst p \<in> set (map fst m)"
    using kv_keys_insert [of k v m] by (auto simp: kv_keys_def)
  with Cons show ?case by (auto simp: kv_wf_def)
qed

lemma kv_wf_remove [kv_simps]: "kv_wf m \<Longrightarrow> kv_wf (kv_remove k m)"
  by (simp add: kv_wf_def kv_remove_def distinct_map_filter)

lemma kv_get_adjust [kv_simps]:
  "kv_get (kv_adjust k f m) = (kv_get m)(k := map_option f (kv_get m k))"
  by (induction m) (auto simp: kv_adjust_def fun_eq_iff)

lemma kv_keys_adjust [kv_simps]: "kv_keys (kv_adjust k f m) = kv_keys m"
  by (induction m) (auto simp: kv_adjust_def kv_keys_def)

lemma kv_wf_adjust [kv_simps]: "kv_wf (kv_adjust k f m) = kv_wf m"
  using kv_keys_adjust [of k f m] by (simp add: kv_wf_def kv_keys_def)

lemma kv_wf_retain [kv_simps]: "kv_wf m \<Longrightarrow> kv_wf (kv_retain P m)"
  by (simp add: kv_wf_def kv_retain_def distinct_map_filter)

lemma kv_get_retain:
  "kv_wf m \<Longrightarrow> kv_get (kv_retain P m) k
    = (case kv_get m k of None \<Rightarrow> None | Some v \<Rightarrow> if P k v then Some v else None)"
proof (induction m)
  case Nil
  then show ?case by (simp add: kv_retain_def)
next
  case (Cons p m)
  show ?case
  proof (cases "fst p = k")
    case True
    then have "kv_get m k = None"
      using Cons.prems by (simp add: kv_get_None kv_keys_def kv_wf_def)
    with Cons True show ?thesis by (simp add: kv_retain_def kv_wf_def)
  next
    case False
    with Cons show ?thesis by (simp add: kv_retain_def kv_wf_def)
  qed
qed

lemma kv_get_mem: "kv_wf m \<Longrightarrow> kv_get m k = Some v \<longleftrightarrow> (k, v) \<in> set m"
proof (induction m)
  case Nil
  then show ?case by simp
next
  case (Cons p m)
  then show ?case by (cases p) (force simp: kv_wf_def)
qed

lemma kv_get_SomeD: "kv_get m k = Some v \<Longrightarrow> (k, v) \<in> set m"
  by (induction m) (auto split: if_splits)

lemma kv_get_append:
  "kv_get (m @ m') k = (case kv_get m k of None \<Rightarrow> kv_get m' k | Some v \<Rightarrow> Some v)"
  by (induction m) auto

lemma kv_length_insert [kv_simps]:
  "length (kv_insert k v m) = (if kv_get m k = None then Suc (length m) else length m)"
  by (induction m) auto

text \<open>
  The contract of the standard hash map.  Every component of the development that keeps a
  map relies on these laws only; the facts derived from them are proved once, here.
\<close>

locale hash_map =
  fixes empty :: "'m"
    and get :: "'m \<Rightarrow> 'k \<Rightarrow> 'v option"
    and insert :: "'k \<Rightarrow> 'v \<Rightarrow> 'm \<Rightarrow> 'm"
    and remove :: "'k \<Rightarrow> 'm \<Rightarrow> 'm"
    and keys :: "'m \<Rightarrow> 'k list"
    and wf :: "'m \<Rightarrow> bool"
  assumes get_empty: "get empty = (\<lambda>_. None)"
    and get_insert: "get (insert k v m) = (get m)(k := Some v)"
    and get_remove: "get (remove k m) = (get m)(k := None)"
    and get_keys: "get m k = None \<longleftrightarrow> k \<notin> set (keys m)"
    and wf_empty: "wf empty"
    and wf_insert: "wf m \<Longrightarrow> wf (insert k v m)"
    and wf_remove: "wf m \<Longrightarrow> wf (remove k m)"
    and wf_distinct: "wf m \<Longrightarrow> distinct (keys m)"
begin

lemma get_insert_same [simp]: "get (insert k v m) k = Some v"
  by (simp add: get_insert)

lemma get_insert_other: "k' \<noteq> k \<Longrightarrow> get (insert k v m) k' = get m k'"
  by (simp add: get_insert)

lemma get_remove_same [simp]: "get (remove k m) k = None"
  by (simp add: get_remove)

lemma get_remove_other: "k' \<noteq> k \<Longrightarrow> get (remove k m) k' = get m k'"
  by (simp add: get_remove)

lemma remove_insert_fresh: "get m k = None \<Longrightarrow> get (remove k (insert k v m)) = get m"
  by (simp add: get_insert get_remove fun_eq_iff)

lemma insert_twice: "get (insert k v (insert k w m)) = get (insert k v m)"
  by (simp add: get_insert fun_eq_iff)

lemma keys_insert: "set (keys (insert k v m)) = Set.insert k (set (keys m))"
proof -
  have "k' \<in> set (keys (insert k v m)) \<longleftrightarrow> k' = k \<or> k' \<in> set (keys m)" for k'
    using get_keys [of "insert k v m" k'] get_keys [of m k'] by (simp add: get_insert split: if_splits)
  then show ?thesis by blast
qed

lemma keys_remove: "set (keys (remove k m)) = set (keys m) - {k}"
proof -
  have "k' \<in> set (keys (remove k m)) \<longleftrightarrow> k' \<noteq> k \<and> k' \<in> set (keys m)" for k'
    using get_keys [of "remove k m" k'] get_keys [of m k'] by (simp add: get_remove split: if_splits)
  then show ?thesis by blast
qed

lemma length_keys_insert_fresh:
  assumes "wf m" and "get m k = None"
  shows "length (keys (insert k v m)) = Suc (length (keys m))"
proof -
  have "length (keys (insert k v m)) = card (Set.insert k (set (keys m)))"
    using assms by (metis distinct_card keys_insert wf_distinct wf_insert)
  also have "\<dots> = Suc (length (keys m))"
    using assms by (simp add: distinct_card get_keys wf_distinct)
  finally show ?thesis .
qed

end

lemma kv_distinct: "kv_wf m \<Longrightarrow> distinct (kv_keys m)"
  by (simp add: kv_wf_def kv_keys_def)

lemma kv_get_rev: "kv_wf m \<Longrightarrow> kv_get (rev m) k = kv_get m k"
proof -
  assume w: "kv_wf m"
  then have "kv_wf (rev m)" by (simp add: kv_wf_def rev_map [symmetric])
  then have "kv_get (rev m) k = Some v \<longleftrightarrow> kv_get m k = Some v" for v
    using kv_get_mem [OF w] kv_get_mem [of "rev m"] by simp
  then show ?thesis by (metis option.exhaust)
qed

interpretation kvm: hash_map "[]" kv_get kv_insert kv_remove kv_keys kv_wf
  by unfold_locales (simp_all add: kv_simps kv_get_None kv_distinct fun_eq_iff)

section \<open>Strings\<close>

text \<open>
  A Rust \<open>String\<close> is its UTF-8 encoding: an Isabelle \<open>char\<close> is one byte, so
  \<open>length\<close> is \<open>str::len\<close>.  \<open>str_chars\<close> is \<open>str::chars\<close>, each character
  given by its encoding, and \<open>code_point\<close> decodes it.
\<close>

definition byte_val :: "char \<Rightarrow> nat" where
  "byte_val c = of_char c"

lemma byte_val_char_of: "n < 256 \<Longrightarrow> byte_val (char_of n) = n"
  by (simp add: byte_val_def)

definition is_continuation :: "char \<Rightarrow> bool" where
  "is_continuation c = (128 \<le> byte_val c \<and> byte_val c < 192)"

function str_chars :: "string \<Rightarrow> string list" where
  "str_chars [] = []"
| "str_chars (c # cs) = (c # takeWhile is_continuation cs) # str_chars (dropWhile is_continuation cs)"
  by pat_completeness auto
termination
  by (relation "measure length") (auto simp: le_imp_less_Suc length_dropWhile_le)

fun code_point :: "string \<Rightarrow> nat" where
  "code_point [] = 0"
| "code_point [a] = byte_val a"
| "code_point [a, b] = (byte_val a mod 32) * 64 + byte_val b mod 64"
| "code_point [a, b, c] = (byte_val a mod 16) * 4096 + (byte_val b mod 64) * 64 + byte_val c mod 64"
| "code_point (a # b # c # d # _) =
     (byte_val a mod 8) * 262144 + (byte_val b mod 64) * 4096 + (byte_val c mod 64) * 64
       + byte_val d mod 64"

text \<open>\<open>char::is_whitespace\<close> (the property White\_Space) and \<open>char::is_control\<close> (category Cc).\<close>

definition char_is_whitespace :: "nat \<Rightarrow> bool" where
  "char_is_whitespace n = (9 \<le> n \<and> n \<le> 13 \<or> n = 32 \<or> n = 133 \<or> n = 160 \<or> n = 5760
     \<or> 8192 \<le> n \<and> n \<le> 8202 \<or> n = 8232 \<or> n = 8233 \<or> n = 8239 \<or> n = 8287 \<or> n = 12288)"

definition char_is_control :: "nat \<Rightarrow> bool" where
  "char_is_control n = (n \<le> 31 \<or> 127 \<le> n \<and> n \<le> 159)"

definition str_trim :: "string \<Rightarrow> string" where
  "str_trim s =
     (let ws = (\<lambda>c. char_is_whitespace (code_point c))
      in concat (rev (dropWhile ws (rev (dropWhile ws (str_chars s))))))"

definition to_ascii_lowercase :: "string \<Rightarrow> string" where
  "to_ascii_lowercase s =
     map (\<lambda>c. if 65 \<le> byte_val c \<and> byte_val c \<le> 90 then char_of (byte_val c + 32) else c) s"

definition eq_ignore_ascii_case :: "string \<Rightarrow> string \<Rightarrow> bool" where
  "eq_ignore_ascii_case a b = (to_ascii_lowercase a = to_ascii_lowercase b)"

text \<open>\<open>str::strip_prefix\<close>.\<close>

fun strip_prefix :: "string \<Rightarrow> string \<Rightarrow> string option" where
  "strip_prefix [] s = Some s"
| "strip_prefix (p # ps) [] = None"
| "strip_prefix (p # ps) (c # cs) = (if p = c then strip_prefix ps cs else None)"

lemma strip_prefix_eq: "strip_prefix p s = Some r \<longleftrightarrow> s = p @ r"
  by (induction p s rule: strip_prefix.induct) auto

lemma strip_prefix_append [simp]: "strip_prefix p (p @ r) = Some r"
  by (simp add: strip_prefix_eq)

lemma concat_str_chars [simp]: "concat (str_chars s) = s"
  by (induction s rule: str_chars.induct) auto

lemma str_chars_nonempty: "c \<in> set (str_chars s) \<Longrightarrow> c \<noteq> []"
  by (induction s rule: str_chars.induct) auto

text \<open>
  Unsigned parsing, \<open>str::parse\<close> at \<open>u32\<close> and \<open>u64\<close>: an optional plus sign, at least one
  digit, digits only, and no overflow of the type.
\<close>

definition digit_val :: "char \<Rightarrow> nat option" where
  "digit_val c = (if 48 \<le> byte_val c \<and> byte_val c \<le> 57 then Some (byte_val c - 48) else None)"

fun parse_digits :: "nat \<Rightarrow> nat \<Rightarrow> string \<Rightarrow> nat option" where
  "parse_digits bound acc [] = Some acc"
| "parse_digits bound acc (c # cs) =
     (case digit_val c of
        None \<Rightarrow> None
      | Some d \<Rightarrow> if acc * 10 + d < bound then parse_digits bound (acc * 10 + d) cs else None)"

definition parse_uint :: "nat \<Rightarrow> string \<Rightarrow> nat option" where
  "parse_uint bound s =
     (let ds = (case s of [] \<Rightarrow> [] | c # cs \<Rightarrow> if c = CHR ''+'' then cs else s)
      in if ds = [] then None else parse_digits bound 0 ds)"

lemma parse_digits_bound: "acc < bound \<Longrightarrow> parse_digits bound acc s = Some n \<Longrightarrow> n < bound"
  by (induction bound acc s rule: parse_digits.induct) (auto split: option.splits if_splits)

lemma parse_uint_bound: "parse_uint bound s = Some n \<Longrightarrow> 0 < bound \<Longrightarrow> n < bound"
  by (auto simp: parse_uint_def Let_def split: if_splits dest!: parse_digits_bound [rotated])

abbreviation u32_bound :: nat where "u32_bound \<equiv> 2 ^ 32"
abbreviation u64_bound :: nat where "u64_bound \<equiv> 2 ^ 64"

text \<open>Decimal formatting, \<open>Display\<close> at the unsigned types, and its inverse.\<close>

fun show_nat :: "nat \<Rightarrow> string" where
  "show_nat n =
     (if n < 10 then [char_of (48 + n)] else show_nat (n div 10) @ [char_of (48 + n mod 10)])"

declare show_nat.simps [simp del]

definition show_int :: "int \<Rightarrow> string" where
  "show_int i = (if i < 0 then CHR ''-'' # show_nat (nat (- i)) else show_nat (nat i))"

lemma byte_val_digit: "d < 10 \<Longrightarrow> byte_val (char_of (48 + d)) = 48 + d"
  by (simp add: byte_val_def)

lemma digit_val_digit [simp]: "d < 10 \<Longrightarrow> digit_val (char_of (48 + d)) = Some d"
  by (simp add: digit_val_def byte_val_digit)

lemma parse_digits_append:
  "parse_digits bound acc (xs @ ys) =
     Option.bind (parse_digits bound acc xs) (\<lambda>a. parse_digits bound a ys)"
  by (induction bound acc xs rule: parse_digits.induct) (auto split: option.splits)

lemma parse_digits_show: "n < bound \<Longrightarrow> parse_digits bound 0 (show_nat n) = Some n"
proof (induction n rule: show_nat.induct)
  case (1 n)
  show ?case
  proof (cases "n < 10")
    case True
    with 1 show ?thesis by (simp add: show_nat.simps [of n])
  next
    case False
    then have "parse_digits bound 0 (show_nat (n div 10)) = Some (n div 10)" using 1 by simp
    then show ?thesis
      using False 1 by (simp add: show_nat.simps [of n] parse_digits_append)
  qed
qed

lemma show_nat_inject [simp]: "show_nat m = show_nat n \<longleftrightarrow> m = n"
proof
  assume e: "show_nat m = show_nat n"
  have "parse_digits (m + n + 1) 0 (show_nat m) = Some m"
    by (rule parse_digits_show) linarith
  moreover have "parse_digits (m + n + 1) 0 (show_nat n) = Some n"
    by (rule parse_digits_show) linarith
  ultimately show "m = n" using e by (metis option.inject)
qed simp

section \<open>Clocks\<close>

text \<open>
  An \<open>Instant\<close> is a number of nanoseconds of the monotonic clock.  The standard library keeps
  it as 64-bit signed seconds and nanoseconds, and \<open>Instant + Duration\<close> panics when the
  sum is not representable: \<open>None\<close>.
\<close>

type_synonym instant = nat

definition instant_max :: instant where
  "instant_max = (2 ^ 63 - 1) * 1000000000 + 999999999"

definition instant_add_secs :: "instant \<Rightarrow> nat \<Rightarrow> instant option" where
  "instant_add_secs t secs =
     (if t + secs * 1000000000 \<le> instant_max then Some (t + secs * 1000000000) else None)"

section \<open>Lists\<close>

text \<open>\<open>slice.iter().find\<close> is \<open>List.find\<close>; \<open>Vec::dedup\<close> drops consecutive duplicates.\<close>

fun vec_dedup :: "'a list \<Rightarrow> 'a list" where
  "vec_dedup [] = []"
| "vec_dedup [x] = [x]"
| "vec_dedup (x # y # ys) = (if x = y then vec_dedup (x # ys) else x # vec_dedup (y # ys))"

lemma set_vec_dedup [simp]: "set (vec_dedup xs) = set xs"
  by (induction xs rule: vec_dedup.induct) auto

lemma sorted_vec_dedup: "sorted xs \<Longrightarrow> sorted (vec_dedup xs) \<and> distinct (vec_dedup xs)"
proof (induction xs rule: vec_dedup.induct)
  case (3 x y ys)
  show ?case
  proof (cases "x = y")
    case True
    with 3 show ?thesis by auto
  next
    case False
    with 3 have "sorted (vec_dedup (y # ys)) \<and> distinct (vec_dedup (y # ys))" by simp
    moreover have "\<forall>z \<in> set (vec_dedup (y # ys)). x < z"
      using "3.prems" False by (auto simp: less_le_not_le)
    ultimately show ?thesis using False by auto
  qed
qed auto

lemma find_mem: "List.find P xs = Some x \<Longrightarrow> x \<in> set xs \<and> P x"
  by (auto simp: find_Some_iff)

text \<open>\<open>str::split\<close> with a separator of one byte.\<close>

fun split_on :: "char \<Rightarrow> string \<Rightarrow> string list" where
  "split_on sep [] = [[]]"
| "split_on sep (c # cs) =
     (if c = sep then [] # split_on sep cs
      else case split_on sep cs of [] \<Rightarrow> [[c]] | seg # segs \<Rightarrow> (c # seg) # segs)"

text \<open>Byte buffers.\<close>

type_synonym byte = "8 word"

section \<open>Transition systems\<close>

text \<open>An inductive invariant of a transition system holds wherever the system can get.\<close>

locale safe_system =
  fixes start :: "'s \<Rightarrow> bool"
    and step :: "'s \<Rightarrow> 's \<Rightarrow> bool"
    and inv :: "'s \<Rightarrow> bool"
  assumes inv_start: "start s \<Longrightarrow> inv s"
    and inv_step: "inv s \<Longrightarrow> step s t \<Longrightarrow> inv t"
begin

lemma inv_steps: "step\<^sup>*\<^sup>* s t \<Longrightarrow> inv s \<Longrightarrow> inv t"
  by (induction rule: rtranclp_induct) (auto dest: inv_step)

lemma inv_reachable: "start s \<Longrightarrow> step\<^sup>*\<^sup>* s t \<Longrightarrow> inv t"
  using inv_steps inv_start by blast

lemma preserved_upto: "start s \<Longrightarrow> step\<^sup>*\<^sup>* s t \<Longrightarrow> step t u \<Longrightarrow> inv u"
  using inv_reachable inv_step by blast

end

end
