(* ===== verification/Json.thy ===== *)
theory Json
  imports Complex_Main Prelude
begin

text \<open>
  JSON values as \<open>serde_json::Value\<close> has them, the accessors the sources call, and the
  conversions between values and the JSON-RPC and tool structures of
  \<open>cafe-types/src/jsonrpc.rs\<close>, \<open>cafe-types/src/tools.rs\<close> and \<open>cafe-types/src/schema.rs\<close>.
  An object is the entry list of the sorted map behind \<open>serde_json::Map\<close>; a JSON float is the
  finite number it denotes.  The struct conversions follow the derived serde code: an object
  gives its fields by name, unknown fields are ignored, an array of the right length gives them
  by position, and a null or absent optional field is \<open>None\<close>.
\<close>

section \<open>Values and accessors\<close>

datatype json_number = PosInt nat | NegInt int | Float rat

datatype json =
    JNull
  | JBool bool
  | JNum json_number
  | JStr string
  | JArr "json list"
  | JObj "(string \<times> json) list"

text \<open>Single precision floats, for the temperatures that configuration carries.\<close>

datatype ieee = Finite rat | Infinity bool | NaN

fun as_str :: "json \<Rightarrow> string option" where
  "as_str (JStr s) = Some s"
| "as_str _ = None"

fun as_bool :: "json \<Rightarrow> bool option" where
  "as_bool (JBool b) = Some b"
| "as_bool _ = None"

fun as_u64 :: "json \<Rightarrow> nat option" where
  "as_u64 (JNum (PosInt n)) = Some n"
| "as_u64 _ = None"

fun as_object :: "json \<Rightarrow> (string \<times> json) list option" where
  "as_object (JObj kvs) = Some kvs"
| "as_object _ = None"

text \<open>\<open>Value::get\<close> with a key, and indexing \<open>v[key]\<close>, which reads \<open>Null\<close> when there is no such entry.\<close>

fun json_get :: "json \<Rightarrow> string \<Rightarrow> json option" where
  "json_get (JObj kvs) k = kv_get kvs k"
| "json_get _ k = None"

definition json_index :: "json \<Rightarrow> string \<Rightarrow> json" where
  "json_index v k = (case json_get v k of None \<Rightarrow> JNull | Some w \<Rightarrow> w)"

fun obj_insert :: "string \<Rightarrow> json \<Rightarrow> (string \<times> json) list \<Rightarrow> (string \<times> json) list" where
  "obj_insert k v [] = [(k, v)]"
| "obj_insert k v ((k', v') # m) =
     (if k = k' then (k, v) # m
      else if k < k' then (k, v) # (k', v') # m
      else (k', v') # obj_insert k v m)"

definition json_obj :: "(string \<times> json) list \<Rightarrow> json" where
  "json_obj kvs = JObj (fold (\<lambda>(k, v). obj_insert k v) kvs [])"

lemma kv_get_obj_insert [kv_simps]: "kv_get (obj_insert k v m) = (kv_get m)(k := Some v)"
  by (induction k v m rule: obj_insert.induct) (auto simp: fun_eq_iff)

lemma kv_get_fold_obj_insert:
  "kv_get (fold (\<lambda>(k, v). obj_insert k v) kvs m) k
    = (case kv_get (rev kvs) k of None \<Rightarrow> kv_get m k | Some v \<Rightarrow> Some v)"
proof (induction kvs arbitrary: m)
  case Nil
  then show ?case by simp
next
  case (Cons p kvs)
  then show ?case
    by (cases p) (simp add: kv_get_append kv_get_obj_insert split: option.splits)
qed

lemma json_get_obj [simp]: "json_get (json_obj kvs) k = kv_get (rev kvs) k"
  by (simp add: json_obj_def kv_get_fold_obj_insert split: option.splits)

text \<open>The map stays sorted by key, which makes equality of objects equality of their maps.\<close>

definition obj_sorted :: "(string \<times> json) list \<Rightarrow> bool" where
  "obj_sorted m = sorted_wrt (<) (map fst m)"

lemma obj_insert_keys: "fst ` set (obj_insert k v m) = insert k (fst ` set m)"
  by (induction k v m rule: obj_insert.induct) auto

lemma obj_insert_sorted: "obj_sorted m \<Longrightarrow> obj_sorted (obj_insert k v m)"
proof (induction k v m rule: obj_insert.induct)
  case (1 k v)
  then show ?case by (simp add: obj_sorted_def)
next
  case (2 k v k' v' m)
  have tail: "obj_sorted m" and head: "\<forall>x \<in> fst ` set m. k' < x"
    using "2.prems" by (simp_all add: obj_sorted_def)
  consider "k = k'" | "k < k'" | "k' < k" by (rule linorder_less_linear [THEN disjE]) blast+
  then show ?case
  proof cases
    case 1
    with tail head show ?thesis by (simp add: obj_sorted_def)
  next
    case 2
    with tail head show ?thesis by (auto simp: obj_sorted_def dest: less_trans)
  next
    case 3
    then have ne: "k \<noteq> k'" "\<not> k < k'" by auto
    with "2.IH" tail have "obj_sorted (obj_insert k v m)" by blast
    with 3 head ne show ?thesis by (simp add: obj_sorted_def obj_insert_keys flip: image_image)
  qed
qed

lemma json_obj_sorted: "json_obj kvs = JObj m \<Longrightarrow> obj_sorted m"
proof -
  have "obj_sorted m \<Longrightarrow> obj_sorted (fold (\<lambda>(k, v). obj_insert k v) kvs m)" for m
    by (induction kvs arbitrary: m) (auto simp: obj_insert_sorted)
  then show "json_obj kvs = JObj m \<Longrightarrow> obj_sorted m"
    by (force simp: json_obj_def obj_sorted_def)
qed

section \<open>Derived deserialisation\<close>

definition struct_fields :: "string list \<Rightarrow> json \<Rightarrow> json option list option" where
  "struct_fields names v =
     (case v of
        JObj kvs \<Rightarrow> Some (map (kv_get kvs) names)
      | JArr xs \<Rightarrow> if length xs = length names then Some (map Some xs) else None
      | _ \<Rightarrow> None)"

definition field_string :: "json option \<Rightarrow> string option" where
  "field_string f = Option.bind f as_str"

definition field_option :: "(json \<Rightarrow> 'a option) \<Rightarrow> json option \<Rightarrow> 'a option option" where
  "field_option d f =
     (case f of None \<Rightarrow> Some None | Some JNull \<Rightarrow> Some None | Some v \<Rightarrow> map_option Some (d v))"

definition from_i32 :: "json \<Rightarrow> int option" where
  "from_i32 v =
     (case v of
        JNum (PosInt n) \<Rightarrow> if n < 2 ^ 31 then Some (int n) else None
      | JNum (NegInt i) \<Rightarrow> if - (2 ^ 31) \<le> i then Some i else None
      | _ \<Rightarrow> None)"

definition json_int :: "int \<Rightarrow> json" where
  "json_int i = JNum (if 0 \<le> i then PosInt (nat i) else NegInt i)"

lemma from_i32_int: "- (2 ^ 31) \<le> i \<Longrightarrow> i < 2 ^ 31 \<Longrightarrow> from_i32 (json_int i) = Some i"
  by (auto simp: from_i32_def json_int_def)

text \<open>The entry of an optional field, left out when it is \<open>None\<close> (\<open>skip_serializing_if\<close>).\<close>

definition opt_entry :: "string \<Rightarrow> ('a \<Rightarrow> json) \<Rightarrow> 'a option \<Rightarrow> (string \<times> json) list" where
  "opt_entry k f x = (case x of None \<Rightarrow> [] | Some y \<Rightarrow> [(k, f y)])"

text \<open>A present optional field: null when it is \<open>None\<close>.\<close>

definition opt_json :: "('a \<Rightarrow> json) \<Rightarrow> 'a option \<Rightarrow> json" where
  "opt_json f x = (case x of None \<Rightarrow> JNull | Some y \<Rightarrow> f y)"

section \<open>JSON-RPC\<close>

definition SERVICE_UNAVAILABLE :: int where "SERVICE_UNAVAILABLE = - 32000"
definition TIMEOUT :: int where "TIMEOUT = - 32001"
definition UPSTREAM_ERROR :: int where "UPSTREAM_ERROR = - 32002"
definition INVALID_PARAMS :: int where "INVALID_PARAMS = - 32602"

record json_rpc_request =
  req_jsonrpc :: string
  req_id :: string
  req_method :: string
  req_params :: json

record json_rpc_error =
  err_code :: int
  err_message :: string
  err_data :: "json option"

record json_rpc_response =
  resp_jsonrpc :: string
  resp_id :: string
  resp_result :: "json option"
  resp_error :: "json_rpc_error option"

text \<open>\<open>JsonRpcRequest::new\<close>; the fresh UUID is an argument.\<close>

definition rpc_request_new :: "string \<Rightarrow> string \<Rightarrow> json \<Rightarrow> json_rpc_request" where
  "rpc_request_new uuid method params =
     \<lparr>req_jsonrpc = ''2.0'', req_id = uuid, req_method = method, req_params = params\<rparr>"

definition rpc_response_ok :: "string \<Rightarrow> json \<Rightarrow> json_rpc_response" where
  "rpc_response_ok i result =
     \<lparr>resp_jsonrpc = ''2.0'', resp_id = i, resp_result = Some result, resp_error = None\<rparr>"

definition rpc_response_err :: "string \<Rightarrow> int \<Rightarrow> string \<Rightarrow> json_rpc_response" where
  "rpc_response_err i code message =
     \<lparr>resp_jsonrpc = ''2.0'', resp_id = i, resp_result = None,
      resp_error = Some \<lparr>err_code = code, err_message = message, err_data = None\<rparr>\<rparr>"

definition rpc_is_ok :: "json_rpc_response \<Rightarrow> bool" where
  "rpc_is_ok r = (resp_error r = None)"

definition request_to_json :: "json_rpc_request \<Rightarrow> json" where
  "request_to_json r =
     json_obj [(''jsonrpc'', JStr (req_jsonrpc r)), (''id'', JStr (req_id r)),
               (''method'', JStr (req_method r)), (''params'', req_params r)]"

definition request_from_json :: "json \<Rightarrow> json_rpc_request option" where
  "request_from_json v =
     (case struct_fields [''jsonrpc'', ''id'', ''method'', ''params''] v of
        Some [a, b, c, d] \<Rightarrow>
          (case (field_string a, field_string b, field_string c, d) of
             (Some a', Some b', Some c', Some d') \<Rightarrow>
               Some \<lparr>req_jsonrpc = a', req_id = b', req_method = c', req_params = d'\<rparr>
           | _ \<Rightarrow> None)
      | _ \<Rightarrow> None)"

definition rpc_error_to_json :: "json_rpc_error \<Rightarrow> json" where
  "rpc_error_to_json e =
     json_obj ([(''code'', json_int (err_code e)), (''message'', JStr (err_message e))]
               @ opt_entry ''data'' (\<lambda>v. v) (err_data e))"

definition rpc_error_from_json :: "json \<Rightarrow> json_rpc_error option" where
  "rpc_error_from_json v =
     (case struct_fields [''code'', ''message'', ''data''] v of
        Some [a, b, c] \<Rightarrow>
          (case (Option.bind a from_i32, field_string b, field_option Some c) of
             (Some a', Some b', Some c') \<Rightarrow> Some \<lparr>err_code = a', err_message = b', err_data = c'\<rparr>
           | _ \<Rightarrow> None)
      | _ \<Rightarrow> None)"

definition response_to_json :: "json_rpc_response \<Rightarrow> json" where
  "response_to_json r =
     json_obj ([(''jsonrpc'', JStr (resp_jsonrpc r)), (''id'', JStr (resp_id r))]
               @ opt_entry ''result'' (\<lambda>v. v) (resp_result r)
               @ opt_entry ''error'' rpc_error_to_json (resp_error r))"

definition response_from_json :: "json \<Rightarrow> json_rpc_response option" where
  "response_from_json v =
     (case struct_fields [''jsonrpc'', ''id'', ''result'', ''error''] v of
        Some [a, b, c, d] \<Rightarrow>
          (case (field_string a, field_string b, field_option Some c,
                 field_option rpc_error_from_json d) of
             (Some a', Some b', Some c', Some d') \<Rightarrow>
               Some \<lparr>resp_jsonrpc = a', resp_id = b', resp_result = c', resp_error = d'\<rparr>
           | _ \<Rightarrow> None)
      | _ \<Rightarrow> None)"

text \<open>
  What survives the trip through an annotation: every request, and every response whose
  error code is an \<open>i32\<close> and whose optional values are not \<open>null\<close> (a present null reads back
  as an absent value).
\<close>

definition rpc_error_ok :: "json_rpc_error \<Rightarrow> bool" where
  "rpc_error_ok e = (- (2 ^ 31) \<le> err_code e \<and> err_code e < 2 ^ 31 \<and> err_data e \<noteq> Some JNull)"

definition rpc_response_wf :: "json_rpc_response \<Rightarrow> bool" where
  "rpc_response_wf r =
     (resp_result r \<noteq> Some JNull
      \<and> (case resp_error r of None \<Rightarrow> True | Some e \<Rightarrow> rpc_error_ok e))"

lemma struct_fields_obj:
  "struct_fields names (json_obj kvs) = Some (map (kv_get (rev kvs)) names)"
proof -
  have "kv_get (fold (\<lambda>(k, v). obj_insert k v) kvs []) n = kv_get (rev kvs) n" for n
    by (simp add: kv_get_fold_obj_insert split: option.splits)
  then show ?thesis by (simp add: struct_fields_def json_obj_def)
qed

lemma request_roundtrip: "request_from_json (request_to_json r) = Some r"
  by (simp add: request_from_json_def request_to_json_def struct_fields_obj field_string_def)

lemma field_option_Some: "v \<noteq> JNull \<Longrightarrow> field_option d (Some v) = map_option Some (d v)"
  by (cases v) (simp_all add: field_option_def)

lemma field_option_None [simp]: "field_option d None = Some None"
  by (simp add: field_option_def)

lemma json_obj_not_null [simp]: "json_obj kvs \<noteq> JNull"
  by (simp add: json_obj_def)

lemma rpc_error_roundtrip:
  "rpc_error_ok e \<Longrightarrow> rpc_error_from_json (rpc_error_to_json e) = Some e"
  by (cases "err_data e")
     (auto simp: rpc_error_from_json_def rpc_error_to_json_def struct_fields_obj field_string_def
        opt_entry_def rpc_error_ok_def from_i32_int field_option_Some)

lemma response_roundtrip:
  assumes "rpc_response_wf r"
  shows "response_from_json (response_to_json r) = Some r"
proof -
  have e: "field_option rpc_error_from_json (Some (rpc_error_to_json e)) = Some (Some e)"
    if "resp_error r = Some e" for e
  proof -
    have "rpc_error_ok e" using assms that by (simp add: rpc_response_wf_def)
    moreover have "rpc_error_to_json e \<noteq> JNull" by (simp add: rpc_error_to_json_def)
    ultimately show ?thesis by (simp add: field_option_Some rpc_error_roundtrip)
  qed
  show ?thesis
    using assms e
    by (cases "resp_result r"; cases "resp_error r")
       (auto simp: response_from_json_def response_to_json_def struct_fields_obj field_string_def
          opt_entry_def rpc_response_wf_def field_option_Some)
qed

section \<open>Tool calls and evaluator schemas\<close>

record tool_call =
  call_name :: string
  call_parameters :: json
  call_provider :: "string option"

record tool_result =
  res_name :: string
  res_output :: json
  res_error :: "string option"
  res_provider :: "string option"

record evaluator_schema =
  schema_name :: string
  schema_description :: string
  config_schema :: json
  rpc_params_schema :: json

definition tool_call_to_json :: "tool_call \<Rightarrow> json" where
  "tool_call_to_json c =
     json_obj ([(''name'', JStr (call_name c)), (''parameters'', call_parameters c)]
               @ opt_entry ''provider'' JStr (call_provider c))"

definition tool_call_from_json :: "json \<Rightarrow> tool_call option" where
  "tool_call_from_json v =
     (case struct_fields [''name'', ''parameters'', ''provider''] v of
        Some [a, b, c] \<Rightarrow>
          (case (field_string a, b, field_option as_str c) of
             (Some a', Some b', Some c') \<Rightarrow>
               Some \<lparr>call_name = a', call_parameters = b', call_provider = c'\<rparr>
           | _ \<Rightarrow> None)
      | _ \<Rightarrow> None)"

definition tool_result_to_json :: "tool_result \<Rightarrow> json" where
  "tool_result_to_json r =
     json_obj ([(''name'', JStr (res_name r)), (''output'', res_output r)]
               @ opt_entry ''error'' JStr (res_error r)
               @ opt_entry ''provider'' JStr (res_provider r))"

definition tool_result_from_json :: "json \<Rightarrow> tool_result option" where
  "tool_result_from_json v =
     (case struct_fields [''name'', ''output'', ''error'', ''provider''] v of
        Some [a, b, c, d] \<Rightarrow>
          (case (field_string a, b, field_option as_str c, field_option as_str d) of
             (Some a', Some b', Some c', Some d') \<Rightarrow>
               Some \<lparr>res_name = a', res_output = b', res_error = c', res_provider = d'\<rparr>
           | _ \<Rightarrow> None)
      | _ \<Rightarrow> None)"

definition default_object :: json where
  "default_object = json_obj [(''type'', JStr ''object''), (''properties'', JObj [])]"

definition schema_to_json :: "evaluator_schema \<Rightarrow> json" where
  "schema_to_json s =
     json_obj [(''name'', JStr (schema_name s)), (''description'', JStr (schema_description s)),
               (''config_schema'', config_schema s), (''rpc_params_schema'', rpc_params_schema s)]"

text \<open>The two schema fields have defaults, so an array may also end after the description.\<close>

definition schema_from_json :: "json \<Rightarrow> evaluator_schema option" where
  "schema_from_json v =
     (case v of
        JObj kvs \<Rightarrow>
          (case (field_string (kv_get kvs ''name''), field_string (kv_get kvs ''description'')) of
             (Some n, Some d) \<Rightarrow>
               Some \<lparr>schema_name = n, schema_description = d,
                     config_schema = (case kv_get kvs ''config_schema'' of None \<Rightarrow> default_object | Some c \<Rightarrow> c),
                     rpc_params_schema =
                       (case kv_get kvs ''rpc_params_schema'' of None \<Rightarrow> default_object | Some c \<Rightarrow> c)\<rparr>
           | _ \<Rightarrow> None)
      | JArr [JStr n, JStr d] \<Rightarrow>
          Some \<lparr>schema_name = n, schema_description = d, config_schema = default_object,
                rpc_params_schema = default_object\<rparr>
      | JArr [JStr n, JStr d, c] \<Rightarrow>
          Some \<lparr>schema_name = n, schema_description = d, config_schema = c,
                rpc_params_schema = default_object\<rparr>
      | JArr [JStr n, JStr d, c, p] \<Rightarrow>
          Some \<lparr>schema_name = n, schema_description = d, config_schema = c, rpc_params_schema = p\<rparr>
      | _ \<Rightarrow> None)"

lemma tool_call_roundtrip: "tool_call_from_json (tool_call_to_json c) = Some c"
  by (cases "call_provider c")
     (simp_all add: tool_call_from_json_def tool_call_to_json_def struct_fields_obj
        field_string_def opt_entry_def field_option_Some)

lemma tool_result_roundtrip: "tool_result_from_json (tool_result_to_json r) = Some r"
  by (cases "res_error r"; cases "res_provider r")
     (simp_all add: tool_result_from_json_def tool_result_to_json_def struct_fields_obj
        field_string_def opt_entry_def field_option_Some)

lemma schema_roundtrip: "schema_from_json (schema_to_json s) = Some s"
proof -
  have "json_get (schema_to_json s) k
      = kv_get (rev [(''name'', JStr (schema_name s)), (''description'', JStr (schema_description s)),
               (''config_schema'', config_schema s), (''rpc_params_schema'', rpc_params_schema s)]) k" for k
    by (simp only: schema_to_json_def json_get_obj)
  moreover obtain kvs where kvs: "schema_to_json s = JObj kvs"
    by (simp add: schema_to_json_def json_obj_def)
  ultimately have "kv_get kvs k
      = kv_get (rev [(''name'', JStr (schema_name s)), (''description'', JStr (schema_description s)),
               (''config_schema'', config_schema s), (''rpc_params_schema'', rpc_params_schema s)]) k" for k
    by (metis json_get.simps(1))
  then show ?thesis
    by (simp add: schema_from_json_def kvs field_string_def)
qed

end
