(* ===== verification/Chunks.thy ===== *)
theory Chunks
  imports Json
begin

text \<open>
  The chunk, the unit of data on the bus: \<open>cafe-types/src/chunk.rs\<close> and the annotation keys
  of \<open>cafe-types/src/annotation.rs\<close>.  Constructors take the fresh UUID and the wall clock in
  milliseconds as arguments; the builders return the updated chunk.
\<close>

section \<open>Annotation keys\<close>

abbreviation CHAT_ROLE :: string where "CHAT_ROLE \<equiv> ''chat.role''"
abbreviation CHAT_MODEL :: string where "CHAT_MODEL \<equiv> ''chat.model''"
abbreviation CHAT_FINISH_REASON :: string where "CHAT_FINISH_REASON \<equiv> ''chat.finish_reason''"
abbreviation CHAT_IS_STREAMING :: string where "CHAT_IS_STREAMING \<equiv> ''chat.is_streaming''"
abbreviation CHAT_STREAM_COMPLETE :: string where "CHAT_STREAM_COMPLETE \<equiv> ''chat.stream_complete''"
abbreviation SECURITY_TRUST_LEVEL :: string where "SECURITY_TRUST_LEVEL \<equiv> ''security.trust-level''"
abbreviation CONFIG_TYPE :: string where "CONFIG_TYPE \<equiv> ''config.type''"
abbreviation CONFIG_BACKEND :: string where "CONFIG_BACKEND \<equiv> ''config.backend''"
abbreviation CONFIG_MODEL :: string where "CONFIG_MODEL \<equiv> ''config.model''"
abbreviation CONFIG_SYSTEM_PROMPT :: string where "CONFIG_SYSTEM_PROMPT \<equiv> ''config.system_prompt''"
abbreviation CONFIG_TEMPERATURE :: string where "CONFIG_TEMPERATURE \<equiv> ''config.temperature''"
abbreviation CONFIG_MAX_TOKENS :: string where "CONFIG_MAX_TOKENS \<equiv> ''config.max_tokens''"
abbreviation CONFIG_LLM_SYSTEM_PROMPT :: string where "CONFIG_LLM_SYSTEM_PROMPT \<equiv> ''config.llm.system_prompt''"
abbreviation CONFIG_LLM_TEMPERATURE :: string where "CONFIG_LLM_TEMPERATURE \<equiv> ''config.llm.temperature''"
abbreviation CONFIG_LLM_MAX_TOKENS :: string where "CONFIG_LLM_MAX_TOKENS \<equiv> ''config.llm.max_tokens''"
abbreviation CONFIG_LLM_MODEL :: string where "CONFIG_LLM_MODEL \<equiv> ''config.llm.model''"
abbreviation CONFIG_LLM_BACKEND :: string where "CONFIG_LLM_BACKEND \<equiv> ''config.llm.backend''"
abbreviation CONFIG_LLM_COMPACTION_MODE :: string where
  "CONFIG_LLM_COMPACTION_MODE \<equiv> ''config.llm.compaction_mode''"
abbreviation CONFIG_LLM_MAX_HISTORY_MESSAGES :: string where
  "CONFIG_LLM_MAX_HISTORY_MESSAGES \<equiv> ''config.llm.max_history_messages''"
abbreviation CONFIG_LLM_MAX_HISTORY_CHARS :: string where
  "CONFIG_LLM_MAX_HISTORY_CHARS \<equiv> ''config.llm.max_history_chars''"
abbreviation SESSION_TAGS :: string where "SESSION_TAGS \<equiv> ''session.tags''"
abbreviation FLOW_TARGET_CHUNK_ID :: string where "FLOW_TARGET_CHUNK_ID \<equiv> ''flow.target_chunk_id''"
abbreviation CAFE_SCHEMA_EVALUATOR :: string where "CAFE_SCHEMA_EVALUATOR \<equiv> ''cafe.schema.evaluator''"
abbreviation CAFE_TRANSIENT :: string where "CAFE_TRANSIENT \<equiv> ''cafe.transient''"
abbreviation CAFE_TRANSIENT_RETAIN_SECS :: string where
  "CAFE_TRANSIENT_RETAIN_SECS \<equiv> ''cafe.transient.retain_secs''"
abbreviation CAFE_SOURCE_CONNECTION :: string where "CAFE_SOURCE_CONNECTION \<equiv> ''cafe.source.connection''"
abbreviation CAFE_DIRECT_TO :: string where "CAFE_DIRECT_TO \<equiv> ''cafe.direct_to''"
abbreviation CAFE_MUTATES_TARGET_ID :: string where "CAFE_MUTATES_TARGET_ID \<equiv> ''cafe.mutates.target_id''"
abbreviation CAFE_JSONRPC_REQUEST :: string where "CAFE_JSONRPC_REQUEST \<equiv> ''cafe.jsonrpc.request''"
abbreviation CAFE_JSONRPC_RESPONSE :: string where "CAFE_JSONRPC_RESPONSE \<equiv> ''cafe.jsonrpc.response''"
abbreviation CAFE_FLOW_SIGNAL :: string where "CAFE_FLOW_SIGNAL \<equiv> ''cafe.flow.signal''"
abbreviation CAFE_FLOW_AGENT_ID :: string where "CAFE_FLOW_AGENT_ID \<equiv> ''cafe.flow.agent_id''"
abbreviation CAFE_FLOW_TOMBSTONE :: string where "CAFE_FLOW_TOMBSTONE \<equiv> ''cafe.flow.tombstone''"
abbreviation CAFE_TOOL_CALL :: string where "CAFE_TOOL_CALL \<equiv> ''cafe.tool.call''"
abbreviation CAFE_TOOL_RESULT :: string where "CAFE_TOOL_RESULT \<equiv> ''cafe.tool.result''"
abbreviation CAFE_ERROR_MESSAGE :: string where "CAFE_ERROR_MESSAGE \<equiv> ''cafe.error.message''"
abbreviation FORK_PARENT_ID :: string where "FORK_PARENT_ID \<equiv> ''fork.parent_id''"

abbreviation USER :: string where "USER \<equiv> ''user''"
abbreviation ASSISTANT :: string where "ASSISTANT \<equiv> ''assistant''"
abbreviation SYSTEM :: string where "SYSTEM \<equiv> ''system''"

section \<open>Chunks\<close>

datatype content_type = Text | Binary | BinaryRef | Null

record chunk =
  chunk_id :: string
  chunk_type :: content_type
  content :: "string option"
  chunk_data :: "byte list option"
  mime_type :: "string option"
  producer :: string
  annotations :: "(string, json) kv"
  timestamp :: int

definition new_text :: "string \<Rightarrow> int \<Rightarrow> string \<Rightarrow> string \<Rightarrow> chunk" where
  "new_text uuid now_ms text who =
     \<lparr>chunk_id = uuid, chunk_type = Text, content = Some text, chunk_data = None,
      mime_type = None, producer = who, annotations = [], timestamp = now_ms\<rparr>"

definition new_binary :: "string \<Rightarrow> int \<Rightarrow> byte list \<Rightarrow> string \<Rightarrow> string \<Rightarrow> chunk" where
  "new_binary uuid now_ms data mime who =
     \<lparr>chunk_id = uuid, chunk_type = Binary, content = None, chunk_data = Some data,
      mime_type = Some mime, producer = who, annotations = [], timestamp = now_ms\<rparr>"

definition new_null :: "string \<Rightarrow> int \<Rightarrow> string \<Rightarrow> chunk" where
  "new_null uuid now_ms who =
     \<lparr>chunk_id = uuid, chunk_type = Null, content = None, chunk_data = None,
      mime_type = None, producer = who, annotations = [], timestamp = now_ms\<rparr>"

definition new_binary_ref :: "string \<Rightarrow> int \<Rightarrow> string \<Rightarrow> string \<Rightarrow> chunk" where
  "new_binary_ref uuid now_ms mime who =
     \<lparr>chunk_id = uuid, chunk_type = BinaryRef, content = None, chunk_data = None,
      mime_type = Some mime, producer = who, annotations = [], timestamp = now_ms\<rparr>"

text \<open>\<open>with_annotation\<close> with the value already converted to JSON.\<close>

definition with_annotation :: "string \<Rightarrow> json \<Rightarrow> chunk \<Rightarrow> chunk" where
  "with_annotation k v c = c\<lparr>annotations := kv_insert k v (annotations c)\<rparr>"

text \<open>
  \<open>get_annotation::<T>\<close>: the conversion to \<open>T\<close> is the argument \<open>d\<close>; a value that does not
  convert reads as absent.
\<close>

definition annotation :: "chunk \<Rightarrow> string \<Rightarrow> json option" where
  "annotation c k = kv_get (annotations c) k"

definition get_annotation :: "(json \<Rightarrow> 'a option) \<Rightarrow> string \<Rightarrow> chunk \<Rightarrow> 'a option" where
  "get_annotation d k c = Option.bind (annotation c k) d"

definition role :: "chunk \<Rightarrow> string option" where
  "role c = Option.bind (annotation c ''chat.role'') as_str"

definition is_runtime_config :: "chunk \<Rightarrow> bool" where
  "is_runtime_config c =
     (chunk_type c = Null \<and> Option.bind (annotation c ''config.type'') as_str = Some ''runtime'')"

definition as_rpc_request :: "chunk \<Rightarrow> json_rpc_request option" where
  "as_rpc_request c = get_annotation request_from_json CAFE_JSONRPC_REQUEST c"

definition as_rpc_response :: "chunk \<Rightarrow> json_rpc_response option" where
  "as_rpc_response c = get_annotation response_from_json CAFE_JSONRPC_RESPONSE c"

definition is_rpc_response_for :: "string \<Rightarrow> chunk \<Rightarrow> bool" where
  "is_rpc_response_for call_id c =
     (case as_rpc_response c of None \<Rightarrow> False | Some r \<Rightarrow> resp_id r = call_id)"

definition as_tool_call :: "chunk \<Rightarrow> tool_call option" where
  "as_tool_call c = get_annotation tool_call_from_json CAFE_TOOL_CALL c"

definition as_tool_result :: "chunk \<Rightarrow> tool_result option" where
  "as_tool_result c = get_annotation tool_result_from_json CAFE_TOOL_RESULT c"

definition is_transient :: "chunk \<Rightarrow> bool" where
  "is_transient c =
     (case Option.bind (annotation c CAFE_TRANSIENT) as_bool of None \<Rightarrow> False | Some b \<Rightarrow> b)"

definition as_transient :: "chunk \<Rightarrow> chunk" where
  "as_transient c = with_annotation CAFE_TRANSIENT (JBool True) c"

definition retain_secs :: "chunk \<Rightarrow> nat option" where
  "retain_secs c =
     (if \<not> is_transient c then None
      else Option.bind (annotation c CAFE_TRANSIENT_RETAIN_SECS) as_u64)"

definition with_retain :: "nat \<Rightarrow> chunk \<Rightarrow> chunk" where
  "with_retain secs c = with_annotation CAFE_TRANSIENT_RETAIN_SECS (JNum (PosInt secs)) c"

definition is_binary_ref :: "chunk \<Rightarrow> bool" where
  "is_binary_ref c = (chunk_type c = BinaryRef)"

definition is_mutation :: "chunk \<Rightarrow> string option" where
  "is_mutation c = get_annotation as_str CAFE_MUTATES_TARGET_ID c"

definition mutation :: "string \<Rightarrow> int \<Rightarrow> string \<Rightarrow> string \<Rightarrow> chunk" where
  "mutation uuid now_ms target_id who =
     with_annotation CAFE_MUTATES_TARGET_ID (JStr target_id) (new_null uuid now_ms who)"

section \<open>Laws of annotations\<close>

lemmas chunk_builders =
  new_text_def new_binary_def new_null_def new_binary_ref_def as_transient_def with_retain_def
  mutation_def

lemma annotation_with [simp]:
  "annotation (with_annotation k v c) k' = (if k' = k then Some v else annotation c k')"
  by (simp add: annotation_def with_annotation_def kv_simps)

lemma with_annotation_fields [simp]:
  "chunk_id (with_annotation k v c) = chunk_id c"
  "chunk_type (with_annotation k v c) = chunk_type c"
  "content (with_annotation k v c) = content c"
  "chunk_data (with_annotation k v c) = chunk_data c"
  "mime_type (with_annotation k v c) = mime_type c"
  "producer (with_annotation k v c) = producer c"
  "timestamp (with_annotation k v c) = timestamp c"
  by (simp_all add: with_annotation_def)

lemma new_chunk_annotation [simp]:
  "annotation (new_text u t x p) k = None"
  "annotation (new_null u t p) k = None"
  "annotation (new_binary u t d m p) k = None"
  "annotation (new_binary_ref u t m p) k = None"
  by (simp_all add: annotation_def chunk_builders)

lemma new_chunk_fields [simp]:
  "chunk_type (new_text u t x p) = Text" "content (new_text u t x p) = Some x"
  "producer (new_text u t x p) = p" "chunk_id (new_text u t x p) = u"
  "chunk_type (new_null u t p) = Null" "content (new_null u t p) = None"
  "producer (new_null u t p) = p" "chunk_id (new_null u t p) = u"
  by (simp_all add: chunk_builders)

lemma is_transient_as_transient [simp]: "is_transient (as_transient c)"
  by (simp add: is_transient_def as_transient_def)

lemma is_transient_with_annotation [simp]:
  "k \<noteq> CAFE_TRANSIENT \<Longrightarrow> is_transient (with_annotation k v c) = is_transient c"
  by (simp add: is_transient_def)

lemma is_transient_with_retain [simp]: "is_transient (with_retain n c) = is_transient c"
  by (simp add: with_retain_def)

lemma is_transient_new [simp]:
  "\<not> is_transient (new_text u t x p)" "\<not> is_transient (new_null u t p)"
  by (simp_all add: is_transient_def)

lemma retain_secs_with_retain: "retain_secs (with_retain n c) = (if is_transient c then Some n else None)"
  by (simp add: retain_secs_def) (simp add: with_retain_def)

lemma retain_secs_transient: "retain_secs c = Some n \<Longrightarrow> is_transient c"
  by (simp add: retain_secs_def split: if_splits)

lemma annotation_as_transient [simp]:
  "k \<noteq> CAFE_TRANSIENT \<Longrightarrow> annotation (as_transient c) k = annotation c k"
  by (simp add: as_transient_def)

lemma annotation_with_retain [simp]:
  "k \<noteq> CAFE_TRANSIENT_RETAIN_SECS \<Longrightarrow> annotation (with_retain n c) k = annotation c k"
  by (simp add: with_retain_def)

lemma role_with_annotation [simp]:
  "role (with_annotation k v c) = (if k = CHAT_ROLE then as_str v else role c)"
  by (simp add: role_def)

lemma get_annotation_with [simp]:
  "get_annotation d k (with_annotation k' v c) = (if k = k' then d v else get_annotation d k c)"
  by (simp add: get_annotation_def)

lemma chunk_fields_transient [simp]:
  "chunk_type (as_transient c) = chunk_type c" "chunk_type (with_retain n c) = chunk_type c"
  "chunk_id (as_transient c) = chunk_id c" "chunk_id (with_retain n c) = chunk_id c"
  "content (as_transient c) = content c" "content (with_retain n c) = content c"
  by (simp_all add: as_transient_def with_retain_def)

text \<open>A reply built the way every service builds it is recognised by the caller that waits for it.\<close>

lemma rpc_response_recognised:
  assumes "rpc_response_wf r"
  shows "as_rpc_response (with_retain n (as_transient (with_annotation CAFE_JSONRPC_RESPONSE (response_to_json r) c))) = Some r"
proof -
  have "annotation (with_retain n (as_transient (with_annotation CAFE_JSONRPC_RESPONSE (response_to_json r) c)))
      CAFE_JSONRPC_RESPONSE = Some (response_to_json r)"
    by simp
  then show ?thesis
    using assms by (simp only: as_rpc_response_def get_annotation_def bind.bind_lunit response_roundtrip)
qed

lemma rpc_request_recognised:
  "as_rpc_request (with_retain n (as_transient (with_annotation CAFE_JSONRPC_REQUEST (request_to_json r) c))) = Some r"
proof -
  have "annotation (with_retain n (as_transient (with_annotation CAFE_JSONRPC_REQUEST (request_to_json r) c)))
      CAFE_JSONRPC_REQUEST = Some (request_to_json r)"
    by simp
  then show ?thesis
    by (simp only: as_rpc_request_def get_annotation_def bind.bind_lunit request_roundtrip)
qed

end
