(* ===== verification/Envelope.thy ===== *)
theory Envelope
  imports Chunks
begin

text \<open>
  The messages of the bus and their parts: session tags (\<open>cafe-types/src/tags.rs\<close>), error codes
  (\<open>cafe-types/src/error.rs\<close>), client and server messages, session configuration and
  subscription filters (\<open>cafe-types/src/envelope.rs\<close>), session listings
  (\<open>cafe-types/src/session.rs\<close>) and the model catalog (\<open>cafe-types/src/models.rs\<close>).
\<close>

section \<open>Errors and tags\<close>

datatype cafe_error =
    Serialization string
  | Io string
  | SessionNotFound string
  | SessionExists string
  | AgentNotFound string
  | InvalidMessage string
  | InvalidTags string
  | PayloadTooLarge
  | Other string

fun error_code :: "cafe_error \<Rightarrow> string" where
  "error_code (SessionNotFound _) = ''SESSION_NOT_FOUND''"
| "error_code (SessionExists _) = ''SESSION_EXISTS''"
| "error_code (AgentNotFound _) = ''AGENT_NOT_FOUND''"
| "error_code (InvalidMessage _) = ''INVALID_MESSAGE''"
| "error_code (InvalidTags _) = ''INVALID_TAGS''"
| "error_code PayloadTooLarge = ''PAYLOAD_TOO_LARGE''"
| "error_code _ = ''INTERNAL_ERROR''"

fun error_display :: "cafe_error \<Rightarrow> string" where
  "error_display (Serialization e) = ''serialization error: '' @ e"
| "error_display (Io e) = ''I/O error: '' @ e"
| "error_display (SessionNotFound s) = ''session not found: '' @ s"
| "error_display (SessionExists s) = ''session already exists: '' @ s"
| "error_display (AgentNotFound s) = ''agent not found: '' @ s"
| "error_display (InvalidMessage s) = ''invalid message: '' @ s"
| "error_display (InvalidTags s) = ''invalid tags: '' @ s"
| "error_display PayloadTooLarge = ''payload too large''"
| "error_display (Other s) = s"

definition MAX_TAG_LEN :: nat where "MAX_TAG_LEN = 64"

text \<open>
  Validation of one tag, on the characters of the string.  The argument \<open>dbg\<close> is the
  \<open>Debug\<close> form of a string, which only the message of the error shows.
\<close>

definition validate_tag :: "(string \<Rightarrow> string) \<Rightarrow> string \<Rightarrow> cafe_error + unit" where
  "validate_tag dbg tag =
     (if tag = [] then Inl (InvalidTags ''tag must not be empty'')
      else if list_ex (\<lambda>c. char_is_whitespace (code_point c)) (str_chars tag)
      then Inl (InvalidTags (''tag must not contain whitespace: '' @ dbg tag))
      else if list_ex (\<lambda>c. char_is_control (code_point c)) (str_chars tag)
      then Inl (InvalidTags (''tag must not contain control characters: '' @ dbg tag))
      else if length (str_chars tag) > MAX_TAG_LEN
      then Inl (InvalidTags (''tag must be at most 64 characters: '' @ dbg tag))
      else Inr ())"

fun validate_tags :: "(string \<Rightarrow> string) \<Rightarrow> string list \<Rightarrow> cafe_error + unit" where
  "validate_tags dbg [] = Inr ()"
| "validate_tags dbg (t # ts) =
     (case validate_tag dbg t of Inl e \<Rightarrow> Inl e | Inr _ \<Rightarrow> validate_tags dbg ts)"

text \<open>The specification of a valid tag.\<close>

definition tag_ok :: "string \<Rightarrow> bool" where
  "tag_ok t \<longleftrightarrow>
     t \<noteq> [] \<and> length (str_chars t) \<le> MAX_TAG_LEN
     \<and> (\<forall>c \<in> set (str_chars t). \<not> char_is_whitespace (code_point c) \<and> \<not> char_is_control (code_point c))"

lemma validate_tag_ok: "validate_tag dbg t = Inr () \<longleftrightarrow> tag_ok t"
  by (auto simp: validate_tag_def tag_ok_def list_ex_iff)

lemma validate_tag_error: "validate_tag dbg t = Inl e \<Longrightarrow> error_code e = ''INVALID_TAGS''"
  by (auto simp: validate_tag_def split: if_splits)

lemma validate_tags_ok: "validate_tags dbg ts = Inr () \<longleftrightarrow> (\<forall>t \<in> set ts. tag_ok t)"
proof (induction ts)
  case Nil
  then show ?case by simp
next
  case (Cons t ts)
  then show ?case
    by (cases "validate_tag dbg t") (auto simp flip: validate_tag_ok [of dbg])
qed

lemma validate_tags_error: "validate_tags dbg ts = Inl e \<Longrightarrow> error_code e = ''INVALID_TAGS''"
  by (induction ts) (auto split: sum.splits dest: validate_tag_error)

section \<open>Configuration, filters, listings\<close>

record ephemeral_config =
  keepalive_secs :: nat
  count_role :: "string option"

record session_config =
  cfg_backend :: "string option"
  cfg_model :: "string option"
  cfg_system_prompt :: "string option"
  cfg_temperature :: "ieee option"
  cfg_max_tokens :: "nat option"
  cfg_compaction_mode :: "string option"
  cfg_max_history_messages :: "nat option"
  cfg_max_history_chars :: "nat option"
  cfg_ephemeral :: "ephemeral_config option"
  cfg_tags :: "string list option"

definition default_session_config :: session_config where
  "default_session_config =
     \<lparr>cfg_backend = None, cfg_model = None, cfg_system_prompt = None, cfg_temperature = None,
      cfg_max_tokens = None, cfg_compaction_mode = None, cfg_max_history_messages = None,
      cfg_max_history_chars = None, cfg_ephemeral = None, cfg_tags = None\<rparr>"

record subscribe_filter =
  f_sessions :: "string list option"
  f_agents :: "string list option"
  f_content_types :: "content_type list option"
  f_annotations :: "(string, json) kv option"
  f_tags :: "string list option"
  f_tags_exclude :: "string list option"

definition default_filter :: subscribe_filter where
  "default_filter =
     \<lparr>f_sessions = None, f_agents = None, f_content_types = None, f_annotations = None,
      f_tags = None, f_tags_exclude = None\<rparr>"

record session_info =
  si_session_id :: string
  si_agent_id :: string
  si_display_name :: "string option"
  si_tags :: "string list"
  si_is_background :: bool
  si_ui_mode :: string
  si_message_count :: nat
  si_created_at :: int
  si_parent_id :: "string option"

record step_def =
  step_id :: string
  step_type :: string
  step_trigger :: string
  enabled_if :: "string option"

section \<open>Messages\<close>

datatype client_message =
    Subscribe string
  | SubscribeAll
  | SubscribeFiltered subscribe_filter
  | Publish string chunk
  | SetMeta "string option" "string list option"
  | CreateSession string string session_config
  | DeleteSession string
  | SetSessionTags string "string list"
  | ForkSession string string session_config
  | ListSessions
  | Ping

datatype server_message =
    Connected string
  | CodecSet string string
  | Chunk string chunk
  | SessionCreated string string
  | SessionDeleted string
  | SessionsList "session_info list"
  | HistoryComplete string nat
  | SessionTagsUpdated string "string list"
  | SessionForked string string
  | Error "string option" string string
  | Pong

section \<open>The model catalog\<close>

record backend_models =
  bm_backend :: string
  bm_default_model :: "string option"
  bm_models :: "string list"

record model_catalog =
  default_backend :: "string option"
  backends :: "backend_models list"

definition all_models :: "model_catalog \<Rightarrow> string list" where
  "all_models c = vec_dedup (sort (concat (map bm_models (backends c))))"

definition backend_for :: "model_catalog \<Rightarrow> string \<Rightarrow> string option \<Rightarrow> backend_models option" where
  "backend_for c model preferred =
     (let candidates = filter (\<lambda>b. model \<in> set (bm_models b)) (backends c);
          first = (case candidates of [] \<Rightarrow> None | b # _ \<Rightarrow> Some b)
      in case preferred of
           None \<Rightarrow> first
         | Some pref \<Rightarrow>
             (case List.find (\<lambda>b. bm_backend b = pref) candidates of
                Some hit \<Rightarrow> Some hit
              | None \<Rightarrow> first))"

text \<open>The catalog lists every model once, in order.\<close>

lemma all_models_spec:
  "sorted (all_models c) \<and> distinct (all_models c)
   \<and> set (all_models c) = (\<Union>b \<in> set (backends c). set (bm_models b))"
  by (simp add: all_models_def sorted_vec_dedup)

lemma backend_for_serves:
  "backend_for c model preferred = Some b \<Longrightarrow> b \<in> set (backends c) \<and> model \<in> set (bm_models b)"
proof -
  assume b: "backend_for c model preferred = Some b"
  let ?cand = "filter (\<lambda>b. model \<in> set (bm_models b)) (backends c)"
  have "b \<in> set ?cand"
    using b
    by (auto simp: backend_for_def Let_def find_Some_iff simp del: set_filter
        split: option.splits list.splits)
  then show ?thesis by simp
qed

lemma backend_for_None: "backend_for c model preferred = None \<longleftrightarrow> (\<forall>b \<in> set (backends c). model \<notin> set (bm_models b))"
proof -
  let ?cand = "filter (\<lambda>b. model \<in> set (bm_models b)) (backends c)"
  have "backend_for c model preferred = None \<longleftrightarrow> ?cand = []"
    by (auto simp: backend_for_def Let_def split: option.splits list.splits)
  then show ?thesis by (simp add: filter_empty_conv)
qed

end
