(* ===== verification/Session.thy ===== *)
theory Session
  imports Envelope
begin

text \<open>
  One session of the bus, \<open>cafe-bus/src/session.rs\<close>.  The broadcast channel \<open>tx\<close> is kept
  as the list of the chunks handed to it, oldest first, and a receiver is the number of chunks
  the channel had carried when it subscribed; what a receiver then reads is an input of the
  forwarding tasks (theory \<open>Bus_Client\<close>).  Reading the clock is an argument.

  The second half states what a session promises: its history is the published chunks minus
  the transient ones, the delete signals and everything a later delete signal retires, whatever
  the order in which they came.
\<close>

section \<open>State and operations\<close>

record subscriber_info =
  sub_conn_id :: string
  sub_role :: "string option"

record session_state =
  session_id :: string
  agent_id :: string
  history :: "chunk list"
  tx :: "chunk list"
  retained :: "(chunk \<times> instant) list"
  subscribers :: "(string, subscriber_info) kv"
  ephemeral :: "ephemeral_config option"
  tags :: "string list"
  parent_id :: "string option"

definition session_new :: "string \<Rightarrow> string \<Rightarrow> session_state" where
  "session_new sid aid =
     \<lparr>session_id = sid, agent_id = aid, history = [], tx = [], retained = [], subscribers = [],
      ephemeral = None, tags = [], parent_id = None\<rparr>"

definition delete_target :: "chunk \<Rightarrow> string option" where
  "delete_target c =
     (let signal = Option.bind (annotation c CAFE_FLOW_SIGNAL) as_str
      in if signal \<noteq> Some ''delete'' then None
         else Option.bind (annotation c FLOW_TARGET_CHUNK_ID) as_str)"

definition remove_chunk :: "string \<Rightarrow> session_state \<Rightarrow> bool \<times> session_state" where
  "remove_chunk cid s =
     (let before = length (history s);
          history' = filter (\<lambda>c. chunk_id c \<noteq> cid) (history s);
          retained' = filter (\<lambda>(c, _). chunk_id c \<noteq> cid) (retained s)
      in (length history' \<noteq> before, s\<lparr>history := history', retained := retained'\<rparr>))"

definition tx_send :: "chunk \<Rightarrow> session_state \<Rightarrow> session_state" where
  "tx_send c s = s\<lparr>tx := tx s @ [c]\<rparr>"

text \<open>\<open>publish\<close>; \<open>None\<close> is the panic of an unrepresentable retention deadline.\<close>

definition session_publish :: "instant \<Rightarrow> chunk \<Rightarrow> session_state \<Rightarrow> session_state option" where
  "session_publish now chunk s =
     (case delete_target chunk of
        Some target \<Rightarrow> Some (tx_send chunk (snd (remove_chunk target s)))
      | None \<Rightarrow>
          if \<not> is_transient chunk
          then Some (tx_send chunk (s\<lparr>history := history s @ [chunk]\<rparr>))
          else (case retain_secs chunk of
                  None \<Rightarrow> Some (tx_send chunk s)
                | Some secs \<Rightarrow>
                    map_option
                      (\<lambda>deadline. tx_send chunk (s\<lparr>retained := retained s @ [(chunk, deadline)]\<rparr>))
                      (instant_add_secs now secs)))"

definition drain_retained :: "instant \<Rightarrow> session_state \<Rightarrow> chunk list \<times> session_state" where
  "drain_retained now s =
     (let valid = map fst (filter (\<lambda>(_, deadline). deadline > now) (retained s));
          expired = length (filter (\<lambda>(_, deadline). \<not> deadline > now) (retained s));
          s' = (if expired > 0
                then s\<lparr>retained := filter (\<lambda>(_, deadline). deadline > now) (retained s)\<rparr> else s)
      in (valid, s'))"

definition retained_with_deadlines :: "instant \<Rightarrow> session_state \<Rightarrow> (chunk \<times> instant) list \<times> session_state" where
  "retained_with_deadlines now s =
     (let valid = filter (\<lambda>(_, deadline). deadline > now) (retained s)
      in (valid, s\<lparr>retained := filter (\<lambda>(_, deadline). deadline > now) (retained s)\<rparr>))"

definition seed :: "chunk list \<Rightarrow> (chunk \<times> instant) list \<Rightarrow> session_state \<Rightarrow> session_state" where
  "seed hist ret s = s\<lparr>history := hist, retained := ret\<rparr>"

definition subscribe :: "session_state \<Rightarrow> nat" where
  "subscribe s = length (tx s)"

definition add_subscriber ::
  "string \<Rightarrow> string option \<Rightarrow> session_state \<Rightarrow> subscriber_info option \<times> session_state" where
  "add_subscriber cid r s =
     (kv_get (subscribers s) cid,
      s\<lparr>subscribers := kv_insert cid \<lparr>sub_conn_id = cid, sub_role = r\<rparr> (subscribers s)\<rparr>)"

definition remove_subscriber :: "string \<Rightarrow> session_state \<Rightarrow> subscriber_info option \<times> session_state" where
  "remove_subscriber cid s =
     (kv_get (subscribers s) cid, s\<lparr>subscribers := kv_remove cid (subscribers s)\<rparr>)"

definition counted_subscriber_count :: "session_state \<Rightarrow> nat" where
  "counted_subscriber_count s =
     (case ephemeral s of
        Some cfg \<Rightarrow>
          length (filter
            (\<lambda>i. case count_role cfg of None \<Rightarrow> True | Some r \<Rightarrow> sub_role i = Some r)
            (map snd (subscribers s)))
      | None \<Rightarrow> length (subscribers s))"

definition is_ephemeral :: "session_state \<Rightarrow> bool" where
  "is_ephemeral s = (ephemeral s \<noteq> None)"

definition subscriber_conn_ids :: "session_state \<Rightarrow> string set" where
  "subscriber_conn_ids s = set (kv_keys (subscribers s))"

section \<open>Frame facts\<close>

lemma tx_send_fields [simp]:
  "session_id (tx_send c s) = session_id s" "agent_id (tx_send c s) = agent_id s"
  "history (tx_send c s) = history s" "tx (tx_send c s) = tx s @ [c]"
  "retained (tx_send c s) = retained s" "subscribers (tx_send c s) = subscribers s"
  "ephemeral (tx_send c s) = ephemeral s" "tags (tx_send c s) = tags s"
  "parent_id (tx_send c s) = parent_id s"
  by (simp_all add: tx_send_def)

lemma session_publish_frame:
  assumes "session_publish now c s = Some s'"
  shows "session_id s' = session_id s" "agent_id s' = agent_id s" "subscribers s' = subscribers s"
    "ephemeral s' = ephemeral s" "tags s' = tags s" "parent_id s' = parent_id s" "tx s' = tx s @ [c]"
  using assms by (auto simp: session_publish_def remove_chunk_def Let_def split: option.splits if_splits)

lemma drain_retained_frame:
  assumes "drain_retained now s = (v, s')"
  shows "session_id s' = session_id s" "agent_id s' = agent_id s" "subscribers s' = subscribers s"
    "ephemeral s' = ephemeral s" "tags s' = tags s" "parent_id s' = parent_id s" "tx s' = tx s"
    "history s' = history s"
  using assms by (auto simp: drain_retained_def Let_def)

text \<open>Draining prunes exactly what it does not return.\<close>

lemma drain_retained_spec:
  assumes "drain_retained now s = (v, s')"
  shows "retained s' = filter (\<lambda>(_, deadline). deadline > now) (retained s)"
    and "v = map fst (retained s')"
proof -
  have "filter (\<lambda>(_, deadline). \<not> deadline > now) xs = [] \<Longrightarrow> filter (\<lambda>(_, deadline). deadline > now) xs = xs"
    for xs :: "(chunk \<times> instant) list"
    by (induction xs) (auto split: if_splits)
  then show "retained s' = filter (\<lambda>(_, deadline). deadline > now) (retained s)"
    using assms by (auto simp: drain_retained_def Let_def)
  then show "v = map fst (retained s')"
    using assms by (auto simp: drain_retained_def Let_def)
qed

lemma session_publish_ordinary:
  "delete_target c = None \<Longrightarrow> \<not> is_transient c \<Longrightarrow>
     session_publish now c s = Some (tx_send c (s\<lparr>history := history s @ [c]\<rparr>))"
  by (simp add: session_publish_def)

section \<open>The session invariant\<close>

text \<open>
  The history holds durable chunks only, the retention buffer holds transient chunks that asked
  for retention, neither holds a delete signal, and the subscriber table is keyed by connection.
\<close>

definition durable :: "chunk \<Rightarrow> bool" where
  "durable c = (\<not> is_transient c \<and> delete_target c = None)"

definition session_inv :: "session_state \<Rightarrow> bool" where
  "session_inv s \<longleftrightarrow>
     (\<forall>c \<in> set (history s). durable c)
     \<and> (\<forall>(c, _) \<in> set (retained s). retain_secs c \<noteq> None \<and> delete_target c = None)
     \<and> kv_wf (subscribers s)
     \<and> (\<forall>k i. kv_get (subscribers s) k = Some i \<longrightarrow> sub_conn_id i = k)"

lemma session_inv_new [simp]: "session_inv (session_new sid aid)"
  by (simp add: session_inv_def session_new_def kv_simps)

lemma session_inv_publish:
  "session_inv s \<Longrightarrow> session_publish now c s = Some s' \<Longrightarrow> session_inv s'"
  by (auto simp: session_inv_def session_publish_def remove_chunk_def durable_def Let_def
      split: option.splits if_splits)

lemma session_inv_drain: "session_inv s \<Longrightarrow> drain_retained now s = (v, s') \<Longrightarrow> session_inv s'"
  using drain_retained_frame [of now s v s'] drain_retained_spec [of now s v s']
  by (auto simp: session_inv_def)

lemma session_inv_retained: "session_inv s \<Longrightarrow> retained_with_deadlines now s = (v, s') \<Longrightarrow> session_inv s'"
  by (auto simp: session_inv_def retained_with_deadlines_def Let_def)

lemma session_inv_add: "session_inv s \<Longrightarrow> add_subscriber cid r s = (p, s') \<Longrightarrow> session_inv s'"
  by (auto simp: session_inv_def add_subscriber_def kv_simps split: if_splits)

lemma session_inv_remove: "session_inv s \<Longrightarrow> remove_subscriber cid s = (p, s') \<Longrightarrow> session_inv s'"
  by (auto simp: session_inv_def remove_subscriber_def kv_simps split: if_splits)

lemma session_inv_tags [simp]: "session_inv (s\<lparr>tags := ts\<rparr>) = session_inv s"
  by (simp add: session_inv_def)

lemma session_inv_ephemeral [simp]: "session_inv (s\<lparr>ephemeral := e\<rparr>) = session_inv s"
  by (simp add: session_inv_def)

section \<open>The specification of the history\<close>

text \<open>Publishing a list of chunks, each at its own time; \<open>None\<close> as soon as one panics.\<close>

fun publish_all :: "(instant \<times> chunk) list \<Rightarrow> session_state \<Rightarrow> session_state option" where
  "publish_all [] s = Some s"
| "publish_all ((now, c) # ps) s =
     (case session_publish now c s of None \<Rightarrow> None | Some s' \<Rightarrow> publish_all ps s')"

text \<open>A chunk survives when no later chunk is a delete signal for its id.\<close>

fun surviving :: "chunk list \<Rightarrow> chunk list" where
  "surviving [] = []"
| "surviving (c # cs) =
     (if durable c \<and> (\<forall>d \<in> set cs. delete_target d \<noteq> Some (chunk_id c)) then [c] else [])
     @ surviving cs"

definition retired_by :: "chunk list \<Rightarrow> chunk \<Rightarrow> bool" where
  "retired_by ps c = (\<exists>d \<in> set ps. delete_target d = Some (chunk_id c))"

lemma publish_all_history:
  "publish_all ps s = Some s' \<Longrightarrow>
     history s' = filter (\<lambda>c. \<not> retired_by (map snd ps) c) (history s) @ surviving (map snd ps)"
proof (induction ps s rule: publish_all.induct)
  case (1 s)
  then show ?case by (simp add: retired_by_def)
next
  case (2 now c ps s)
  then obtain s1 where s1: "session_publish now c s = Some s1" and rest: "publish_all ps s1 = Some s'"
    by (auto split: option.splits)
  note IH = "2.IH" [OF s1 rest]
  show ?case
  proof (cases "delete_target c")
    case None
    then have "history s1 = history s @ (if is_transient c then [] else [c])"
      using s1 by (auto simp: session_publish_def split: option.splits if_splits)
    with IH None show ?thesis by (auto simp: retired_by_def durable_def)
  next
    case (Some t)
    then have "history s1 = filter (\<lambda>d. chunk_id d \<noteq> t) (history s)"
      using s1 by (auto simp: session_publish_def remove_chunk_def Let_def)
    with IH Some show ?thesis
      by (auto simp: retired_by_def durable_def intro!: arg_cong2 [where f = "(@)"] filter_cong)
  qed
qed

lemma publish_all_tx: "publish_all ps s = Some s' \<Longrightarrow> tx s' = tx s @ map snd ps"
  by (induction ps s rule: publish_all.induct)
     (auto split: option.splits dest: session_publish_frame(7))

lemma publish_all_inv: "publish_all ps s = Some s' \<Longrightarrow> session_inv s \<Longrightarrow> session_inv s'"
  by (induction ps s rule: publish_all.induct) (auto split: option.splits dest: session_inv_publish)

text \<open>
  C4: The event-sourced history. After any sequence of publishes the history of a fresh session
  is the published chunks, in publication order, without the transient ones, without the delete
  signals, and without every chunk whose id a later delete signal names; and every published
  chunk, whatever its kind, was broadcast once, in order.
\<close>

theorem session_history_is_surviving:
  assumes "publish_all ps (session_new sid aid) = Some s"
  shows "history s = surviving (map snd ps) \<and> tx s = map snd ps"
  using publish_all_history [OF assms] publish_all_tx [OF assms] by (simp add: session_new_def)

definition demo_text :: "string \<Rightarrow> chunk" where
  "demo_text i = new_text i 0 ''hi'' ''com.test''"

definition demo_delete :: "string \<Rightarrow> chunk" where
  "demo_delete t =
     with_annotation FLOW_TARGET_CHUNK_ID (JStr t)
       (with_annotation CAFE_FLOW_SIGNAL (JStr ''delete'') (new_null ''d'' 0 ''com.test''))"

lemmas demo_defs = demo_text_def demo_delete_def new_text_def new_null_def with_annotation_def

lemma demo_chunks [simp]:
  "\<not> is_transient (demo_text i)" "delete_target (demo_text i) = None" "chunk_id (demo_text i) = i"
  "\<not> is_transient (demo_delete i)" "delete_target (demo_delete i) = Some i"
  by (simp_all add: demo_text_def demo_delete_def delete_target_def)

theorem session_history_witness:
  "\<exists>s. publish_all [(0, demo_text ''a''), (1, demo_text ''b''), (2, demo_delete ''a'')]
         (session_new ''s'' ''x'') = Some s \<and> history s = [demo_text ''b'']"
proof -
  let ?ps = "[(0, demo_text ''a''), (1, demo_text ''b''), (2, demo_delete ''a'')]"
  obtain s where s: "publish_all ?ps (session_new ''s'' ''x'') = Some s"
    by (simp add: session_publish_def)
  then have "history s = surviving (map snd ?ps)"
    using session_history_is_surviving [OF s] by simp
  with s show ?thesis by (simp add: durable_def)
qed

text \<open>
  When publishing panics. The only way \<open>publish\<close> fails is a transient chunk, not a
  delete signal, whose retention period pushes the deadline beyond the largest
  representable instant; in particular any period from 2^63 seconds on does.
\<close>

theorem session_publish_panics_iff:
  "session_publish now c s = None \<longleftrightarrow>
     delete_target c = None \<and>
     (\<exists>secs. retain_secs c = Some secs \<and> instant_max < now + secs * 1000000000)"
  by (auto simp: session_publish_def instant_add_secs_def dest: retain_secs_transient
      split: option.splits)

text \<open>
  The retention window. What a late subscriber is given are the retained chunks whose
  deadline lies in the future, oldest first, and the buffer keeps exactly these: draining
  again at the same or a later time returns a subset, and never a chunk that had expired.
\<close>

theorem drain_retained_window:
  assumes "drain_retained t s = (v, s')"
  shows "v = map fst (filter (\<lambda>(_, d). t < d) (retained s))
    \<and> (\<forall>t' \<ge> t. fst (drain_retained t' s') = fst (drain_retained t' s))"
proof -
  have r: "retained s' = filter (\<lambda>(_, d). t < d) (retained s)"
    using drain_retained_spec(1) [OF assms] by simp
  have v: "fst (drain_retained u x) = map fst (filter (\<lambda>(_, d). u < d) (retained x))" for u x
    by (simp add: drain_retained_def Let_def)
  have "filter (\<lambda>(_, d). t' < d) (filter (\<lambda>(_, d). t < d) xs) = filter (\<lambda>(_, d). t' < d) xs"
    if "t \<le> t'" for t' and xs :: "(chunk \<times> instant) list"
    using that by (auto simp: filter_filter intro!: filter_cong)
  with v r assms show ?thesis by (metis fst_conv)
qed

theorem drain_retained_window_witness:
  "\<exists>v s'. drain_retained 5 (session_new ''s'' ''a''\<lparr>retained := [(demo_text ''x'', 3), (demo_text ''y'', 9)]\<rparr>) = (v, s')
     \<and> v = [demo_text ''y'']"
proof -
  let ?s = "session_new ''s'' ''a''\<lparr>retained := [(demo_text ''x'', 3), (demo_text ''y'', 9)]\<rparr>"
  obtain v s' where d: "drain_retained 5 ?s = (v, s')" by fastforce
  with drain_retained_window [OF d] show ?thesis by simp
qed

section \<open>Counting subscribers\<close>

text \<open>The subscribers that keep an ephemeral session alive.\<close>

definition counts :: "session_state \<Rightarrow> subscriber_info \<Rightarrow> bool" where
  "counts s i =
     (case ephemeral s of
        None \<Rightarrow> True
      | Some cfg \<Rightarrow> (case count_role cfg of None \<Rightarrow> True | Some r \<Rightarrow> sub_role i = Some r))"

lemma counted_subscriber_count_eq:
  "counted_subscriber_count s = length (filter (\<lambda>p. counts s (snd p)) (subscribers s))"
  by (auto simp: counted_subscriber_count_def counts_def filter_map comp_def split: option.splits)

lemma counted_zero_iff:
  assumes "session_inv s"
  shows "counted_subscriber_count s = 0
    \<longleftrightarrow> (\<forall>k i. kv_get (subscribers s) k = Some i \<longrightarrow> \<not> counts s i)"
  using assms
  by (auto simp: counted_subscriber_count_eq session_inv_def filter_empty_conv kv_get_mem)

end
