(* ===== verification/Registry.thy ===== *)
theory Registry
  imports Session
begin

text \<open>
  The session registry of the bus, \<open>cafe-bus/src/registry.rs\<close>: the table of sessions and the
  broadcast log of registry events.  A spawned deletion timer is a returned value (the session and
  its delay in seconds); what it does when it expires is \<open>timer_expires\<close>.
\<close>

section \<open>State and operations\<close>

record registry =
  sessions :: "(string, session_state) kv"
  event_tx :: "server_message list"

datatype fork_error = ParentNotFound | ForkSessionExists

definition registry_new :: registry where
  "registry_new = \<lparr>sessions = [], event_tx = []\<rparr>"

definition event_send :: "server_message \<Rightarrow> registry \<Rightarrow> registry" where
  "event_send e r = r\<lparr>event_tx := event_tx r @ [e]\<rparr>"

definition registry_get :: "registry \<Rightarrow> string \<Rightarrow> session_state option" where
  "registry_get r sid = kv_get (sessions r) sid"

definition registry_contains :: "registry \<Rightarrow> string \<Rightarrow> bool" where
  "registry_contains r sid = kv_contains (sessions r) sid"

text \<open>Writing back the session that \<open>get_mut\<close> lent.\<close>

definition registry_put :: "string \<Rightarrow> session_state \<Rightarrow> registry \<Rightarrow> registry" where
  "registry_put sid s r = r\<lparr>sessions := kv_insert sid s (sessions r)\<rparr>"

definition registry_insert :: "session_state \<Rightarrow> registry \<Rightarrow> registry" where
  "registry_insert state r =
     event_send (SessionCreated (session_id state) (agent_id state))
       (r\<lparr>sessions := kv_insert (session_id state) state (sessions r)\<rparr>)"

definition provenance_chunk :: "string \<Rightarrow> int \<Rightarrow> string \<Rightarrow> chunk" where
  "provenance_chunk uuid now_ms parent =
     with_annotation FORK_PARENT_ID (JStr parent) (new_null uuid now_ms ''com.nominal.cafe-bus'')"

definition registry_fork ::
  "instant \<Rightarrow> string \<Rightarrow> int \<Rightarrow> string \<Rightarrow> string \<Rightarrow> registry \<Rightarrow> (fork_error + string) \<times> registry" where
  "registry_fork now uuid now_ms parent_sid new_sid r =
     (if registry_contains r new_sid then (Inl ForkSessionExists, r)
      else case registry_get r parent_sid of
             None \<Rightarrow> (Inl ParentNotFound, r)
           | Some parent \<Rightarrow>
               (let hist = history parent;
                    (ret, parent') = retained_with_deadlines now parent;
                    r1 = registry_put parent_sid parent' r;
                    fork0 = session_new new_sid (agent_id parent);
                    fork1 = fork0\<lparr>tags := tags parent, parent_id := Some parent_sid\<rparr>;
                    fork2 = seed hist ret fork1;
                    fork3 = fork2\<lparr>history := history fork2 @ [provenance_chunk uuid now_ms parent_sid]\<rparr>
                in (Inr (session_id fork3), registry_insert fork3 r1)))"

definition registry_remove :: "string \<Rightarrow> registry \<Rightarrow> bool \<times> registry" where
  "registry_remove sid r =
     (let removed = registry_contains r sid;
          r1 = r\<lparr>sessions := kv_remove sid (sessions r)\<rparr>
      in (removed, if removed then event_send (SessionDeleted sid) r1 else r1))"

definition schedule_deletion ::
  "string \<Rightarrow> nat option \<Rightarrow> registry \<Rightarrow> registry \<times> (string \<times> nat) option" where
  "schedule_deletion sid delay r =
     (if \<not> (case registry_get r sid of None \<Rightarrow> False | Some s \<Rightarrow> is_ephemeral s) then (r, None)
      else case delay of
             None \<Rightarrow> (snd (registry_remove sid r), None)
           | Some d \<Rightarrow> if d = 0 then (snd (registry_remove sid r), None) else (r, Some (sid, d)))"

definition timer_expires :: "string \<Rightarrow> registry \<Rightarrow> registry" where
  "timer_expires sid r =
     (if (case registry_get r sid of
            None \<Rightarrow> False
          | Some s \<Rightarrow> is_ephemeral s \<and> counted_subscriber_count s = 0)
      then snd (registry_remove sid r) else r)"

definition cancel_scheduled_deletion :: "string \<Rightarrow> registry \<Rightarrow> registry" where
  "cancel_scheduled_deletion sid r = r"

definition registry_list :: "registry \<Rightarrow> session_info list" where
  "registry_list r =
     map (\<lambda>(_, s). \<lparr>si_session_id = session_id s, si_agent_id = agent_id s, si_display_name = None,
                    si_tags = tags s, si_is_background = False, si_ui_mode = ''chat'',
                    si_message_count = length (history s), si_created_at = 0,
                    si_parent_id = parent_id s\<rparr>) (sessions r)"

definition set_tags :: "string \<Rightarrow> string list \<Rightarrow> registry \<Rightarrow> bool \<times> registry" where
  "set_tags sid ts r =
     (case registry_get r sid of
        None \<Rightarrow> (False, r)
      | Some s \<Rightarrow>
          (True, event_send (SessionTagsUpdated sid ts) (registry_put sid (s\<lparr>tags := ts\<rparr>) r)))"

section \<open>Lookup after each operation\<close>

named_theorems reg_simps \<open>what a lookup returns after each registry operation\<close>

lemma registry_contains_get: "registry_contains r sid \<longleftrightarrow> registry_get r sid \<noteq> None"
  by (simp add: registry_contains_def registry_get_def kv_contains_def)

lemma get_event_send [reg_simps, simp]: "registry_get (event_send e r) = registry_get r"
  by (simp add: registry_get_def event_send_def fun_eq_iff)

lemma sessions_event_send [simp]: "sessions (event_send e r) = sessions r"
  by (simp add: event_send_def)

lemma get_put [reg_simps]: "registry_get (registry_put sid s r) = (registry_get r)(sid := Some s)"
  by (simp add: registry_get_def registry_put_def kv_simps fun_eq_iff)

lemma get_insert [reg_simps]:
  "registry_get (registry_insert s r) = (registry_get r)(session_id s := Some s)"
  by (simp add: registry_insert_def) (simp add: registry_get_def kv_simps fun_eq_iff)

lemma get_remove [reg_simps]:
  "registry_get (snd (registry_remove sid r)) = (registry_get r)(sid := None)"
  by (simp add: registry_remove_def Let_def) (simp add: registry_get_def kv_simps fun_eq_iff)

lemma get_new [reg_simps]: "registry_get registry_new sid = None"
  by (simp add: registry_get_def registry_new_def)

lemma get_set_tags [reg_simps]:
  "registry_get (snd (set_tags sid ts r)) =
     (registry_get r)(sid := map_option (\<lambda>s. s\<lparr>tags := ts\<rparr>) (registry_get r sid))"
  by (auto simp: set_tags_def reg_simps fun_eq_iff split: option.splits)

lemma get_timer_expires:
  "registry_get (timer_expires sid r) sid' =
     (if sid' = sid \<and> (\<exists>s. registry_get r sid = Some s \<and> is_ephemeral s \<and> counted_subscriber_count s = 0)
      then None else registry_get r sid')"
  by (auto simp: timer_expires_def reg_simps split: option.splits)

lemma get_schedule_deletion:
  "registry_get (fst (schedule_deletion sid delay r)) sid' =
     (if sid' = sid \<and> (\<exists>s. registry_get r sid = Some s \<and> is_ephemeral s)
         \<and> (delay = None \<or> delay = Some 0)
      then None else registry_get r sid')"
  by (auto simp: schedule_deletion_def reg_simps split: option.splits)

section \<open>The registry invariant\<close>

text \<open>
  Sessions are stored under their own ids, each satisfies the session invariant and carries
  valid tags only.
\<close>

definition session_ok :: "string \<Rightarrow> session_state \<Rightarrow> bool" where
  "session_ok sid s \<longleftrightarrow> session_id s = sid \<and> session_inv s \<and> (\<forall>t \<in> set (tags s). tag_ok t)"

definition registry_inv :: "registry \<Rightarrow> bool" where
  "registry_inv r \<longleftrightarrow>
     kv_wf (sessions r) \<and> (\<forall>sid s. registry_get r sid = Some s \<longrightarrow> session_ok sid s)"

lemma registry_inv_get: "registry_inv r \<Longrightarrow> registry_get r sid = Some s \<Longrightarrow> session_ok sid s"
  by (simp add: registry_inv_def)

lemma registry_inv_new [simp]: "registry_inv registry_new"
  by (simp add: registry_inv_def reg_simps) (simp add: registry_new_def kv_simps)

lemma registry_inv_event [simp]: "registry_inv (event_send e r) = registry_inv r"
  by (simp add: registry_inv_def)

lemma registry_inv_put: "registry_inv r \<Longrightarrow> session_ok sid s \<Longrightarrow> registry_inv (registry_put sid s r)"
  by (auto simp: registry_inv_def reg_simps) (simp add: registry_put_def kv_simps)

lemma registry_inv_insert:
  "registry_inv r \<Longrightarrow> session_ok (session_id s) s \<Longrightarrow> registry_inv (registry_insert s r)"
  by (auto simp: registry_inv_def reg_simps) (simp add: registry_insert_def kv_simps)

lemma registry_inv_remove: "registry_inv r \<Longrightarrow> registry_inv (snd (registry_remove sid r))"
proof -
  assume r: "registry_inv r"
  then have "kv_wf (sessions (snd (registry_remove sid r)))"
    by (simp add: registry_inv_def registry_remove_def Let_def kv_simps)
  with r show ?thesis by (simp add: registry_inv_def reg_simps)
qed

lemma registry_inv_set_tags:
  "registry_inv r \<Longrightarrow> \<forall>t \<in> set ts. tag_ok t \<Longrightarrow> registry_inv (snd (set_tags sid ts r))"
  by (auto simp: set_tags_def session_ok_def dest: registry_inv_get intro!: registry_inv_put
      split: option.splits)

lemma registry_inv_timer: "registry_inv r \<Longrightarrow> registry_inv (timer_expires sid r)"
  by (simp add: timer_expires_def registry_inv_remove)

lemma registry_inv_schedule: "registry_inv r \<Longrightarrow> registry_inv (fst (schedule_deletion sid delay r))"
  by (auto simp: schedule_deletion_def registry_inv_remove split: option.splits)

lemma retained_with_deadlines_frame:
  assumes "retained_with_deadlines now s = (v, s')"
  shows "session_id s' = session_id s" "agent_id s' = agent_id s" "history s' = history s"
    "tags s' = tags s" "tx s' = tx s" "subscribers s' = subscribers s" "ephemeral s' = ephemeral s"
    "parent_id s' = parent_id s" "v = filter (\<lambda>(_, d). d > now) (retained s)" "retained s' = v"
  using assms by (auto simp: retained_with_deadlines_def Let_def)

lemma durable_provenance [simp]: "durable (provenance_chunk u t p)"
  by (simp add: durable_def provenance_chunk_def delete_target_def)

lemma registry_inv_fork: "registry_inv r \<Longrightarrow> registry_inv (snd (registry_fork now u t p n r))"
proof (cases "registry_contains r n \<or> registry_get r p = None")
  case True
  then show "registry_inv r \<Longrightarrow> ?thesis" by (auto simp: registry_fork_def)
next
  case False
  assume r: "registry_inv r"
  from False obtain s where s: "registry_get r p = Some s" and n: "\<not> registry_contains r n" by auto
  obtain v s' where d: "retained_with_deadlines now s = (v, s')" by force
  note f = retained_with_deadlines_frame [OF d]
  have ok: "session_ok p s" using registry_inv_get [OF r s] .
  then have ok': "session_ok p s'"
    using session_inv_retained [OF _ d] f by (simp add: session_ok_def)
  have "session_ok n (session_new n (agent_id s)\<lparr>tags := tags s, parent_id := Some p,
      history := history s @ [provenance_chunk u t p], retained := v\<rparr>)"
    using ok ok' f
    by (auto simp: session_ok_def session_inv_def session_new_def kv_simps)
  then show ?thesis
    using registry_inv_put [OF r ok'] s n d f
    by (auto simp: registry_fork_def Let_def seed_def session_new_def intro!: registry_inv_insert)
qed

section \<open>Forking\<close>

text \<open>
  C7: Forking copies verbatim and disturbs nothing. A fork holds the parent's history unchanged
  plus one provenance chunk, the parent's unexpired retained chunks with their original
  deadlines, its agent and its tags; it has no subscribers, no ephemeral lifecycle and nothing
  has been broadcast on it when its creation is announced. The parent loses only expired
  retained chunks, and every other session is untouched.
\<close>

theorem fork_verbatim:
  assumes "registry_get r p = Some s" and "registry_get r n = None"
    and "registry_fork now u t p n r = (res, r')"
  shows "res = Inr n
    \<and> registry_get r' n = Some (session_new n (agent_id s)
          \<lparr>tags := tags s, parent_id := Some p, history := history s @ [provenance_chunk u t p],
           retained := filter (\<lambda>(_, d). now < d) (retained s)\<rparr>)
    \<and> registry_get r' p = Some (s\<lparr>retained := filter (\<lambda>(_, d). now < d) (retained s)\<rparr>)
    \<and> (\<forall>sid. sid \<notin> {p, n} \<longrightarrow> registry_get r' sid = registry_get r sid)
    \<and> event_tx r' = event_tx r @ [SessionCreated n (agent_id s)]"
proof -
  have ne: "p \<noteq> n" using assms(1,2) by auto
  let ?v = "filter (\<lambda>(_, d). now < d) (retained s)"
  have d: "retained_with_deadlines now s = (?v, s\<lparr>retained := ?v\<rparr>)"
    by (simp add: retained_with_deadlines_def Let_def)
  let ?f = "session_new n (agent_id s)\<lparr>tags := tags s, parent_id := Some p,
      history := history s @ [provenance_chunk u t p], retained := ?v\<rparr>"
  have "registry_fork now u t p n r
      = (Inr n, registry_insert ?f (registry_put p (s\<lparr>retained := ?v\<rparr>) r))"
    using assms(1,2) d by (simp add: registry_fork_def registry_contains_get seed_def session_new_def)
  then have r': "r' = registry_insert ?f (registry_put p (s\<lparr>retained := ?v\<rparr>) r)" and "res = Inr n"
    using assms(3) by auto
  moreover have "session_id ?f = n" by (simp add: session_new_def)
  moreover have "agent_id ?f = agent_id s" by (simp add: session_new_def)
  moreover have "event_tx (registry_put p x r) = event_tx r" for x by (simp add: registry_put_def)
  moreover have "event_tx (registry_insert f q) = event_tx q @ [SessionCreated (session_id f) (agent_id f)]"
    for f q by (simp add: registry_insert_def event_send_def)
  ultimately show ?thesis using ne by (simp add: reg_simps)
qed

definition demo_registry :: registry where
  "demo_registry =
     \<lparr>sessions = [(''p'', session_new ''p'' ''chat''
        \<lparr>history := [demo_text ''a''], retained := [(demo_text ''x'', 3), (demo_text ''y'', 9)]\<rparr>)],
      event_tx = []\<rparr>"

theorem fork_verbatim_witness:
  "\<exists>f. registry_get (snd (registry_fork 5 ''u'' 0 ''p'' ''f'' demo_registry)) ''f'' = Some f
     \<and> history f = [demo_text ''a'', provenance_chunk ''u'' 0 ''p'']
     \<and> retained f = [(demo_text ''y'', 9)]"
proof -
  obtain res r' where f: "registry_fork 5 ''u'' 0 ''p'' ''f'' demo_registry = (res, r')" by force
  show ?thesis
    using fork_verbatim [OF _ _ f] f
    by (simp add: registry_get_def demo_registry_def session_new_def)
qed

text \<open>
  The three ways a fork request ends. It fails with \<open>SessionExists\<close> exactly when the new id
  is taken, otherwise with \<open>ParentNotFound\<close> exactly when the parent is missing, and a failed
  fork leaves the registry as it was; the listing afterwards has one entry more exactly when
  it succeeded.
\<close>

theorem fork_outcomes:
  "fst (registry_fork now u t p n r) =
     (if registry_contains r n then Inl ForkSessionExists
      else if \<not> registry_contains r p then Inl ParentNotFound else Inr n)
   \<and> (registry_contains r n \<or> \<not> registry_contains r p
        \<longrightarrow> snd (registry_fork now u t p n r) = r)
   \<and> length (registry_list (snd (registry_fork now u t p n r)))
       = length (registry_list r) + (if registry_contains r n \<or> \<not> registry_contains r p then 0 else 1)"
proof (cases "registry_contains r n \<or> \<not> registry_contains r p")
  case True
  then show ?thesis by (auto simp: registry_fork_def registry_contains_get)
next
  case False
  then obtain s where s: "registry_get r p = Some s" "registry_get r n = None"
    by (auto simp: registry_contains_get)
  obtain v s' where d: "retained_with_deadlines now s = (v, s')" by force
  have "kv_get (sessions r) p \<noteq> None" "kv_get (sessions r) n = None" "p \<noteq> n"
    using s by (auto simp: registry_get_def)
  then show ?thesis
    using False s d
    by (auto simp: registry_fork_def registry_contains_get registry_insert_def registry_put_def
        registry_list_def seed_def session_new_def Let_def kv_length_insert kv_get_insert)
qed

theorem fork_outcomes_witness:
  "fst (registry_fork 5 ''u'' 0 ''p'' ''f'' demo_registry) = Inr ''f''
   \<and> snd (registry_fork 5 ''u'' 0 ''q'' ''f'' demo_registry) = demo_registry"
  using fork_outcomes [of 5 "''u''" 0 "''p''" "''f''" demo_registry]
    fork_outcomes [of 5 "''u''" 0 "''q''" "''f''" demo_registry]
  by (simp add: registry_contains_def kv_contains_def demo_registry_def)

end
