(* ===== verification/Codec.thy ===== *)
theory Codec
  imports Envelope
begin

text \<open>
  The wire formats of \<open>cafe-types/src/codec.rs\<close> and the framing reader of
  \<open>cafe-bus/src/client.rs\<close>.  Serialisation of a message to JSON bytes and back
  (\<open>serde_json\<close>) and the inner \<open>bincode\<close> byte-vector encoding are arguments of the codecs: a
  serialiser returns an error text or bytes.  The locale \<open>framing\<close> is what the reader relies
  on: a frame decodes to its message and its own length whatever follows it, and a proper
  prefix of a frame asks for more data.  Both codecs provide it.
\<close>

datatype codec_error = CodecIo string | CodecSerialize string | CodecDeserialize string

type_synonym ('a, 'b) partial_fun = "'a \<Rightarrow> string + 'b"
type_synonym 'm decoder = "byte list \<Rightarrow> codec_error + ('m \<times> nat) option"

section \<open>Newline-delimited JSON\<close>

fun position :: "('a \<Rightarrow> bool) \<Rightarrow> 'a list \<Rightarrow> nat option" where
  "position P [] = None"
| "position P (x # xs) = (if P x then Some 0 else map_option Suc (position P xs))"

definition newline :: byte where "newline = 10"

definition json_line_encode :: "('m, byte list) partial_fun \<Rightarrow> 'm \<Rightarrow> codec_error + byte list" where
  "json_line_encode ser msg =
     (case ser msg of
        Inl e \<Rightarrow> Inl (CodecSerialize e)
      | Inr json \<Rightarrow> Inr (json @ [newline]))"

definition json_line_decode :: "(byte list, 'm) partial_fun \<Rightarrow> 'm decoder" where
  "json_line_decode de buf =
     (case position (\<lambda>b. b = newline) buf of
        None \<Rightarrow> Inr None
      | Some nl_pos \<Rightarrow>
          (let line = take nl_pos buf
           in if line = [] then Inl (CodecDeserialize ''empty line'')
              else case de line of
                     Inl e \<Rightarrow> Inl (CodecDeserialize (''JSON: '' @ e))
                   | Inr msg \<Rightarrow> Inr (Some (msg, nl_pos + 1))))"

section \<open>Length-prefixed bincode\<close>

text \<open>\<open>(n as u32).to_le_bytes()\<close>: the length wraps at 2^32 before its four bytes are written.\<close>

definition to_le_bytes :: "nat \<Rightarrow> byte list" where
  "to_le_bytes n =
     (let k = n mod 2 ^ 32
      in [word_of_nat (k mod 256), word_of_nat (k div 256 mod 256),
          word_of_nat (k div 65536 mod 256), word_of_nat (k div 16777216 mod 256)])"

fun from_le_bytes :: "byte list \<Rightarrow> nat" where
  "from_le_bytes [] = 0"
| "from_le_bytes (b # bs) = unat b + 256 * from_le_bytes bs"

definition bincode_encode ::
  "('m, byte list) partial_fun \<Rightarrow> (byte list, byte list) partial_fun \<Rightarrow> 'm \<Rightarrow> codec_error + byte list" where
  "bincode_encode ser wrap msg =
     (case ser msg of
        Inl e \<Rightarrow> Inl (CodecSerialize (''json: '' @ e))
      | Inr json_bytes \<Rightarrow>
          (case wrap json_bytes of
             Inl e \<Rightarrow> Inl (CodecSerialize (''bincode: '' @ e))
           | Inr payload \<Rightarrow> Inr (to_le_bytes (length payload) @ payload)))"

definition bincode_decode ::
  "(byte list, 'm) partial_fun \<Rightarrow> (byte list, byte list) partial_fun \<Rightarrow> 'm decoder" where
  "bincode_decode de unwrap buf =
     (if length buf < 4 then Inr None
      else let len = from_le_bytes (take 4 buf); total = 4 + len
           in if length buf < total then Inr None
              else case unwrap (take len (drop 4 buf)) of
                     Inl e \<Rightarrow> Inl (CodecDeserialize (''bincode: '' @ e))
                   | Inr json_bytes \<Rightarrow>
                       (case de json_bytes of
                          Inl e \<Rightarrow> Inl (CodecDeserialize (''json: '' @ e))
                        | Inr msg \<Rightarrow> Inr (Some (msg, total))))"

section \<open>The framing reader\<close>

text \<open>
  The reads of a connection are a list: the bytes of each successful read, or a read error.
  The end of the list, like a read of no bytes, is the end of the stream.
\<close>

datatype read_result = ReadBytes "byte list" | ReadErr string

text \<open>\<open>Frames::next_msg\<close>: the outcome, the remaining buffer and the remaining reads.\<close>

fun next_msg :: "'m decoder \<Rightarrow> byte list \<Rightarrow> read_result list
    \<Rightarrow> (codec_error + 'm option) \<times> byte list \<times> read_result list" where
  "next_msg dec buf reads =
     (case dec buf of
        Inl e \<Rightarrow> (Inl e, buf, reads)
      | Inr (Some (msg, consumed)) \<Rightarrow> (Inr (Some msg), drop consumed buf, reads)
      | Inr None \<Rightarrow>
          (case reads of
             [] \<Rightarrow> (Inr None, buf, [])
           | ReadErr e # rs \<Rightarrow> (Inl (CodecIo e), buf, rs)
           | ReadBytes bs # rs \<Rightarrow>
               if bs = [] then (Inr None, buf, rs) else next_msg dec (buf @ bs) rs))"

declare next_msg.simps [simp del]

text \<open>
  The message loop of a connection, as the list of the messages it hands to the handlers and
  the way it ends.  The fuel bounds the number of messages; \<open>None\<close> means it ran out.
\<close>

fun read_messages :: "nat \<Rightarrow> 'm decoder \<Rightarrow> byte list \<Rightarrow> read_result list
    \<Rightarrow> ('m list \<times> codec_error option) option" where
  "read_messages 0 dec buf reads = None"
| "read_messages (Suc fuel) dec buf reads =
     (case next_msg dec buf reads of
        (Inl e, _, _) \<Rightarrow> Some ([], Some e)
      | (Inr None, _, _) \<Rightarrow> Some ([], None)
      | (Inr (Some m), buf', reads') \<Rightarrow>
          map_option (\<lambda>(ms, e). (m # ms, e)) (read_messages fuel dec buf' reads'))"

section \<open>The framing contract\<close>

definition reads_bytes :: "read_result list \<Rightarrow> byte list" where
  "reads_bytes rs = concat (map (\<lambda>r. case r of ReadBytes bs \<Rightarrow> bs | ReadErr _ \<Rightarrow> []) rs)"

definition clean_reads :: "read_result list \<Rightarrow> bool" where
  "clean_reads rs = (\<forall>r \<in> set rs. \<exists>bs. r = ReadBytes bs \<and> bs \<noteq> [])"

lemma clean_reads_Cons:
  "clean_reads (r # rs) \<longleftrightarrow> (\<exists>bs. r = ReadBytes bs \<and> bs \<noteq> []) \<and> clean_reads rs"
  by (auto simp: clean_reads_def)

lemma reads_bytes_simps [simp]:
  "reads_bytes [] = []" "reads_bytes (ReadBytes bs # rs) = bs @ reads_bytes rs"
  by (simp_all add: reads_bytes_def)

locale framing =
  fixes encode :: "'m \<Rightarrow> codec_error + byte list"
    and decode :: "byte list \<Rightarrow> codec_error + ('m \<times> nat) option"
    and valid :: "'m \<Rightarrow> bool"
  assumes frame: "valid m \<Longrightarrow> \<exists>bs. encode m = Inr bs \<and> bs \<noteq> []
      \<and> (\<forall>rest. decode (bs @ rest) = Inr (Some (m, length bs)))"
    and partial_frame: "valid m \<Longrightarrow> encode m = Inr (pre @ suf) \<Longrightarrow> suf \<noteq> [] \<Longrightarrow> decode pre = Inr None"
    and empty_frame: "decode [] = Inr None"
begin

definition frame_of :: "'m \<Rightarrow> byte list" where
  "frame_of m = (case encode m of Inr bs \<Rightarrow> bs | Inl _ \<Rightarrow> [])"

definition wire :: "'m list \<Rightarrow> byte list" where
  "wire ms = concat (map frame_of ms)"

lemma wire_simps [simp]: "wire [] = []" "wire (m # ms) = frame_of m @ wire ms"
  by (simp_all add: wire_def)

lemma frame_of_spec:
  assumes "valid m"
  shows "encode m = Inr (frame_of m)" and "frame_of m \<noteq> []"
    and "decode (frame_of m @ rest) = Inr (Some (m, length (frame_of m)))"
  using frame [OF assms] by (auto simp: frame_of_def)

text \<open>One message: however its frame is split over the buffer and the reads, the reader finds it.\<close>

lemma next_msg_frame:
  assumes "valid m" and "clean_reads reads" and "buf @ reads_bytes reads = frame_of m @ rest"
  shows "\<exists>buf' reads'. next_msg decode buf reads = (Inr (Some m), buf', reads')
     \<and> clean_reads reads' \<and> buf' @ reads_bytes reads' = rest"
  using assms(2,3)
proof (induction reads arbitrary: buf)
  case Nil
  then have buf: "buf = frame_of m @ rest" by simp
  show ?case
    by (intro exI [of _ rest] exI [of _ "[]"])
       (simp add: next_msg.simps buf frame_of_spec(3) [OF assms(1)] clean_reads_def)
next
  case (Cons r reads)
  show ?case
  proof (cases "length (frame_of m) \<le> length buf")
    case True
    with Cons.prems(2) obtain rest' where buf: "buf = frame_of m @ rest'"
      by (metis append_eq_append_conv_if append_take_drop_id)
    with Cons.prems have "rest' @ reads_bytes (r # reads) = rest" by simp
    then show ?thesis
      using Cons.prems(1)
      by (intro exI [of _ rest'] exI [of _ "r # reads"])
         (simp add: next_msg.simps buf frame_of_spec(3) [OF assms(1)])
  next
    case False
    then have "take (length buf) (frame_of m) = buf"
      using Cons.prems(2) by (simp add: append_eq_append_conv_if)
    then have "frame_of m = buf @ drop (length buf) (frame_of m)"
      by (metis append_take_drop_id)
    then obtain suf where suf: "frame_of m = buf @ suf" "suf \<noteq> []"
      using False by (metis append_Nil2 le_refl)
    then have "decode buf = Inr None"
      using partial_frame [OF assms(1)] frame_of_spec(1) [OF assms(1)] by simp
    moreover obtain bs where bs: "r = ReadBytes bs" "bs \<noteq> []" "clean_reads reads"
      using Cons.prems(1) by (auto simp: clean_reads_Cons)
    moreover have "\<exists>buf' reads'. next_msg decode (buf @ bs) reads = (Inr (Some m), buf', reads')
        \<and> clean_reads reads' \<and> buf' @ reads_bytes reads' = rest"
      using Cons.IH [of "buf @ bs"] Cons.prems(2) bs by simp
    ultimately show ?thesis by (simp add: next_msg.simps [of decode buf])
  qed
qed

lemma next_msg_eof: "clean_reads reads \<Longrightarrow> buf @ reads_bytes reads = [] \<Longrightarrow>
    next_msg decode buf reads = (Inr None, [], [])"
  by (cases reads) (auto simp: next_msg.simps empty_frame clean_reads_Cons)

text \<open>
  The whole stream: the reader recovers exactly the messages written, in order, however the
  transport cuts the stream into reads, and stops cleanly at its end.
\<close>

lemma read_messages_stream:
  assumes "\<forall>m \<in> set ms. valid m" and "clean_reads reads" and "buf @ reads_bytes reads = wire ms"
    and "length ms < fuel"
  shows "read_messages fuel decode buf reads = Some (ms, None)"
  using assms
proof (induction ms arbitrary: buf reads fuel)
  case Nil
  then obtain f where "fuel = Suc f" by (cases fuel) auto
  with Nil show ?case by (simp add: next_msg_eof)
next
  case (Cons m ms)
  then obtain f where f: "fuel = Suc f" "length ms < f" by (cases fuel) auto
  from Cons.prems have "valid m" and "buf @ reads_bytes reads = frame_of m @ wire ms" by simp_all
  from next_msg_frame [OF this(1) Cons.prems(2) this(2)]
  obtain buf' reads' where n: "next_msg decode buf reads = (Inr (Some m), buf', reads')"
    "clean_reads reads'" "buf' @ reads_bytes reads' = wire ms" by blast
  with Cons.IH [of reads' buf' f] Cons.prems f show ?case by simp
qed

end

section \<open>The codecs provide the contract\<close>

text \<open>
  What the JSON serialiser documents: compact output has no raw newline byte, is not empty and
  parses back to the message.
\<close>

definition json_serialises :: "('m, byte list) partial_fun \<Rightarrow> (byte list, 'm) partial_fun \<Rightarrow> 'm \<Rightarrow> bool" where
  "json_serialises ser de m =
     (case ser m of
        Inl _ \<Rightarrow> False
      | Inr j \<Rightarrow> j \<noteq> [] \<and> newline \<notin> set j \<and> de j = Inr m)"

lemma position_None: "position P xs = None \<longleftrightarrow> (\<forall>x \<in> set xs. \<not> P x)"
  by (induction xs) auto

lemma position_first: "\<forall>x \<in> set xs. \<not> P x \<Longrightarrow> P y \<Longrightarrow> position P (xs @ y # ys) = Some (length xs)"
  by (induction xs) auto

lemma json_line_framing:
  "framing (json_line_encode ser) (json_line_decode de) (json_serialises ser de)"
proof
  fix m
  assume "json_serialises ser de m"
  then obtain j where j: "ser m = Inr j" "j \<noteq> []" "newline \<notin> set j" "de j = Inr m"
    by (auto simp: json_serialises_def split: sum.splits)
  have "json_line_decode de ((j @ [newline]) @ rest) = Inr (Some (m, length (j @ [newline])))" for rest
  proof -
    have "position (\<lambda>b. b = newline) (j @ newline # rest) = Some (length j)"
      using j(3) by (intro position_first) auto
    then show ?thesis using j by (simp add: json_line_decode_def)
  qed
  then show "\<exists>bs. json_line_encode ser m = Inr bs \<and> bs \<noteq> []
      \<and> (\<forall>rest. json_line_decode de (bs @ rest) = Inr (Some (m, length bs)))"
    using j by (simp add: json_line_encode_def)
next
  fix m pre suf
  assume "json_serialises ser de m" and e: "json_line_encode ser m = Inr (pre @ suf)" and "suf \<noteq> []"
  then obtain j where j: "newline \<notin> set j" "pre @ suf = j @ [newline]"
    by (auto simp: json_serialises_def json_line_encode_def split: sum.splits)
  with \<open>suf \<noteq> []\<close> have "pre @ butlast suf = j" by (metis butlast_append butlast_snoc)
  with j(1) have "newline \<notin> set pre" by auto
  then have "position (\<lambda>b. b = newline) pre = None" by (auto simp: position_None)
  then show "json_line_decode de pre = Inr None" by (simp add: json_line_decode_def)
next
  show "json_line_decode de [] = Inr None" by (simp add: json_line_decode_def)
qed

text \<open>The framing layer itself, on JSON texts: lines that are not empty and hold no newline.\<close>

interpretation json_line: framing "json_line_encode Inr" "json_line_decode Inr" "json_serialises Inr Inr"
  by (rule json_line_framing)

lemma length_to_le_bytes [simp]: "length (to_le_bytes n) = 4"
  by (simp add: to_le_bytes_def Let_def)

lemma from_to_le_bytes:
  assumes "n < 2 ^ 32"
  shows "from_le_bytes (to_le_bytes n) = n"
proof -
  have byte: "unat (word_of_nat (k mod 256) :: byte) = k mod 256" for k
    by (simp add: unat_of_nat)
  have "n div 65536 = n div 256 div 256" and "n div 16777216 = n div 256 div 256 div 256"
    by (simp_all add: div_mult2_eq [symmetric])
  moreover have "n div 16777216 < 256" using assms by (simp add: less_mult_imp_div_less)
  moreover have split: "k mod 256 + 256 * (k div 256) = k" for k :: nat by simp
  ultimately have "n mod 256 + 256 * (n div 256 mod 256 + 256 * (n div 65536 mod 256
      + 256 * (n div 16777216 mod 256))) = n"
    using split [of n] split [of "n div 256"] split [of "n div 256 div 256"] by simp
  moreover have "n mod 2 ^ 32 = n" using assms by simp
  ultimately show ?thesis
    by (simp only: to_le_bytes_def Let_def byte from_le_bytes.simps mult_0_right add_0_right)
qed

definition bincode_serialises ::
  "('m, byte list) partial_fun \<Rightarrow> (byte list, 'm) partial_fun
    \<Rightarrow> (byte list, byte list) partial_fun \<Rightarrow> (byte list, byte list) partial_fun \<Rightarrow> 'm \<Rightarrow> bool" where
  "bincode_serialises ser de wrap unwrap m =
     (case ser m of
        Inl _ \<Rightarrow> False
      | Inr j \<Rightarrow> de j = Inr m \<and>
          (case wrap j of
             Inl _ \<Rightarrow> False
           | Inr p \<Rightarrow> unwrap p = Inr j \<and> length p < 2 ^ 32))"

lemma bincode_framing:
  "framing (bincode_encode ser wrap) (bincode_decode de unwrap) (bincode_serialises ser de wrap unwrap)"
proof
  fix m
  assume "bincode_serialises ser de wrap unwrap m"
  then obtain j p where p: "ser m = Inr j" "de j = Inr m" "wrap j = Inr p" "unwrap p = Inr j"
    "length p < 2 ^ 32"
    by (auto simp: bincode_serialises_def split: sum.splits)
  let ?f = "to_le_bytes (length p) @ p"
  have "bincode_decode de unwrap (?f @ rest) = Inr (Some (m, length ?f))" for rest
    using p by (simp add: bincode_decode_def from_to_le_bytes)
  then show "\<exists>bs. bincode_encode ser wrap m = Inr bs \<and> bs \<noteq> []
      \<and> (\<forall>rest. bincode_decode de unwrap (bs @ rest) = Inr (Some (m, length bs)))"
    using p by (intro exI [of _ ?f]) (auto simp: bincode_encode_def simp flip: length_0_conv)
next
  fix m pre suf
  assume "bincode_serialises ser de wrap unwrap m" and e: "bincode_encode ser wrap m = Inr (pre @ suf)"
    and s: "suf \<noteq> []"
  then obtain p where p: "to_le_bytes (length p) @ p = pre @ suf" "length p < 2 ^ 32"
    by (auto simp: bincode_serialises_def bincode_encode_def split: sum.splits)
  show "bincode_decode de unwrap pre = Inr None"
  proof (cases "length pre < 4")
    case True
    then show ?thesis by (simp add: bincode_decode_def)
  next
    case False
    then have "take 4 pre = to_le_bytes (length p)"
      using arg_cong [OF p(1), of "take 4"] by simp
    moreover have "length pre < 4 + length p"
      using arg_cong [OF p(1), of length] s by (cases suf) auto
    ultimately show ?thesis
      using p(2) by (simp add: bincode_decode_def from_to_le_bytes)
  qed
next
  show "bincode_decode de unwrap [] = Inr None" by (simp add: bincode_decode_def)
qed

interpretation bincode: framing "bincode_encode Inr Inr" "bincode_decode Inr Inr"
  "bincode_serialises Inr Inr Inr Inr"
  by (rule bincode_framing)

text \<open>
  C8: The newline-delimited JSON codec and the bus's reader together deliver every message
  that was written, once and in order, however the transport splits the byte stream into reads,
  and the loop then ends without an error.  Serialisation is the argument; that it has no raw
  newline and parses back is the hypothesis.
\<close>

theorem json_line_stream:
  assumes "\<forall>m \<in> set ms. json_serialises ser de m"
    and "clean_reads reads"
    and "reads_bytes reads
      = concat (map (\<lambda>m. case json_line_encode ser m of Inr bs \<Rightarrow> bs | Inl _ \<Rightarrow> []) ms)"
    and "length ms < fuel"
  shows "read_messages fuel (json_line_decode de) [] reads = Some (ms, None)"
proof -
  note fr = json_line_framing [of ser de]
  have "framing.frame_of (json_line_encode ser)
      = (\<lambda>m. case json_line_encode ser m of Inr bs \<Rightarrow> bs | Inl _ \<Rightarrow> [])"
    by (rule ext) (simp add: framing.frame_of_def [OF fr])
  then show ?thesis
    using framing.read_messages_stream [OF fr assms(1,2), of "[]"] assms(3,4)
    by (simp add: framing.wire_def [OF fr])
qed

text \<open>Two one-byte texts, cut into three reads in the middle of the frames.\<close>

theorem json_line_stream_witness:
  "read_messages 3 (json_line_decode Inr) [] [ReadBytes [49, newline, 50], ReadBytes [newline]]
     = Some ([[49], [50]], None)"
  by (rule json_line_stream [where ser = Inr])
     (auto simp: json_serialises_def clean_reads_def reads_bytes_def json_line_encode_def newline_def)

end
