(* ===== verification/Bus_Client.thy ===== *)
theory Bus_Client
  imports Registry Codec
begin

text \<open>
  The connection handler of the bus, \<open>cafe-bus/src/client.rs\<close>: one definition per client
  message, the background tasks it spawns, codec negotiation and the cleanup at the end of a
  connection, over one record of the shared state.

  Writers live in a store under the id of their connection, because the tasks a connection
  spawned keep writing through them after the connection has left the table.  A writer records
  every frame with the codec that produced it; which of its writes fail is fixed by the
  \<open>w_fails\<close> of the transport.  A background task is an entry of \<open>tasks\<close>; what its receiver
  yields is an argument of the step it makes.  Where the code panics the outcome says so.
\<close>

section \<open>State\<close>

datatype wire_codec = JsonLineCodec | BincodeLengthPrefixCodec

record writer =
  w_sent :: "(wire_codec \<times> server_message) list"
  w_tries :: nat
  w_fails :: "nat \<Rightarrow> bool"

record connection_meta =
  meta_role :: "string option"

datatype task_kind =
    Forward string nat
  | ForwardFiltered "subscribe_filter option" string nat
  | Events "subscribe_filter option" nat

record bus_task =
  t_conn :: string
  t_codec :: wire_codec
  t_kind :: task_kind
  t_alive :: bool

record bus =
  reg :: registry
  connections :: "(string, string) kv"
  writers :: "(string, writer) kv"
  conn_meta :: "(string, connection_meta) kv"
  timers :: "(string \<times> instant) list"
  tasks :: "bus_task list"
  subscriber_tasks :: "(string, (string \<times> nat) list) kv"
  next_conn_id :: "64 word"

definition bus_new :: bus where
  "bus_new =
     \<lparr>reg = registry_new, connections = [], writers = [], conn_meta = [], timers = [], tasks = [],
      subscriber_tasks = [], next_conn_id = 1\<rparr>"

text \<open>
  What a step takes from outside: which messages a codec can encode, the \<open>Debug\<close> form of
  strings, the fresh UUIDs and wall clock readings in the order they are asked for, and the
  monotonic clock.
\<close>

record env =
  e_encodes :: "wire_codec \<Rightarrow> server_message \<Rightarrow> bool"
  e_dbg :: "string \<Rightarrow> string"
  e_uuid :: "nat \<Rightarrow> string"
  e_clock_ms :: "nat \<Rightarrow> int"
  e_now :: instant

datatype outcome = Running bus | Panicked bus

section \<open>Sending\<close>

definition send_bytes :: "string \<Rightarrow> wire_codec \<Rightarrow> server_message \<Rightarrow> bus \<Rightarrow> bool \<times> bus" where
  "send_bytes addr codec msg b =
     (case kv_get (writers b) addr of
        None \<Rightarrow> (False, b)
      | Some w \<Rightarrow>
          if w_fails w (w_tries w)
          then (False, b\<lparr>writers := kv_insert addr (w\<lparr>w_tries := Suc (w_tries w)\<rparr>) (writers b)\<rparr>)
          else (True, b\<lparr>writers := kv_insert addr
                 (w\<lparr>w_tries := Suc (w_tries w), w_sent := w_sent w @ [(codec, msg)]\<rparr>) (writers b)\<rparr>))"

definition send_msg :: "env \<Rightarrow> wire_codec \<Rightarrow> string \<Rightarrow> server_message \<Rightarrow> bus \<Rightarrow> bool \<times> bus" where
  "send_msg e codec addr msg b =
     (if e_encodes e codec msg then send_bytes addr codec msg b else (True, b))"

definition send_error ::
  "env \<Rightarrow> wire_codec \<Rightarrow> string \<Rightarrow> string option \<Rightarrow> string \<Rightarrow> string \<Rightarrow> bus \<Rightarrow> bus" where
  "send_error e codec addr sid message code b =
     (if e_encodes e codec (Error sid message code)
      then snd (send_bytes addr codec (Error sid message code) b) else b)"

text \<open>A loop of sends that stops at the first failure, and one that ignores failures.\<close>

fun send_until_failure :: "env \<Rightarrow> wire_codec \<Rightarrow> string \<Rightarrow> server_message list \<Rightarrow> bus \<Rightarrow> bus" where
  "send_until_failure e codec addr [] b = b"
| "send_until_failure e codec addr (m # ms) b =
     (case send_msg e codec addr m b of
        (True, b') \<Rightarrow> send_until_failure e codec addr ms b'
      | (False, b') \<Rightarrow> b')"

fun send_each :: "env \<Rightarrow> wire_codec \<Rightarrow> string \<Rightarrow> server_message list \<Rightarrow> bus \<Rightarrow> bus" where
  "send_each e codec addr [] b = b"
| "send_each e codec addr (m # ms) b = send_each e codec addr ms (snd (send_msg e codec addr m b))"

definition spawn :: "string \<Rightarrow> wire_codec \<Rightarrow> task_kind \<Rightarrow> bus \<Rightarrow> bus" where
  "spawn conn codec kind b =
     b\<lparr>tasks := tasks b @ [\<lparr>t_conn = conn, t_codec = codec, t_kind = kind, t_alive = True\<rparr>]\<rparr>"

text \<open>Spawning a task whose handle joins the connection's \<open>subscriber_tasks\<close> under a session.\<close>

definition tracked :: "bus \<Rightarrow> string \<Rightarrow> (string \<times> nat) list" where
  "tracked b conn = (case kv_get (subscriber_tasks b) conn of None \<Rightarrow> [] | Some hs \<Rightarrow> hs)"

definition spawn_tracked :: "string \<Rightarrow> wire_codec \<Rightarrow> string \<Rightarrow> task_kind \<Rightarrow> bus \<Rightarrow> bus" where
  "spawn_tracked conn codec sid kind b =
     spawn conn codec kind
       (b\<lparr>subscriber_tasks := kv_insert conn (tracked b conn @ [(sid, length (tasks b))])
            (subscriber_tasks b)\<rparr>)"

section \<open>Notification chunks\<close>

definition BUS :: string where "BUS = ''com.nominal.cafe-bus''"

definition json_f32 :: "ieee \<Rightarrow> json" where
  "json_f32 x = (case x of Finite r \<Rightarrow> JNum (Float r) | _ \<Rightarrow> JNull)"

definition annotate_opt :: "string \<Rightarrow> ('a \<Rightarrow> json) \<Rightarrow> 'a option \<Rightarrow> chunk \<Rightarrow> chunk" where
  "annotate_opt k f x c = (case x of None \<Rightarrow> c | Some y \<Rightarrow> with_annotation k (f y) c)"

definition make_config_chunk :: "string \<Rightarrow> int \<Rightarrow> session_config \<Rightarrow> chunk" where
  "make_config_chunk uuid now_ms config =
     (let c0 = with_annotation CONFIG_TYPE (JStr ''runtime'') (new_null uuid now_ms BUS);
          c1 = annotate_opt CONFIG_BACKEND JStr (cfg_backend config) c0;
          c2 = annotate_opt CONFIG_MODEL JStr (cfg_model config) c1;
          c3 = annotate_opt CONFIG_SYSTEM_PROMPT JStr (cfg_system_prompt config) c2;
          c4 = annotate_opt CONFIG_TEMPERATURE json_f32 (cfg_temperature config) c3;
          c5 = annotate_opt CONFIG_MAX_TOKENS (JNum \<circ> PosInt) (cfg_max_tokens config) c4;
          c6 = annotate_opt CONFIG_LLM_COMPACTION_MODE JStr (cfg_compaction_mode config) c5;
          c7 = annotate_opt CONFIG_LLM_MAX_HISTORY_MESSAGES (JNum \<circ> PosInt)
                 (cfg_max_history_messages config) c6
      in annotate_opt CONFIG_LLM_MAX_HISTORY_CHARS (JNum \<circ> PosInt) (cfg_max_history_chars config) c7)"

definition make_tags_chunk :: "string \<Rightarrow> int \<Rightarrow> string list \<Rightarrow> chunk" where
  "make_tags_chunk uuid now_ms ts =
     with_annotation SESSION_TAGS (JArr (map JStr ts)) (new_null uuid now_ms BUS)"

section \<open>Filters\<close>

definition chunk_matches_filter :: "chunk \<Rightarrow> subscribe_filter \<Rightarrow> bool" where
  "chunk_matches_filter c f =
     ((case f_content_types f of None \<Rightarrow> True | Some types \<Rightarrow> chunk_type c \<in> set types)
      \<and> (case f_annotations f of
           None \<Rightarrow> True
         | Some anns \<Rightarrow>
             list_all (\<lambda>(key, value).
               case annotation c key of
                 Some v \<Rightarrow> v = value
               | None \<Rightarrow> value = JBool False) anns))"

definition session_matches_filter :: "session_state \<Rightarrow> subscribe_filter \<Rightarrow> bool" where
  "session_matches_filter s f =
     ((case f_sessions f of None \<Rightarrow> True | Some ids \<Rightarrow> session_id s \<in> set ids)
      \<and> (case f_agents f of None \<Rightarrow> True | Some ids \<Rightarrow> agent_id s \<in> set ids)
      \<and> (case f_tags f of None \<Rightarrow> True | Some ts \<Rightarrow> list_ex (\<lambda>t. t \<in> set (tags s)) ts)
      \<and> (case f_tags_exclude f of None \<Rightarrow> True | Some ts \<Rightarrow> \<not> list_ex (\<lambda>t. t \<in> set ts) (tags s)))"

definition passes :: "subscribe_filter option \<Rightarrow> chunk \<Rightarrow> bool" where
  "passes f c = (case f of None \<Rightarrow> True | Some flt \<Rightarrow> chunk_matches_filter c flt)"

definition replay_and_forward ::
  "env \<Rightarrow> wire_codec \<Rightarrow> string \<Rightarrow> string \<Rightarrow> chunk list \<Rightarrow> chunk list \<Rightarrow> nat
    \<Rightarrow> subscribe_filter option \<Rightarrow> bus \<Rightarrow> bus" where
  "replay_and_forward e codec addr sid hist ret rx f b =
     spawn addr codec (ForwardFiltered f sid rx)
       (send_each e codec addr (map (Chunk sid) (filter (passes f) ret))
         (send_each e codec addr (map (Chunk sid) (filter (passes f) hist)) b))"

section \<open>One definition per client message\<close>

definition not_found :: "string \<Rightarrow> string" where
  "not_found sid = ''Session not found: '' @ sid"

definition handle_ping :: "env \<Rightarrow> wire_codec \<Rightarrow> string \<Rightarrow> bus \<Rightarrow> bus" where
  "handle_ping e codec conn b = snd (send_msg e codec conn Pong b)"

definition handle_set_meta :: "string \<Rightarrow> string option \<Rightarrow> bus \<Rightarrow> bus" where
  "handle_set_meta conn r b = b\<lparr>conn_meta := kv_insert conn \<lparr>meta_role = r\<rparr> (conn_meta b)\<rparr>"

definition handle_list_sessions :: "env \<Rightarrow> wire_codec \<Rightarrow> string \<Rightarrow> bus \<Rightarrow> bus" where
  "handle_list_sessions e codec conn b =
     snd (send_msg e codec conn (SessionsList (registry_list (reg b))) b)"

text \<open>The session that a creation request builds; \<open>None\<close> would be a panicking publish.\<close>

definition initial_session ::
  "env \<Rightarrow> string \<Rightarrow> string \<Rightarrow> session_config \<Rightarrow> session_state option" where
  "initial_session e sid aid config =
     (let s0 = session_new sid aid;
          s1 = (if cfg_ephemeral config \<noteq> None then s0\<lparr>ephemeral := cfg_ephemeral config\<rparr> else s0);
          has_tags = (case cfg_tags config of None \<Rightarrow> False | Some ts \<Rightarrow> ts \<noteq> []);
          ts = (case cfg_tags config of None \<Rightarrow> [] | Some ts \<Rightarrow> ts);
          s2 = (if has_tags then s1\<lparr>tags := ts\<rparr> else s1);
          s3 = (if cfg_backend config \<noteq> None \<or> cfg_model config \<noteq> None \<or> cfg_system_prompt config \<noteq> None
                then session_publish (e_now e) (make_config_chunk (e_uuid e 0) (e_clock_ms e 0) config) s2
                else Some s2)
      in Option.bind s3 (\<lambda>s.
           if has_tags
           then session_publish (e_now e) (make_tags_chunk (e_uuid e 1) (e_clock_ms e 1) ts) s
           else Some s))"

definition handle_create_session ::
  "env \<Rightarrow> wire_codec \<Rightarrow> string \<Rightarrow> string \<Rightarrow> string \<Rightarrow> session_config \<Rightarrow> bus \<Rightarrow> outcome" where
  "handle_create_session e codec conn sid aid config b =
     (case (case cfg_tags config of None \<Rightarrow> Inr () | Some ts \<Rightarrow> validate_tags (e_dbg e) ts) of
        Inl err \<Rightarrow> Running (send_error e codec conn (Some sid) (error_display err) (error_code err) b)
      | Inr _ \<Rightarrow>
          if registry_contains (reg b) sid
          then Running (send_error e codec conn (Some sid) (''Session already exists: '' @ sid)
                          ''SESSION_EXISTS'' b)
          else case initial_session e sid aid config of
                 None \<Rightarrow> Panicked b
               | Some state \<Rightarrow>
                   Running (snd (send_msg e codec conn (SessionCreated sid aid)
                     (b\<lparr>reg := registry_insert state (reg b)\<rparr>))))"

definition handle_set_session_tags ::
  "env \<Rightarrow> wire_codec \<Rightarrow> string \<Rightarrow> string \<Rightarrow> string list \<Rightarrow> bus \<Rightarrow> outcome" where
  "handle_set_session_tags e codec conn sid ts b =
     (case validate_tags (e_dbg e) ts of
        Inl err \<Rightarrow> Running (send_error e codec conn (Some sid) (error_display err) (error_code err) b)
      | Inr _ \<Rightarrow>
          (case registry_get (reg b) sid of
             Some s \<Rightarrow>
               (case session_publish (e_now e) (make_tags_chunk (e_uuid e 0) (e_clock_ms e 0) ts) s of
                  None \<Rightarrow> Panicked b
                | Some s' \<Rightarrow>
                    (let r1 = registry_put sid (s'\<lparr>tags := ts\<rparr>) (reg b);
                         r2 = snd (set_tags sid ts r1)
                     in Running (snd (send_msg e codec conn (SessionTagsUpdated sid ts) (b\<lparr>reg := r2\<rparr>)))))
           | None \<Rightarrow> Running (send_error e codec conn (Some sid) (not_found sid) ''SESSION_NOT_FOUND'' b)))"

definition handle_fork_session ::
  "env \<Rightarrow> wire_codec \<Rightarrow> string \<Rightarrow> string \<Rightarrow> string \<Rightarrow> bus \<Rightarrow> bus" where
  "handle_fork_session e codec conn parent sid b =
     (case registry_fork (e_now e) (e_uuid e 0) (e_clock_ms e 0) parent sid (reg b) of
        (Inr _, r) \<Rightarrow> snd (send_msg e codec conn (SessionForked parent sid) (b\<lparr>reg := r\<rparr>))
      | (Inl ParentNotFound, r) \<Rightarrow>
          send_error e codec conn (Some sid) (''Parent session not found: '' @ parent)
            ''SESSION_NOT_FOUND'' (b\<lparr>reg := r\<rparr>)
      | (Inl ForkSessionExists, r) \<Rightarrow>
          send_error e codec conn (Some sid) (''Session already exists: '' @ sid)
            ''SESSION_EXISTS'' (b\<lparr>reg := r\<rparr>))"

definition handle_delete_session :: "env \<Rightarrow> wire_codec \<Rightarrow> string \<Rightarrow> string \<Rightarrow> bus \<Rightarrow> bus" where
  "handle_delete_session e codec conn sid b =
     (case registry_remove sid (reg b) of
        (True, r) \<Rightarrow> snd (send_msg e codec conn (SessionDeleted sid) (b\<lparr>reg := r\<rparr>))
      | (False, r) \<Rightarrow>
          send_error e codec conn (Some sid) (not_found sid) ''SESSION_NOT_FOUND'' (b\<lparr>reg := r\<rparr>))"

definition handle_publish :: "env \<Rightarrow> wire_codec \<Rightarrow> string \<Rightarrow> string \<Rightarrow> chunk \<Rightarrow> bus \<Rightarrow> outcome" where
  "handle_publish e codec conn sid chunk0 b =
     (let chunk = with_annotation CAFE_SOURCE_CONNECTION (JStr conn) chunk0
      in case get_annotation as_str CAFE_DIRECT_TO chunk of
           Some target \<Rightarrow>
             (case kv_get (connections b) target of
                Some addr \<Rightarrow> Running (snd (send_msg e codec addr (Chunk sid chunk) b))
              | None \<Rightarrow>
                  Running (send_error e codec conn (Some sid)
                    (''Target connection not found: '' @ target) ''TARGET_NOT_FOUND'' b))
         | None \<Rightarrow>
             (case registry_get (reg b) sid of
                Some s \<Rightarrow>
                  (case session_publish (e_now e) chunk s of
                     None \<Rightarrow> Panicked b
                   | Some s' \<Rightarrow> Running (b\<lparr>reg := registry_put sid s' (reg b)\<rparr>))
              | None \<Rightarrow>
                  Running (send_error e codec conn (Some sid) (not_found sid) ''SESSION_NOT_FOUND'' b)))"

definition conn_role :: "bus \<Rightarrow> string \<Rightarrow> string option" where
  "conn_role b conn = Option.bind (kv_get (conn_meta b) conn) meta_role"

definition handle_subscribe :: "env \<Rightarrow> wire_codec \<Rightarrow> string \<Rightarrow> string \<Rightarrow> bus \<Rightarrow> bus" where
  "handle_subscribe e codec conn sid b =
     (let r = cancel_scheduled_deletion sid (reg b)
      in case registry_get r sid of
           None \<Rightarrow> send_error e codec conn (Some sid) (not_found sid) ''SESSION_NOT_FOUND'' b
         | Some s \<Rightarrow>
             (let s1 = snd (add_subscriber conn (conn_role b conn) s);
                  (ret, s2) = drain_retained (e_now e) s1;
                  hist = history s2; rx = subscribe s2;
                  b1 = b\<lparr>reg := registry_put sid s2 r\<rparr>;
                  count = length hist + length ret;
                  b2 = send_until_failure e codec conn (map (Chunk sid) hist) b1;
                  b3 = send_until_failure e codec conn (map (Chunk sid) ret) b2;
                  (ok, b4) = send_msg e codec conn (HistoryComplete sid count) b3
              in if \<not> ok then b4 else spawn_tracked conn codec sid (Forward sid rx) b4))"

text \<open>
  The snapshot of several sessions under one write lock: id, agent, history, retained chunks and
  receiver of each listed session that is kept.
\<close>

type_synonym session_snapshot = "string \<times> string \<times> chunk list \<times> chunk list \<times> nat"

fun snapshot ::
  "instant \<Rightarrow> (session_state \<Rightarrow> bool) \<Rightarrow> string list \<Rightarrow> registry \<Rightarrow> session_snapshot list \<times> registry" where
  "snapshot now keep [] r = ([], r)"
| "snapshot now keep (sid # sids) r =
     (case registry_get r sid of
        None \<Rightarrow> snapshot now keep sids r
      | Some s \<Rightarrow>
          if \<not> keep s then snapshot now keep sids r
          else let (ret, s') = drain_retained now s;
                   (rest, r') = snapshot now keep sids (registry_put sid s' r)
               in ((session_id s', agent_id s', history s', ret, subscribe s') # rest, r'))"

fun announce ::
  "env \<Rightarrow> wire_codec \<Rightarrow> string \<Rightarrow> subscribe_filter option \<Rightarrow> session_snapshot list \<Rightarrow> bus \<Rightarrow> bus" where
  "announce e codec conn f [] b = b"
| "announce e codec conn f ((sid, aid, hist, ret, rx) # snaps) b =
     announce e codec conn f snaps
       (replay_and_forward e codec conn sid hist ret rx f
         (snd (send_msg e codec conn (SessionCreated sid aid) b)))"

definition handle_subscribe_all :: "env \<Rightarrow> wire_codec \<Rightarrow> string \<Rightarrow> bus \<Rightarrow> bus" where
  "handle_subscribe_all e codec conn b =
     (let (snaps, r) = snapshot (e_now e) (\<lambda>s. True) (map si_session_id (registry_list (reg b))) (reg b);
          event_rx = length (event_tx r);
          b1 = announce e codec conn None snaps (b\<lparr>reg := r\<rparr>)
      in spawn_tracked conn codec [] (Events None event_rx) b1)"

definition handle_subscribe_filtered ::
  "env \<Rightarrow> wire_codec \<Rightarrow> string \<Rightarrow> subscribe_filter \<Rightarrow> bus \<Rightarrow> bus" where
  "handle_subscribe_filtered e codec conn f b =
     (let (snaps, r) = snapshot (e_now e) (\<lambda>s. session_matches_filter s f)
                         (map si_session_id (registry_list (reg b))) (reg b);
          event_rx = length (event_tx r);
          b1 = announce e codec conn (Some f) snaps (b\<lparr>reg := r\<rparr>)
      in spawn_tracked conn codec [] (Events (Some f) event_rx) b1)"

fun handle_message :: "env \<Rightarrow> wire_codec \<Rightarrow> string \<Rightarrow> client_message \<Rightarrow> bus \<Rightarrow> outcome" where
  "handle_message e codec conn Ping b = Running (handle_ping e codec conn b)"
| "handle_message e codec conn (SetMeta r _) b = Running (handle_set_meta conn r b)"
| "handle_message e codec conn ListSessions b = Running (handle_list_sessions e codec conn b)"
| "handle_message e codec conn (CreateSession sid aid config) b =
     handle_create_session e codec conn sid aid config b"
| "handle_message e codec conn (SetSessionTags sid ts) b = handle_set_session_tags e codec conn sid ts b"
| "handle_message e codec conn (ForkSession parent sid _) b =
     Running (handle_fork_session e codec conn parent sid b)"
| "handle_message e codec conn (DeleteSession sid) b = Running (handle_delete_session e codec conn sid b)"
| "handle_message e codec conn (Publish sid chunk) b = handle_publish e codec conn sid chunk b"
| "handle_message e codec conn (Subscribe sid) b = Running (handle_subscribe e codec conn sid b)"
| "handle_message e codec conn SubscribeAll b = Running (handle_subscribe_all e codec conn b)"
| "handle_message e codec conn (SubscribeFiltered f) b =
     Running (handle_subscribe_filtered e codec conn f b)"

section \<open>What sending touches\<close>

text \<open>
  Sending changes writers only.  \<open>sent\<close> is the frames a connection was sent; a connection is
  \<open>reliable\<close> when its transport never fails.
\<close>

named_theorems bus_frame \<open>the components of the bus that an operation leaves alone\<close>

definition sent :: "bus \<Rightarrow> string \<Rightarrow> (wire_codec \<times> server_message) list" where
  "sent b addr = (case kv_get (writers b) addr of None \<Rightarrow> [] | Some w \<Rightarrow> w_sent w)"

definition reliable :: "bus \<Rightarrow> string \<Rightarrow> bool" where
  "reliable b addr \<longleftrightarrow> (\<exists>w. kv_get (writers b) addr = Some w \<and> (\<forall>k. \<not> w_fails w k))"

lemma send_bytes_frame [bus_frame, simp]:
  "reg (snd (send_bytes a c m b)) = reg b"
  "connections (snd (send_bytes a c m b)) = connections b"
  "conn_meta (snd (send_bytes a c m b)) = conn_meta b"
  "timers (snd (send_bytes a c m b)) = timers b"
  "tasks (snd (send_bytes a c m b)) = tasks b"
  "subscriber_tasks (snd (send_bytes a c m b)) = subscriber_tasks b"
  "next_conn_id (snd (send_bytes a c m b)) = next_conn_id b"
  "kv_keys (writers (snd (send_bytes a c m b))) = kv_keys (writers b)"
proof -
  have k: "kv_get m k \<noteq> None \<Longrightarrow> kv_keys (kv_insert k v m) = kv_keys m"
    for m :: "(string, writer) kv" and k v
    by (induction m) (auto simp: kv_keys_def)
  show "reg (snd (send_bytes a c m b)) = reg b"
    "connections (snd (send_bytes a c m b)) = connections b"
    "conn_meta (snd (send_bytes a c m b)) = conn_meta b"
    "timers (snd (send_bytes a c m b)) = timers b"
    "tasks (snd (send_bytes a c m b)) = tasks b"
    "subscriber_tasks (snd (send_bytes a c m b)) = subscriber_tasks b"
    "next_conn_id (snd (send_bytes a c m b)) = next_conn_id b"
    "kv_keys (writers (snd (send_bytes a c m b))) = kv_keys (writers b)"
    by (auto simp: send_bytes_def k split: option.splits)
qed

lemma send_msg_frame [bus_frame, simp]:
  "reg (snd (send_msg e c a m b)) = reg b"
  "connections (snd (send_msg e c a m b)) = connections b"
  "conn_meta (snd (send_msg e c a m b)) = conn_meta b"
  "timers (snd (send_msg e c a m b)) = timers b"
  "tasks (snd (send_msg e c a m b)) = tasks b"
  "subscriber_tasks (snd (send_msg e c a m b)) = subscriber_tasks b"
  "next_conn_id (snd (send_msg e c a m b)) = next_conn_id b"
  "kv_keys (writers (snd (send_msg e c a m b))) = kv_keys (writers b)"
  by (simp_all add: send_msg_def)

lemma send_msg_result:
  assumes "send_msg e c a m b = (ok, b')"
  shows "reg b' = reg b" "connections b' = connections b" "conn_meta b' = conn_meta b" "timers b' = timers b"
    "tasks b' = tasks b" "subscriber_tasks b' = subscriber_tasks b" "next_conn_id b' = next_conn_id b"
    "kv_keys (writers b') = kv_keys (writers b)"
  using send_msg_frame [of e c a m b] assms by simp_all

lemma send_error_frame [bus_frame, simp]:
  "reg (send_error e c a s m k b) = reg b"
  "connections (send_error e c a s m k b) = connections b"
  "conn_meta (send_error e c a s m k b) = conn_meta b"
  "timers (send_error e c a s m k b) = timers b"
  "tasks (send_error e c a s m k b) = tasks b"
  "subscriber_tasks (send_error e c a s m k b) = subscriber_tasks b"
  "next_conn_id (send_error e c a s m k b) = next_conn_id b"
  "kv_keys (writers (send_error e c a s m k b)) = kv_keys (writers b)"
  by (simp_all add: send_error_def)

lemma send_until_failure_frame [bus_frame, simp]:
  "reg (send_until_failure e c a ms b) = reg b"
  "connections (send_until_failure e c a ms b) = connections b"
  "conn_meta (send_until_failure e c a ms b) = conn_meta b"
  "timers (send_until_failure e c a ms b) = timers b"
  "tasks (send_until_failure e c a ms b) = tasks b"
  "subscriber_tasks (send_until_failure e c a ms b) = subscriber_tasks b"
  "next_conn_id (send_until_failure e c a ms b) = next_conn_id b"
  "kv_keys (writers (send_until_failure e c a ms b)) = kv_keys (writers b)"
  by (induction ms arbitrary: b)
     (auto split: prod.splits bool.splits dest: send_msg_result(1) send_msg_result(2)
        send_msg_result(3) send_msg_result(4) send_msg_result(5) send_msg_result(6)
        send_msg_result(7) send_msg_result(8))

lemma send_each_frame [bus_frame, simp]:
  "reg (send_each e c a ms b) = reg b"
  "connections (send_each e c a ms b) = connections b"
  "conn_meta (send_each e c a ms b) = conn_meta b"
  "timers (send_each e c a ms b) = timers b"
  "tasks (send_each e c a ms b) = tasks b"
  "subscriber_tasks (send_each e c a ms b) = subscriber_tasks b"
  "next_conn_id (send_each e c a ms b) = next_conn_id b"
  "kv_keys (writers (send_each e c a ms b)) = kv_keys (writers b)"
  by (induction e c a ms b rule: send_each.induct) simp_all

lemma spawn_frame [bus_frame, simp]:
  "reg (spawn x c k b) = reg b" "connections (spawn x c k b) = connections b"
  "conn_meta (spawn x c k b) = conn_meta b" "timers (spawn x c k b) = timers b"
  "subscriber_tasks (spawn x c k b) = subscriber_tasks b"
  "next_conn_id (spawn x c k b) = next_conn_id b" "writers (spawn x c k b) = writers b"
  by (simp_all add: spawn_def)

lemma spawn_tracked_frame [bus_frame, simp]:
  "reg (spawn_tracked x c s k b) = reg b" "connections (spawn_tracked x c s k b) = connections b"
  "conn_meta (spawn_tracked x c s k b) = conn_meta b" "timers (spawn_tracked x c s k b) = timers b"
  "next_conn_id (spawn_tracked x c s k b) = next_conn_id b" "writers (spawn_tracked x c s k b) = writers b"
  by (simp_all add: spawn_tracked_def)

lemma replay_and_forward_frame [bus_frame, simp]:
  "reg (replay_and_forward e c a s h r x f b) = reg b"
  "connections (replay_and_forward e c a s h r x f b) = connections b"
  "conn_meta (replay_and_forward e c a s h r x f b) = conn_meta b"
  "timers (replay_and_forward e c a s h r x f b) = timers b"
  "subscriber_tasks (replay_and_forward e c a s h r x f b) = subscriber_tasks b"
  "next_conn_id (replay_and_forward e c a s h r x f b) = next_conn_id b"
  "kv_keys (writers (replay_and_forward e c a s h r x f b)) = kv_keys (writers b)"
  by (simp_all add: replay_and_forward_def)

lemma announce_frame [bus_frame, simp]:
  "reg (announce e c a f sn b) = reg b"
  "connections (announce e c a f sn b) = connections b"
  "conn_meta (announce e c a f sn b) = conn_meta b"
  "timers (announce e c a f sn b) = timers b"
  "subscriber_tasks (announce e c a f sn b) = subscriber_tasks b"
  "next_conn_id (announce e c a f sn b) = next_conn_id b"
  "kv_keys (writers (announce e c a f sn b)) = kv_keys (writers b)"
  by (induction e c a f sn b rule: announce.induct) simp_all

section \<open>What a reliable connection is sent\<close>

lemma sent_upd [simp]: "sent (b\<lparr>reg := r\<rparr>) = sent b" "reliable (b\<lparr>reg := r\<rparr>) = reliable b"
  by (simp_all add: sent_def reliable_def fun_eq_iff)

lemma sent_spawn [simp]:
  "sent (spawn x c k b) = sent b" "sent (spawn_tracked x c s k b) = sent b"
  by (simp_all add: sent_def fun_eq_iff)

lemma send_msg_reliable:
  assumes "reliable b a" and "e_encodes e c m"
  shows "fst (send_msg e c a m b)" "reliable (snd (send_msg e c a m b)) a"
    "sent (snd (send_msg e c a m b)) a = sent b a @ [(c, m)]"
  using assms by (auto simp: reliable_def send_msg_def send_bytes_def sent_def kv_simps)

lemma sent_other:
  "a' \<noteq> a \<Longrightarrow> sent (snd (send_msg e c a m b)) a' = sent b a'"
  "a' \<noteq> a \<Longrightarrow> sent (send_error e c a i x k b) a' = sent b a'"
  by (auto simp: send_msg_def send_error_def send_bytes_def sent_def kv_simps split: option.splits)

lemma send_until_failure_reliable:
  "reliable b a \<Longrightarrow> \<forall>m \<in> set ms. e_encodes e c m \<Longrightarrow>
     sent (send_until_failure e c a ms b) a = sent b a @ map (Pair c) ms
     \<and> reliable (send_until_failure e c a ms b) a"
proof (induction ms arbitrary: b)
  case Nil
  then show ?case by simp
next
  case (Cons m ms)
  obtain ok b' where s: "send_msg e c a m b = (ok, b')" by force
  then have "ok" "reliable b' a" "sent b' a = sent b a @ [(c, m)]"
    using send_msg_reliable [of b a e c m] Cons.prems by auto
  with Cons s show ?case by simp
qed

lemma send_each_reliable:
  "reliable b a \<Longrightarrow> \<forall>m \<in> set ms. e_encodes e c m \<Longrightarrow>
     sent (send_each e c a ms b) a = sent b a @ map (Pair c) ms
     \<and> reliable (send_each e c a ms b) a"
  by (induction ms arbitrary: b) (simp_all add: send_msg_reliable)

section \<open>Every handler keeps the registry invariant\<close>

lemma registry_inv_drain:
  "registry_inv r \<Longrightarrow> registry_get r sid = Some s \<Longrightarrow> drain_retained now s = (v, s') \<Longrightarrow>
     registry_inv (registry_put sid s' r)"
  using registry_inv_get [of r sid s] session_inv_drain [of s now v s']
    drain_retained_frame [of now s v s']
  by (intro registry_inv_put) (auto simp: session_ok_def)

lemma registry_inv_snapshot:
  "registry_inv r \<Longrightarrow> snapshot now keep sids r = (sn, r') \<Longrightarrow> registry_inv r'"
proof (induction now keep sids r arbitrary: sn rule: snapshot.induct)
  case (2 now keep sid sids r)
  show ?case
  proof (cases "registry_get r sid")
    case None
    with 2 show ?thesis by simp
  next
    case (Some s)
    obtain ret s' where d: "drain_retained now s = (ret, s')" by force
    obtain rest r2 where sn: "snapshot now keep sids (registry_put sid s' r) = (rest, r2)" by force
    show ?thesis
    proof (cases "keep s")
      case True
      with 2 Some d sn registry_inv_drain [OF "2.prems"(1) Some d] show ?thesis by simp
    next
      case False
      with 2 Some show ?thesis by simp
    qed
  qed
qed simp

definition plain :: "chunk \<Rightarrow> bool" where
  "plain c \<longleftrightarrow> annotation c CAFE_TRANSIENT = None \<and> annotation c CAFE_FLOW_SIGNAL = None"

lemma plain_new [simp]: "plain (new_null u t p)" "plain (new_text u t x p)"
  by (simp_all add: plain_def)

lemma plain_with [simp]:
  "k \<noteq> CAFE_TRANSIENT \<Longrightarrow> k \<noteq> CAFE_FLOW_SIGNAL \<Longrightarrow> plain (with_annotation k v c) = plain c"
  by (simp add: plain_def)

lemma plain_annotate_opt [simp]:
  "k \<noteq> CAFE_TRANSIENT \<Longrightarrow> k \<noteq> CAFE_FLOW_SIGNAL \<Longrightarrow> plain (annotate_opt k f x c) = plain c"
  by (simp add: annotate_opt_def split: option.split)

lemma plain_durable: "plain c \<Longrightarrow> durable c"
  by (simp add: plain_def durable_def delete_target_def is_transient_def)

lemma plain_notifications [simp]:
  "plain (make_config_chunk u t cfg)" "plain (make_tags_chunk u t ts)"
  by (simp_all add: make_config_chunk_def make_tags_chunk_def Let_def)

lemma publish_plain:
  "plain c \<Longrightarrow> session_publish now c s = Some (tx_send c (s\<lparr>history := history s @ [c]\<rparr>))"
  using plain_durable [of c] by (simp add: durable_def session_publish_ordinary)

text \<open>What a creation request builds: no panic, the fields and the notification chunks.\<close>

definition config_chunks :: "env \<Rightarrow> session_config \<Rightarrow> chunk list" where
  "config_chunks e config =
     (if cfg_backend config = None \<and> cfg_model config = None \<and> cfg_system_prompt config = None then []
      else [make_config_chunk (e_uuid e 0) (e_clock_ms e 0) config])
     @ (case cfg_tags config of
          None \<Rightarrow> []
        | Some ts \<Rightarrow> if ts = [] then [] else [make_tags_chunk (e_uuid e 1) (e_clock_ms e 1) ts])"

lemma initial_session_eq:
  "initial_session e sid aid config =
     Some (session_new sid aid
       \<lparr>ephemeral := cfg_ephemeral config,
        tags := (case cfg_tags config of None \<Rightarrow> [] | Some ts \<Rightarrow> ts),
        history := config_chunks e config, tx := config_chunks e config\<rparr>)"
  by (cases "cfg_ephemeral config"; cases "cfg_tags config")
     (auto simp: initial_session_def config_chunks_def Let_def publish_plain session_new_def tx_send_def)

lemma registry_inv_create:
  assumes "registry_inv r"
    and "case cfg_tags config of None \<Rightarrow> True | Some ts \<Rightarrow> validate_tags dbg ts = Inr ()"
    and "initial_session e sid aid config = Some s"
  shows "registry_inv (registry_insert s r)"
proof -
  have "\<forall>c \<in> set (config_chunks e config). durable c"
    by (auto simp: config_chunks_def plain_durable split: option.splits)
  then have "session_ok (session_id s) s"
    using assms(2,3)
    by (auto simp: initial_session_eq session_ok_def session_inv_def session_new_def kv_simps
        validate_tags_ok split: option.splits)
  with assms(1) show ?thesis by (rule registry_inv_insert)
qed

lemma registry_inv_publish:
  "registry_inv r \<Longrightarrow> registry_get r sid = Some s \<Longrightarrow> session_publish now c s = Some s' \<Longrightarrow>
     registry_inv (registry_put sid s' r)"
  using registry_inv_get [of r sid s] session_inv_publish [of s now c s']
    session_publish_frame [of now c s s']
  by (intro registry_inv_put) (auto simp: session_ok_def)

lemma subscribe_registry_inv:
  "registry_inv (reg b) \<Longrightarrow> registry_inv (reg (handle_subscribe e codec conn sid b))"
proof (cases "registry_get (reg b) sid")
  case None
  then show "registry_inv (reg b) \<Longrightarrow> ?thesis"
    by (simp add: handle_subscribe_def cancel_scheduled_deletion_def)
next
  case (Some s)
  assume r: "registry_inv (reg b)"
  obtain p s1 where a: "add_subscriber conn (conn_role b conn) s = (p, s1)" by force
  obtain ret s2 where d: "drain_retained (e_now e) s1 = (ret, s2)" by force
  have "session_ok sid s" using registry_inv_get [OF r Some] .
  moreover have "session_id s1 = session_id s" "tags s1 = tags s"
    using a by (auto simp: add_subscriber_def)
  ultimately have "session_ok sid s2"
    using session_inv_add [OF _ a] session_inv_drain [OF _ d] drain_retained_frame [OF d]
    by (simp add: session_ok_def)
  then show ?thesis
    using registry_inv_put [OF r] Some a d
    by (auto simp: handle_subscribe_def cancel_scheduled_deletion_def Let_def
        dest: send_msg_result(1) split: prod.splits)
qed

lemma handle_message_registry_inv:
  assumes "registry_inv (reg b)" and "handle_message e codec conn m b = Running b'"
  shows "registry_inv (reg b')"
proof (cases m)
  case (Publish sid c)
  with assms show ?thesis
    by (auto simp: handle_publish_def Let_def intro: registry_inv_publish split: option.splits)
next
  case (CreateSession sid aid config)
  with assms registry_inv_create [where dbg = "e_dbg e" and config = config, OF assms(1)] show ?thesis
    by (auto simp: handle_create_session_def split: sum.splits if_splits option.splits)
next
  case (SetSessionTags sid ts)
  show ?thesis
  proof (cases "validate_tags (e_dbg e) ts")
    case (Inl err)
    with assms SetSessionTags show ?thesis by (auto simp: handle_set_session_tags_def)
  next
    case (Inr u)
    then have ok: "\<forall>t \<in> set ts. tag_ok t" by (simp flip: validate_tags_ok [of "e_dbg e"])
    show ?thesis
    proof (cases "registry_get (reg b) sid")
      case None
      with Inr assms SetSessionTags show ?thesis by (auto simp: handle_set_session_tags_def)
    next
      case (Some s)
      define c where "c = make_tags_chunk (e_uuid e 0) (e_clock_ms e 0) ts"
      define s' where "s' = tx_send c (s\<lparr>history := history s @ [c]\<rparr>)"
      have p: "session_publish (e_now e) c s = Some s'" by (simp add: publish_plain c_def s'_def)
      have "session_ok sid (s'\<lparr>tags := ts\<rparr>)"
        using registry_inv_get [OF assms(1) Some] session_inv_publish [OF _ p] ok session_publish_frame [OF p]
        by (simp add: session_ok_def)
      then have "registry_inv (snd (set_tags sid ts (registry_put sid (s'\<lparr>tags := ts\<rparr>) (reg b))))"
        using registry_inv_set_tags registry_inv_put [OF assms(1)] ok by blast
      with Inr Some p assms SetSessionTags show ?thesis
        by (auto simp: handle_set_session_tags_def c_def [symmetric] Let_def)
    qed
  qed
next
  case (ForkSession p sid config)
  with assms registry_inv_fork [OF assms(1)] show ?thesis
    by (auto simp: handle_fork_session_def split: prod.splits sum.splits fork_error.splits)
       (metis snd_conv)+
next
  case (DeleteSession sid)
  with assms registry_inv_remove [OF assms(1)] show ?thesis
    by (auto simp: handle_delete_session_def split: prod.splits bool.splits) (metis snd_conv)+
next
  case (Subscribe sid)
  with assms subscribe_registry_inv show ?thesis by auto
next
  case SubscribeAll
  with assms show ?thesis
    by (auto simp: handle_subscribe_all_def Let_def split: prod.splits dest: registry_inv_snapshot)
next
  case (SubscribeFiltered f)
  with assms show ?thesis
    by (auto simp: handle_subscribe_filtered_def Let_def split: prod.splits dest: registry_inv_snapshot)
qed (use assms in \<open>auto simp: handle_ping_def handle_set_meta_def handle_list_sessions_def\<close>)

section \<open>Creation, direct messages and filters\<close>

lemma create_session_run:
  assumes "case cfg_tags config of None \<Rightarrow> True | Some ts \<Rightarrow> \<forall>t \<in> set ts. tag_ok t"
    and "registry_get (reg b) sid = None"
  shows "\<exists>b'. handle_message e codec conn (CreateSession sid aid config) b = Running b'
     \<and> registry_get (reg b') = (registry_get (reg b))(sid := Some (session_new sid aid
          \<lparr>ephemeral := cfg_ephemeral config,
           tags := (case cfg_tags config of None \<Rightarrow> [] | Some ts \<Rightarrow> ts),
           history := config_chunks e config, tx := config_chunks e config\<rparr>))
     \<and> event_tx (reg b') = event_tx (reg b) @ [SessionCreated sid aid]"
proof -
  have v: "(case cfg_tags config of None \<Rightarrow> Inr () | Some ts \<Rightarrow> validate_tags (e_dbg e) ts) = Inr ()"
    using assms(1) by (simp add: validate_tags_ok split: option.splits)
  show ?thesis
    using assms(2)
    by (simp add: handle_create_session_def v registry_contains_get initial_session_eq reg_simps
        session_new_def) (simp add: registry_insert_def event_send_def)
qed

text \<open>
  Creating a session. With valid tags and a free id the request succeeds (no publish on the
  way can panic), announces the session once and stores exactly the requested session: its
  agent, its ephemeral lifecycle, its tags, and as history the notification chunks. A
  configuration chunk is among them only if a backend, a model or a system prompt is given:
  temperature, token limit and compaction settings alone are not recorded anywhere.
\<close>

theorem create_session_effect:
  assumes "case cfg_tags config of None \<Rightarrow> True | Some ts \<Rightarrow> \<forall>t \<in> set ts. tag_ok t"
    and "registry_get (reg b) sid = None"
  shows "\<exists>b'. handle_message e codec conn (CreateSession sid aid config) b = Running b'
     \<and> registry_get (reg b') = (registry_get (reg b))(sid := Some (session_new sid aid
          \<lparr>ephemeral := cfg_ephemeral config,
           tags := (case cfg_tags config of None \<Rightarrow> [] | Some ts \<Rightarrow> ts),
           history := config_chunks e config, tx := config_chunks e config\<rparr>))
     \<and> event_tx (reg b') = event_tx (reg b) @ [SessionCreated sid aid]"
  using assms by (rule create_session_run)

definition demo_env :: "nat \<Rightarrow> env" where
  "demo_env t =
     \<lparr>e_encodes = (\<lambda>_ _. True), e_dbg = (\<lambda>s. s), e_uuid = (\<lambda>k. ''u'' @ show_nat k), e_clock_ms = int,
      e_now = t\<rparr>"

text \<open>A session asked for with a temperature and a token limit starts with an empty history.\<close>

theorem create_session_effect_witness:
  "\<exists>b'. handle_message (demo_env 0) JsonLineCodec ''c-1''
       (CreateSession ''s'' ''chat'' (default_session_config
          \<lparr>cfg_temperature := Some (Finite (1 / 2)), cfg_max_tokens := Some 100\<rparr>)) bus_new = Running b'
     \<and> map_option history (registry_get (reg b') ''s'') = Some []"
proof -
  let ?cfg = "default_session_config\<lparr>cfg_temperature := Some (Finite (1 / 2)), cfg_max_tokens := Some 100\<rparr>"
  have c: "config_chunks (demo_env 0) ?cfg = []"
    by (simp add: config_chunks_def default_session_config_def)
  show ?thesis
    using create_session_effect [of ?cfg bus_new "''s''" "demo_env 0" JsonLineCodec "''c-1''" "''chat''"] c
    by (auto simp: default_session_config_def bus_new_def reg_simps)
qed

text \<open>
  A direct message reaches its target only. A chunk with a direct-to annotation goes, with
  the publisher's connection stamped on it, to the named connection and to nobody else, and
  touches neither the history of any session nor its subscribers. The frame is encoded with the
  publisher's codec, whatever codec the target negotiated.
\<close>

theorem direct_to_delivery:
  assumes "get_annotation as_str CAFE_DIRECT_TO c = Some target"
    and "kv_get (connections b) target = Some addr" and "reliable b addr"
    and "\<forall>m. e_encodes e codec m"
  shows "\<exists>b'. handle_message e codec conn (Publish sid c) b = Running b'
     \<and> sent b' addr = sent b addr
          @ [(codec, Chunk sid (with_annotation CAFE_SOURCE_CONNECTION (JStr conn) c))]
     \<and> (\<forall>a. a \<noteq> addr \<longrightarrow> sent b' a = sent b a) \<and> reg b' = reg b"
proof -
  let ?c = "with_annotation CAFE_SOURCE_CONNECTION (JStr conn) c"
  have "get_annotation as_str CAFE_DIRECT_TO ?c = Some target" using assms(1) by simp
  then have "handle_message e codec conn (Publish sid c) b
      = Running (snd (send_msg e codec addr (Chunk sid ?c) b))"
    using assms(2) by (simp add: handle_publish_def Let_def)
  then show ?thesis
    using send_msg_reliable(3) [OF assms(3)] assms(4) by (simp add: sent_other)
qed

definition demo_writer :: writer where
  "demo_writer = \<lparr>w_sent = [], w_tries = 0, w_fails = (\<lambda>_. False)\<rparr>"

definition demo_bus :: bus where
  "demo_bus = bus_new
     \<lparr>reg := demo_registry,
      connections := [(''c-1'', ''c-1''), (''c-2'', ''c-2'')],
      writers := [(''c-1'', demo_writer),
                  (''c-2'', demo_writer\<lparr>w_sent := [(JsonLineCodec, CodecSet ''bincode'' ''c-2'')]\<rparr>)],
      subscriber_tasks := [(''c-1'', []), (''c-2'', [])]\<rparr>"

lemma demo_reliable [simp]: "reliable demo_bus ''c-1''" "reliable demo_bus ''c-2''"
  by (simp_all add: reliable_def demo_bus_def demo_writer_def)

lemma demo_env_encodes [simp]: "e_encodes (demo_env t) c m"
  by (simp add: demo_env_def)

text \<open>A JSON publisher writes a JSON line to a connection that was told to read bincode.\<close>

theorem direct_to_delivery_witness:
  "\<exists>b' c. handle_message (demo_env 0) JsonLineCodec ''c-1''
       (Publish ''p'' (with_annotation CAFE_DIRECT_TO (JStr ''c-2'') (demo_text ''a''))) demo_bus = Running b'
     \<and> sent b' ''c-2'' = [(JsonLineCodec, CodecSet ''bincode'' ''c-2''), (JsonLineCodec, Chunk ''p'' c)]"
proof -
  let ?c = "with_annotation CAFE_DIRECT_TO (JStr ''c-2'') (demo_text ''a'')"
  have t: "kv_get (connections demo_bus) ''c-2'' = Some ''c-2''"
    and s: "sent demo_bus ''c-2'' = [(JsonLineCodec, CodecSet ''bincode'' ''c-2'')]"
    by (simp_all add: demo_bus_def sent_def)
  have "get_annotation as_str CAFE_DIRECT_TO ?c = Some ''c-2''" by simp
  from direct_to_delivery [OF this t demo_reliable(2), of "demo_env 0" JsonLineCodec "''c-1''" "''p''"]
  show ?thesis using s by auto
qed

lemma default_filter_matches [simp]:
  "session_matches_filter s default_filter" "chunk_matches_filter c default_filter"
  by (simp_all add: session_matches_filter_def chunk_matches_filter_def default_filter_def)

lemma passes_default [simp]: "passes (Some default_filter) = passes None"
  by (simp add: passes_def fun_eq_iff)

text \<open>Two states that differ at most in their background tasks.\<close>

definition same_io :: "bus \<Rightarrow> bus \<Rightarrow> bool" where
  "same_io b b' \<longleftrightarrow> reg b = reg b' \<and> writers b = writers b'"

lemma same_io_send:
  "same_io b b' \<Longrightarrow> same_io (snd (send_msg e c a m b)) (snd (send_msg e c a m b'))"
  by (auto simp: same_io_def send_msg_def send_bytes_def split: option.splits)

lemma same_io_send_each: "same_io b b' \<Longrightarrow> same_io (send_each e c a ms b) (send_each e c a ms b')"
  by (induction ms arbitrary: b b') (auto intro: same_io_send)

lemma same_io_announce:
  "same_io b b' \<Longrightarrow> same_io (announce e c a (Some default_filter) sn b) (announce e c a None sn b')"
proof (induction sn arbitrary: b b')
  case (Cons x sn)
  obtain sid aid hist ret rx where x: "x = (sid, aid, hist, ret, rx)" by (cases x)
  have "same_io (replay_and_forward e c a sid hist ret rx (Some default_filter) b1)
      (replay_and_forward e c a sid hist ret rx None b2)" if "same_io b1 b2" for b1 b2
    using same_io_send_each [OF same_io_send_each [OF that]]
    by (simp add: replay_and_forward_def same_io_def)
  with Cons x show ?case by (simp add: same_io_send)
qed simp

text \<open>
  The empty filter filters nothing. A filtered subscription with no criteria sends every
  connection exactly what a subscription to all sessions sends, and leaves the same sessions
  behind.
\<close>

theorem empty_filter_is_subscribe_all:
  "sent (handle_subscribe_filtered e codec conn default_filter b)
     = sent (handle_subscribe_all e codec conn b)
   \<and> reg (handle_subscribe_filtered e codec conn default_filter b)
     = reg (handle_subscribe_all e codec conn b)"
proof -
  obtain sn r where s: "snapshot (e_now e) (\<lambda>s. True) (map si_session_id (registry_list (reg b))) (reg b)
      = (sn, r)" by force
  have "same_io (announce e codec conn (Some default_filter) sn (b\<lparr>reg := r\<rparr>))
      (announce e codec conn None sn (b\<lparr>reg := r\<rparr>))"
    by (rule same_io_announce) (simp add: same_io_def)
  then show ?thesis
    using s by (simp add: handle_subscribe_filtered_def handle_subscribe_all_def Let_def same_io_def
        sent_def fun_eq_iff)
qed

text \<open>
  What a session filter selects, as sets: the session and agent must be listed, some tag
  must be wanted and no tag unwanted, each criterion only when it is given. In particular a
  session without tags passes every exclusion and fails every tag requirement.
\<close>

theorem session_filter_spec:
  "session_matches_filter s f \<longleftrightarrow>
     (f_sessions f = None \<or> session_id s \<in> set (the (f_sessions f)))
     \<and> (f_agents f = None \<or> agent_id s \<in> set (the (f_agents f)))
     \<and> (f_tags f = None \<or> (\<exists>t. t \<in> set (tags s) \<inter> set (the (f_tags f))))
     \<and> (f_tags_exclude f = None \<or> set (tags s) \<inter> set (the (f_tags_exclude f)) = {})"
  by (auto simp: session_matches_filter_def list_ex_iff split: option.splits)

end
