(* ===== verification/Bus_Connection.thy ===== *)
theory Bus_Connection
  imports Bus_Client
begin

text \<open>
  The life of a connection of the bus, the rest of \<open>cafe-bus/src/client.rs\<close>: the steps of the
  background tasks it spawned, codec negotiation on its first message, the message loop, and the
  cleanup when it ends, with the expiry of the deletion timers that cleanup starts.
\<close>

section \<open>Background tasks\<close>

text \<open>What \<open>broadcast::Receiver::recv\<close> yields.\<close>

datatype 'a recv_result = RecvOk 'a | RecvLagged nat | RecvClosed

definition kill_task :: "nat \<Rightarrow> bus \<Rightarrow> bus" where
  "kill_task i b =
     (if i < length (tasks b) then b\<lparr>tasks := (tasks b)[i := (tasks b ! i)\<lparr>t_alive := False\<rparr>]\<rparr> else b)"

text \<open>One turn of the forwarding loop that \<open>Subscribe\<close> spawns.\<close>

definition forward_step ::
  "env \<Rightarrow> nat \<Rightarrow> wire_codec \<Rightarrow> string \<Rightarrow> string \<Rightarrow> chunk recv_result \<Rightarrow> bus \<Rightarrow> bus" where
  "forward_step e i codec addr sid res b =
     (case res of
        RecvOk chunk \<Rightarrow>
          (case send_msg e codec addr (Chunk sid chunk) b of
             (True, b') \<Rightarrow> b'
           | (False, b') \<Rightarrow> kill_task i b')
      | RecvLagged n \<Rightarrow>
          kill_task i (send_error e codec addr (Some sid)
            ''Subscriber lagged; re-subscribe to get full history'' ''SUBSCRIBER_LAGGED'' b)
      | RecvClosed \<Rightarrow> kill_task i b)"

text \<open>One turn of the loop that \<open>replay_and_forward\<close> spawns.\<close>

definition forward_filtered_step ::
  "env \<Rightarrow> nat \<Rightarrow> wire_codec \<Rightarrow> string \<Rightarrow> subscribe_filter option \<Rightarrow> string
    \<Rightarrow> chunk recv_result \<Rightarrow> bus \<Rightarrow> bus" where
  "forward_filtered_step e i codec addr f sid res b =
     (case res of
        RecvOk chunk \<Rightarrow>
          if passes f chunk
          then (case send_msg e codec addr (Chunk sid chunk) b of
                  (True, b') \<Rightarrow> b'
                | (False, b') \<Rightarrow> kill_task i b')
          else b
      | _ \<Rightarrow> kill_task i b)"

text \<open>
  One turn of the loop over the registry events, for \<open>SubscribeAll\<close> and for
  \<open>SubscribeFiltered\<close>.
\<close>

definition replay_session ::
  "env \<Rightarrow> wire_codec \<Rightarrow> string \<Rightarrow> subscribe_filter option \<Rightarrow> string \<Rightarrow> session_state \<Rightarrow> bus \<Rightarrow> bus" where
  "replay_session e codec addr f sid s b =
     (let (ret, s') = drain_retained (e_now e) s
      in replay_and_forward e codec addr sid (history s) ret (subscribe s') f
           (b\<lparr>reg := registry_put sid s' (reg b)\<rparr>))"

definition events_step ::
  "env \<Rightarrow> nat \<Rightarrow> wire_codec \<Rightarrow> string \<Rightarrow> server_message recv_result \<Rightarrow> bus \<Rightarrow> bus" where
  "events_step e i codec addr res b =
     (case res of
        RecvOk event \<Rightarrow>
          (let b1 = snd (send_msg e codec addr event b)
           in case event of
                SessionCreated sid _ \<Rightarrow>
                  (case registry_get (reg b1) sid of
                     None \<Rightarrow> b1
                   | Some s \<Rightarrow> replay_session e codec addr None sid s b1)
              | _ \<Rightarrow> b1)
      | _ \<Rightarrow> kill_task i b)"

definition events_filtered_step ::
  "env \<Rightarrow> nat \<Rightarrow> wire_codec \<Rightarrow> string \<Rightarrow> subscribe_filter \<Rightarrow> server_message recv_result \<Rightarrow> bus \<Rightarrow> bus" where
  "events_filtered_step e i codec addr f res b =
     (case res of
        RecvOk event \<Rightarrow>
          (case event of
             SessionCreated sid _ \<Rightarrow>
               (case registry_get (reg b) sid of
                  None \<Rightarrow> b
                | Some s \<Rightarrow>
                    if \<not> session_matches_filter s f then b
                    else let (ret, s') = drain_retained (e_now e) s;
                             b1 = b\<lparr>reg := registry_put sid s' (reg b)\<rparr>;
                             b2 = snd (send_msg e codec addr event b1)
                         in replay_and_forward e codec addr sid (history s) ret (subscribe s') (Some f) b2)
           | _ \<Rightarrow> snd (send_msg e codec addr event b))
      | _ \<Rightarrow> kill_task i b)"

text \<open>A live task makes a turn of its loop; session tasks receive chunks, the others events.\<close>

definition task_step ::
  "env \<Rightarrow> nat \<Rightarrow> chunk recv_result \<Rightarrow> server_message recv_result \<Rightarrow> bus \<Rightarrow> bus" where
  "task_step e i cres eres b =
     (if i < length (tasks b) \<and> t_alive (tasks b ! i)
      then (let t = tasks b ! i
            in case t_kind t of
                 Forward sid _ \<Rightarrow> forward_step e i (t_codec t) (t_conn t) sid cres b
               | ForwardFiltered f sid _ \<Rightarrow> forward_filtered_step e i (t_codec t) (t_conn t) f sid cres b
               | Events None _ \<Rightarrow> events_step e i (t_codec t) (t_conn t) eres b
               | Events (Some f) _ \<Rightarrow> events_filtered_step e i (t_codec t) (t_conn t) f eres b)
      else b)"

section \<open>Negotiation\<close>

definition conn_name :: "64 word \<Rightarrow> string" where
  "conn_name n = ''c-'' @ show_nat (unat n)"

text \<open>A connection is accepted: it takes the next id and enters the table with its writer.\<close>

definition accept_connection :: "(nat \<Rightarrow> bool) \<Rightarrow> bus \<Rightarrow> string \<times> bus" where
  "accept_connection fails b =
     (let conn = conn_name (next_conn_id b)
      in (conn, b\<lparr>next_conn_id := next_conn_id b + 1,
                 connections := kv_insert conn conn (connections b),
                 writers := kv_insert conn \<lparr>w_sent = [], w_tries = 0, w_fails = fails\<rparr> (writers b),
                 subscriber_tasks := kv_insert conn [] (subscriber_tasks b)\<rparr>))"

text \<open>
  The loop that reads the first message: a frame that does not decode is treated like a missing
  one.  \<open>None\<close> is the end of the stream or a read error, after which the connection only
  leaves the table.
\<close>

fun first_message ::
  "'m decoder \<Rightarrow> byte list \<Rightarrow> read_result list \<Rightarrow> ('m \<times> byte list \<times> read_result list) option" where
  "first_message dec buf reads =
     (case dec buf of
        Inr (Some (msg, consumed)) \<Rightarrow> Some (msg, drop consumed buf, reads)
      | _ \<Rightarrow>
          (case reads of
             [] \<Rightarrow> None
           | ReadErr _ # rs \<Rightarrow> None
           | ReadBytes bs # rs \<Rightarrow> if bs = [] then None else first_message dec (buf @ bs) rs))"

declare first_message.simps [simp del]

fun select_codec :: "string list \<Rightarrow> wire_codec" where
  "select_codec [] = JsonLineCodec"
| "select_codec (c # cs) =
     (if c = ''json'' then JsonLineCodec
      else if c = ''bincode'' then BincodeLengthPrefixCodec
      else select_codec cs)"

fun codec_name :: "wire_codec \<Rightarrow> string" where
  "codec_name JsonLineCodec = ''json''"
| "codec_name BincodeLengthPrefixCodec = ''bincode''"

definition negotiated :: "client_message \<Rightarrow> wire_codec \<times> string option" where
  "negotiated first =
     (case first of
        SetMeta r (Some cs) \<Rightarrow> (select_codec cs, r)
      | _ \<Rightarrow> (JsonLineCodec, None))"

definition apply_negotiated_role :: "string option \<Rightarrow> string \<Rightarrow> bus \<Rightarrow> bus" where
  "apply_negotiated_role r conn b =
     (case r of
        None \<Rightarrow> b
      | Some x \<Rightarrow> b\<lparr>conn_meta := kv_insert conn \<lparr>meta_role = Some x\<rparr> (conn_meta b)\<rparr>)"

definition initial_response :: "string \<Rightarrow> client_message \<Rightarrow> server_message" where
  "initial_response conn first =
     (case first of
        SetMeta _ (Some _) \<Rightarrow> CodecSet (codec_name (fst (negotiated first))) conn
      | _ \<Rightarrow> Connected conn)"

definition negotiate :: "env \<Rightarrow> string \<Rightarrow> client_message \<Rightarrow> bus \<Rightarrow> wire_codec \<times> bus" where
  "negotiate e conn first b =
     (let (codec, r) = negotiated first;
          b1 = apply_negotiated_role r conn b;
          b2 = snd (send_msg e JsonLineCodec conn (initial_response conn first) b1)
      in (codec, b2))"

section \<open>Cleanup\<close>

definition departing_connection_was_counted ::
  "subscriber_info option \<Rightarrow> ephemeral_config option \<Rightarrow> bool" where
  "departing_connection_was_counted removed eph =
     (case removed of
        None \<Rightarrow> False
      | Some info \<Rightarrow>
          (case eph of
             None \<Rightarrow> True
           | Some cfg \<Rightarrow> (case count_role cfg of Some r \<Rightarrow> sub_role info = Some r | None \<Rightarrow> True)))"

text \<open>The pass over the tracked sessions: the registry, and the timers it starts.\<close>

fun leave_sessions ::
  "instant \<Rightarrow> string \<Rightarrow> string list \<Rightarrow> registry \<times> (string \<times> instant) list
    \<Rightarrow> registry \<times> (string \<times> instant) list" where
  "leave_sessions now conn [] (r, ts) = (r, ts)"
| "leave_sessions now conn (sid # sids) (r, ts) =
     (case registry_get r sid of
        None \<Rightarrow> leave_sessions now conn sids (r, ts)
      | Some s \<Rightarrow>
          (let (removed, s') = remove_subscriber conn s;
               r1 = registry_put sid s' r;
               was_counted = departing_connection_was_counted removed (ephemeral s')
           in if is_ephemeral s' \<and> was_counted \<and> counted_subscriber_count s' = 0
              then (case schedule_deletion sid (map_option keepalive_secs (ephemeral s')) r1 of
                      (r2, None) \<Rightarrow> leave_sessions now conn sids (r2, ts)
                    | (r2, Some (t, d)) \<Rightarrow>
                        leave_sessions now conn sids (r2, ts @ [(t, now + d * 1000000000)]))
              else leave_sessions now conn sids (r1, ts)))"

definition disconnect :: "env \<Rightarrow> string \<Rightarrow> bus \<Rightarrow> bus" where
  "disconnect e conn b =
     (let b1 = fold (\<lambda>(_, i). kill_task i) (tracked b conn) b;
          b2 = b1\<lparr>conn_meta := kv_remove conn (conn_meta b1),
                  connections := kv_remove conn (connections b1)\<rparr>;
          (r, ts) = leave_sessions (e_now e) conn (map fst (tracked b conn)) (reg b2, timers b2)
      in b2\<lparr>reg := r, timers := ts, subscriber_tasks := kv_remove conn (subscriber_tasks b2)\<rparr>)"

text \<open>A deletion timer that is due.\<close>

definition fire_timer :: "nat \<Rightarrow> instant \<Rightarrow> bus \<Rightarrow> bus" where
  "fire_timer i now b =
     (if i < length (timers b) \<and> snd (timers b ! i) \<le> now
      then b\<lparr>reg := timer_expires (fst (timers b ! i)) (reg b),
             timers := take i (timers b) @ drop (Suc i) (timers b)\<rparr>
      else b)"

section \<open>A connection by itself\<close>

text \<open>
  The message loop and the whole handler when nothing else runs in between; the interleavings
  with other connections, tasks and timers are those of the theory \<open>Bus_Machine\<close>.  Message
  number \<open>k\<close> is handled in the environment \<open>es k\<close>.
\<close>

fun client_loop :: "(nat \<Rightarrow> env) \<Rightarrow> nat \<Rightarrow> wire_codec \<Rightarrow> string \<Rightarrow> client_message list \<Rightarrow> bus \<Rightarrow> outcome" where
  "client_loop es k codec conn [] b = Running b"
| "client_loop es k codec conn (m # ms) b =
     (case handle_message (es k) codec conn m b of
        Panicked b' \<Rightarrow> Panicked b'
      | Running b' \<Rightarrow> client_loop es (Suc k) codec conn ms b')"

text \<open>
  \<open>handle_connection\<close>, given the decoders of the two codecs and the bytes the transport
  delivers.  The fuel bounds the number of messages after the first.
\<close>

definition handle_connection ::
  "nat \<Rightarrow> (nat \<Rightarrow> env) \<Rightarrow> client_message decoder \<Rightarrow> client_message decoder \<Rightarrow> (nat \<Rightarrow> bool)
    \<Rightarrow> read_result list \<Rightarrow> bus \<Rightarrow> outcome option" where
  "handle_connection fuel es json_dec bincode_dec fails reads b =
     (let (conn, b1) = accept_connection fails b
      in case first_message json_dec [] reads of
           None \<Rightarrow> Some (Running (b1\<lparr>connections := kv_remove conn (connections b1),
                                   subscriber_tasks := kv_remove conn (subscriber_tasks b1)\<rparr>))
         | Some (first, buf, reads') \<Rightarrow>
             (let (codec, b2) = negotiate (es 0) conn first b1;
                  dec = (case codec of JsonLineCodec \<Rightarrow> json_dec | BincodeLengthPrefixCodec \<Rightarrow> bincode_dec);
                  buf' = (case codec of JsonLineCodec \<Rightarrow> buf | BincodeLengthPrefixCodec \<Rightarrow> [])
              in case read_messages fuel dec buf' reads' of
                   None \<Rightarrow> None
                 | Some (msgs, _) \<Rightarrow>
                     (case client_loop es 1 codec conn msgs b2 of
                        Panicked b3 \<Rightarrow> Some (Panicked b3)
                      | Running b3 \<Rightarrow> Some (Running (disconnect (es (Suc (length msgs))) conn b3)))))"

text \<open>
  \<open>handle_client\<close> speaks one codec from the start and greets at once; when the greeting does
  not encode it returns without any cleanup.
\<close>

definition handle_client ::
  "nat \<Rightarrow> (nat \<Rightarrow> env) \<Rightarrow> wire_codec \<Rightarrow> client_message decoder \<Rightarrow> (nat \<Rightarrow> bool)
    \<Rightarrow> read_result list \<Rightarrow> bus \<Rightarrow> outcome option" where
  "handle_client fuel es codec dec fails reads b =
     (let (conn, b1) = accept_connection fails b
      in if \<not> e_encodes (es 0) codec (Connected conn) then Some (Running b1)
         else let b2 = snd (send_bytes conn codec (Connected conn) b1)
              in case read_messages fuel dec [] reads of
                   None \<Rightarrow> None
                 | Some (msgs, _) \<Rightarrow>
                     (case client_loop es 1 codec conn msgs b2 of
                        Panicked b3 \<Rightarrow> Some (Panicked b3)
                      | Running b3 \<Rightarrow> Some (Running (disconnect (es (Suc (length msgs))) conn b3))))"

section \<open>Subscribing\<close>

text \<open>The forwarding task of a reliable connection, fed with the chunks its receiver yields.\<close>

lemma forward_run:
  assumes "reliable b addr" and "\<forall>m. e_encodes e codec m" and "i < length (tasks b)"
    and "tasks b ! i = \<lparr>t_conn = addr, t_codec = codec, t_kind = Forward sid rx, t_alive = True\<rparr>"
  shows "sent (fold (\<lambda>c. task_step e i (RecvOk c) RecvClosed) cs b) addr
      = sent b addr @ map (Pair codec) (map (Chunk sid) cs)"
  using assms
proof (induction cs arbitrary: b)
  case (Cons c cs)
  obtain ok b' where s: "send_msg e codec addr (Chunk sid c) b = (ok, b')" by force
  then have b': "ok" "reliable b' addr" "sent b' addr = sent b addr @ [(codec, Chunk sid c)]" "tasks b' = tasks b"
    using send_msg_reliable [OF Cons.prems(1), of e codec "Chunk sid c"] Cons.prems(2)
      send_msg_result(5) [OF s] by auto
  moreover have "task_step e i (RecvOk c) RecvClosed b = b'"
    using Cons.prems(3,4) s b'(1) by (simp add: task_step_def forward_step_def)
  ultimately show ?case
    using Cons.IH [of b'] Cons.prems by simp
qed simp

lemma handle_subscribe_reliable:
  assumes "registry_get (reg b) sid = Some s" and "reliable b conn" and "\<forall>m. e_encodes e codec m"
  defines "ret \<equiv> map fst (filter (\<lambda>(_, d). e_now e < d) (retained s))"
  defines "b1 \<equiv> handle_subscribe e codec conn sid b"
  shows "reliable b1 conn"
    and "tasks b1 = tasks b @ [\<lparr>t_conn = conn, t_codec = codec, t_kind = Forward sid (length (tx s)), t_alive = True\<rparr>]"
    and "sent b1 conn = sent b conn @ map (Pair codec)
          (map (Chunk sid) (history s @ ret) @ [HistoryComplete sid (length (history s) + length ret)])"
    and "\<exists>s1. registry_get (reg b1) sid = Some s1 \<and> tx s1 = tx s"
proof -
  obtain p s1 where a: "add_subscriber conn (conn_role b conn) s = (p, s1)" by force
  then have s1: "history s1 = history s" "retained s1 = retained s" "tx s1 = tx s"
    by (auto simp: add_subscriber_def)
  obtain v s2 where d: "drain_retained (e_now e) s1 = (v, s2)" by force
  note f = drain_retained_frame [OF d] drain_retained_spec [OF d]
  have v: "v = ret" using f s1 by (simp add: ret_def)
  let ?b0 = "b\<lparr>reg := registry_put sid s2 (reg b)\<rparr>"
  let ?b2 = "send_until_failure e codec conn (map (Chunk sid) (history s)) ?b0"
  let ?b3 = "send_until_failure e codec conn (map (Chunk sid) ret) ?b2"
  let ?hc = "HistoryComplete sid (length (history s) + length ret)"
  have r2: "sent ?b2 conn = sent b conn @ map (Pair codec) (map (Chunk sid) (history s))" "reliable ?b2 conn"
    using send_until_failure_reliable [of ?b0 conn "map (Chunk sid) (history s)" e codec] assms(2,3) by auto
  have r3: "sent ?b3 conn = sent ?b2 conn @ map (Pair codec) (map (Chunk sid) ret)" "reliable ?b3 conn"
    using send_until_failure_reliable [OF r2(2), of "map (Chunk sid) ret" e codec] assms(3) by auto
  obtain ok b4 where m: "send_msg e codec conn ?hc ?b3 = (ok, b4)" by force
  have r4: "ok" "reliable b4 conn" "sent b4 conn = sent ?b3 conn @ [(codec, ?hc)]"
    using send_msg_reliable [OF r3(2), of e codec ?hc] assms(3) m by auto
  have b1: "b1 = spawn_tracked conn codec sid (Forward sid (length (tx s))) b4"
    using assms(1) a d m v f s1 r4(1)
    by (simp add: b1_def handle_subscribe_def cancel_scheduled_deletion_def subscribe_def)
  note g = send_msg_result [OF m]
  show "reliable b1 conn" using r4(2) by (simp add: b1 reliable_def)
  show "tasks b1 = tasks b @ [\<lparr>t_conn = conn, t_codec = codec, t_kind = Forward sid (length (tx s)), t_alive = True\<rparr>]"
    using g(5) by (simp add: b1 spawn_tracked_def spawn_def)
  show "sent b1 conn = sent b conn @ map (Pair codec)
      (map (Chunk sid) (history s @ ret) @ [HistoryComplete sid (length (history s) + length ret)])"
    using r2 r3 r4 by (simp add: b1)
  show "\<exists>s1. registry_get (reg b1) sid = Some s1 \<and> tx s1 = tx s"
    using g(1) f s1 by (simp add: b1 reg_simps)
qed

text \<open>
  C1: A subscriber misses nothing and receives nothing twice. Over a connection that does not
  fail, a subscription delivers the session's history, then its unexpired retained chunks, then
  one completion message counting both, and then, as long as the broadcast channel hands over
  what it carries, exactly the chunks published after the subscription, in order: no gap and no
  repetition between the replay and the live stream.
\<close>

theorem subscribe_replay_exact:
  assumes "registry_get (reg b) sid = Some s" and "reliable b conn" and "\<forall>m. e_encodes e codec m"
    and "b1 = handle_subscribe e codec conn sid b"
    and "registry_get (reg b1) sid = Some s1" and "publish_all ps s1 = Some s2"
  defines "replay \<equiv> history s @ map fst (filter (\<lambda>(_, d). e_now e < d) (retained s))"
  shows "\<exists>i rx. i < length (tasks b1) \<and> t_kind (tasks b1 ! i) = Forward sid rx
     \<and> sent (fold (\<lambda>c. task_step e i (RecvOk c) RecvClosed) (drop rx (tx s2)) b1) conn
        = sent b conn @ map (Pair codec)
            (map (Chunk sid) replay @ [HistoryComplete sid (length replay)] @ map (Chunk sid) (map snd ps))"
proof -
  note h = handle_subscribe_reliable [OF assms(1-3), folded assms(4)]
  have "drop (length (tx s)) (tx s2) = map snd ps"
    using publish_all_tx [OF assms(6)] h(4) assms(5) by auto
  then show ?thesis
    using h(2,3) forward_run [OF h(1) assms(3), of "length (tasks b)" sid "length (tx s)" "map snd ps"]
    by (intro exI [of _ "length (tasks b)"] exI [of _ "length (tx s)"]) (simp add: replay_def)
qed

theorem subscribe_replay_exact_witness:
  "\<exists>b1 s1 s2 i rx. b1 = handle_subscribe (demo_env 5) JsonLineCodec ''c-1'' ''p'' demo_bus
     \<and> registry_get (reg b1) ''p'' = Some s1 \<and> publish_all [(6, demo_text ''z'')] s1 = Some s2
     \<and> sent (fold (\<lambda>c. task_step (demo_env 5) i (RecvOk c) RecvClosed) (drop rx (tx s2)) b1) ''c-1''
        = map (Pair JsonLineCodec)
            [Chunk ''p'' (demo_text ''a''), Chunk ''p'' (demo_text ''y''), HistoryComplete ''p'' 2,
             Chunk ''p'' (demo_text ''z'')]"
proof -
  let ?s = "session_new ''p'' ''chat''
        \<lparr>history := [demo_text ''a''], retained := [(demo_text ''x'', 3), (demo_text ''y'', 9)]\<rparr>"
  have s: "registry_get (reg demo_bus) ''p'' = Some ?s"
    by (simp add: registry_get_def demo_bus_def demo_registry_def)
  have e: "\<forall>m. e_encodes (demo_env 5) JsonLineCodec m" and n: "e_now (demo_env 5) = 5"
    by (simp_all add: demo_env_def)
  let ?b1 = "handle_subscribe (demo_env 5) JsonLineCodec ''c-1'' ''p'' demo_bus"
  obtain s1 where s1: "registry_get (reg ?b1) ''p'' = Some s1"
    using handle_subscribe_reliable(4) [OF s demo_reliable(1) e] by blast
  obtain s2 where s2: "publish_all [(6, demo_text ''z'')] s1 = Some s2"
    by (simp add: session_publish_ordinary)
  have "sent demo_bus ''c-1'' = []" by (simp add: sent_def demo_bus_def demo_writer_def)
  then show ?thesis
    using subscribe_replay_exact [OF s demo_reliable(1) e refl s1 s2] s1 s2 n
    by (auto simp: numeral_2_eq_2)
qed

section \<open>Leaving\<close>

text \<open>
  What becomes of a session that a departing connection tracked: it loses that subscriber, and
  if the subscriber counted, none is left and no keepalive is configured, it goes at once.
\<close>

definition left_by :: "string \<Rightarrow> session_state \<Rightarrow> session_state option" where
  "left_by conn s =
     (let (removed, s') = remove_subscriber conn s
      in if departing_connection_was_counted removed (ephemeral s') \<and> counted_subscriber_count s' = 0
            \<and> (\<exists>cfg. ephemeral s' = Some cfg \<and> keepalive_secs cfg = 0)
         then None else Some s')"

lemma remove_subscriber_frame:
  assumes "remove_subscriber conn s = (p, s')"
  shows "session_id s' = session_id s" "agent_id s' = agent_id s" "history s' = history s" "tx s' = tx s"
    "retained s' = retained s" "ephemeral s' = ephemeral s" "tags s' = tags s" "parent_id s' = parent_id s"
    "kv_get (subscribers s') = (kv_get (subscribers s))(conn := None)"
  using assms by (auto simp: remove_subscriber_def kv_simps)

lemma remove_subscriber_twice:
  assumes "remove_subscriber conn s = (p, s')"
  shows "remove_subscriber conn s' = (None, s')"
proof -
  have "kv_remove conn (kv_remove conn m) = kv_remove conn m" for m :: "(string, subscriber_info) kv"
    by (simp add: kv_remove_def)
  then show ?thesis using assms by (auto simp: remove_subscriber_def kv_simps)
qed

lemma left_by_twice: "left_by conn s = Some s' \<Longrightarrow> left_by conn s' = Some s'"
  by (auto simp: left_by_def departing_connection_was_counted_def Let_def
      dest: remove_subscriber_twice split: prod.splits if_splits)

lemma leave_sessions_get:
  "registry_get (fst (leave_sessions now conn sids (r, ts))) sid =
     (if sid \<in> set sids then Option.bind (registry_get r sid) (left_by conn) else registry_get r sid)"
proof (induction sids arbitrary: r ts)
  case Nil
  then show ?case by simp
next
  case (Cons x sids)
  show ?case
  proof (cases "registry_get r x")
    case None
    with Cons show ?thesis by simp
  next
    case (Some s)
    obtain p s' where rm: "remove_subscriber conn s = (p, s')" by force
    let ?r1 = "registry_put x s' r"
    define r2 where "r2 = (case left_by conn s of None \<Rightarrow> snd (registry_remove x ?r1) | Some _ \<Rightarrow> ?r1)"
    have "\<exists>ts'. leave_sessions now conn (x # sids) (r, ts) = leave_sessions now conn sids (r2, ts')"
    proof (cases "is_ephemeral s' \<and> departing_connection_was_counted p (ephemeral s')
        \<and> counted_subscriber_count s' = 0")
      case True
      then obtain cfg where cfg: "ephemeral s' = Some cfg" by (auto simp: is_ephemeral_def)
      show ?thesis
        using True cfg Some rm
        by (cases "keepalive_secs cfg = 0")
           (auto simp: r2_def left_by_def schedule_deletion_def reg_simps is_ephemeral_def)
    next
      case False
      then have "left_by conn s = Some s'" using rm by (auto simp: left_by_def is_ephemeral_def)
      with False Some rm show ?thesis by (auto simp: r2_def)
    qed
    moreover have "registry_get r2 = (registry_get r)(x := left_by conn s)"
      using rm by (auto simp: r2_def reg_simps left_by_def split: if_splits)
    ultimately show ?thesis
      using Cons.IH [of r2] Some left_by_twice [of conn s]
      by (cases "left_by conn s") auto
  qed
qed

lemma kill_task_frame [bus_frame, simp]:
  "reg (kill_task i b) = reg b" "connections (kill_task i b) = connections b"
  "writers (kill_task i b) = writers b" "conn_meta (kill_task i b) = conn_meta b"
  "timers (kill_task i b) = timers b" "subscriber_tasks (kill_task i b) = subscriber_tasks b"
  "next_conn_id (kill_task i b) = next_conn_id b" "length (tasks (kill_task i b)) = length (tasks b)"
  by (simp_all add: kill_task_def)

lemma kill_tasks_frame [bus_frame, simp]:
  "reg (fold (\<lambda>(_, i). kill_task i) hs b) = reg b"
  "connections (fold (\<lambda>(_, i). kill_task i) hs b) = connections b"
  "writers (fold (\<lambda>(_, i). kill_task i) hs b) = writers b"
  "conn_meta (fold (\<lambda>(_, i). kill_task i) hs b) = conn_meta b"
  "timers (fold (\<lambda>(_, i). kill_task i) hs b) = timers b"
  "subscriber_tasks (fold (\<lambda>(_, i). kill_task i) hs b) = subscriber_tasks b"
  "next_conn_id (fold (\<lambda>(_, i). kill_task i) hs b) = next_conn_id b"
  "length (tasks (fold (\<lambda>(_, i). kill_task i) hs b)) = length (tasks b)"
  by (induction hs arbitrary: b) auto

lemma kill_task_alive:
  "j < length (tasks b) \<Longrightarrow> t_alive (tasks (kill_task i b) ! j) = (t_alive (tasks b ! j) \<and> j \<noteq> i)"
  by (auto simp: kill_task_def nth_list_update)

lemma kill_tasks_alive:
  "j < length (tasks b) \<Longrightarrow>
     t_alive (tasks (fold (\<lambda>(_, i). kill_task i) hs b) ! j) = (t_alive (tasks b ! j) \<and> j \<notin> snd ` set hs)"
proof (induction hs arbitrary: b)
  case (Cons h hs)
  then show ?case using kill_task_alive [of j b "snd h"] by (auto simp: case_prod_beta)
qed simp

lemma disconnect_parts:
  "reg (disconnect e conn b)
     = fst (leave_sessions (e_now e) conn (map fst (tracked b conn)) (reg b, timers b))"
  "timers (disconnect e conn b)
     = snd (leave_sessions (e_now e) conn (map fst (tracked b conn)) (reg b, timers b))"
  "connections (disconnect e conn b) = kv_remove conn (connections b)"
  "conn_meta (disconnect e conn b) = kv_remove conn (conn_meta b)"
  "subscriber_tasks (disconnect e conn b) = kv_remove conn (subscriber_tasks b)"
  "writers (disconnect e conn b) = writers b"
  "tasks (disconnect e conn b) = tasks (fold (\<lambda>(_, i). kill_task i) (tracked b conn) b)"
  "next_conn_id (disconnect e conn b) = next_conn_id b"
  by (simp_all add: disconnect_def Let_def split: prod.split)

text \<open>
  What a connection leaves behind. When it ends it is gone from the tables of connections
  and of roles and its tracked tasks are stopped. Each session it tracked loses this one
  subscriber and nothing else, except that a session without keepalive whose last counted
  subscriber this was is deleted; every session it did not track is left exactly as it was.
\<close>

theorem disconnect_effect:
  assumes "b' = disconnect e conn b"
  shows "kv_get (connections b') = (kv_get (connections b))(conn := None)
    \<and> kv_get (conn_meta b') = (kv_get (conn_meta b))(conn := None)
    \<and> (\<forall>j < length (tasks b). t_alive (tasks b' ! j) = (t_alive (tasks b ! j) \<and> j \<notin> snd ` set (tracked b conn)))
    \<and> (\<forall>sid. registry_get (reg b') sid =
          (if sid \<in> fst ` set (tracked b conn) then Option.bind (registry_get (reg b) sid) (left_by conn)
           else registry_get (reg b) sid))"
  using assms by (simp add: disconnect_parts kv_simps kill_tasks_alive leave_sessions_get)

definition demo_info :: "string option \<Rightarrow> subscriber_info" where
  "demo_info r = \<lparr>sub_conn_id = ''c-1'', sub_role = r\<rparr>"

definition demo_ephemeral :: "nat \<Rightarrow> string option \<Rightarrow> bus" where
  "demo_ephemeral keepalive r =
     demo_bus\<lparr>reg := \<lparr>sessions = [(''e'', session_new ''e'' ''chat''
         \<lparr>ephemeral := Some \<lparr>keepalive_secs = keepalive, count_role = Some ''ui''\<rparr>,
          subscribers := [(''c-1'', demo_info r)]\<rparr>)], event_tx = []\<rparr>,
       tasks := [\<lparr>t_conn = ''c-1'', t_codec = JsonLineCodec, t_kind = Forward ''e'' 0, t_alive = True\<rparr>],
       subscriber_tasks := [(''c-1'', [(''e'', 0)])]\<rparr>"

text \<open>A counted subscriber takes the session along, an uncounted one does not.\<close>

theorem disconnect_effect_witness:
  "registry_get (reg (disconnect (demo_env 0) ''c-1'' (demo_ephemeral 0 (Some ''ui'')))) ''e'' = None
   \<and> registry_get (reg (disconnect (demo_env 0) ''c-1'' (demo_ephemeral 0 None))) ''e'' \<noteq> None"
proof -
  have g: "registry_get (reg (disconnect (demo_env 0) ''c-1'' (demo_ephemeral 0 r))) ''e''
      = Option.bind (registry_get (reg (demo_ephemeral 0 r)) ''e'') (left_by ''c-1'')" for r
    using disconnect_effect [OF refl, of "demo_env 0" "''c-1''" "demo_ephemeral 0 r"]
    by (simp add: tracked_def) (simp add: demo_ephemeral_def)
  show ?thesis
    unfolding g
    by (simp add: demo_ephemeral_def registry_get_def left_by_def remove_subscriber_def kv_remove_def
        departing_connection_was_counted_def counted_subscriber_count_def demo_info_def)
qed

section \<open>Keepalive timers\<close>

text \<open>
  A deletion timer is not tied to the departure that started it. When a timer falls due
  and the session has no counted subscriber at that moment, the session is deleted, however
  recently its last subscriber left; a session with a counted subscriber, or one that is no
  longer there, is left alone. The timer is used up in any case.
\<close>

theorem timer_deletes_iff_unwatched:
  assumes "i < length (timers b)" and "timers b ! i = (sid, due)" and "due \<le> now"
  shows "registry_get (reg (fire_timer i now b)) sid =
      (case registry_get (reg b) sid of
         None \<Rightarrow> None
       | Some s \<Rightarrow> if ephemeral s \<noteq> None \<and> counted_subscriber_count s = 0 then None else Some s)
    \<and> (\<forall>sid'. sid' \<noteq> sid \<longrightarrow> registry_get (reg (fire_timer i now b)) sid' = registry_get (reg b) sid')
    \<and> length (timers (fire_timer i now b)) = length (timers b) - 1"
  using assms by (auto simp: fire_timer_def get_timer_expires is_ephemeral_def split: option.splits)

text \<open>
  A run of the bus in which a viewer leaves at time 0, returns at 5 s, and leaves again at 9 s,
  with a keepalive of 10 s: the timer of the first departure deletes the session at 10 s.
\<close>

definition secs :: "nat \<Rightarrow> instant" where "secs n = n * 1000000000"

definition stale_timer_run :: bus where
  "stale_timer_run =
     (let b1 = disconnect (demo_env (secs 0)) ''c-1'' (demo_ephemeral 10 (Some ''ui''));
          b2 = handle_subscribe (demo_env (secs 5)) JsonLineCodec ''c-2'' ''e''
                 (handle_set_meta ''c-2'' (Some ''ui'') b1)
      in disconnect (demo_env (secs 9)) ''c-2'' b2)"

lemmas stale_timer_defs =
  stale_timer_run_def demo_ephemeral_def demo_info_def demo_bus_def demo_writer_def demo_env_def secs_def
  Let_def disconnect_def tracked_def kill_task_def kv_remove_def registry_get_def registry_put_def
  remove_subscriber_def departing_connection_was_counted_def counted_subscriber_count_def
  is_ephemeral_def schedule_deletion_def handle_subscribe_def handle_set_meta_def
  cancel_scheduled_deletion_def add_subscriber_def conn_role_def drain_retained_def subscribe_def
  send_msg_def send_bytes_def spawn_tracked_def spawn_def session_new_def

lemma stale_timer_run_eq:
  "timers stale_timer_run = [(''e'', secs 10), (''e'', secs 19)]"
  "\<exists>s. registry_get (reg stale_timer_run) ''e'' = Some s \<and> ephemeral s \<noteq> None
     \<and> counted_subscriber_count s = 0"
  by (simp_all add: stale_timer_defs bus_new_def registry_new_def)

theorem timer_deletes_iff_unwatched_witness:
  "registry_get (reg stale_timer_run) ''e'' \<noteq> None
   \<and> registry_get (reg (fire_timer 0 (secs 10) stale_timer_run)) ''e'' = None"
proof -
  obtain s where "registry_get (reg stale_timer_run) ''e'' = Some s" "ephemeral s \<noteq> None"
    "counted_subscriber_count s = 0"
    using stale_timer_run_eq(2) by blast
  then show ?thesis
    using timer_deletes_iff_unwatched [of 0 stale_timer_run "''e''" "secs 10" "secs 10"]
    by (simp add: stale_timer_run_eq(1))
qed

section \<open>A subscription that fails half way\<close>

lemma send_bytes_broken:
  "kv_get (writers b) a = Some w \<Longrightarrow> \<forall>k. w_fails w k \<Longrightarrow>
     \<not> fst (send_bytes a c m b)
     \<and> (\<exists>w'. kv_get (writers (snd (send_bytes a c m b))) a = Some w' \<and> w_fails w' = w_fails w)"
  by (simp add: send_bytes_def kv_simps)

definition broken :: "bus \<Rightarrow> string \<Rightarrow> bool" where
  "broken b a \<longleftrightarrow> (\<exists>w. kv_get (writers b) a = Some w \<and> (\<forall>k. w_fails w k))"

lemma send_msg_broken:
  "broken b a \<Longrightarrow> broken (snd (send_msg e c a m b)) a"
  "broken b a \<Longrightarrow> e_encodes e c m \<Longrightarrow> \<not> fst (send_msg e c a m b)"
  by (auto simp: broken_def send_msg_def send_bytes_def kv_simps)

lemma send_until_failure_broken: "broken b a \<Longrightarrow> broken (send_until_failure e c a ms b) a"
  using send_msg_broken(1)
  by (induction ms arbitrary: b) (auto split: prod.splits bool.splits, (metis snd_conv)+)

text \<open>
  A subscriber that is never removed. When the connection dies before the completion
  message of a subscription is written, the connection stays registered as a subscriber of the
  session but is not recorded for cleanup, so the end of the connection does not remove it; if
  it counts for the session's lifecycle, no deletion timer will ever delete the session.
\<close>

theorem failed_subscribe_leaks_subscriber:
  assumes "registry_get (reg b) sid = Some s" and "broken b conn" and "\<forall>m. e_encodes e codec m"
    and "sid \<notin> fst ` set (tracked b conn)" and "ephemeral s = Some cfg"
    and "count_role cfg = None \<or> count_role cfg = conn_role b conn"
  shows "\<exists>s'. registry_get (reg (disconnect e' conn (handle_subscribe e codec conn sid b))) sid = Some s'
     \<and> conn \<in> subscriber_conn_ids s' \<and> counted_subscriber_count s' \<noteq> 0"
proof -
  obtain p s1 where a: "add_subscriber conn (conn_role b conn) s = (p, s1)" by force
  obtain v s2 where d: "drain_retained (e_now e) s1 = (v, s2)" by force
  let ?b3 = "send_until_failure e codec conn (map (Chunk sid) v)
      (send_until_failure e codec conn (map (Chunk sid) (history s2)) (b\<lparr>reg := registry_put sid s2 (reg b)\<rparr>))"
  have "broken ?b3 conn"
    using assms(2) by (intro send_until_failure_broken) (simp add: broken_def)
  then obtain b4 where m: "send_msg e codec conn (HistoryComplete sid (length (history s2) + length v)) ?b3
      = (False, b4)"
    using send_msg_broken(2) assms(3) by (metis (full_types) prod.collapse)
  have h: "handle_subscribe e codec conn sid b = b4"
    using assms(1) a d m by (simp add: handle_subscribe_def cancel_scheduled_deletion_def)
  note f = send_msg_result [OF m]
  have "registry_get (reg b4) sid = Some s2" using f(1) by (simp add: reg_simps)
  moreover have "tracked b4 conn = tracked b conn" using f(6) by (simp add: tracked_def)
  ultimately have g: "registry_get (reg (disconnect e' conn b4)) sid = Some s2"
    using assms(4) by (simp add: disconnect_parts leave_sessions_get)
  have sub: "kv_get (subscribers s2) conn = Some \<lparr>sub_conn_id = conn, sub_role = conn_role b conn\<rparr>"
    and eph: "ephemeral s2 = Some cfg"
    using a drain_retained_frame [OF d] assms(5) by (auto simp: add_subscriber_def kv_simps)
  have "conn \<in> subscriber_conn_ids s2"
    using sub kv_get_None [of "subscribers s2" conn] by (auto simp: subscriber_conn_ids_def)
  moreover have "counted_subscriber_count s2 \<noteq> 0"
    using kv_get_SomeD [OF sub] assms(6) eph
    by (auto simp: counted_subscriber_count_def filter_empty_conv split: option.splits
        intro!: bexI [of _ "(conn, \<lparr>sub_conn_id = conn, sub_role = conn_role b conn\<rparr>)"])
  ultimately show ?thesis using g h by auto
qed

definition demo_broken :: bus where
  "demo_broken = demo_ephemeral 0 None
     \<lparr>writers := [(''c-1'', demo_writer), (''c-2'', demo_writer\<lparr>w_fails := (\<lambda>_. True)\<rparr>)],
      conn_meta := [(''c-2'', \<lparr>meta_role = Some ''ui''\<rparr>)]\<rparr>"

theorem failed_subscribe_leaks_subscriber_witness:
  "\<exists>s'. registry_get (reg (disconnect (demo_env 1) ''c-2''
       (handle_subscribe (demo_env 0) JsonLineCodec ''c-2'' ''e'' demo_broken))) ''e'' = Some s'
     \<and> ''c-2'' \<in> subscriber_conn_ids s' \<and> counted_subscriber_count s' \<noteq> 0"
proof -
  obtain s cfg where s: "registry_get (reg demo_broken) ''e'' = Some s" "ephemeral s = Some cfg"
    "count_role cfg = conn_role demo_broken ''c-2''"
    by (simp add: demo_broken_def demo_ephemeral_def registry_get_def conn_role_def)
  have b: "broken demo_broken ''c-2''" by (simp add: broken_def demo_broken_def)
  have t: "''e'' \<notin> fst ` set (tracked demo_broken ''c-2'')"
    by (simp add: tracked_def demo_broken_def demo_ephemeral_def)
  show ?thesis
    by (rule failed_subscribe_leaks_subscriber [OF s(1) b _ t s(2)]) (use s(3) in simp_all)
qed

section \<open>The handshake\<close>

lemma json_line_decode_error_stable:
  "json_line_decode de buf = Inl err \<Longrightarrow> json_line_decode de (buf @ rest) = Inl err"
proof -
  assume e: "json_line_decode de buf = Inl err"
  then obtain k where k: "position (\<lambda>b. b = newline) buf = Some k"
    by (auto simp: json_line_decode_def split: option.splits)
  have pos: "position P xs = Some k \<Longrightarrow> position P (xs @ ys) = Some k \<and> k < length xs"
    for P and xs ys :: "byte list" and k
    by (induction xs arbitrary: k) (auto split: if_splits)
  from pos [OF k, of rest] have "position (\<lambda>b. b = newline) (buf @ rest) = Some k" "k < length buf"
    by simp_all
  moreover from this have "take k (buf @ rest) = take k buf" by simp
  ultimately show ?thesis using e k by (simp add: json_line_decode_def)
qed

text \<open>
  A malformed first line silences the connection for good. The loop that waits for the
  first message ignores decoding errors without dropping the offending line, so after a first
  line that is not a client message nothing the client sends is ever processed and no error is
  reported: whatever arrives, the handler only waits until the stream ends.
\<close>

theorem malformed_first_line_is_fatal:
  assumes "json_line_decode de buf = Inl err"
  shows "first_message (json_line_decode de) buf reads = None"
  using assms
proof (induction reads arbitrary: buf)
  case Nil
  then show ?case by (simp add: first_message.simps)
next
  case (Cons r reads)
  show ?case
  proof (cases r)
    case (ReadBytes bs)
    with Cons json_line_decode_error_stable [OF Cons.prems, of bs] show ?thesis
      by (simp add: first_message.simps [of _ buf])
  next
    case (ReadErr e)
    with Cons.prems show ?thesis by (simp add: first_message.simps)
  qed
qed

text \<open>An empty line, and then any stream of well-formed messages.\<close>

theorem malformed_first_line_is_fatal_witness:
  "\<forall>ms. first_message (json_line_decode Inr) [newline] (map (\<lambda>m. ReadBytes (m @ [newline])) ms) = None"
  by (intro allI malformed_first_line_is_fatal [of _ _ "CodecDeserialize ''empty line''"])
     (simp add: json_line_decode_def)

text \<open>
  The first message is read for negotiation only. When it does not offer codecs, the
  handler answers it with the greeting and goes on to the next message: whatever it asked for
  (a subscription, a publish, a role without codecs) is not carried out, no role is recorded,
  and no session changes.
\<close>

theorem first_message_not_dispatched:
  assumes "\<forall>r cs. first \<noteq> SetMeta r (Some cs)"
    and "first_message json_dec [] reads = Some (first, buf, reads')"
    and "read_messages fuel json_dec buf reads' = Some ([], err)"
  shows "\<exists>b'. handle_connection fuel es json_dec bin_dec fails reads b = Some (Running b')
     \<and> reg b' = reg b
     \<and> sent b' (conn_name (next_conn_id b))
        = (if e_encodes (es 0) JsonLineCodec (Connected (conn_name (next_conn_id b))) \<and> \<not> fails 0
           then [(JsonLineCodec, Connected (conn_name (next_conn_id b)))] else [])"
proof -
  obtain conn b1 where a: "accept_connection fails b = (conn, b1)" by force
  then have b1: "conn = conn_name (next_conn_id b)" "reg b1 = reg b"
    "kv_get (writers b1) conn = Some \<lparr>w_sent = [], w_tries = 0, w_fails = fails\<rparr>"
    "tracked b1 conn = []"
    by (auto simp: accept_connection_def Let_def kv_simps tracked_def)
  have n: "negotiated first = (JsonLineCodec, None)" "initial_response conn first = Connected conn"
    using assms(1) by (auto simp: negotiated_def initial_response_def split: client_message.splits option.splits)
  let ?b2 = "snd (send_msg (es 0) JsonLineCodec conn (Connected conn) b1)"
  have neg: "negotiate (es 0) conn first b1 = (JsonLineCodec, ?b2)"
    by (simp add: negotiate_def n apply_negotiated_role_def)
  have "handle_connection fuel es json_dec bin_dec fails reads b
      = Some (Running (disconnect (es 1) conn ?b2))"
    using assms(2,3) a neg by (simp add: handle_connection_def)
  moreover have "tracked ?b2 conn = []" using b1(4) by (simp add: tracked_def)
  ultimately show ?thesis
    using b1 by (auto simp: disconnect_parts sent_def send_msg_def send_bytes_def kv_simps)
qed

text \<open>A client whose first line asks for a subscription is greeted and not subscribed.\<close>

definition demo_de :: "byte list \<Rightarrow> string + client_message" where
  "demo_de bs = (if bs = [1] then Inr (Subscribe ''e'') else Inl ''expected value'')"

theorem first_message_not_dispatched_witness:
  "\<exists>b'. handle_connection 1 (\<lambda>_. demo_env 0) (json_line_decode demo_de) (json_line_decode demo_de)
         (\<lambda>_. False) [ReadBytes [1, newline]] (demo_ephemeral 5 None) = Some (Running b')
     \<and> reg b' = reg (demo_ephemeral 5 None)"
proof -
  have f: "first_message (json_line_decode demo_de) [] [ReadBytes [1, newline]] = Some (Subscribe ''e'', [], [])"
    by (simp add: first_message.simps json_line_decode_def demo_de_def newline_def)
  have r: "read_messages 1 (json_line_decode demo_de) [] [] = Some ([], None)"
    by (simp add: next_msg.simps json_line_decode_def)
  show ?thesis
    using first_message_not_dispatched [OF _ f r, of "\<lambda>_. demo_env 0" _ "\<lambda>_. False" "demo_ephemeral 5 None"]
    by auto
qed

section \<open>The message loop ends\<close>

text \<open>A decoder that makes progress consumes at least one byte, and none it was not given.\<close>

definition progresses :: "'m decoder \<Rightarrow> bool" where
  "progresses dec \<longleftrightarrow> (\<forall>buf m n. dec buf = Inr (Some (m, n)) \<longrightarrow> 0 < n \<and> n \<le> length buf)"

lemma json_line_progresses: "progresses (json_line_decode de)"
proof -
  have "position P xs = Some k \<Longrightarrow> k < length xs" for P and xs :: "byte list" and k
    by (induction xs arbitrary: k) (auto split: if_splits)
  then show ?thesis
    by (fastforce simp: progresses_def json_line_decode_def Let_def split: option.splits sum.splits if_splits)
qed

lemma bincode_progresses: "progresses (bincode_decode de unwrap)"
  by (auto simp: progresses_def bincode_decode_def Let_def split: sum.splits if_splits)

lemma next_msg_progress:
  assumes "progresses dec" and "next_msg dec buf reads = (Inr (Some m), buf', reads')"
  shows "length buf' + length (reads_bytes reads') < length buf + length (reads_bytes reads)"
  using assms(2)
proof (induction reads arbitrary: buf)
  case Nil
  then show ?case
    using assms(1) by (auto simp: next_msg.simps progresses_def split: sum.splits option.splits) fastforce
next
  case (Cons r reads)
  show ?case
  proof (cases "dec buf = Inr None")
    case True
    with Cons.prems obtain bs where r: "r = ReadBytes bs" "bs \<noteq> []"
      and n: "next_msg dec (buf @ bs) reads = (Inr (Some m), buf', reads')"
      by (auto simp: next_msg.simps [of dec buf] split: read_result.splits if_splits)
    show ?thesis using Cons.IH [OF n] r by simp
  next
    case False
    with Cons.prems obtain n where "dec buf = Inr (Some (m, n))" "buf' = drop n buf" "reads' = r # reads"
      by (auto simp: next_msg.simps [of dec buf] split: sum.splits option.splits)
    moreover have "0 < n \<and> n \<le> length buf"
      using assms(1) calculation(1) by (auto simp: progresses_def)
    ultimately show ?thesis by auto
  qed
qed

lemma read_messages_returns:
  "progresses dec \<Longrightarrow> length buf + length (reads_bytes reads) < fuel \<Longrightarrow>
     read_messages fuel dec buf reads \<noteq> None"
proof (induction fuel arbitrary: buf reads)
  case (Suc fuel)
  obtain res buf' reads' where n: "next_msg dec buf reads = (res, buf', reads')" by (metis prod_cases3)
  show ?case
  proof (cases res)
    case (Inr om)
    show ?thesis
    proof (cases om)
      case (Some m)
      with Inr n next_msg_progress [OF Suc.prems(1)] Suc.prems(2)
      have "length buf' + length (reads_bytes reads') < fuel" by fastforce
      with Suc.IH [OF Suc.prems(1)] n Inr Some show ?thesis by simp
    qed (simp add: n Inr)
  qed (simp add: n)
qed simp

lemma first_message_bytes:
  "first_message dec buf reads = Some (m, buf', reads') \<Longrightarrow>
     length buf' + length (reads_bytes reads') \<le> length buf + length (reads_bytes reads)"
proof (induction reads arbitrary: buf)
  case Nil
  then show ?case by (auto simp: first_message.simps split: sum.splits option.splits)
next
  case (Cons r reads)
  show ?case
  proof (cases "\<exists>m n. dec buf = Inr (Some (m, n))")
    case True
    with Cons.prems show ?thesis by (auto simp: first_message.simps)
  next
    case False
    with Cons.prems obtain bs where r: "r = ReadBytes bs" "bs \<noteq> []"
      and "first_message dec (buf @ bs) reads = Some (m, buf', reads')"
      by (auto simp: first_message.simps [of dec buf] split: sum.splits option.splits read_result.splits if_splits)
    with Cons.IH [of "buf @ bs"] show ?thesis by simp
  qed
qed

text \<open>
  C9: A connection is served in finitely many steps. On any finite stream of reads, with the
  codecs of the program over any (de)serialiser, the handler returns: it needs at most one
  message per byte received.
\<close>

theorem handle_connection_returns:
  "handle_connection (Suc (length (reads_bytes reads))) es (json_line_decode de)
     (bincode_decode de' unwrap) fails reads b \<noteq> None"
proof (cases "first_message (json_line_decode de) [] reads")
  case None
  then show ?thesis by (simp add: handle_connection_def split: prod.split)
next
  case (Some x)
  then obtain first buf reads' where x: "first_message (json_line_decode de) [] reads = Some (first, buf, reads')"
    by (cases x) auto
  have le: "length buf + length (reads_bytes reads') \<le> length (reads_bytes reads)"
    using first_message_bytes [OF x] by simp
  obtain conn b1 where a: "accept_connection fails b = (conn, b1)" by force
  obtain codec b2 where n: "negotiate (es 0) conn first b1 = (codec, b2)" by force
  obtain msgs err where "read_messages (Suc (length (reads_bytes reads)))
      (case codec of JsonLineCodec \<Rightarrow> json_line_decode de | BincodeLengthPrefixCodec \<Rightarrow> bincode_decode de' unwrap)
      (case codec of JsonLineCodec \<Rightarrow> buf | BincodeLengthPrefixCodec \<Rightarrow> []) reads' = Some (msgs, err)"
    using le read_messages_returns [OF json_line_progresses, of buf reads' "Suc (length (reads_bytes reads))" de]
      read_messages_returns [OF bincode_progresses, of "[]" reads' "Suc (length (reads_bytes reads))" de' unwrap]
    by (cases codec) (auto simp del: read_messages.simps)
  then show ?thesis
    using x a n by (simp add: handle_connection_def del: read_messages.simps split: outcome.split)
qed

end
