(* ===== verification/Bus_Machine.thy ===== *)
theory Bus_Machine
  imports Bus_Connection
begin

text \<open>
  The bus as a whole: a step relation that interleaves, in any order, the connections accepted by
  \<open>cafe-bus/src/main.rs\<close>, the messages of each, the background tasks and the deletion timers, and the
  invariants of every state that can be reached.  A step of a handler or task is atomic: the code
  holds the registry's write lock over each change of a session.  The parameter \<open>P\<close> restricts
  the transports: the statements about reliable transports take those that never fail.  A
  connection id is taken to be fresh, which it is for the first 2^64 connections.
\<close>

section \<open>Steps of the bus\<close>

record machine =
  m_bus :: bus
  m_pending :: "string list"
  m_live :: "(string, wire_codec) kv"
  m_clock :: instant

definition machine_start :: "machine \<Rightarrow> bool" where
  "machine_start m \<longleftrightarrow> m = \<lparr>m_bus = bus_new, m_pending = [], m_live = [], m_clock = m_clock m\<rparr>"

inductive bus_step :: "((nat \<Rightarrow> bool) \<Rightarrow> bool) \<Rightarrow> machine \<Rightarrow> machine \<Rightarrow> bool" for P where
  tick: "bus_step P m (m\<lparr>m_clock := m_clock m + d\<rparr>)"
| accepted:
    "P fails \<Longrightarrow> kv_get (writers (m_bus m)) (conn_name (next_conn_id (m_bus m))) = None \<Longrightarrow>
     accept_connection fails (m_bus m) = (conn, b) \<Longrightarrow>
     bus_step P m (m\<lparr>m_bus := b, m_pending := conn # m_pending m\<rparr>)"
| hung_up:
    "conn \<in> set (m_pending m) \<Longrightarrow>
     bus_step P m (m\<lparr>m_bus := (m_bus m)\<lparr>connections := kv_remove conn (connections (m_bus m))\<rparr>,
                     m_pending := removeAll conn (m_pending m)\<rparr>)"
| greeted:
    "conn \<in> set (m_pending m) \<Longrightarrow> negotiate e conn first (m_bus m) = (codec, b) \<Longrightarrow>
     bus_step P m (m\<lparr>m_bus := b, m_pending := removeAll conn (m_pending m),
                     m_live := kv_insert conn codec (m_live m)\<rparr>)"
| handled:
    "kv_get (m_live m) conn = Some codec \<Longrightarrow> e_now e = m_clock m \<Longrightarrow>
     handle_message e codec conn msg (m_bus m) = Running b \<Longrightarrow>
     bus_step P m (m\<lparr>m_bus := b\<rparr>)"
| crashed:
    "kv_get (m_live m) conn = Some codec \<Longrightarrow> e_now e = m_clock m \<Longrightarrow>
     handle_message e codec conn msg (m_bus m) = Panicked b \<Longrightarrow>
     bus_step P m (m\<lparr>m_bus := b, m_live := kv_remove conn (m_live m)\<rparr>)"
| left_bus:
    "kv_get (m_live m) conn = Some codec \<Longrightarrow> e_now e = m_clock m \<Longrightarrow>
     bus_step P m (m\<lparr>m_bus := disconnect e conn (m_bus m), m_live := kv_remove conn (m_live m)\<rparr>)"
| task_turn:
    "e_now e = m_clock m \<Longrightarrow> bus_step P m (m\<lparr>m_bus := task_step e i cres eres (m_bus m)\<rparr>)"
| timer_due: "bus_step P m (m\<lparr>m_bus := fire_timer i (m_clock m) (m_bus m)\<rparr>)"

inductive_cases bus_stepE: "bus_step P m m'"

section \<open>The registry invariant holds throughout\<close>

lemma negotiate_frame:
  assumes "negotiate e conn first b = (codec, b')"
  shows "reg b' = reg b" "connections b' = connections b" "subscriber_tasks b' = subscriber_tasks b"
    "tasks b' = tasks b" "timers b' = timers b" "kv_keys (writers b') = kv_keys (writers b)"
  using assms
  by (auto simp: negotiate_def apply_negotiated_role_def Let_def bus_frame split: prod.splits option.splits)

lemma accept_frame:
  assumes "accept_connection fails b = (conn, b')"
  shows "reg b' = reg b" "conn = conn_name (next_conn_id b)" "tasks b' = tasks b" "timers b' = timers b"
    "connections b' = kv_insert conn conn (connections b)"
    "subscriber_tasks b' = kv_insert conn [] (subscriber_tasks b)"
    "writers b' = kv_insert conn \<lparr>w_sent = [], w_tries = 0, w_fails = fails\<rparr> (writers b)"
  using assms by (auto simp: accept_connection_def Let_def)

lemma leave_sessions_inv: "registry_inv r \<Longrightarrow> registry_inv (fst (leave_sessions now conn sids (r, ts)))"
proof (induction sids arbitrary: r ts)
  case (Cons sid sids)
  show ?case
  proof (cases "registry_get r sid")
    case None
    with Cons show ?thesis by simp
  next
    case (Some s)
    obtain p s' where rm: "remove_subscriber conn s = (p, s')" by force
    have "session_ok sid s'"
      using registry_inv_get [OF Cons.prems Some] session_inv_remove [OF _ rm] remove_subscriber_frame [OF rm]
      by (simp add: session_ok_def)
    then have "registry_inv (registry_put sid s' r)" using registry_inv_put [OF Cons.prems] by simp
    then show ?thesis
      using Cons.IH registry_inv_schedule [of "registry_put sid s' r" sid "map_option keepalive_secs (ephemeral s')"]
        Some rm
      by (auto simp: Let_def split: prod.splits option.splits)
  qed
qed simp

lemma replay_session_reg:
  "registry_inv (reg b) \<Longrightarrow> registry_get (reg b) sid = Some s \<Longrightarrow>
     registry_inv (reg (replay_session e codec addr f sid s b))"
  by (auto simp: replay_session_def bus_frame intro: registry_inv_drain split: prod.split)

lemma forward_steps_reg [bus_frame, simp]:
  "reg (forward_step e i codec addr sid res b) = reg b"
  "reg (forward_filtered_step e i codec addr f sid res b) = reg b"
  by (auto simp: forward_step_def forward_filtered_step_def bus_frame dest: send_msg_result(1)
      split: recv_result.splits prod.splits bool.splits)

lemma events_step_reg:
  "registry_inv (reg b) \<Longrightarrow> registry_inv (reg (events_step e i codec addr res b))"
  by (auto simp: events_step_def Let_def bus_frame intro!: replay_session_reg
      split: recv_result.splits server_message.splits option.splits)

lemma events_filtered_step_reg:
  "registry_inv (reg b) \<Longrightarrow> registry_inv (reg (events_filtered_step e i codec addr f res b))"
  by (auto simp: events_filtered_step_def Let_def bus_frame intro: registry_inv_drain
      split: recv_result.splits server_message.splits option.splits prod.splits)

lemma task_step_reg: "registry_inv (reg b) \<Longrightarrow> registry_inv (reg (task_step e i cres eres b))"
  by (auto simp: task_step_def Let_def bus_frame events_step_reg events_filtered_step_reg
      split: task_kind.splits option.splits)

lemma fire_timer_reg: "registry_inv (reg b) \<Longrightarrow> registry_inv (reg (fire_timer i now b))"
  by (simp add: fire_timer_def registry_inv_timer)

lemma panicked_same: "handle_message e codec conn m b = Panicked b' \<Longrightarrow> b' = b"
  by (cases m)
     (auto simp: handle_create_session_def handle_set_session_tags_def handle_publish_def Let_def
      split: sum.splits option.splits if_splits)

definition bus_safe :: "machine \<Rightarrow> bool" where
  "bus_safe m \<longleftrightarrow> registry_inv (reg (m_bus m))"

lemma bus_safe_step: "bus_safe m \<Longrightarrow> bus_step P m m' \<Longrightarrow> bus_safe m'"
  by (erule bus_stepE)
     (auto simp: bus_safe_def accept_frame(1) negotiate_frame(1) disconnect_parts leave_sessions_inv
        task_step_reg fire_timer_reg dest: handle_message_registry_inv panicked_same)

lemma bus_safe_start: "machine_start m \<Longrightarrow> bus_safe m"
  unfolding machine_start_def bus_safe_def
  by (metis bus.select_convs(1) bus_new_def machine.select_convs(1) registry_inv_new)

interpretation registry_safe: safe_system machine_start "bus_step P" bus_safe
  using bus_safe_start bus_safe_step by unfold_locales

text \<open>
  C2: The state of the bus is always well formed. Whatever the clients send and however the
  connections, background tasks and timers interleave, every session is stored under its own
  id, carries valid tags only, has only durable chunks in its history (no transient chunk and no
  delete signal), and keeps for late subscribers only transient chunks that asked for it.
\<close>

theorem reachable_sessions_ok:
  assumes "machine_start m\<^sub>0" and "(bus_step P)\<^sup>*\<^sup>* m\<^sub>0 m" and "registry_get (reg (m_bus m)) sid = Some s"
  shows "session_id s = sid \<and> (\<forall>t \<in> set (tags s). tag_ok t)
    \<and> (\<forall>c \<in> set (history s). \<not> is_transient c \<and> delete_target c = None)
    \<and> (\<forall>(c, _) \<in> set (retained s). is_transient c \<and> retain_secs c \<noteq> None)"
proof -
  have "bus_safe m" using registry_safe.inv_reachable [OF assms(1,2)] .
  then have "session_ok sid s" using assms(3) registry_inv_get by (simp add: bus_safe_def)
  then show ?thesis
    by (auto simp: session_ok_def session_inv_def durable_def dest!: retain_secs_transient)
qed

section \<open>No ghost subscribers\<close>


definition fails_of :: "bus \<Rightarrow> string \<Rightarrow> (nat \<Rightarrow> bool) option" where
  "fails_of b a = map_option w_fails (kv_get (writers b) a)"

lemma fails_of_upd [simp]:
  "fails_of (b\<lparr>reg := r\<rparr>) = fails_of b" "fails_of (b\<lparr>conn_meta := cm\<rparr>) = fails_of b"
  "fails_of (b\<lparr>connections := cs\<rparr>) = fails_of b" "fails_of (spawn x c k b) = fails_of b"
  "fails_of (spawn_tracked x c s k b) = fails_of b" "fails_of (kill_task i b) = fails_of b"
  by (simp_all add: fails_of_def fun_eq_iff)

lemma fails_of_send [simp]:
  "fails_of (snd (send_bytes a c m b)) = fails_of b"
  "fails_of (snd (send_msg e c a m b)) = fails_of b"
  "fails_of (send_error e c a i x k b) = fails_of b"
  by (auto simp: fails_of_def send_msg_def send_error_def send_bytes_def kv_simps fun_eq_iff
      split: option.splits)

lemma fails_of_send_pair: "send_msg e c a m b = (ok, b') \<Longrightarrow> fails_of b' = fails_of b"
  using fails_of_send(2) [of e c a m b] by simp

lemma fails_of_sends [simp]:
  "fails_of (send_until_failure e c a ms b) = fails_of b"
  "fails_of (send_each e c a ms b) = fails_of b"
  "fails_of (replay_and_forward e c a s h r x f b) = fails_of b"
proof -
  show "fails_of (send_until_failure e c a ms b) = fails_of b"
    by (induction ms arbitrary: b) (auto dest: fails_of_send_pair split: prod.splits bool.splits)
  have each: "fails_of (send_each e c a ms b) = fails_of b" for ms b
    by (induction ms arbitrary: b) simp_all
  then show "fails_of (send_each e c a ms b) = fails_of b" .
  show "fails_of (replay_and_forward e c a s h r x f b) = fails_of b"
    by (simp add: replay_and_forward_def each)
qed

lemma fails_of_announce [simp]: "fails_of (announce e c a f sn b) = fails_of b"
  by (induction e c a f sn b rule: announce.induct) simp_all



lemma subscriber_ids_frame:
  "drain_retained now s = (v, s') \<Longrightarrow> subscriber_conn_ids s' = subscriber_conn_ids s"
  "session_publish now c s = Some s' \<Longrightarrow> subscriber_conn_ids s' = subscriber_conn_ids s"
  "retained_with_deadlines now s = (ret, s') \<Longrightarrow> subscriber_conn_ids s' = subscriber_conn_ids s"
  "subscriber_conn_ids (session_new sid aid) = {}"
  "add_subscriber conn r s = (p, s') \<Longrightarrow> subscriber_conn_ids s' = insert conn (subscriber_conn_ids s)"
  "remove_subscriber conn s = (p, s') \<Longrightarrow> subscriber_conn_ids s' = subscriber_conn_ids s - {conn}"
  by (auto simp: subscriber_conn_ids_def session_new_def kv_keys_def [of "[]"]
      drain_retained_frame session_publish_frame retained_with_deadlines_frame add_subscriber_def
      remove_subscriber_def kv_simps)




lemma tracked_cong: "subscriber_tasks b' = subscriber_tasks b \<Longrightarrow> tracked b' = tracked b"
  by (simp add: tracked_def fun_eq_iff)

lemma tracked_spawn_tracked [simp]:
  "tracked (spawn_tracked conn codec sid k b) c
     = (if c = conn then tracked b conn @ [(sid, length (tasks b))] else tracked b c)"
  by (simp add: tracked_def spawn_tracked_def kv_simps)

lemma tracked_upd [simp]:
  "tracked (b\<lparr>reg := r\<rparr>) = tracked b" "tracked (b\<lparr>conn_meta := cm\<rparr>) = tracked b"
  "tracked (snd (send_msg e c a m b)) = tracked b" "tracked (send_error e c a i x k b) = tracked b"
  "tracked (announce e c a f sn b) = tracked b"
  by (auto intro!: tracked_cong)







lemma replay_session_tables:
  "connections (replay_session e codec addr f sid s b) = connections b"
  "subscriber_tasks (replay_session e codec addr f sid s b) = subscriber_tasks b"
  by (simp_all add: replay_session_def bus_frame split: prod.split)

lemma tracked_replay [simp]: "tracked (replay_session e codec addr f sid s b) = tracked b"
  by (rule tracked_cong) (rule replay_session_tables(2))

lemma tracked_kill [simp]: "tracked (kill_task i b) = tracked b"
  by (rule tracked_cong) simp



definition never_fails :: "(nat \<Rightarrow> bool) \<Rightarrow> bool" where
  "never_fails f \<longleftrightarrow> (\<forall>k. \<not> f k)"

lemma kv_contains_insert [simp]: "kv_contains (kv_insert k v m) k' \<longleftrightarrow> k' = k \<or> kv_contains m k'"
  by (auto simp: kv_contains_def kv_simps)

lemma kv_contains_remove [simp]: "kv_contains (kv_remove k m) k' \<longleftrightarrow> k' \<noteq> k \<and> kv_contains m k'"
  by (auto simp: kv_contains_def kv_simps)















section \<open>What can make a session disappear\<close>




section \<open>Histories are isolated\<close>

fun addresses :: "client_message \<Rightarrow> string \<Rightarrow> bool" where
  "addresses (Publish x _) sid = (x = sid)"
| "addresses (SetSessionTags x _) sid = (x = sid)"
| "addresses (CreateSession x _ _) sid = (x = sid)"
| "addresses (ForkSession _ x _) sid = (x = sid)"
| "addresses (DeleteSession x) sid = (x = sid)"
| "addresses _ sid = False"

lemma snapshot_history:
  "snapshot now keep sids r = (sn, r') \<Longrightarrow>
     map_option history (registry_get r' sid) = map_option history (registry_get r sid)"
proof (induction now keep sids r arbitrary: sn r' rule: snapshot.induct)
  case (2 now keep x sids r)
  show ?case
  proof (cases "\<exists>s. registry_get r x = Some s \<and> keep s")
    case True
    then obtain s where s: "registry_get r x = Some s" "keep s" by blast
    obtain ret s' where d: "drain_retained now s = (ret, s')" by force
    obtain rest r2 where sn: "snapshot now keep sids (registry_put x s' r) = (rest, r2)" by force
    from "2.IH"(3) [OF s(1) _ refl d [symmetric] sn] s d sn "2.prems" drain_retained_frame(8) [OF d]
    show ?thesis by (auto simp: reg_simps)
  next
    case False
    with 2 show ?thesis by (auto split: option.splits)
  qed
qed simp

text \<open>
  C6: Histories are isolated. Handling a message changes the history of a session only when the
  message names that session as the one to publish to, tag, create, fork into or delete; in
  particular subscriptions of every kind, and forks of a session, leave its history alone.
\<close>

theorem history_isolation:
  assumes "handle_message e codec conn m b = Running b'" and "\<not> addresses m sid"
  shows "map_option history (registry_get (reg b') sid) = map_option history (registry_get (reg b) sid)"
proof (cases m)
  case (Subscribe x)
  show ?thesis
  proof (cases "registry_get (reg b) x")
    case None
    with assms Subscribe show ?thesis by (auto simp: handle_subscribe_def cancel_scheduled_deletion_def)
  next
    case (Some s)
    obtain p s1 where a: "add_subscriber conn (conn_role b conn) s = (p, s1)" by force
    obtain v s2 where d: "drain_retained (e_now e) s1 = (v, s2)" by force
    have "history s2 = history s" using drain_retained_frame(8) [OF d] a by (auto simp: add_subscriber_def)
    with Some a d assms Subscribe show ?thesis
      by (auto simp: handle_subscribe_def cancel_scheduled_deletion_def Let_def reg_simps
          dest!: send_msg_result(1) split: prod.splits if_splits)
  qed
next
  case SubscribeAll
  with assms show ?thesis
    by (auto simp: handle_subscribe_all_def Let_def split: prod.splits dest: snapshot_history)
next
  case (SubscribeFiltered f)
  with assms show ?thesis
    by (auto simp: handle_subscribe_filtered_def Let_def split: prod.splits dest: snapshot_history)
next
  case (ForkSession p x config)
  with assms show ?thesis
    by (auto simp: handle_fork_session_def registry_fork_def Let_def reg_simps seed_def session_new_def
        dest: retained_with_deadlines_frame split: prod.splits option.splits if_splits)
next
  case (DeleteSession x)
  have "registry_get (snd (registry_remove x (reg b))) sid = registry_get (reg b) sid"
    using assms(2) DeleteSession by (simp add: reg_simps)
  with assms DeleteSession show ?thesis
    by (auto simp: handle_delete_session_def split: prod.splits bool.splits)
next
  case (CreateSession x aid config)
  have "session_id s = x" if "initial_session e x aid config = Some s" for s
    using that by (auto simp: initial_session_eq session_new_def)
  with assms CreateSession show ?thesis
    by (auto simp: handle_create_session_def reg_simps split: option.splits sum.splits if_splits)
qed (use assms in \<open>auto simp: handle_ping_def handle_set_meta_def handle_list_sessions_def handle_publish_def
      handle_set_session_tags_def Let_def reg_simps split: option.splits sum.splits if_splits\<close>)

theorem history_isolation_witness:
  "\<exists>b'. handle_message (demo_env 5) JsonLineCodec ''c-1'' (ForkSession ''p'' ''f'' default_session_config) demo_bus
       = Running b'
     \<and> map_option history (registry_get (reg b') ''p'') = Some [demo_text ''a'']"
proof -
  obtain b' where b': "handle_message (demo_env 5) JsonLineCodec ''c-1''
      (ForkSession ''p'' ''f'' default_session_config) demo_bus = Running b'" by simp
  have "map_option history (registry_get (reg demo_bus) ''p'') = Some [demo_text ''a'']"
    by (simp add: demo_bus_def demo_registry_def registry_get_def session_new_def)
  moreover have "map_option history (registry_get (reg b') ''p'')
      = map_option history (registry_get (reg demo_bus) ''p'')"
    by (rule history_isolation [OF b']) simp
  ultimately show ?thesis using b' by metis
qed

section \<open>A run of the bus\<close>

text \<open>One client connects, negotiates, creates a tagged session and subscribes to it.\<close>

lemma demo_tag: "tag_ok ''t''"
  by (simp add: tag_ok_def MAX_TAG_LEN_def byte_val_def char_is_whitespace_def char_is_control_def)

lemma conn_name_1 [simp]: "conn_name 1 = ''c-1''"
  by (simp add: conn_name_def show_nat.simps char_of_def bit_simps flip: numeral_3_eq_3)

definition demo_m0 :: machine where
  "demo_m0 = \<lparr>m_bus = bus_new, m_pending = [], m_live = [], m_clock = 0\<rparr>"

lemma demo_run:
  "\<exists>m s. (bus_step never_fails)\<^sup>*\<^sup>* demo_m0 m \<and> registry_get (reg (m_bus m)) ''s'' = Some s
     \<and> tags s = [''t''] \<and> ''c-1'' \<in> subscriber_conn_ids s \<and> ephemeral s = None"
proof -
  let ?first = "SetMeta (Some ''ui'') (Some [''json''])"
  obtain b1 where b1: "accept_connection (\<lambda>_. False) bus_new = (''c-1'', b1)"
    by (simp add: accept_connection_def bus_new_def Let_def)
  obtain b2 where b2: "negotiate (demo_env 0) ''c-1'' ?first b1 = (JsonLineCodec, b2)"
    by (simp add: negotiate_def negotiated_def)
  note n = negotiate_frame [OF b2] accept_frame [OF b1]
  have g2: "registry_get (reg b2) ''s'' = None" by (simp add: n(1,7) bus_new_def reg_simps)
  let ?cfg = "default_session_config\<lparr>cfg_tags := Some [''t'']\<rparr>"
  have cfg: "case cfg_tags ?cfg of None \<Rightarrow> True | Some ts \<Rightarrow> \<forall>t \<in> set ts. tag_ok t" by (simp add: demo_tag)
  obtain b3 s3 where b3: "handle_message (demo_env 0) JsonLineCodec ''c-1'' (CreateSession ''s'' ''chat'' ?cfg) b2 = Running b3"
    and s3: "registry_get (reg b3) ''s'' = Some s3" "tags s3 = [''t'']" "ephemeral s3 = None"
    using create_session_run [OF cfg g2, of "demo_env 0" JsonLineCodec "''c-1''" "''chat''"]
    by (auto simp: default_session_config_def)
  have b4: "handle_message (demo_env 0) JsonLineCodec ''c-1'' (Subscribe ''s'') b3
      = Running (handle_subscribe (demo_env 0) JsonLineCodec ''c-1'' ''s'' b3)" (is "_ = Running ?b4") by simp
  obtain p s4 where a: "add_subscriber ''c-1'' (conn_role b3 ''c-1'') s3 = (p, s4)" by force
  obtain v s5 where d: "drain_retained (e_now (demo_env 0)) s4 = (v, s5)" by force
  have s5: "registry_get (reg ?b4) ''s'' = Some s5"
    using s3 a d by (auto simp: handle_subscribe_def cancel_scheduled_deletion_def Let_def reg_simps
        dest!: send_msg_result(1) split: prod.splits)
  have t5: "tags s5 = [''t'']" "''c-1'' \<in> subscriber_conn_ids s5" "ephemeral s5 = None"
    using drain_retained_frame [OF d] a s3 subscriber_ids_frame(1) [OF d] subscriber_ids_frame(5) [OF a]
    by (auto simp: add_subscriber_def)
  let ?m1 = "demo_m0\<lparr>m_bus := b1, m_pending := [''c-1'']\<rparr>"
  let ?m2 = "demo_m0\<lparr>m_bus := b2, m_live := [(''c-1'', JsonLineCodec)]\<rparr>"
  have now: "e_now (demo_env 0) = 0" by (simp add: demo_env_def)
  have "bus_step never_fails demo_m0 ?m1"
    using bus_step.accepted [of never_fails "\<lambda>_. False" demo_m0 "''c-1''" b1] b1
    by (simp add: never_fails_def demo_m0_def) (simp add: bus_new_def)
  moreover have "bus_step never_fails ?m1 ?m2"
    using bus_step.greeted [of "''c-1''" ?m1 "demo_env 0" ?first JsonLineCodec b2 never_fails] b2
    by (simp add: demo_m0_def)
  moreover have "bus_step never_fails ?m2 (?m2\<lparr>m_bus := b3\<rparr>)"
    using bus_step.handled [of ?m2 "''c-1''" JsonLineCodec "demo_env 0" _ b3 never_fails] b3 now by (simp add: demo_m0_def del: handle_message.simps)
  moreover have "bus_step never_fails (?m2\<lparr>m_bus := b3\<rparr>) (?m2\<lparr>m_bus := ?b4\<rparr>)"
    using bus_step.handled [of "?m2\<lparr>m_bus := b3\<rparr>" "''c-1''" JsonLineCodec "demo_env 0" _ ?b4 never_fails] b4 now by (simp add: demo_m0_def del: handle_message.simps)
  ultimately have "(bus_step never_fails)\<^sup>*\<^sup>* demo_m0 (?m2\<lparr>m_bus := ?b4\<rparr>)"
    by (meson converse_rtranclp_into_rtranclp rtranclp.rtrancl_refl)
  then show ?thesis using s5 t5 by (intro exI conjI) auto
qed

theorem reachable_sessions_ok_witness:
  "\<exists>m s. (bus_step never_fails)\<^sup>*\<^sup>* demo_m0 m \<and> registry_get (reg (m_bus m)) ''s'' = Some s
     \<and> tags s = [''t''] \<and> session_id s = ''s'' \<and> (\<forall>c \<in> set (history s). \<not> is_transient c)"
proof -
  obtain m s where m: "(bus_step never_fails)\<^sup>*\<^sup>* demo_m0 m" "registry_get (reg (m_bus m)) ''s'' = Some s"
    "tags s = [''t'']" using demo_run by blast
  have "machine_start demo_m0" by (simp add: machine_start_def demo_m0_def)
  from reachable_sessions_ok [OF this m(1,2)] m show ?thesis by blast
qed



end
