(* ===== verification/Llm_Context.thy ===== *)
theory Llm_Context
  imports Bus_Client
begin

text \<open>
  How the LLM service turns a session's history into a prompt: \<open>cafe-llm/src/context.rs\<close>.
  Message construction with coalescing of equal roles, compaction to the configured budgets,
  the summary request, and the configuration merged from the runtime chunks.  The laws that make
  it correct follow each operation; the last section ties the configuration chunk that the bus
  writes to what the evaluator reads back.
\<close>

section \<open>Messages\<close>

record llm_message =
  msg_role :: string
  msg_content :: string

definition msg :: "string \<Rightarrow> string \<Rightarrow> llm_message" where
  "msg r c = \<lparr>msg_role = r, msg_content = c\<rparr>"

definition untrusted :: "chunk \<Rightarrow> bool" where
  "untrusted c =
     (case annotation c SECURITY_TRUST_LEVEL of
        None \<Rightarrow> False
      | Some trust \<Rightarrow> json_index trust ''trusted'' = JBool False)"

text \<open>One turn of the loop over the history.\<close>

definition push_chunk :: "chunk \<Rightarrow> llm_message list \<Rightarrow> llm_message list" where
  "push_chunk c messages =
     (if chunk_type c \<noteq> Text then messages
      else if untrusted c then messages
      else case role c of
             None \<Rightarrow> messages
           | Some r \<Rightarrow>
               if r = ''user'' \<or> r = ''assistant''
               then (let text = (case content c of None \<Rightarrow> [] | Some t \<Rightarrow> t)
                     in if messages \<noteq> [] \<and> msg_role (last messages) = r
                        then butlast messages
                          @ [(last messages)\<lparr>msg_content := msg_content (last messages) @ CHR 0x0A # text\<rparr>]
                        else messages @ [msg r text])
               else messages)"

definition build_messages :: "chunk list \<Rightarrow> string option \<Rightarrow> llm_message list" where
  "build_messages hist system_prompt =
     fold push_chunk hist (case system_prompt of None \<Rightarrow> [] | Some p \<Rightarrow> [msg ''system'' p])"

section \<open>Configuration\<close>

record llm_config =
  llm_backend :: "string option"
  llm_model :: "string option"
  llm_system_prompt :: "string option"
  llm_temperature :: "ieee option"
  llm_max_tokens :: "nat option"
  llm_compaction_mode :: "string option"
  llm_max_history_messages :: "nat option"
  llm_max_history_chars :: "nat option"

definition empty_llm_config :: llm_config where
  "empty_llm_config =
     \<lparr>llm_backend = None, llm_model = None, llm_system_prompt = None, llm_temperature = None,
      llm_max_tokens = None, llm_compaction_mode = None, llm_max_history_messages = None,
      llm_max_history_chars = None\<rparr>"

text \<open>The conversions of a number to single precision, and of a decimal text.\<close>

record float_ops =
  fp_narrow :: "json_number \<Rightarrow> ieee"
  fp_parse :: "string \<Rightarrow> ieee option"

fun conv_f32 :: "float_ops \<Rightarrow> json \<Rightarrow> ieee option" where
  "conv_f32 fl (JNum n) = Some (fp_narrow fl n)"
| "conv_f32 fl (JStr s) = fp_parse fl s"
| "conv_f32 fl _ = None"

fun conv_u32 :: "json \<Rightarrow> nat option" where
  "conv_u32 (JNum (PosInt n)) = Some (n mod 2 ^ 32)"
| "conv_u32 (JStr s) = parse_uint u32_bound s"
| "conv_u32 _ = None"

text \<open>A namespaced key overwrites its field, with \<open>None\<close> when the value has the wrong type; a legacy
  key fills a field that is still empty.\<close>

definition take_key :: "(json \<Rightarrow> 'a option) \<Rightarrow> string \<Rightarrow> chunk \<Rightarrow> 'a option \<Rightarrow> 'a option" where
  "take_key conv k c cur = (case annotation c k of None \<Rightarrow> cur | Some v \<Rightarrow> conv v)"

definition take_legacy :: "(json \<Rightarrow> 'a option) \<Rightarrow> string \<Rightarrow> chunk \<Rightarrow> 'a option \<Rightarrow> 'a option" where
  "take_legacy conv k c cur =
     (if cur = None then (case annotation c k of None \<Rightarrow> cur | Some v \<Rightarrow> conv v) else cur)"

definition merge_chunk :: "float_ops \<Rightarrow> chunk \<Rightarrow> llm_config \<Rightarrow> llm_config" where
  "merge_chunk fl c cfg =
     (if chunk_type c \<noteq> Null then cfg
      else if Option.bind (annotation c CONFIG_TYPE) as_str \<noteq> Some ''runtime'' then cfg
      else let
        cfg1 = cfg\<lparr>
          llm_backend := take_key as_str CONFIG_LLM_BACKEND c (llm_backend cfg),
          llm_model := take_key as_str CONFIG_LLM_MODEL c (llm_model cfg),
          llm_system_prompt := take_key as_str CONFIG_LLM_SYSTEM_PROMPT c (llm_system_prompt cfg),
          llm_temperature := take_key (conv_f32 fl) CONFIG_LLM_TEMPERATURE c (llm_temperature cfg),
          llm_max_tokens := take_key conv_u32 CONFIG_LLM_MAX_TOKENS c (llm_max_tokens cfg),
          llm_compaction_mode := take_key as_str CONFIG_LLM_COMPACTION_MODE c (llm_compaction_mode cfg),
          llm_max_history_messages :=
            take_key conv_u32 CONFIG_LLM_MAX_HISTORY_MESSAGES c (llm_max_history_messages cfg),
          llm_max_history_chars :=
            take_key conv_u32 CONFIG_LLM_MAX_HISTORY_CHARS c (llm_max_history_chars cfg)\<rparr>
      in cfg1\<lparr>
          llm_backend := take_legacy as_str CONFIG_BACKEND c (llm_backend cfg1),
          llm_model := take_legacy as_str CONFIG_MODEL c (llm_model cfg1),
          llm_system_prompt := take_legacy as_str CONFIG_SYSTEM_PROMPT c (llm_system_prompt cfg1),
          llm_temperature := take_legacy (conv_f32 fl) CONFIG_TEMPERATURE c (llm_temperature cfg1),
          llm_max_tokens := take_legacy conv_u32 CONFIG_MAX_TOKENS c (llm_max_tokens cfg1)\<rparr>)"

definition extract_config :: "float_ops \<Rightarrow> chunk list \<Rightarrow> llm_config" where
  "extract_config fl hist = fold (merge_chunk fl) hist empty_llm_config"

section \<open>Compaction\<close>

record compaction_info =
  dropped_messages :: nat
  dropped_chars :: nat
  dropped :: "llm_message list"

definition total_chars :: "llm_message list \<Rightarrow> nat" where
  "total_chars ms = sum_list (map (\<lambda>m. length (msg_content m)) ms)"

definition fits_budget :: "nat option \<Rightarrow> nat option \<Rightarrow> llm_message list \<Rightarrow> bool" where
  "fits_budget max_messages max_chars window =
     ((case max_messages of None \<Rightarrow> True | Some m \<Rightarrow> length window \<le> m)
      \<and> (case max_chars of None \<Rightarrow> True | Some c \<Rightarrow> total_chars window \<le> c))"

text \<open>The search for the start of the window, on the part of the list still considered.\<close>

fun compaction_start :: "nat option \<Rightarrow> nat option \<Rightarrow> llm_message list \<Rightarrow> nat" where
  "compaction_start mm mc [] = 0"
| "compaction_start mm mc (m # ms) =
     (if fits_budget mm mc (m # ms) \<or> length (m # ms) \<le> 1 then 0 else Suc (compaction_start mm mc ms))"

definition positive :: "nat option \<Rightarrow> nat option" where
  "positive x = (case x of None \<Rightarrow> None | Some n \<Rightarrow> if n \<ge> 1 then Some n else None)"

definition no_compaction :: compaction_info where
  "no_compaction = \<lparr>dropped_messages = 0, dropped_chars = 0, dropped = []\<rparr>"

definition split_system :: "llm_message list \<Rightarrow> llm_message list \<times> llm_message list" where
  "split_system messages =
     (case messages of
        first # rest \<Rightarrow> if msg_role first = ''system'' then ([first], rest) else ([], messages)
      | [] \<Rightarrow> ([], []))"

definition apply_compaction ::
  "llm_message list \<Rightarrow> llm_config \<Rightarrow> llm_message list \<times> compaction_info" where
  "apply_compaction messages cfg =
     (let mode = (case llm_compaction_mode cfg of None \<Rightarrow> ''none'' | Some m \<Rightarrow> m)
      in if mode \<noteq> ''truncate'' \<and> mode \<noteq> ''summarize'' then (messages, no_compaction)
         else let max_messages = positive (llm_max_history_messages cfg);
                  max_chars = positive (llm_max_history_chars cfg)
              in if max_messages = None \<and> max_chars = None then (messages, no_compaction)
                 else let (system, rest) = split_system messages
                      in if rest = [] then (system @ rest, no_compaction)
                         else let start = compaction_start max_messages max_chars rest
                              in (system @ drop start rest,
                                  \<lparr>dropped_messages = start, dropped_chars = total_chars (take start rest),
                                   dropped = take start rest\<rparr>))"

definition build_summary_request :: "llm_message list \<Rightarrow> llm_message list" where
  "build_summary_request ms =
     [msg ''system'' (''Summarize the following conversation prefix concisely. Preserve key facts, ''
        @ ''decisions, user preferences, and open questions. Reply with the summary only, no preamble.''),
      msg ''user'' (concat (map (\<lambda>m. msg_role m @ '': '' @ msg_content m @ [CHR 0x0A]) ms))]"

definition insert_summary :: "llm_message list \<Rightarrow> string \<Rightarrow> llm_message list" where
  "insert_summary messages summary =
     (let summary_msg = msg ''system'' (''Prior conversation summary (compacted):'' @ CHR 0x0A # summary);
          pos = (case messages of [] \<Rightarrow> 0 | first # _ \<Rightarrow> if msg_role first = ''system'' then 1 else 0)
      in take pos messages @ summary_msg # drop pos messages)"

section \<open>What the prompt contains\<close>

text \<open>
  The conversation: the role and text of the trusted text chunks of the user and the assistant.
  The specification groups it into maximal runs of one role, joined by newlines.
\<close>

definition spoken :: "chunk \<Rightarrow> (string \<times> string) option" where
  "spoken c =
     (if chunk_type c = Text \<and> \<not> untrusted c \<and> (role c = Some ''user'' \<or> role c = Some ''assistant'')
      then Some (the (role c), case content c of None \<Rightarrow> [] | Some t \<Rightarrow> t) else None)"

definition conversation :: "chunk list \<Rightarrow> (string \<times> string) list" where
  "conversation hist = List.map_filter spoken hist"

fun join_lines :: "string list \<Rightarrow> string" where
  "join_lines [] = []"
| "join_lines [s] = s"
| "join_lines (s # ss) = s @ CHR 0x0A # join_lines ss"

function runs :: "(string \<times> string) list \<Rightarrow> llm_message list" where
  "runs [] = []"
| "runs ((r, t) # ps) =
     msg r (join_lines (t # map snd (takeWhile (\<lambda>p. fst p = r) ps)))
       # runs (dropWhile (\<lambda>p. fst p = r) ps)"
  by pat_completeness auto
termination
  by (relation "measure length") (auto simp: le_imp_less_Suc length_dropWhile_le)

definition push_pair :: "string \<times> string \<Rightarrow> llm_message list \<Rightarrow> llm_message list" where
  "push_pair p ms =
     (if ms \<noteq> [] \<and> msg_role (last ms) = fst p
      then butlast ms @ [(last ms)\<lparr>msg_content := msg_content (last ms) @ CHR 0x0A # snd p\<rparr>]
      else ms @ [msg (fst p) (snd p)])"

lemma push_chunk_spoken:
  "push_chunk c ms = (case spoken c of None \<Rightarrow> ms | Some p \<Rightarrow> push_pair p ms)"
  by (auto simp: push_chunk_def spoken_def push_pair_def split: option.splits)

lemma fold_push_chunk: "fold push_chunk hist ms = fold push_pair (conversation hist) ms"
  by (induction hist arbitrary: ms)
     (auto simp: conversation_def map_filter_simps push_chunk_spoken split: option.splits)

lemma join_lines_Cons: "ss \<noteq> [] \<Longrightarrow> join_lines (s # ss) = s @ CHR 0x0A # join_lines ss"
  by (cases ss) simp_all

lemma join_lines_merge: "join_lines ((t @ CHR 0x0A # u) # ss) = join_lines (t # u # ss)"
  by (cases ss) simp_all

lemma msg_simps [simp]:
  "msg_role (msg r c) = r" "msg_content (msg r c) = c"
  "(msg r c)\<lparr>msg_content := d\<rparr> = msg r d"
  by (simp_all add: msg_def)

text \<open>The fold over the pairs, started with one open run, closes it with the rest of the run.\<close>

lemma fold_push_pair_run:
  "fold push_pair ps (ms @ [msg r t])
     = ms @ msg r (join_lines (t # map snd (takeWhile (\<lambda>p. fst p = r) ps)))
         # runs (dropWhile (\<lambda>p. fst p = r) ps)"
proof (induction ps arbitrary: ms r t)
  case Nil
  then show ?case by simp
next
  case (Cons p ps)
  obtain r' u where p: "p = (r', u)" by (cases p)
  show ?case
  proof (cases "r' = r")
    case True
    then have "push_pair p (ms @ [msg r t]) = ms @ [msg r (t @ CHR 0x0A # u)]" by (simp add: push_pair_def p)
    then show ?thesis using Cons.IH [of ms r "t @ CHR 0x0A # u"] True
      by (simp add: p join_lines_merge del: join_lines.simps)
  next
    case False
    then have "push_pair p (ms @ [msg r t]) = (ms @ [msg r t]) @ [msg r' u]" by (simp add: push_pair_def p)
    then show ?thesis using Cons.IH [of "ms @ [msg r t]" r' u] False by (simp add: p)
  qed
qed

lemma fold_push_pair:
  assumes "\<forall>p \<in> set ps. \<forall>m \<in> set ms. msg_role m \<noteq> fst p"
  shows "fold push_pair ps ms = ms @ runs ps"
proof (cases ps)
  case Nil
  then show ?thesis by simp
next
  case (Cons p qs)
  obtain r t where p: "p = (r, t)" by (cases p)
  then have "push_pair p ms = ms @ [msg r t]"
    using assms Cons by (auto simp: push_pair_def dest: last_in_set)
  then show ?thesis using Cons p fold_push_pair_run [of qs ms r t] by simp
qed

lemma conversation_roles: "p \<in> set (conversation hist) \<Longrightarrow> fst p = ''user'' \<or> fst p = ''assistant''"
  by (induction hist) (auto simp: conversation_def map_filter_simps spoken_def split: option.splits if_splits)

text \<open>
  C16: The prompt is the conversation, grouped. Building the messages of a history gives the
  system prompt, if there is one, followed by the maximal runs of equal roles among the trusted
  user and assistant texts, in order and joined by newlines: no text is lost, reordered or
  attributed to another role.
\<close>

theorem build_messages_spec:
  "build_messages hist p =
     (case p of None \<Rightarrow> [] | Some s \<Rightarrow> [msg ''system'' s]) @ runs (conversation hist)"
proof -
  have "\<forall>q \<in> set (conversation hist). \<forall>m \<in> set (case p of None \<Rightarrow> [] | Some s \<Rightarrow> [msg ''system'' s]). msg_role m \<noteq> fst q"
    by (auto split: option.splits dest!: conversation_roles)
  then show ?thesis
    unfolding build_messages_def fold_push_chunk by (rule fold_push_pair)
qed





section \<open>Compaction keeps the longest window that fits\<close>

lemma compaction_start_spec:
  "ms \<noteq> [] \<Longrightarrow> compaction_start mm mc ms < length ms
     \<and> (fits_budget mm mc (drop (compaction_start mm mc ms) ms) \<or> Suc (compaction_start mm mc ms) = length ms)
     \<and> (\<forall>j < compaction_start mm mc ms. \<not> fits_budget mm mc (drop j ms))"
proof (induction mm mc ms rule: compaction_start.induct)
  case (2 mm mc m ms)
  show ?case
  proof (cases "fits_budget mm mc (m # ms) \<or> length (m # ms) \<le> 1")
    case True
    then show ?thesis by auto
  next
    case False
    then have ne: "ms \<noteq> []" by auto
    have "\<not> fits_budget mm mc (drop j (m # ms))" if "j < Suc (compaction_start mm mc ms)" for j
      using that False 2(1) [OF False ne] by (cases j) auto
    with 2(1) [OF False ne] False show ?thesis by auto
  qed
qed simp

lemma split_system_append: "split_system ms = (sys, rest) \<Longrightarrow> ms = sys @ rest"
  by (auto simp: split_system_def split: list.splits if_splits)

text \<open>
  C23: Compaction drops the shortest prefix that makes the rest fit. When compaction is on and a
  positive budget is set, the result is the untouched system message followed by a suffix of the
  rest that is never empty, fits both budgets unless it is the newest message alone, and is the
  longest such suffix; what was dropped is reported exactly.
\<close>

theorem apply_compaction_maximal:
  assumes "llm_compaction_mode cfg = Some ''truncate'' \<or> llm_compaction_mode cfg = Some ''summarize''"
    and "mm = positive (llm_max_history_messages cfg)" and "mc = positive (llm_max_history_chars cfg)"
    and "\<not> (mm = None \<and> mc = None)" and "split_system messages = (sys, rest)" and "rest \<noteq> []"
    and "apply_compaction messages cfg = (out, info)"
  shows "\<exists>kept. out = sys @ kept \<and> messages = sys @ dropped info @ kept \<and> kept \<noteq> []
    \<and> (fits_budget mm mc kept \<or> length kept = 1)
    \<and> (\<forall>pre suf. dropped info = pre @ suf \<and> suf \<noteq> [] \<longrightarrow> \<not> fits_budget mm mc (suf @ kept))
    \<and> dropped_messages info = length (dropped info) \<and> dropped_chars info = total_chars (dropped info)"
proof -
  let ?k = "compaction_start mm mc rest"
  note k = compaction_start_spec [OF assms(6), of mm mc]
  have o: "out = sys @ drop ?k rest"
    "info = \<lparr>dropped_messages = ?k, dropped_chars = total_chars (take ?k rest), dropped = take ?k rest\<rparr>"
    using assms by (auto simp: apply_compaction_def Let_def)
  have "\<not> fits_budget mm mc (suf @ drop ?k rest)" if "take ?k rest = pre @ suf" "suf \<noteq> []" for pre suf
  proof -
    have "rest = pre @ suf @ drop ?k rest" by (metis that(1) append_assoc append_take_drop_id)
    then have "drop (length pre) rest = suf @ drop ?k rest" by (metis append_eq_conv_conj)
    moreover have "length pre < ?k"
      using arg_cong [OF that(1), of length] that(2) k by (cases suf) auto
    ultimately show ?thesis using k by metis
  qed
  moreover have "fits_budget mm mc (drop ?k rest) \<or> length (drop ?k rest) = 1" using k by auto
  ultimately show ?thesis
    using o k split_system_append [OF assms(5)]
    by (intro exI [of _ "drop ?k rest"]) auto
qed

theorem apply_compaction_maximal_witness:
  "\<exists>kept info. apply_compaction [msg ''system'' ''s'', msg ''user'' ''aaaa'', msg ''assistant'' ''bb'', msg ''user'' ''c'']
       (empty_llm_config\<lparr>llm_compaction_mode := Some ''truncate'', llm_max_history_chars := Some 3\<rparr>)
     = (msg ''system'' ''s'' # kept, info) \<and> length kept = 2 \<and> dropped info = [msg ''user'' ''aaaa'']"
proof -
  let ?ms = "[msg ''system'' ''s'', msg ''user'' ''aaaa'', msg ''assistant'' ''bb'', msg ''user'' ''c'']"
  let ?cfg = "empty_llm_config\<lparr>llm_compaction_mode := Some ''truncate'', llm_max_history_chars := Some 3\<rparr>"
  obtain out info where a: "apply_compaction ?ms ?cfg = (out, info)" by force
  have s: "split_system ?ms = ([msg ''system'' ''s''], tl ?ms)" by (simp add: split_system_def)
  have m: "llm_compaction_mode ?cfg = Some ''truncate'' \<or> llm_compaction_mode ?cfg = Some ''summarize''"
    and c: "positive (llm_max_history_messages ?cfg) = None" "positive (llm_max_history_chars ?cfg) = Some 3"
    by (simp_all add: empty_llm_config_def positive_def)
  obtain kept where k: "out = [msg ''system'' ''s''] @ kept"
    using apply_compaction_maximal [OF m c(1) [symmetric] c(2) [symmetric] _ s _ a] by auto
  have "snd (apply_compaction ?ms ?cfg) = \<lparr>dropped_messages = 1, dropped_chars = 4, dropped = [msg ''user'' ''aaaa'']\<rparr>"
    "fst (apply_compaction ?ms ?cfg) = [msg ''system'' ''s'', msg ''assistant'' ''bb'', msg ''user'' ''c'']"
    by (simp_all add: apply_compaction_def empty_llm_config_def positive_def split_system_def fits_budget_def
        total_chars_def)
  with a k show ?thesis by auto
qed

lemma apply_compaction_off:
  "llm_compaction_mode cfg \<notin> {Some ''truncate'', Some ''summarize''} \<Longrightarrow>
     apply_compaction ms cfg = (ms, no_compaction)"
  by (auto simp: apply_compaction_def split: option.splits)

section \<open>Which configuration wins\<close>

definition runtime_chunk :: "chunk \<Rightarrow> bool" where
  "runtime_chunk c \<longleftrightarrow> chunk_type c = Null \<and> Option.bind (annotation c CONFIG_TYPE) as_str = Some ''runtime''"

text \<open>A field with both kinds of keys, folded over the runtime chunks.\<close>

definition field_step :: "(json \<Rightarrow> 'a option) \<Rightarrow> string \<Rightarrow> string \<Rightarrow> chunk \<Rightarrow> 'a option \<Rightarrow> 'a option" where
  "field_step conv ns lg c cur = take_legacy conv lg c (take_key conv ns c cur)"

lemma merge_chunk_fields:
  "llm_backend (merge_chunk fl c cfg) = (if runtime_chunk c
     then field_step as_str CONFIG_LLM_BACKEND CONFIG_BACKEND c (llm_backend cfg) else llm_backend cfg)"
  "llm_model (merge_chunk fl c cfg) = (if runtime_chunk c
     then field_step as_str CONFIG_LLM_MODEL CONFIG_MODEL c (llm_model cfg) else llm_model cfg)"
  "llm_system_prompt (merge_chunk fl c cfg) = (if runtime_chunk c
     then field_step as_str CONFIG_LLM_SYSTEM_PROMPT CONFIG_SYSTEM_PROMPT c (llm_system_prompt cfg)
     else llm_system_prompt cfg)"
  "llm_max_tokens (merge_chunk fl c cfg) = (if runtime_chunk c
     then field_step conv_u32 CONFIG_LLM_MAX_TOKENS CONFIG_MAX_TOKENS c (llm_max_tokens cfg)
     else llm_max_tokens cfg)"
  "llm_compaction_mode (merge_chunk fl c cfg) = (if runtime_chunk c
     then take_key as_str CONFIG_LLM_COMPACTION_MODE c (llm_compaction_mode cfg) else llm_compaction_mode cfg)"
  by (auto simp: merge_chunk_def runtime_chunk_def field_step_def Let_def)

lemma extract_field:
  assumes "\<And>c cfg. sel (merge_chunk fl c cfg) = (if runtime_chunk c then step c (sel cfg) else sel cfg)"
  shows "sel (fold (merge_chunk fl) hist cfg) = fold step (filter runtime_chunk hist) (sel cfg)"
  by (induction hist arbitrary: cfg) (auto simp: assms)

lemmas extract_fields =
  extract_field [of llm_backend, OF merge_chunk_fields(1)]
  extract_field [of llm_model, OF merge_chunk_fields(2)]
  extract_field [of llm_system_prompt, OF merge_chunk_fields(3)]
  extract_field [of llm_max_tokens, OF merge_chunk_fields(4)]
  extract_field [of llm_compaction_mode, OF merge_chunk_fields(5)]

lemma fold_field_keeps:
  "\<forall>c \<in> set cs. annotation c ns = None \<Longrightarrow> fold (field_step conv ns lg) cs (Some v) = Some v"
  by (induction cs) (auto simp: field_step_def take_key_def take_legacy_def)

lemma fold_field_skips:
  "\<forall>c \<in> set cs. annotation c ns = None \<and> Option.bind (annotation c lg) conv = None \<Longrightarrow>
     fold (field_step conv ns lg) cs None = None"
  by (induction cs) (auto simp: field_step_def take_key_def take_legacy_def split: option.splits)

lemma field_step_set: "annotation c ns = Some v \<Longrightarrow> conv v = Some x \<Longrightarrow> field_step conv ns lg c cur = Some x"
  by (simp add: field_step_def take_key_def take_legacy_def)

text \<open>
  The last namespaced setting wins. The model the evaluator uses is the one of the last
  runtime chunk that carries the namespaced key, whatever earlier chunks or legacy keys say,
  and chunks that set other keys do not disturb it.
\<close>

theorem namespaced_config_last_wins:
  assumes "hist = before @ c # after" and "runtime_chunk c"
    and "annotation c CONFIG_LLM_MODEL = Some (JStr m)"
    and "\<forall>d \<in> set after. runtime_chunk d \<longrightarrow> annotation d CONFIG_LLM_MODEL = None"
  shows "llm_model (extract_config fl hist) = Some m"
proof -
  let ?step = "field_step as_str CONFIG_LLM_MODEL CONFIG_MODEL"
  have "llm_model (extract_config fl hist)
      = fold ?step (filter runtime_chunk after)
          (?step c (fold ?step (filter runtime_chunk before) None))"
    using assms(1,2) by (simp add: extract_config_def extract_fields merge_chunk_fields empty_llm_config_def)
  also have "\<dots> = Some m"
    using assms(3,4) by (subst field_step_set) (auto intro!: fold_field_keeps)
  finally show ?thesis .
qed

definition demo_config :: "(string \<times> string) list \<Rightarrow> chunk" where
  "demo_config kvs =
     fold (\<lambda>(k, v). with_annotation k (JStr v)) kvs
       (with_annotation CONFIG_TYPE (JStr ''runtime'') (new_null ''c'' 0 ''com.test''))"

theorem namespaced_config_last_wins_witness:
  "\<forall>fl. llm_model (extract_config fl
     [demo_config [(CONFIG_LLM_MODEL, ''a'')], demo_config [(CONFIG_LLM_MODEL, ''b'')],
      demo_config [(CONFIG_LLM_BACKEND, ''ollama''), (CONFIG_MODEL, ''d'')]]) = Some ''b''"
  by (rule allI, rule namespaced_config_last_wins [where before = "[demo_config [(CONFIG_LLM_MODEL, ''a'')]]"
        and c = "demo_config [(CONFIG_LLM_MODEL, ''b'')]"
        and after = "[demo_config [(CONFIG_LLM_BACKEND, ''ollama''), (CONFIG_MODEL, ''d'')]]"])
     (simp_all add: demo_config_def runtime_chunk_def)

text \<open>
  The first legacy setting wins. Among runtime chunks without the namespaced key the first
  one that carries a legacy value decides: a later chunk with the legacy key, as the bus itself
  writes for a new session, is ignored from then on.
\<close>

theorem legacy_config_first_wins:
  assumes "hist = before @ c # after" and "runtime_chunk c"
    and "annotation c CONFIG_MODEL = Some (JStr m)"
    and "\<forall>d \<in> set hist. runtime_chunk d \<longrightarrow> annotation d CONFIG_LLM_MODEL = None"
    and "\<forall>d \<in> set before. runtime_chunk d \<longrightarrow> annotation d CONFIG_MODEL = None"
  shows "llm_model (extract_config fl hist) = Some m"
proof -
  let ?step = "field_step as_str CONFIG_LLM_MODEL CONFIG_MODEL"
  have "fold ?step (filter runtime_chunk before) None = None"
    using assms(1,4,5) by (intro fold_field_skips) auto
  moreover have "?step c None = Some m"
    using assms(1-4) by (simp add: field_step_def take_key_def take_legacy_def)
  moreover have "fold ?step (filter runtime_chunk after) (Some m) = Some m"
    using assms(1,4) by (intro fold_field_keeps) auto
  ultimately show ?thesis
    using assms(1,2) by (simp add: extract_config_def extract_fields merge_chunk_fields empty_llm_config_def)
qed

theorem legacy_config_first_wins_witness:
  "\<forall>fl. llm_model (extract_config fl [demo_config [(CONFIG_MODEL, ''a'')], demo_config [(CONFIG_MODEL, ''b'')]]) = Some ''a''"
  by (rule allI, rule legacy_config_first_wins [where before = "[]" and c = "demo_config [(CONFIG_MODEL, ''a'')]"
        and after = "[demo_config [(CONFIG_MODEL, ''b'')]]"])
     (simp_all add: demo_config_def runtime_chunk_def)

lemma annotate_opt_simps [simp]:
  "annotation (annotate_opt k f x c) k'
     = (if k' = k then (case x of None \<Rightarrow> annotation c k' | Some y \<Rightarrow> Some (f y)) else annotation c k')"
  "chunk_type (annotate_opt k f x c) = chunk_type c"
  by (simp_all add: annotate_opt_def split: option.splits)

lemma make_config_chunk_type: "chunk_type (make_config_chunk u t cfg) = Null"
  by (simp add: make_config_chunk_def Let_def)

lemma make_config_chunk_keys:
  "annotation (make_config_chunk u t cfg) CONFIG_TYPE = Some (JStr ''runtime'')"
  "annotation (make_config_chunk u t cfg) CONFIG_BACKEND = map_option JStr (cfg_backend cfg)"
  "annotation (make_config_chunk u t cfg) CONFIG_MODEL = map_option JStr (cfg_model cfg)"
  "annotation (make_config_chunk u t cfg) CONFIG_SYSTEM_PROMPT = map_option JStr (cfg_system_prompt cfg)"
  "annotation (make_config_chunk u t cfg) CONFIG_MAX_TOKENS = map_option (JNum \<circ> PosInt) (cfg_max_tokens cfg)"
  "annotation (make_config_chunk u t cfg) CONFIG_LLM_COMPACTION_MODE = map_option JStr (cfg_compaction_mode cfg)"
  "annotation (make_config_chunk u t cfg) CONFIG_LLM_MAX_HISTORY_MESSAGES
     = map_option (JNum \<circ> PosInt) (cfg_max_history_messages cfg)"
  "annotation (make_config_chunk u t cfg) CONFIG_LLM_MAX_HISTORY_CHARS
     = map_option (JNum \<circ> PosInt) (cfg_max_history_chars cfg)"
  "annotation (make_config_chunk u t cfg) CONFIG_LLM_BACKEND = None"
  "annotation (make_config_chunk u t cfg) CONFIG_LLM_MODEL = None"
  "annotation (make_config_chunk u t cfg) CONFIG_LLM_SYSTEM_PROMPT = None"
  "annotation (make_config_chunk u t cfg) CONFIG_LLM_MAX_TOKENS = None"
  by (simp_all add: make_config_chunk_def Let_def split: option.split)

text \<open>
  What the bus records at creation is what the evaluator reads. The notification chunk built
  from a session's configuration gives back its backend, model, system prompt and compaction
  mode, and its token limit and history budgets, all of which are 32-bit numbers.
\<close>

theorem created_config_roundtrip:
  assumes "\<forall>n. cfg_max_tokens cfg = Some n \<longrightarrow> n < 2 ^ 32"
    and "\<forall>n. cfg_max_history_messages cfg = Some n \<longrightarrow> n < 2 ^ 32"
    and "\<forall>n. cfg_max_history_chars cfg = Some n \<longrightarrow> n < 2 ^ 32"
    and "r = extract_config fl [make_config_chunk u t cfg]"
  shows "llm_backend r = cfg_backend cfg \<and> llm_model r = cfg_model cfg
    \<and> llm_system_prompt r = cfg_system_prompt cfg \<and> llm_max_tokens r = cfg_max_tokens cfg
    \<and> llm_compaction_mode r = cfg_compaction_mode cfg
    \<and> llm_max_history_messages r = cfg_max_history_messages cfg
    \<and> llm_max_history_chars r = cfg_max_history_chars cfg"
proof -
  have r: "r = merge_chunk fl (make_config_chunk u t cfg) empty_llm_config"
    using assms(4) by (simp add: extract_config_def)
  have u32: "Option.bind (map_option (JNum \<circ> PosInt) x) conv_u32 = x"
    if "\<forall>n. x = Some n \<longrightarrow> n < 2 ^ 32" for x
    using that by (cases x) auto
  have str: "Option.bind (map_option JStr x) as_str = x" for x by (cases x) auto
  have step: "take_key conv k c None = Option.bind (annotation c k) conv"
    "take_legacy conv k c None = Option.bind (annotation c k) conv" for conv k c
    by (auto simp: take_key_def take_legacy_def split: option.splits)
  show ?thesis
    unfolding r merge_chunk_def
    by (simp add: make_config_chunk_type make_config_chunk_keys empty_llm_config_def Let_def step str
        u32 [OF assms(1)] u32 [OF assms(2)] u32 [OF assms(3)] del: bind_map_option)
qed

theorem created_config_roundtrip_witness:
  "\<forall>fl. llm_max_tokens (extract_config fl [make_config_chunk ''u'' 0
     (default_session_config\<lparr>cfg_model := Some ''m'', cfg_max_tokens := Some 512\<rparr>)]) = Some 512"
proof -
  let ?cfg = "default_session_config\<lparr>cfg_model := Some ''m'', cfg_max_tokens := Some 512\<rparr>"
  have "\<forall>n. cfg_max_tokens ?cfg = Some n \<longrightarrow> n < 2 ^ 32"
    "\<forall>n. cfg_max_history_messages ?cfg = Some n \<longrightarrow> n < 2 ^ 32"
    "\<forall>n. cfg_max_history_chars ?cfg = Some n \<longrightarrow> n < 2 ^ 32"
    by (simp_all add: default_session_config_def)
  from created_config_roundtrip [OF this refl] show ?thesis by simp
qed

end
