(* ===== verification/Llm_Service.thy ===== *)
theory Llm_Service
  imports Llm_Context
begin

text \<open>
  The LLM service: the backend router of \<open>cafe-llm/src/backends/router.rs\<close> and the session
  evaluator of \<open>cafe-llm/src/evaluator.rs\<close>.  A backend is the list of what it answers: the
  outcome of a completion request and of a model listing.  A token stream is the list of the
  events the evaluator's \<open>select!\<close> sees, in order; a stream that hangs is a list that stops, and
  then the loop has no result.  Fresh chunk ids and clock readings come from supplies.
\<close>

section \<open>Backends and their router\<close>

record llm_params =
  p_model :: string
  p_temperature :: "ieee option"
  p_max_tokens :: "nat option"
  p_session_id :: "string option"
  p_backend :: "string option"

text \<open>What \<open>select!\<close> delivers while a generation runs.\<close>

datatype stream_event =
    Token string
  | StreamError string
  | StreamEnd
  | AbortChanged bool

record backend =
  be_complete :: "llm_message list \<Rightarrow> llm_params \<Rightarrow> string + stream_event list"
  be_list_models :: "string + string list"

record backend_entry =
  entry_name :: string
  entry_backend :: backend
  entry_default_model :: "string option"

record backend_router =
  entries :: "backend_entry list"
  default_name :: string

definition normalize :: "string \<Rightarrow> string" where
  "normalize name =
     (let n = to_ascii_lowercase (str_trim name)
      in if n = ''opencode_go'' \<or> n = ''opencodego'' then ''opencode-go'' else n)"

text \<open>\<open>None\<close> is the failed assertion on an empty list.\<close>

definition router_new ::
  "string \<Rightarrow> (string \<times> backend \<times> string option) list \<Rightarrow> backend_router option" where
  "router_new dflt es =
     (if es = [] then None
      else Some \<lparr>entries = map (\<lambda>(n, b, m). \<lparr>entry_name = normalize n, entry_backend = b,
                                              entry_default_model = m\<rparr>) es,
                 default_name = normalize dflt\<rparr>)"

definition default_entry :: "backend_router \<Rightarrow> backend_entry" where
  "default_entry r =
     (case List.find (\<lambda>e. entry_name e = default_name r) (entries r) of
        Some e \<Rightarrow> e
      | None \<Rightarrow> hd (entries r))"

definition resolve :: "backend_router \<Rightarrow> string option \<Rightarrow> backend_entry" where
  "resolve r requested =
     (case requested of
        None \<Rightarrow> default_entry r
      | Some req \<Rightarrow>
          if req = [] then default_entry r
          else (case List.find (\<lambda>e. entry_name e = normalize req) (entries r) of
                  Some e \<Rightarrow> e
                | None \<Rightarrow> default_entry r))"

definition router_complete ::
  "backend_router \<Rightarrow> llm_message list \<Rightarrow> llm_params \<Rightarrow> string + stream_event list" where
  "router_complete r messages params = be_complete (entry_backend (resolve r (p_backend params))) messages params"

definition router_list_models :: "backend_router \<Rightarrow> string list" where
  "router_list_models r =
     vec_dedup (sort (concat (map (\<lambda>e. case be_list_models (entry_backend e) of
                                         Inr ms \<Rightarrow> ms | Inl _ \<Rightarrow> []) (entries r))))"

definition router_list_backends :: "backend_router \<Rightarrow> backend_models list" where
  "router_list_backends r =
     map (\<lambda>e. \<lparr>bm_backend = entry_name e, bm_default_model = entry_default_model e,
               bm_models = (case be_list_models (entry_backend e) of
                              Inr ms \<Rightarrow> vec_dedup (sort ms) | Inl _ \<Rightarrow> [])\<rparr>) (entries r)"

definition default_model_for :: "backend_router \<Rightarrow> string option \<Rightarrow> string option" where
  "default_model_for r b = entry_default_model (resolve r b)"

definition router_default_backend :: "backend_router \<Rightarrow> string \<times> string option" where
  "router_default_backend r = (entry_name (default_entry r), entry_default_model (default_entry r))"

lemma default_entry_mem: "entries r \<noteq> [] \<Longrightarrow> default_entry r \<in> set (entries r)"
  by (auto simp: default_entry_def dest: find_mem split: option.splits)

lemma resolve_mem: "entries r \<noteq> [] \<Longrightarrow> resolve r req \<in> set (entries r)"
  by (auto simp: resolve_def dest: find_mem default_entry_mem split: option.splits)

text \<open>
  Every request reaches a configured backend. A router that could be built resolves any
  requested name to one of its entries: the first whose canonical name equals the canonical form
  of the request when there is one, and otherwise, as when nothing is requested, the process
  default; a name and its spelling variants are the same request.
\<close>

theorem router_resolves:
  assumes "router_new dflt es = Some r"
  shows "resolve r req \<in> set (entries r)
    \<and> (\<forall>name. req = Some name \<and> name \<noteq> [] \<and> (\<exists>e \<in> set (entries r). entry_name e = normalize name)
          \<longrightarrow> entry_name (resolve r req) = normalize name)
    \<and> (\<forall>name. (\<forall>e \<in> set (entries r). entry_name e \<noteq> normalize name) \<longrightarrow> resolve r (Some name) = resolve r None)
    \<and> (\<forall>a b. a \<noteq> [] \<and> b \<noteq> [] \<and> normalize a = normalize b \<longrightarrow> resolve r (Some a) = resolve r (Some b))"
proof -
  have "entries r \<noteq> []" using assms by (auto simp: router_new_def split: if_splits)
  then have "resolve r req \<in> set (entries r)" by (rule resolve_mem)
  moreover have "entry_name (resolve r (Some name)) = normalize name"
    if "name \<noteq> []" "\<exists>e \<in> set (entries r). entry_name e = normalize name" for name
    using that by (auto simp: resolve_def find_None_iff dest: find_mem split: option.splits)
  moreover have "resolve r (Some name) = resolve r None"
    if "\<forall>e \<in> set (entries r). entry_name e \<noteq> normalize name" for name
    using that by (auto simp: resolve_def dest: find_mem split: option.splits)
  moreover have "resolve r (Some a) = resolve r (Some b)" if "a \<noteq> []" "b \<noteq> []" "normalize a = normalize b" for a b
    using that by (simp add: resolve_def)
  ultimately show ?thesis by blast
qed

definition demo_backend :: backend where
  "demo_backend = \<lparr>be_complete = (\<lambda>_ _. Inr [StreamEnd]), be_list_models = Inr [''b'', ''a'', ''b'']\<rparr>"

lemma normalize_demo:
  "normalize '' OpenCode_Go '' = ''opencode-go''" "normalize ''ollama'' = ''ollama''"
  "normalize ''opencode-go'' = ''opencode-go''"
  by (simp_all add: normalize_def to_ascii_lowercase_def str_trim_def byte_val_def is_continuation_def
      char_is_whitespace_def char_of_def bit_simps)

theorem router_resolves_witness:
  "\<exists>r. router_new ''ollama'' [(''ollama'', demo_backend, None), (''opencode-go'', demo_backend, Some ''m'')] = Some r
     \<and> entry_name (resolve r (Some '' OpenCode_Go '')) = ''opencode-go''"
proof -
  obtain r where r: "router_new ''ollama'' [(''ollama'', demo_backend, None), (''opencode-go'', demo_backend, Some ''m'')]
      = Some r" by (simp add: router_new_def)
  then have "\<exists>e \<in> set (entries r). entry_name e = normalize '' OpenCode_Go ''"
    by (auto simp: router_new_def normalize_demo)
  with router_resolves [OF r, of "Some '' OpenCode_Go ''"] r show ?thesis by (simp add: normalize_demo)
qed

text \<open>The listings: every model once, in order, and the catalog's union is the flat list.\<close>

lemma router_list_models_spec:
  "sorted (router_list_models r) \<and> distinct (router_list_models r)
   \<and> set (router_list_models r) = (\<Union>b \<in> set (router_list_backends r). set (bm_models b))"
  by (auto simp: router_list_models_def sorted_vec_dedup router_list_backends_def split: sum.splits)

section \<open>Generating a response\<close>

definition LLM :: string where "LLM = ''com.nominal.cafe-llm''"

type_synonym chunk_source = "nat \<Rightarrow> string \<times> int"

definition token_chunk :: "chunk_source \<Rightarrow> nat \<Rightarrow> string \<Rightarrow> chunk" where
  "token_chunk src n text =
     as_transient (with_annotation CHAT_IS_STREAMING (JBool True)
       (with_annotation CHAT_ROLE (JStr ASSISTANT) (new_text (fst (src n)) (snd (src n)) text LLM)))"

fun run_stream_loop ::
  "chunk_source \<Rightarrow> nat \<Rightarrow> stream_event list \<Rightarrow> string \<Rightarrow> string list \<Rightarrow> chunk list
    \<Rightarrow> (string \<times> string \<times> string list \<times> chunk list) option" where
  "run_stream_loop src n [] full ids emitted = None"
| "run_stream_loop src n (Token text # evs) full ids emitted =
     (let c = token_chunk src n text
      in run_stream_loop src (Suc n) evs (full @ text) (ids @ [chunk_id c]) (emitted @ [c]))"
| "run_stream_loop src n (StreamError e # evs) full ids emitted = Some (''error'', full, ids, emitted)"
| "run_stream_loop src n (StreamEnd # evs) full ids emitted = Some (''stop'', full, ids, emitted)"
| "run_stream_loop src n (AbortChanged b # evs) full ids emitted =
     (if b then Some (''abort'', full, ids, emitted) else run_stream_loop src n evs full ids emitted)"

definition null_chunk :: "chunk_source \<Rightarrow> nat \<Rightarrow> chunk" where
  "null_chunk src n = new_null (fst (src n)) (snd (src n)) LLM"

definition response_chunk :: "chunk_source \<Rightarrow> nat \<Rightarrow> json_rpc_response \<Rightarrow> chunk" where
  "response_chunk src n r =
     with_retain 60 (as_transient (with_annotation CAFE_JSONRPC_RESPONSE (response_to_json r) (null_chunk src n)))"

definition error_chunk :: "chunk_source \<Rightarrow> nat \<Rightarrow> string \<Rightarrow> chunk" where
  "error_chunk src n e =
     with_annotation CHAT_FINISH_REASON (JStr ''error'')
       (with_annotation CHAT_STREAM_COMPLETE (JBool True)
         (with_annotation CHAT_ROLE (JStr ASSISTANT)
           (with_annotation CAFE_ERROR_MESSAGE (JStr e) (null_chunk src n))))"

definition start_chunk :: "chunk_source \<Rightarrow> nat \<Rightarrow> chunk" where
  "start_chunk src n =
     with_retain 5 (as_transient (with_annotation CHAT_IS_STREAMING (JBool True)
       (with_annotation CHAT_ROLE (JStr ASSISTANT) (null_chunk src n))))"

definition answer_chunk :: "chunk_source \<Rightarrow> nat \<Rightarrow> string \<Rightarrow> string \<Rightarrow> chunk" where
  "answer_chunk src n model full =
     with_annotation CHAT_MODEL (JStr model)
       (with_annotation CHAT_IS_STREAMING (JBool True)
         (with_annotation CHAT_ROLE (JStr ASSISTANT) (new_text (fst (src n)) (snd (src n)) full LLM)))"

definition tombstone_chunk :: "chunk_source \<Rightarrow> nat \<Rightarrow> string list \<Rightarrow> chunk" where
  "tombstone_chunk src n ids =
     as_transient (with_annotation CAFE_FLOW_TOMBSTONE (JArr (map JStr ids)) (null_chunk src n))"

definition done_chunk :: "chunk_source \<Rightarrow> nat \<Rightarrow> string \<Rightarrow> chunk" where
  "done_chunk src n reason =
     with_annotation CHAT_FINISH_REASON (JStr reason)
       (with_annotation CHAT_STREAM_COMPLETE (JBool True)
         (with_annotation CHAT_ROLE (JStr ASSISTANT) (null_chunk src n)))"

text \<open>The chunks that a generation publishes, in order; \<open>None\<close> when its stream never ends.\<close>

definition handle_llm_response ::
  "chunk_source \<Rightarrow> (llm_message list \<Rightarrow> llm_params \<Rightarrow> string + stream_event list) \<Rightarrow> llm_message list
    \<Rightarrow> llm_params \<Rightarrow> string \<Rightarrow> chunk list option" where
  "handle_llm_response src cmpl messages params call_id =
     (case cmpl messages params of
        Inl e \<Rightarrow> Some [error_chunk src 0 e, response_chunk src 1 (rpc_response_err call_id (- 1) e)]
      | Inr evs \<Rightarrow>
          (case run_stream_loop src 1 evs [] [] [] of
             None \<Rightarrow> None
           | Some (reason, full, ids, emitted) \<Rightarrow>
               (let n = Suc (length emitted)
                in Some (start_chunk src 0 # emitted
                     @ (if full \<noteq> [] then [answer_chunk src n (p_model params) full] else [])
                     @ [tombstone_chunk src (n + 1) ids, done_chunk src (n + 2) reason,
                        response_chunk src (n + 3)
                          (rpc_response_ok call_id (json_obj [(''status'', JStr ''ok'')]))]))))"

text \<open>Collecting a whole stream; an abort does not concern it.\<close>

fun complete_to_string :: "stream_event list \<Rightarrow> string \<Rightarrow> (string + string) option" where
  "complete_to_string [] text = None"
| "complete_to_string (Token t # evs) text = complete_to_string evs (text @ t)"
| "complete_to_string (StreamError e # evs) text = Some (Inl e)"
| "complete_to_string (StreamEnd # evs) text = Some (Inr text)"
| "complete_to_string (AbortChanged b # evs) text = complete_to_string evs text"

definition collect :: "string + stream_event list \<Rightarrow> (string + string) option" where
  "collect r = (case r of Inl e \<Rightarrow> Some (Inl e) | Inr evs \<Rightarrow> complete_to_string evs [])"

definition summarize_prefix ::
  "(llm_message list \<Rightarrow> llm_params \<Rightarrow> string + stream_event list) \<Rightarrow> string \<Rightarrow> string option
    \<Rightarrow> llm_message list \<Rightarrow> llm_message list \<Rightarrow> string \<Rightarrow> llm_message list option" where
  "summarize_prefix cmpl model backend_name messages drp sid =
     (if drp = [] then Some messages
      else let params = \<lparr>p_model = model, p_temperature = None, p_max_tokens = None,
                         p_session_id = Some sid, p_backend = backend_name\<rparr>
           in case collect (cmpl (build_summary_request drp) params) of
                None \<Rightarrow> None
              | Some (Inl e) \<Rightarrow> Some messages
              | Some (Inr summary) \<Rightarrow>
                  (let s = str_trim summary in Some (if s = [] then messages else insert_summary messages s)))"

section \<open>The evaluator of a session\<close>

record llm_service =
  svc_complete :: "llm_message list \<Rightarrow> llm_params \<Rightarrow> string + stream_event list"
  svc_default_model_for :: "string option \<Rightarrow> string option"
  svc_default_model :: string
  svc_float :: float_ops

definition invoke ::
  "llm_service \<Rightarrow> chunk_source \<Rightarrow> string \<Rightarrow> chunk list \<Rightarrow> string \<Rightarrow> chunk list option" where
  "invoke svc src sid hist call_id =
     (let cfg = extract_config (svc_float svc) hist;
          model = (case llm_model cfg of
                     Some m \<Rightarrow> m
                   | None \<Rightarrow> (case svc_default_model_for svc (llm_backend cfg) of
                                Some m \<Rightarrow> m | None \<Rightarrow> svc_default_model svc));
          (messages, info) = apply_compaction (build_messages hist (llm_system_prompt cfg)) cfg;
          messages' = (if dropped_messages info > 0 \<and> llm_compaction_mode cfg = Some ''summarize''
                       then summarize_prefix (svc_complete svc) model (llm_backend cfg) messages (dropped info) sid
                       else Some messages);
          params = \<lparr>p_model = model, p_temperature = llm_temperature cfg, p_max_tokens = llm_max_tokens cfg,
                    p_session_id = Some sid, p_backend = llm_backend cfg\<rparr>
      in Option.bind messages' (\<lambda>ms. handle_llm_response src (svc_complete svc) ms params call_id))"

definition param_str :: "json \<Rightarrow> string \<Rightarrow> string \<Rightarrow> string" where
  "param_str ps k dflt = (case as_str (json_index ps k) of None \<Rightarrow> dflt | Some s \<Rightarrow> s)"

definition prompt :: "llm_service \<Rightarrow> chunk_source \<Rightarrow> string \<Rightarrow> json_rpc_request \<Rightarrow> chunk list option" where
  "prompt svc src sid rpc =
     (let ps = req_params rpc;
          messages = [msg ''system'' (param_str ps ''system_prompt'' []), msg ''user'' (param_str ps ''prompt'' [])];
          temperature = (case json_index ps ''temperature'' of
                           JNum n \<Rightarrow> Some (fp_narrow (svc_float svc) n) | _ \<Rightarrow> None);
          params = \<lparr>p_model = param_str ps ''model'' (svc_default_model svc), p_temperature = temperature,
                    p_max_tokens = None, p_session_id = Some sid, p_backend = None\<rparr>
      in map_option (\<lambda>r. [response_chunk src 0
             (case r of
                Inr text \<Rightarrow> rpc_response_ok (req_id rpc) (json_obj [(''text'', JStr text)])
              | Inl e \<Rightarrow> rpc_response_err (req_id rpc) (- 1) e)])
           (collect (svc_complete svc messages params)))"

text \<open>
  One turn of the evaluator's loop: whether the replay is complete, and what it publishes.  The
  outcome of fetching the history is an input.
\<close>

definition is_abort :: "chunk \<Rightarrow> bool" where
  "is_abort c \<longleftrightarrow> chunk_type c = Null \<and> get_annotation as_str CAFE_FLOW_SIGNAL c = Some ''abort''"

definition eval_message ::
  "llm_service \<Rightarrow> chunk_source \<Rightarrow> string \<Rightarrow> (string + chunk list) \<Rightarrow> server_message \<Rightarrow> bool
    \<Rightarrow> bool \<times> chunk list option" where
  "eval_message svc src sid fetched m cmpl =
     (case m of
        Chunk sid' c \<Rightarrow>
          if sid' \<noteq> sid then (cmpl, Some [])
          else if is_abort c then (cmpl, Some [])
          else (case as_rpc_request c of
                  None \<Rightarrow> (cmpl, Some [])
                | Some rpc \<Rightarrow>
                    if \<not> cmpl then (cmpl, Some [])
                    else if req_method rpc = ''llm.invoke''
                    then (case fetched of
                            Inl e \<Rightarrow> (cmpl, Some [])
                          | Inr hist \<Rightarrow> (cmpl, invoke svc src sid hist (req_id rpc)))
                    else if req_method rpc = ''llm.prompt''
                    then (cmpl, prompt svc src sid rpc)
                    else (cmpl, Some []))
      | HistoryComplete _ _ \<Rightarrow> (True, Some [])
      | _ \<Rightarrow> (cmpl, Some []))"

section \<open>What a generation publishes\<close>

definition continues :: "stream_event \<Rightarrow> bool" where
  "continues e \<longleftrightarrow> (case e of Token _ \<Rightarrow> True | AbortChanged b \<Rightarrow> \<not> b | _ \<Rightarrow> False)"

definition texts :: "stream_event list \<Rightarrow> string list" where
  "texts evs = List.map_filter (\<lambda>e. case e of Token t \<Rightarrow> Some t | _ \<Rightarrow> None) evs"

fun reason :: "stream_event \<Rightarrow> string" where
  "reason StreamEnd = ''stop''"
| "reason (StreamError _) = ''error''"
| "reason _ = ''abort''"

fun token_chunks :: "chunk_source \<Rightarrow> nat \<Rightarrow> string list \<Rightarrow> chunk list" where
  "token_chunks src n [] = []"
| "token_chunks src n (t # ts) = token_chunk src n t # token_chunks src (Suc n) ts"

lemma continues_simps [simp]:
  "continues (Token t)" "\<not> continues (StreamError x)" "\<not> continues StreamEnd"
  "continues (AbortChanged b) = (\<not> b)"
  by (simp_all add: continues_def)

lemma texts_simps [simp]:
  "texts [] = []" "texts (Token t # evs) = t # texts evs" "texts (AbortChanged b # evs) = texts evs"
  by (simp_all add: texts_def map_filter_simps)

lemma run_stream_loop_eq:
  "run_stream_loop src n evs full ids emitted =
     (case dropWhile continues evs of
        [] \<Rightarrow> None
      | e # _ \<Rightarrow>
          (let cs = token_chunks src n (texts (takeWhile continues evs))
           in Some (reason e, full @ concat (texts (takeWhile continues evs)), ids @ map chunk_id cs,
                    emitted @ cs)))"
  by (induction src n evs full ids emitted rule: run_stream_loop.induct)
     (simp_all add: Let_def del: dropWhile_eq_Nil_conv split: list.split)

lemma run_stream_loop_result:
  assumes "run_stream_loop src n evs [] [] [] = Some (why, full, ids, emitted)"
  shows "\<exists>ts. emitted = token_chunks src n ts \<and> full = concat ts \<and> ids = map chunk_id emitted"
  using assms
  by (auto simp: run_stream_loop_eq Let_def simp del: dropWhile_eq_Nil_conv split: list.splits)

text \<open>
  Streaming is exact and can be interrupted. The loop emits one transient chunk per token
  received before the first terminating event, and returns their texts concatenated and their
  ids, in order; the first abort, error or end of the stream stops it and gives the finish
  reason, and nothing after that event is read. It returns exactly when such an event comes.
\<close>

theorem stream_loop_spec:
  "run_stream_loop src n evs [] [] [] =
     (case dropWhile continues evs of
        [] \<Rightarrow> None
      | e # _ \<Rightarrow>
          (let ts = texts (takeWhile continues evs); cs = token_chunks src n ts
           in Some (reason e, concat ts, map chunk_id cs, cs)))
   \<and> list_all is_transient (token_chunks src n (texts (takeWhile continues evs)))
   \<and> map content (token_chunks src n (texts (takeWhile continues evs)))
       = map Some (texts (takeWhile continues evs))"
proof -
  have "list_all is_transient (token_chunks src n ts) \<and> map content (token_chunks src n ts) = map Some ts" for ts
    by (induction src n ts rule: token_chunks.induct) (simp_all add: token_chunk_def)
  then show ?thesis
    by (simp only: run_stream_loop_eq append_Nil Let_def simp_thms)
qed

lemma chunk_annotations:
  "c \<in> set (token_chunks src n ts) \<Longrightarrow> annotation c CAFE_JSONRPC_RESPONSE = None \<and> annotation c CAFE_FLOW_SIGNAL = None
     \<and> is_transient c"
  by (induction src n ts rule: token_chunks.induct) (auto simp: token_chunk_def)

lemma generated_chunks [simp]:
  "annotation (start_chunk src n) CAFE_JSONRPC_RESPONSE = None" "annotation (start_chunk src n) CAFE_FLOW_SIGNAL = None"
  "is_transient (start_chunk src n)"
  "annotation (answer_chunk src n m t) CAFE_JSONRPC_RESPONSE = None"
  "annotation (answer_chunk src n m t) CAFE_FLOW_SIGNAL = None" "\<not> is_transient (answer_chunk src n m t)"
  "annotation (tombstone_chunk src n ids) CAFE_JSONRPC_RESPONSE = None"
  "annotation (tombstone_chunk src n ids) CAFE_FLOW_SIGNAL = None" "is_transient (tombstone_chunk src n ids)"
  "annotation (done_chunk src n w) CAFE_JSONRPC_RESPONSE = None" "annotation (done_chunk src n w) CAFE_FLOW_SIGNAL = None"
  "\<not> is_transient (done_chunk src n w)"
  "annotation (error_chunk src n e) CAFE_JSONRPC_RESPONSE = None" "annotation (error_chunk src n e) CAFE_FLOW_SIGNAL = None"
  "\<not> is_transient (error_chunk src n e)"
  "annotation (response_chunk src n r) CAFE_FLOW_SIGNAL = None" "is_transient (response_chunk src n r)"
  by (simp_all add: start_chunk_def answer_chunk_def tombstone_chunk_def done_chunk_def error_chunk_def
      response_chunk_def null_chunk_def)

lemma not_response: "annotation c CAFE_JSONRPC_RESPONSE = None \<Longrightarrow> \<not> is_rpc_response_for i c"
  by (simp add: is_rpc_response_for_def as_rpc_response_def get_annotation_def)

lemma response_chunk_recognised:
  "rpc_response_wf r \<Longrightarrow> as_rpc_response (response_chunk src n r) = Some r"
  unfolding response_chunk_def by (rule rpc_response_recognised)

lemma rpc_wf [simp]:
  "rpc_response_wf (rpc_response_ok i (json_obj kvs))" "rpc_response_wf (rpc_response_err i (- 1) e)"
  by (simp_all add: rpc_response_wf_def rpc_response_ok_def rpc_response_err_def rpc_error_ok_def)

lemma response_chunk_for [simp]:
  "is_rpc_response_for i (response_chunk src n (rpc_response_ok j (json_obj kvs))) = (j = i)"
  "is_rpc_response_for i (response_chunk src n (rpc_response_err j (- 1) e)) = (j = i)"
  by (simp_all add: is_rpc_response_for_def response_chunk_recognised)
     (simp_all add: rpc_response_ok_def rpc_response_err_def)

text \<open>What a generation publishes, in one place.\<close>

lemma handle_llm_response_cases:
  assumes "handle_llm_response src cmpl ms params i = Some cs"
  obtains e where "cs = [error_chunk src 0 e, response_chunk src 1 (rpc_response_err i (- 1) e)]"
  | ts n why where
      "cs = start_chunk src 0 # token_chunks src 1 ts
        @ (if concat ts \<noteq> [] then [answer_chunk src n (p_model params) (concat ts)] else [])
        @ [tombstone_chunk src (n + 1) (map chunk_id (token_chunks src 1 ts)), done_chunk src (n + 2) why,
           response_chunk src (n + 3) (rpc_response_ok i (json_obj [(''status'', JStr ''ok'')]))]"
proof (cases "cmpl ms params")
  case (Inl e)
  then show ?thesis by (intro that(1) [of e]) (use assms in \<open>simp add: handle_llm_response_def\<close>)
next
  case (Inr evs)
  with assms obtain why full ids emitted where
    r: "run_stream_loop src 1 evs [] [] [] = Some (why, full, ids, emitted)"
    by (auto simp: handle_llm_response_def split: option.splits)
  obtain ts where "emitted = token_chunks src 1 ts" "full = concat ts" "ids = map chunk_id emitted"
    using run_stream_loop_result [OF r] by blast
  then show ?thesis
    by (intro that(2) [of ts "Suc (length emitted)" why])
       (use assms Inr r in \<open>auto simp: handle_llm_response_def Let_def\<close>)
qed

text \<open>
  C21: A request is answered exactly once. When the evaluator takes up an invoke or prompt request
  after the replay and its backend finishes, what it publishes ends with one RPC response that
  carries the request's id, and contains no other; an invoke request is left without any answer
  in exactly one case, when the session's history cannot be fetched.
\<close>

theorem rpc_answered_once:
  assumes "as_rpc_request c = Some rpc" and "\<not> is_abort c"
    and "req_method rpc = ''llm.invoke'' \<or> req_method rpc = ''llm.prompt''"
    and "eval_message svc src sid fetched (Chunk sid c) True = (b, Some cs)"
  shows "if req_method rpc = ''llm.invoke'' \<and> (\<exists>e. fetched = Inl e) then cs = []
    else cs \<noteq> [] \<and> is_rpc_response_for (req_id rpc) (last cs)
      \<and> filter (is_rpc_response_for (req_id rpc)) cs = [last cs]"
proof -
  have none: "filter (is_rpc_response_for i) (token_chunks src n ts) = []" for i n ts
    by (auto simp: filter_empty_conv dest!: chunk_annotations intro!: not_response)
  have gen: "cs \<noteq> [] \<and> is_rpc_response_for i (last cs) \<and> filter (is_rpc_response_for i) cs = [last cs]"
    if "handle_llm_response src cmpl ms params i = Some cs" for cmpl ms params i
    using that by (rule handle_llm_response_cases) (simp_all add: none not_response)
  have prm: "cs \<noteq> [] \<and> is_rpc_response_for (req_id rpc) (last cs)
      \<and> filter (is_rpc_response_for (req_id rpc)) cs = [last cs]"
    if p: "prompt svc src sid rpc = Some cs"
  proof -
    obtain r where "cs = [response_chunk src 0 (case r of
          Inr text \<Rightarrow> rpc_response_ok (req_id rpc) (json_obj [(''text'', JStr text)])
        | Inl e \<Rightarrow> rpc_response_err (req_id rpc) (- 1) e)]"
      using p unfolding prompt_def Let_def map_option_eq_Some by blast
    then show ?thesis by (cases r) simp_all
  qed
  show ?thesis
    using assms gen prm
    by (auto simp: eval_message_def invoke_def Let_def bind_eq_Some_conv split: sum.splits prod.splits if_splits)
qed

definition demo_service :: llm_service where
  "demo_service =
     \<lparr>svc_complete = (\<lambda>_ _. Inr [Token ''hel'', Token ''lo'', StreamEnd]), svc_default_model_for = (\<lambda>_. None),
      svc_default_model = ''m'', svc_float = \<lparr>fp_narrow = (\<lambda>_. NaN), fp_parse = (\<lambda>_. None)\<rparr>\<rparr>"

definition demo_request :: "string \<Rightarrow> chunk" where
  "demo_request m =
     with_retain 60 (as_transient (with_annotation CAFE_JSONRPC_REQUEST
       (request_to_json (rpc_request_new ''r1'' m JNull)) (new_null ''q'' 0 ''com.test'')))"

lemma demo_request_simps:
  "as_rpc_request (demo_request m) = Some (rpc_request_new ''r1'' m JNull)" "\<not> is_abort (demo_request m)"
  by (simp_all add: demo_request_def rpc_request_recognised is_abort_def get_annotation_def)

theorem rpc_answered_once_witness:
  "\<exists>cs. eval_message demo_service (\<lambda>n. (''t'', 0)) ''s'' (Inr []) (Chunk ''s'' (demo_request ''llm.invoke'')) True = (True, Some cs)
     \<and> filter (is_rpc_response_for ''r1'') cs = [last cs]"
proof -
  obtain cs where e: "eval_message demo_service (\<lambda>n. (''t'', 0)) ''s'' (Inr []) (Chunk ''s'' (demo_request ''llm.invoke'')) True
      = (True, Some cs)"
    by (simp add: eval_message_def demo_request_simps rpc_request_new_def invoke_def demo_service_def Let_def
        extract_config_def empty_llm_config_def build_messages_def apply_compaction_def no_compaction_def
        handle_llm_response_def)
  show ?thesis
    using rpc_answered_once [OF demo_request_simps(1) demo_request_simps(2) _ e] e
    by (simp add: rpc_request_new_def)
qed

text \<open>
  Nothing is done before the replay is complete. Requests replayed from the history or the
  retention buffer, such as those a fork copies, are not acted on: until the completion message
  of the subscription the evaluator publishes nothing at all.
\<close>

theorem no_evaluation_before_replay:
  "eval_message svc src sid fetched m False
     = (case m of HistoryComplete _ _ \<Rightarrow> True | _ \<Rightarrow> False, Some [])"
  by (auto simp: eval_message_def split: server_message.splits option.splits)

lemma surviving_all: "\<forall>c \<in> set cs. delete_target c = None \<Longrightarrow> surviving cs = filter durable cs"
  by (induction cs) (auto simp: durable_def)

text \<open>
  What a generation leaves in the history. When the chunks of a finished generation are
  published on a session, its history grows by the answer, if there is one, and the completion
  mark, and by nothing else: tokens, tombstone and RPC response are broadcast only. A backend
  error leaves one error chunk.
\<close>

theorem generation_history:
  assumes "handle_llm_response src cmpl ms params i = Some cs"
    and "publish_all (map (Pair now) cs) s = Some s'"
  shows "\<exists>added. history s' = history s @ added \<and> tx s' = tx s @ cs
    \<and> ((\<exists>e. added = [error_chunk src 0 e])
      \<or> (\<exists>n why text. added = (if text \<noteq> [] then [answer_chunk src n (p_model params) text] else [])
            @ [done_chunk src (n + 2) why]))"
proof -
  have quiet: "annotation c CAFE_FLOW_SIGNAL = None" if "c \<in> set cs" for c
    by (rule handle_llm_response_cases [OF assms(1)])
       (use that in \<open>auto dest: chunk_annotations split: if_splits\<close>)
  have nodel: "\<forall>c \<in> set cs. delete_target c = None"
    using quiet by (simp add: delete_target_def)
  have snd: "map snd (map (Pair now) cs) = cs" by (simp add: comp_def)
  have "filter (\<lambda>c. \<not> retired_by cs c) (history s) = history s"
    using nodel by (auto simp: retired_by_def intro!: filter_True)
  then have h: "history s' = history s @ filter durable cs" and t: "tx s' = tx s @ cs"
    using publish_all_history [OF assms(2)] publish_all_tx [OF assms(2)] surviving_all [OF nodel]
    by (simp_all only: snd)
  have tok: "filter durable (token_chunks src n ts) = []" for n ts
    by (auto simp: filter_empty_conv durable_def dest: chunk_annotations)
  have d: "delete_target c = None" if "annotation c CAFE_FLOW_SIGNAL = None" for c
    using that by (simp add: delete_target_def)
  from assms(1) show ?thesis
  proof (rule handle_llm_response_cases)
    fix e
    assume "cs = [error_chunk src 0 e, response_chunk src 1 (rpc_response_err i (- 1) e)]"
    with h t show ?thesis by (auto simp: durable_def d)
  next
    fix ts n why
    assume cs: "cs = start_chunk src 0 # token_chunks src 1 ts
        @ (if concat ts \<noteq> [] then [answer_chunk src n (p_model params) (concat ts)] else [])
        @ [tombstone_chunk src (n + 1) (map chunk_id (token_chunks src 1 ts)), done_chunk src (n + 2) why,
           response_chunk src (n + 3) (rpc_response_ok i (json_obj [(''status'', JStr ''ok'')]))]"
    have "filter durable cs = (if concat ts \<noteq> [] then [answer_chunk src n (p_model params) (concat ts)] else [])
        @ [done_chunk src (n + 2) why]"
      unfolding cs by (simp add: tok durable_def d)
    with h t show ?thesis by blast
  qed
qed

definition demo_params :: llm_params where
  "demo_params = \<lparr>p_model = ''m'', p_temperature = None, p_max_tokens = None, p_session_id = None, p_backend = None\<rparr>"

theorem generation_history_witness:
  "\<exists>cs s' added. handle_llm_response (\<lambda>n. (''t'', 0)) (\<lambda>_ _. Inr [Token ''hi'', AbortChanged True]) [] demo_params ''r1'' = Some cs
     \<and> publish_all (map (Pair 0) cs) (session_new ''s'' ''a'') = Some s' \<and> history s' = added \<and> tx s' = cs"
proof -
  obtain cs where cs: "handle_llm_response (\<lambda>n. (''t'', 0)) (\<lambda>_ _. Inr [Token ''hi'', AbortChanged True]) [] demo_params ''r1''
      = Some cs" by (simp add: handle_llm_response_def Let_def)
  have e: "\<exists>s'. publish_all (map (Pair 0) cs) s = Some s'" for s
    using cs
    by (auto simp: handle_llm_response_def Let_def session_publish_def instant_add_secs_def instant_max_def retain_secs_def
       start_chunk_def token_chunk_def answer_chunk_def tombstone_chunk_def done_chunk_def response_chunk_def null_chunk_def
       delete_target_def with_retain_def  split: option.splits)
  then obtain s' where s': "publish_all (map (Pair 0) cs) (session_new ''s'' ''a'') = Some s'" by blast
  have "tx (session_new ''s'' ''a'') = []" by (simp add: session_new_def)
  then show ?thesis using generation_history [OF cs s'] cs s' by auto
qed

end
