(* ===== verification/Agent_Config.thy ===== *)
theory Agent_Config
  imports Bus_Client
begin

text \<open>
  Configuration of the agent runtime: agent definitions and the files they are loaded from
  (\<open>cafe-types/src/session.rs\<close>, \<open>cafe-agent-runtime/src/loader.rs\<close>), the registries of agents and
  of evaluator schemas (\<open>registry.rs\<close>, \<open>schema_registry.rs\<close>), the configuration merged from a
  session's history (\<open>config.rs\<close>), the sessions started for agents (\<open>lifecycle.rs\<close>), and which
  sessions the runtime attaches a pipeline to (\<open>main.rs\<close>).  Base64 decoding is an argument.
\<close>

section \<open>Agent definitions\<close>

record agent_definition =
  ad_name :: string
  ad_description :: string
  ad_background :: bool
  ad_allows_reload :: bool
  ad_persists_state :: bool
  ad_steps :: "step_def list"
  ad_schedule :: "string option"
  ad_chunk_content :: string
  ad_chunk_type :: string
  ad_chunk_data :: "byte list option"
  ad_chunk_mime_type :: "string option"
  ad_chunk_annotations :: "(string, json) kv"
  ad_rpc_timeout_secs :: nat
  ad_max_pipeline_depth :: nat
  ad_keepalive_secs :: "nat option"
  ad_count_role :: "string option"

definition step :: "string \<Rightarrow> string \<Rightarrow> string \<Rightarrow> step_def" where
  "step i ty trig = \<lparr>step_id = i, step_type = ty, step_trigger = trig, enabled_if = None\<rparr>"

definition default_agent_definition :: agent_definition where
  "default_agent_definition =
     \<lparr>ad_name = ''default'', ad_description = ''Standard chat agent'', ad_background = False,
      ad_allows_reload = True, ad_persists_state = True,
      ad_steps = [step ''trust-filter'' ''trust-filter'' ''user_message'', step ''llm'' ''llm'' ''user_message''],
      ad_schedule = None, ad_chunk_content = [], ad_chunk_type = ''text'', ad_chunk_data = None,
      ad_chunk_mime_type = None, ad_chunk_annotations = [], ad_rpc_timeout_secs = 60,
      ad_max_pipeline_depth = 10, ad_keepalive_secs = None, ad_count_role = None\<rparr>"

record initial_chunk_table =
  ic_type :: "string option"
  ic_content :: "string option"
  ic_data :: "string option"
  ic_mime_type :: "string option"
  ic_annotations :: "(string, json) kv option"

record agent_file =
  af_name :: string
  af_description :: "string option"
  af_background :: "bool option"
  af_allows_reload :: "bool option"
  af_persists_state :: "bool option"
  af_steps :: "step_def list option"
  af_schedule :: "string option"
  af_chunk_content :: "string option"
  af_chunk_type :: "string option"
  af_chunk_data :: "string option"
  af_chunk_mime_type :: "string option"
  af_chunk_annotations :: "(string, json) kv option"
  af_initial_chunk :: "initial_chunk_table option"
  af_rpc_timeout_secs :: "nat option"
  af_max_pipeline_depth :: "nat option"
  af_keepalive_secs :: "nat option"
  af_count_role :: "string option"

definition or_else :: "'a \<Rightarrow> 'a option \<Rightarrow> 'a" where
  "or_else d x = (case x of None \<Rightarrow> d | Some y \<Rightarrow> y)"

definition agent_from_file :: "(string \<Rightarrow> byte list option) \<Rightarrow> agent_file \<Rightarrow> agent_definition" where
  "agent_from_file decode f =
     (let (ty, cont, data, mime, anns) =
        (case af_initial_chunk f of
           Some ic \<Rightarrow>
             (or_else ''text'' (ic_type ic), or_else [] (ic_content ic), Option.bind (ic_data ic) decode,
              ic_mime_type ic, or_else [] (ic_annotations ic))
         | None \<Rightarrow>
             (or_else ''text'' (af_chunk_type f), or_else [] (af_chunk_content f),
              Option.bind (af_chunk_data f) decode, af_chunk_mime_type f,
              or_else [] (af_chunk_annotations f)))
      in \<lparr>ad_name = af_name f, ad_description = or_else [] (af_description f),
          ad_background = or_else False (af_background f),
          ad_allows_reload = or_else True (af_allows_reload f),
          ad_persists_state = or_else True (af_persists_state f),
          ad_steps = or_else [step ''llm'' ''llm'' ''user_message''] (af_steps f),
          ad_schedule = af_schedule f, ad_chunk_content = cont, ad_chunk_type = ty,
          ad_chunk_data = data, ad_chunk_mime_type = mime, ad_chunk_annotations = anns,
          ad_rpc_timeout_secs = or_else 60 (af_rpc_timeout_secs f),
          ad_max_pipeline_depth = or_else 10 (af_max_pipeline_depth f),
          ad_keepalive_secs = af_keepalive_secs f, ad_count_role = af_count_role f\<rparr>)"

section \<open>Registries\<close>

record agent_entry =
  ae_def :: agent_definition
  ae_path :: string
  ae_file_hash :: string

type_synonym agent_registry = "(string, agent_entry) kv"

definition agent_insert :: "agent_entry \<Rightarrow> agent_registry \<Rightarrow> agent_registry" where
  "agent_insert e r = kv_insert (ad_name (ae_def e)) e r"

definition agent_get_hash :: "agent_registry \<Rightarrow> string \<Rightarrow> string" where
  "agent_get_hash r n = (case kv_get r n of None \<Rightarrow> [] | Some e \<Rightarrow> ae_file_hash e)"

definition agent_update :: "string \<Rightarrow> agent_definition \<Rightarrow> string \<Rightarrow> agent_registry \<Rightarrow> agent_registry" where
  "agent_update n d h r = kv_adjust n (\<lambda>e. e\<lparr>ae_def := d, ae_file_hash := h\<rparr>) r"

type_synonym schema_registry = "(string, evaluator_schema) kv"

definition schema_insert :: "evaluator_schema \<Rightarrow> schema_registry \<Rightarrow> schema_registry" where
  "schema_insert s r = kv_insert (schema_name s) s r"

definition schema_snapshot :: "schema_registry \<Rightarrow> evaluator_schema list" where
  "schema_snapshot r = sort_key schema_name (map snd r)"

definition extract_schema :: "chunk \<Rightarrow> evaluator_schema option" where
  "extract_schema c = Option.bind (annotation c CAFE_SCHEMA_EVALUATOR) schema_from_json"

definition learn_schema :: "server_message \<Rightarrow> schema_registry \<Rightarrow> schema_registry" where
  "learn_schema m r =
     (case m of
        Chunk _ c \<Rightarrow> (case extract_schema c of None \<Rightarrow> r | Some s \<Rightarrow> schema_insert s r)
      | _ \<Rightarrow> r)"

text \<open>
  One round of discovery over the messages of the schema session until it is disconnected; the
  first component is whether the round ended after the replay (\<open>Ok\<close>) or before it (\<open>Err\<close>, and
  the caller starts another round).
\<close>

fun try_discover :: "server_message list \<Rightarrow> bool \<Rightarrow> schema_registry \<Rightarrow> bool \<times> schema_registry" where
  "try_discover [] replayed r = (replayed, r)"
| "try_discover (m # ms) replayed r =
     (case m of
        HistoryComplete _ _ \<Rightarrow> try_discover ms True r
      | _ \<Rightarrow> try_discover ms replayed (learn_schema m r))"

section \<open>Merged session configuration\<close>

record merged_config =
  mc_values :: "(string, json) kv"
  mc_extra :: "(string, json) kv"

definition known_config_keys :: "evaluator_schema list \<Rightarrow> string list" where
  "known_config_keys schemas =
     concat (map (\<lambda>s. case Option.bind (json_get (config_schema s) ''properties'') as_object of
                        None \<Rightarrow> [] | Some props \<Rightarrow> map fst props) schemas)"

definition is_runtime_chunk :: "chunk \<Rightarrow> bool" where
  "is_runtime_chunk c \<longleftrightarrow> chunk_type c = Null \<and> Option.bind (annotation c CONFIG_TYPE) as_str = Some ''runtime''"

definition merge_annotation :: "string list \<Rightarrow> string \<times> json \<Rightarrow> merged_config \<Rightarrow> merged_config" where
  "merge_annotation known kv cfg =
     (if fst kv = CONFIG_TYPE then cfg
      else let cfg1 = cfg\<lparr>mc_values := kv_insert (fst kv) (snd kv) (mc_values cfg)\<rparr>
           in if fst kv \<notin> set known
              then cfg1\<lparr>mc_extra := kv_insert (fst kv) (snd kv) (mc_extra cfg1)\<rparr>
              else cfg1)"

definition resolve_session_config :: "chunk list \<Rightarrow> evaluator_schema list \<Rightarrow> merged_config" where
  "resolve_session_config hist schemas =
     fold (\<lambda>c cfg. if is_runtime_chunk c
                    then fold (merge_annotation (known_config_keys schemas)) (annotations c) cfg else cfg)
       hist \<lparr>mc_values = [], mc_extra = []\<rparr>"

section \<open>Sessions of background agents\<close>

text \<open>The messages a background agent's session is started with.\<close>

definition annotate_all :: "(string, json) kv \<Rightarrow> chunk \<Rightarrow> chunk" where
  "annotate_all anns c = fold (\<lambda>(k, v). with_annotation k v) anns c"

definition create_agent_session ::
  "string \<Rightarrow> int \<Rightarrow> string \<Rightarrow> string option \<Rightarrow> string option \<Rightarrow> byte list option \<Rightarrow> string option
    \<Rightarrow> (string, json) kv \<Rightarrow> nat option \<Rightarrow> string option \<Rightarrow> client_message list" where
  "create_agent_session uuid now_ms agent cont ty data mime anns keepalive cnt_role =
     (let config = (case keepalive of
                      Some k \<Rightarrow> default_session_config
                        \<lparr>cfg_ephemeral := Some \<lparr>keepalive_secs = k, count_role = cnt_role\<rparr>\<rparr>
                    | None \<Rightarrow> default_session_config);
          chunk_content = or_else [] cont;
          t = or_else ''text'' ty;
          first = (if t = ''text''
                   then (if str_trim chunk_content \<noteq> []
                         then [annotate_all anns (with_annotation CHAT_ROLE (JStr ''user'')
                                 (new_text uuid now_ms chunk_content agent))]
                         else [])
                   else if t = ''null'' then [annotate_all anns (new_null uuid now_ms agent)]
                   else if t = ''binary''
                   then (case data of
                           Some d \<Rightarrow> [annotate_all anns (new_binary uuid now_ms d
                                        (or_else ''application/octet-stream'' mime) agent)]
                         | None \<Rightarrow> [])
                   else [])
      in CreateSession agent agent config # map (Publish agent) first)"

definition reset_agent_session :: "string \<Rightarrow> int \<Rightarrow> string \<Rightarrow> client_message" where
  "reset_agent_session uuid now_ms agent =
     Publish agent (with_annotation CAFE_FLOW_AGENT_ID (JStr agent)
       (with_annotation CAFE_FLOW_SIGNAL (JStr ''reset'')
         (new_null uuid now_ms ''com.nominal.cafe-agent-runtime'')))"

definition tick_agent :: "string \<Rightarrow> int \<Rightarrow> string \<Rightarrow> client_message" where
  "tick_agent uuid now_ms agent =
     Publish agent (with_annotation CAFE_FLOW_SIGNAL (JStr ''tick'')
       (new_null uuid now_ms ''com.nominal.cafe-agent-runtime''))"

section \<open>Attaching pipelines\<close>

definition remove_shadowed ::
  "(string \<times> agent_definition) list \<Rightarrow> string list \<Rightarrow> string list \<times> (string \<times> agent_definition) list" where
  "remove_shadowed agents js_names =
     (vec_dedup (sort (map (ad_name \<circ> snd) (filter (\<lambda>a. ad_name (snd a) \<in> set js_names) agents))),
      filter (\<lambda>a. ad_name (snd a) \<notin> set js_names) agents)"

definition has_rpc_steps :: "agent_definition \<Rightarrow> bool" where
  "has_rpc_steps d =
     list_ex (\<lambda>s. step_type s \<notin> {''role-annotator'', ''trust-filter'', ''tool-detector'', ''tool-executor''})
       (ad_steps d)"

text \<open>
  The subscriber's view of the event stream: which sessions have a pipeline, and the list of the
  pipelines it has started, as pairs of session and agent.
\<close>

record attachments =
  at_attached :: "string set"
  at_started :: "(string \<times> string) list"

definition attach :: "string \<Rightarrow> string \<Rightarrow> attachments \<Rightarrow> attachments" where
  "attach sid agent a =
     (if sid \<in> at_attached a then a
      else a\<lparr>at_attached := insert sid (at_attached a), at_started := at_started a @ [(sid, agent)]\<rparr>)"

text \<open>
  What an attachment publishes into the session: the initial configuration of the agent and the
  known schemas of its RPC steps.
\<close>

record agent_pipeline_info =
  pi_steps :: "step_def list"
  pi_rpc_timeout_secs :: nat
  pi_max_pipeline_depth :: nat
  pi_initial_chunk_type :: string
  pi_initial_chunk_annotations :: "(string, json) kv"

definition pipeline_info :: "agent_definition \<Rightarrow> agent_pipeline_info" where
  "pipeline_info d =
     \<lparr>pi_steps = ad_steps d, pi_rpc_timeout_secs = ad_rpc_timeout_secs d,
      pi_max_pipeline_depth = ad_max_pipeline_depth d, pi_initial_chunk_type = ad_chunk_type d,
      pi_initial_chunk_annotations = ad_chunk_annotations d\<rparr>"

definition seed_chunk :: "string \<Rightarrow> int \<Rightarrow> string \<Rightarrow> agent_pipeline_info \<Rightarrow> chunk option" where
  "seed_chunk uuid now_ms agent info =
     (if pi_initial_chunk_type info = ''null'' \<and> pi_initial_chunk_annotations info \<noteq> []
      then Some (annotate_all (pi_initial_chunk_annotations info)
             (new_null uuid now_ms (''com.nominal.cafe-agent-runtime/'' @ agent)))
      else None)"

definition schema_chunks :: "(nat \<Rightarrow> string) \<Rightarrow> int \<Rightarrow> schema_registry \<Rightarrow> step_def list \<Rightarrow> chunk list" where
  "schema_chunks uuid now_ms sreg steps =
     map (\<lambda>(i, s). with_annotation CAFE_SCHEMA_EVALUATOR (schema_to_json s)
            (new_null (uuid i) now_ms ''com.nominal.cafe-agent-runtime''))
       (enumerate 0 (List.map_filter (\<lambda>s. kv_get sreg (step_type s))
         (filter (\<lambda>s. step_type s \<notin>
             {''role-annotator'', ''trust-filter'', ''tool-detector'', ''tool-executor'', ''mcp''}) steps)))"

definition subscriber_step :: "string set \<Rightarrow> server_message \<Rightarrow> attachments \<Rightarrow> attachments" where
  "subscriber_step pipelines m a =
     (case m of
        SessionCreated sid agent \<Rightarrow> if agent \<in> pipelines then attach sid agent a else a
      | SessionDeleted sid \<Rightarrow> a\<lparr>at_attached := at_attached a - {sid}\<rparr>
      | _ \<Rightarrow> a)"

definition run_pipeline_subscriber ::
  "string set \<Rightarrow> session_info list \<Rightarrow> server_message list \<Rightarrow> attachments" where
  "run_pipeline_subscriber pipelines listed events =
     fold (subscriber_step pipelines) events
       (fold (\<lambda>i a. if si_agent_id i \<in> pipelines then attach (si_session_id i) (si_agent_id i) a else a)
          listed \<lparr>at_attached = {}, at_started = []\<rparr>)"

section \<open>The merged configuration is the last value of every key\<close>

text \<open>What a history says of a key: the value in the last runtime chunk that has it.\<close>

fun last_value :: "string \<Rightarrow> chunk list \<Rightarrow> json option" where
  "last_value k [] = None"
| "last_value k (c # cs) =
     (case last_value k cs of
        Some v \<Rightarrow> Some v
      | None \<Rightarrow> if is_runtime_chunk c \<and> k \<noteq> CONFIG_TYPE then annotation c k else None)"

lemma fold_merge_values:
  "kv_get (mc_values (fold (merge_annotation known) kvs cfg)) k
     = (case kv_get (rev kvs) k of
          Some v \<Rightarrow> if k = CONFIG_TYPE then kv_get (mc_values cfg) k else Some v
        | None \<Rightarrow> kv_get (mc_values cfg) k)"
  by (induction kvs arbitrary: cfg)
     (auto simp: kv_get_append merge_annotation_def Let_def kv_simps split: option.splits)

lemma fold_merge_extra:
  "kv_get (mc_extra (fold (merge_annotation known) kvs cfg)) k
     = (case kv_get (rev kvs) k of
          Some v \<Rightarrow> if k = CONFIG_TYPE \<or> k \<in> set known then kv_get (mc_extra cfg) k else Some v
        | None \<Rightarrow> kv_get (mc_extra cfg) k)"
  by (induction kvs arbitrary: cfg)
     (auto simp: kv_get_append merge_annotation_def Let_def kv_simps split: option.splits)

lemma resolved_config:
  assumes "\<forall>c \<in> set hist. kv_wf (annotations c)"
  shows "kv_get (mc_values (resolve_session_config hist schemas)) k = last_value k hist
    \<and> kv_get (mc_extra (resolve_session_config hist schemas)) k
        = (if k \<in> set (known_config_keys schemas) then None else last_value k hist)"
proof -
  let ?known = "known_config_keys schemas"
  let ?f = "\<lambda>c cfg. if is_runtime_chunk c then fold (merge_annotation ?known) (annotations c) cfg else cfg"
  have v: "kv_get (mc_values (fold ?f hist cfg)) k
      = (case last_value k hist of Some v \<Rightarrow> Some v | None \<Rightarrow> kv_get (mc_values cfg) k)" for cfg
    using assms
    by (induction hist arbitrary: cfg)
       (auto simp: fold_merge_values kv_get_rev annotation_def split: option.splits)
  have e: "kv_get (mc_extra (fold ?f hist cfg)) k
      = (if k \<in> set ?known then kv_get (mc_extra cfg) k
         else case last_value k hist of Some v \<Rightarrow> Some v | None \<Rightarrow> kv_get (mc_extra cfg) k)" for cfg
    using assms
    by (induction hist arbitrary: cfg)
       (auto simp: fold_merge_extra kv_get_rev annotation_def split: option.splits)
  show ?thesis
    using v [of "\<lparr>mc_values = [], mc_extra = []\<rparr>"] e [of "\<lparr>mc_values = [], mc_extra = []\<rparr>"]
    by (simp add: resolve_session_config_def split: option.splits)
qed

text \<open>
  Session configuration, in closed form. For every key but the marker, the merged value is
  the one in the last runtime chunk of the history that has the key, so a partial update keeps
  all other settings; the keys outside every announced schema appear under both headings, and
  declared keys never appear among the extra ones.
\<close>

theorem resolve_session_config_spec:
  assumes "\<forall>c \<in> set hist. kv_wf (annotations c)"
  shows "kv_get (mc_values (resolve_session_config hist schemas)) k = last_value k hist
    \<and> kv_get (mc_extra (resolve_session_config hist schemas)) k
        = (if k \<in> set (known_config_keys schemas) then None else last_value k hist)"
  using assms by (rule resolved_config)

definition demo_runtime :: "(string \<times> string) list \<Rightarrow> chunk" where
  "demo_runtime kvs =
     annotate_all (map (\<lambda>(k, v). (k, JStr v)) kvs)
       (with_annotation CONFIG_TYPE (JStr ''runtime'') (new_null ''c'' 0 ''com.test''))"

theorem resolve_session_config_witness:
  "kv_get (mc_values (resolve_session_config
     [demo_runtime [(''config.a'', ''1''), (''config.b'', ''2'')], demo_runtime [(''config.b'', ''3'')]] [])) ''config.a''
   = Some (JStr ''1'')"
proof -
  let ?h = "[demo_runtime [(''config.a'', ''1''), (''config.b'', ''2'')], demo_runtime [(''config.b'', ''3'')]]"
  have "\<forall>c \<in> set ?h. kv_wf (annotations c)"
    by (simp add: demo_runtime_def annotate_all_def with_annotation_def new_null_def kv_wf_def)
  from resolve_session_config_spec [OF this, of "[]" "''config.a''"] show ?thesis
    by (simp add: demo_runtime_def annotate_all_def is_runtime_chunk_def)
qed

section \<open>Schema discovery\<close>

lemma schema_snapshot_spec:
  "kv_wf r \<Longrightarrow> \<forall>k s. kv_get r k = Some s \<longrightarrow> schema_name s = k \<Longrightarrow>
     sorted (map schema_name (schema_snapshot r)) \<and> distinct (map schema_name (schema_snapshot r))"
proof -
  assume w: "kv_wf r" and n: "\<forall>k s. kv_get r k = Some s \<longrightarrow> schema_name s = k"
  have "map (schema_name \<circ> snd) r = map fst r"
    using n w by (auto simp: kv_get_mem)
  then have "map schema_name (map snd r) = map fst r" by (simp only: map_map)
  moreover have "distinct (map fst r)" using w by (simp only: kv_wf_def)
  ultimately have "distinct (map schema_name (map snd r))" by (simp only:)
  then have "distinct (map schema_name (schema_snapshot r))"
    by (simp only: schema_snapshot_def distinct_map set_sort distinct_sort)
  then show ?thesis by (simp add: schema_snapshot_def)
qed

section \<open>Every session gets one pipeline at a time\<close>

fun deletions_since :: "string \<Rightarrow> server_message list \<Rightarrow> nat" where
  "deletions_since sid [] = 0"
| "deletions_since sid (m # ms) =
     (case m of SessionDeleted s \<Rightarrow> (if s = sid then 1 else 0) | _ \<Rightarrow> 0) + deletions_since sid ms"

definition started_count :: "string \<Rightarrow> attachments \<Rightarrow> nat" where
  "started_count sid a = length (filter (\<lambda>p. fst p = sid) (at_started a))"

lemma attach_count:
  "started_count sid (attach x g a) + (if sid \<in> at_attached a then 1 else 0)
     = started_count sid a + (if sid \<in> at_attached (attach x g a) then 1 else 0)"
  "at_attached a \<subseteq> at_attached (attach x g a)"
  by (auto simp: attach_def started_count_def)

lemma subscriber_step_count:
  "started_count sid (subscriber_step ps m a) + (if sid \<in> at_attached a then 1 else 0)
     \<le> started_count sid a + (if sid \<in> at_attached (subscriber_step ps m a) then 1 else 0) + deletions_since sid [m]"
proof (cases m)
  case (SessionCreated x g)
  then show ?thesis
    using attach_count(1) [of sid x g a] by (cases "g \<in> ps") (simp_all add: subscriber_step_def)
qed (auto simp: subscriber_step_def started_count_def)

text \<open>
  No duplicate pipelines. However the startup listing and the replayed or live creation
  events overlap, the runtime starts at most one pipeline per session, and one more only after
  each deletion of that session; pipelines are started for the configured agents only.
\<close>

theorem one_pipeline_per_session:
  "started_count sid (run_pipeline_subscriber ps listed events) \<le> Suc (deletions_since sid events)
   \<and> snd ` set (at_started (run_pipeline_subscriber ps listed events)) \<subseteq> ps"
proof -
  let ?init = "fold (\<lambda>i a. if si_agent_id i \<in> ps then attach (si_session_id i) (si_agent_id i) a else a)
      listed \<lparr>at_attached = {}, at_started = []\<rparr>"
  have init: "started_count sid (fold (\<lambda>i a. if si_agent_id i \<in> ps then attach (si_session_id i) (si_agent_id i) a else a) l a)
      + (if sid \<in> at_attached a then 1 else 0)
      = started_count sid a + (if sid \<in> at_attached (fold (\<lambda>i a. if si_agent_id i \<in> ps then attach (si_session_id i)
          (si_agent_id i) a else a) l a) then 1 else 0)" for l a
  proof (induction l arbitrary: a)
    case (Cons i l)
    show ?case
      using Cons.IH [of "if si_agent_id i \<in> ps then attach (si_session_id i) (si_agent_id i) a else a"]
        attach_count(1) [of sid "si_session_id i" "si_agent_id i" a]
      by (auto split: if_splits)
  qed simp
  have run: "started_count sid (fold (subscriber_step ps) es a) + (if sid \<in> at_attached a then 1 else 0)
      \<le> started_count sid a + (if sid \<in> at_attached (fold (subscriber_step ps) es a) then 1 else 0)
        + deletions_since sid es" for es a
  proof (induction es arbitrary: a)
    case (Cons e es)
    show ?case
      using Cons.IH [of "subscriber_step ps e a"] subscriber_step_count [of sid ps e a] by simp
  qed simp
  have "started_count sid ?init = (if sid \<in> at_attached ?init then 1 else 0)"
    using init [of listed "\<lparr>at_attached = {}, at_started = []\<rparr>"] by (simp add: started_count_def)
  then have c: "started_count sid (run_pipeline_subscriber ps listed events) \<le> Suc (deletions_since sid events)"
    using run [of events ?init] by (auto simp: run_pipeline_subscriber_def split: if_splits)
  have att: "snd ` set (at_started (attach x g a)) \<subseteq> ps"
    if "snd ` set (at_started a) \<subseteq> ps" "g \<in> ps" for x g a
    using that by (auto simp: attach_def)
  have i: "snd ` set (at_started (fold (\<lambda>i a. if si_agent_id i \<in> ps then attach (si_session_id i) (si_agent_id i) a else a) l a))
      \<subseteq> ps" if "snd ` set (at_started a) \<subseteq> ps" for l a
    using that
  proof (induction l arbitrary: a)
    case (Cons j l)
    have "snd ` set (at_started (if si_agent_id j \<in> ps then attach (si_session_id j) (si_agent_id j) a else a)) \<subseteq> ps"
      using Cons.prems att [of a "si_agent_id j" "si_session_id j"] by simp
    from Cons.IH [OF this] show ?case by simp
  qed simp
  have "snd ` set (at_started (fold (subscriber_step ps) es a)) \<subseteq> ps" if "snd ` set (at_started a) \<subseteq> ps" for es a
    using that
  proof (induction es arbitrary: a)
    case (Cons e es)
    have "snd ` set (at_started (subscriber_step ps e a)) \<subseteq> ps"
      using Cons.prems att by (cases e) (simp_all add: subscriber_step_def)
    from Cons.IH [OF this] show ?case by simp
  qed simp
  with c i [of "\<lparr>at_attached = {}, at_started = []\<rparr>" listed] show ?thesis
    by (simp add: run_pipeline_subscriber_def)
qed

section \<open>Attaching again resets the configuration\<close>

lemma annotate_all_type [simp]: "chunk_type (annotate_all anns c) = chunk_type c"
  by (induction anns arbitrary: c) (auto simp: annotate_all_def)

lemma annotation_annotate_all:
  "annotation (annotate_all anns c) k = (case kv_get (rev anns) k of None \<Rightarrow> annotation c k | Some v \<Rightarrow> Some v)"
  by (induction anns arbitrary: c) (auto simp: annotate_all_def kv_get_append split: option.splits)

text \<open>
  The runtime seeds a session whenever it attaches to it, and it attaches to the existing
  sessions every time it starts.  The seed comes last, so it overrides what the session's user
  has configured since.
\<close>

lemma reattach_resets_config:
  assumes "seed_chunk uuid now_ms agent info = Some c"
    and "kv_get (rev (pi_initial_chunk_annotations info)) CONFIG_TYPE = Some (JStr ''runtime'')"
    and "kv_get (rev (pi_initial_chunk_annotations info)) k = Some v" and "k \<noteq> CONFIG_TYPE"
    and "\<forall>c \<in> set (hist @ [c]). kv_wf (annotations c)"
  shows "kv_get (mc_values (resolve_session_config (hist @ [c]) schemas)) k = Some v"
proof -
  have c: "is_runtime_chunk c" "annotation c k = Some v"
    using assms(1-3) by (auto simp: seed_chunk_def is_runtime_chunk_def annotation_annotate_all annotate_all_type
        split: if_splits)
  have "last_value k (hist @ [c]) = Some v"
    using c assms(4) by (induction hist) simp_all
  then show ?thesis using resolved_config [OF assms(5)] by simp
qed

end
