(* ===== verification/Pipeline.thy ===== *)
theory Pipeline
  imports Agent_Config
begin

text \<open>
  The pipeline executor of the agent runtime, \<open>cafe-agent-runtime/src/executor.rs\<close>, with the tool
  detector and the tool executor it calls (\<open>tool_detector.rs\<close>, \<open>tool_executor.rs\<close>).  What the bus
  answers to the n-th operation of the runtime, the fresh ids, the regular expression engine and
  the JSON parser and printer are fields of an environment; the state counts the operations and
  ids used and logs the chunks the bus accepted.  The work queue of \<open>on_trigger\<close> runs under
  fuel, and the bound that is enough is proved through the locale \<open>work_queue\<close>.
\<close>

section \<open>Triggers and steps\<close>

datatype trigger = UserMessage | LlmComplete | SchedulerTick | StepComplete string

definition trigger_from_str :: "string \<Rightarrow> trigger" where
  "trigger_from_str s =
     (if s = ''user_message'' then UserMessage
      else if s = ''llm_complete'' then LlmComplete
      else if s = ''scheduler_tick'' then SchedulerTick
      else case strip_prefix ''step_complete:'' s of
             Some i \<Rightarrow> StepComplete i
           | None \<Rightarrow> UserMessage)"

datatype built_in = RoleAnnotator | TrustFilter | ToolDetector | ToolExecutor | Mcp

datatype step_kind = BuiltIn built_in | Rpc string

definition step_kind_from_str :: "string \<Rightarrow> step_kind" where
  "step_kind_from_str s =
     (if s = ''role-annotator'' then BuiltIn RoleAnnotator
      else if s = ''trust-filter'' then BuiltIn TrustFilter
      else if s = ''tool-detector'' then BuiltIn ToolDetector
      else if s = ''tool-executor'' then BuiltIn ToolExecutor
      else if s = ''mcp'' then BuiltIn Mcp
      else Rpc s)"

record pipeline_context =
  pc_session_id :: string
  pc_config :: merged_config
  assembled_llm_text :: "string option"
  user_text :: "string option"
  depth :: nat

datatype pipeline_error =
    TimedOut string string
  | RpcFailed string int string
  | BusFailed string string
  | SdkFailed string
  | IoFailed string

definition trigger_matches :: "string \<Rightarrow> trigger \<Rightarrow> bool" where
  "trigger_matches step_trig ev =
     (case ev of
        UserMessage \<Rightarrow> step_trig = ''user_message''
      | LlmComplete \<Rightarrow> step_trig = ''llm_complete''
      | SchedulerTick \<Rightarrow> step_trig = ''scheduler_tick''
      | StepComplete i \<Rightarrow> step_trig = ''step_complete:'' @ i \<or> step_trig = ''step_complete'')"

definition is_enabled :: "step_def \<Rightarrow> merged_config \<Rightarrow> bool" where
  "is_enabled s cfg =
     (case enabled_if s of
        None \<Rightarrow> True
      | Some key \<Rightarrow>
          (case Option.bind (case kv_get (mc_values cfg) key of
                               Some v \<Rightarrow> Some v
                             | None \<Rightarrow> kv_get (mc_extra cfg) key) as_bool of
             None \<Rightarrow> False
           | Some b \<Rightarrow> b))"

section \<open>Parameters of an RPC step\<close>

definition context_text :: "pipeline_context \<Rightarrow> string option" where
  "context_text ctx = (case assembled_llm_text ctx of Some t \<Rightarrow> Some t | None \<Rightarrow> user_text ctx)"

definition config_key :: "string \<Rightarrow> string \<Rightarrow> json \<Rightarrow> string" where
  "config_key ns name spec =
     (case Option.bind (json_get spec ''x-config-key'') as_str of
        Some k \<Rightarrow> k
      | None \<Rightarrow> ''config.'' @ ns @ ''.'' @ name)"

definition add_param ::
  "string \<Rightarrow> pipeline_context \<Rightarrow> string \<times> json \<Rightarrow> (string \<times> json) list \<Rightarrow> (string \<times> json) list" where
  "add_param ns ctx p params =
     (let (name, spec) = p
      in if name = ''session_id'' then params
         else if name = ''text'' \<or> name = ''prompt''
         then obj_insert name (JStr (or_else [] (context_text ctx))) params
         else (case kv_get (mc_values (pc_config ctx)) (config_key ns name spec) of
                 Some v \<Rightarrow> obj_insert name v params
               | None \<Rightarrow> params))"

definition build_rpc_params :: "string \<Rightarrow> pipeline_context \<Rightarrow> evaluator_schema option \<Rightarrow> json" where
  "build_rpc_params ns ctx schema =
     (let params = [(''session_id'', JStr (pc_session_id ctx))]
      in case Option.bind (Option.bind schema (\<lambda>s. json_get (rpc_params_schema s) ''properties'')) as_object of
           Some props \<Rightarrow> JObj (fold (add_param ns ctx) props params)
         | None \<Rightarrow>
             (case context_text ctx of
                Some t \<Rightarrow> JObj (obj_insert ''text'' (JStr t) params)
              | None \<Rightarrow> JObj params))"

section \<open>The runtime's view of the bus\<close>

datatype rx_event = Received server_message | Closed

record agent_env =
  x_publish :: "nat \<Rightarrow> string option"
  x_history :: "nat \<Rightarrow> string + chunk list"
  x_subscribe :: "nat \<Rightarrow> string + rx_event list"
  x_uuid :: "nat \<Rightarrow> string"
  x_clock :: "nat \<Rightarrow> int"
  x_schemas :: "nat \<Rightarrow> schema_registry"
  x_captures :: "string \<Rightarrow> string list"
  x_parse :: "string \<Rightarrow> json option"
  x_strip :: "string \<Rightarrow> string"
  x_pretty :: "json \<Rightarrow> string"

record agent_world =
  a_ops :: nat
  a_uuids :: nat
  a_sent :: "(string \<times> chunk) list"

definition bus_publish :: "agent_env \<Rightarrow> string \<Rightarrow> chunk \<Rightarrow> agent_world \<Rightarrow> (string + unit) \<times> agent_world" where
  "bus_publish e sid c w =
     (case x_publish e (a_ops w) of
        None \<Rightarrow> (Inr (), w\<lparr>a_ops := Suc (a_ops w), a_sent := a_sent w @ [(sid, c)]\<rparr>)
      | Some err \<Rightarrow> (Inl err, w\<lparr>a_ops := Suc (a_ops w)\<rparr>))"

definition bus_get_history :: "agent_env \<Rightarrow> agent_world \<Rightarrow> (string + chunk list) \<times> agent_world" where
  "bus_get_history e w = (x_history e (a_ops w), w\<lparr>a_ops := Suc (a_ops w)\<rparr>)"

definition bus_subscribe :: "agent_env \<Rightarrow> agent_world \<Rightarrow> (string + rx_event list) \<times> agent_world" where
  "bus_subscribe e w = (x_subscribe e (a_ops w), w\<lparr>a_ops := Suc (a_ops w)\<rparr>)"

definition fresh_uuid :: "agent_env \<Rightarrow> agent_world \<Rightarrow> string \<times> agent_world" where
  "fresh_uuid e w = (x_uuid e (a_uuids w), w\<lparr>a_uuids := Suc (a_uuids w)\<rparr>)"

text \<open>The operator \<open>?\<close>: an error ends the function, a value goes on.\<close>

definition and_then :: "('e + 'a) \<times> 'w \<Rightarrow> ('a \<Rightarrow> 'w \<Rightarrow> ('e + 'b) \<times> 'w) \<Rightarrow> ('e + 'b) \<times> 'w" where
  "and_then r f = (case r of (Inl err, w) \<Rightarrow> (Inl err, w) | (Inr x, w) \<Rightarrow> f x w)"

definition map_err :: "('e \<Rightarrow> 'f) \<Rightarrow> 'e + 'a \<Rightarrow> 'f + 'a" where
  "map_err f r = (case r of Inl x \<Rightarrow> Inl (f x) | Inr y \<Rightarrow> Inr y)"

definition RUNTIME :: string where "RUNTIME = ''com.nominal.cafe-agent-runtime''"

definition runtime_null :: "agent_env \<Rightarrow> agent_world \<Rightarrow> chunk \<times> agent_world" where
  "runtime_null e w =
     (case fresh_uuid e w of (u, w') \<Rightarrow> (new_null u (x_clock e (a_uuids w)) RUNTIME, w'))"

definition runtime_text :: "agent_env \<Rightarrow> string \<Rightarrow> agent_world \<Rightarrow> chunk \<times> agent_world" where
  "runtime_text e t w =
     (case fresh_uuid e w of (u, w') \<Rightarrow> (new_text u (x_clock e (a_uuids w)) t RUNTIME, w'))"

section \<open>Waiting for a response\<close>

text \<open>
  The events are those the receiver delivers before the timeout; a list that ends without a
  closed channel is silence until it fires.
\<close>

datatype rpc_wait = Answered json_rpc_response | Garbled | Disconnected | Elapsed

fun await_response :: "string \<Rightarrow> rx_event list \<Rightarrow> rpc_wait" where
  "await_response call_id [] = Elapsed"
| "await_response call_id (Closed # evs) = Disconnected"
| "await_response call_id (Received m # evs) =
     (case m of
        Chunk _ c \<Rightarrow>
          if is_rpc_response_for call_id c
          then (case as_rpc_response c of Some r \<Rightarrow> Answered r | None \<Rightarrow> Garbled)
          else await_response call_id evs
      | _ \<Rightarrow> await_response call_id evs)"

definition request_chunk :: "json_rpc_request \<Rightarrow> chunk \<Rightarrow> chunk" where
  "request_chunk r c = with_retain 60 (as_transient (with_annotation CAFE_JSONRPC_REQUEST (request_to_json r) c))"

text \<open>
  The exchange both callers make: the history is fetched and ignored, the request is published,
  and only then a subscription is opened whose messages are searched for the response.
\<close>

definition rpc_exchange ::
  "agent_env \<Rightarrow> string \<Rightarrow> json_rpc_request \<Rightarrow> agent_world \<Rightarrow> (string + rpc_wait) \<times> agent_world" where
  "rpc_exchange e sid request w =
     and_then (bus_get_history e w) (\<lambda>_ w1.
       case runtime_null e w1 of (c, w2) \<Rightarrow>
         and_then (bus_publish e sid (request_chunk request c) w2) (\<lambda>_ w3.
           and_then (bus_subscribe e w3) (\<lambda>rx w4.
             (Inr (await_response (req_id request) rx), w4))))"

section \<open>Tools\<close>

definition detect :: "agent_env \<Rightarrow> string \<Rightarrow> string \<times> tool_call list" where
  "detect e text =
     (let calls = List.map_filter (\<lambda>j. Option.bind (x_parse e j) tool_call_from_json) (x_captures e text)
      in (if calls = [] then text else str_trim (x_strip e text), calls))"

definition tool_result_chunk :: "bool \<Rightarrow> tool_result \<Rightarrow> chunk \<Rightarrow> chunk" where
  "tool_result_chunk keep r c =
     (let c' = as_transient (with_annotation CAFE_TOOL_RESULT (tool_result_to_json r) c)
      in if keep then with_retain 60 c' else c')"

text \<open>The result chunk followed by the text the follow-up model step will see.\<close>

definition report_tool ::
  "agent_env \<Rightarrow> string \<Rightarrow> bool \<Rightarrow> tool_result \<Rightarrow> string \<Rightarrow> agent_world \<Rightarrow> (string + unit) \<times> agent_world" where
  "report_tool e sid keep r text w =
     (case runtime_null e w of (c, w1) \<Rightarrow>
        and_then (bus_publish e sid (tool_result_chunk keep r c) w1) (\<lambda>_ w2.
          case runtime_text e text w2 of (t, w3) \<Rightarrow>
            bus_publish e sid (with_annotation CHAT_ROLE (JStr ''assistant'') t) w3))"

definition execute :: "agent_env \<Rightarrow> tool_call \<Rightarrow> string \<Rightarrow> agent_world \<Rightarrow> (string + unit) \<times> agent_world" where
  "execute e call sid w =
     (if call_provider call = Some ''mcp'' then (Inr (), w)
      else case fresh_uuid e w of (u, w1) \<Rightarrow>
        and_then (rpc_exchange e sid (rpc_request_new u (call_name call) (call_parameters call)) w1) (\<lambda>reply w2.
          case reply of
            Answered response \<Rightarrow>
              if rpc_is_ok response
              then let output = or_else JNull (resp_result response)
                   in report_tool e sid True
                        \<lparr>res_name = call_name call, res_output = output, res_error = None,
                         res_provider = call_provider call\<rparr>
                        (''Tool call completed: '' @ call_name call @ [CHR 10] @ ''```'' @ [CHR 10]
                           @ x_pretty e output @ [CHR 10] @ ''```'') w2
              else let msg = (case resp_error response of
                                Some x \<Rightarrow> err_message x
                              | None \<Rightarrow> ''unknown error (no error detail in response)'')
                   in report_tool e sid True
                        \<lparr>res_name = call_name call, res_output = JNull, res_error = Some msg,
                         res_provider = call_provider call\<rparr>
                        (''Tool call '' @ call_name call @ '' failed: '' @ msg) w2
          | Garbled \<Rightarrow> (Inr (), w2)
          | Disconnected \<Rightarrow> (Inr (), w2)
          | Elapsed \<Rightarrow>
              report_tool e sid False
                \<lparr>res_name = call_name call, res_output = JNull, res_error = Some ''RPC timeout after 30s'',
                 res_provider = call_provider call\<rparr>
                (''Tool call '' @ call_name call @ '' timed out'') w2))"

section \<open>Steps of a pipeline\<close>

type_synonym work = "trigger \<times> pipeline_context"

text \<open>The detected calls are published one by one; a failure is logged and the next one tried.\<close>

fun publish_calls :: "agent_env \<Rightarrow> string \<Rightarrow> tool_call list \<Rightarrow> agent_world \<Rightarrow> agent_world" where
  "publish_calls e sid [] w = w"
| "publish_calls e sid (call # calls) w =
     (case runtime_null e w of (c, w1) \<Rightarrow>
        publish_calls e sid calls
          (snd (bus_publish e sid (with_annotation CAFE_TOOL_CALL (tool_call_to_json call) c) w1)))"

fun execute_calls :: "agent_env \<Rightarrow> string \<Rightarrow> tool_call list \<Rightarrow> agent_world \<Rightarrow> agent_world" where
  "execute_calls e sid [] w = w"
| "execute_calls e sid (call # calls) w = execute_calls e sid calls (snd (execute e call sid w))"

text \<open>
  One built-in step; \<open>orig\<close> is the context the trigger came with, from which the follow-up of the
  tool executor is copied.
\<close>

definition run_builtin ::
  "agent_env \<Rightarrow> pipeline_context \<Rightarrow> pipeline_context \<Rightarrow> step_def \<Rightarrow> agent_world \<Rightarrow> work list \<times> agent_world" where
  "run_builtin e orig ctx s w =
     (case step_kind_from_str (step_type s) of
        BuiltIn ToolDetector \<Rightarrow>
          (case assembled_llm_text ctx of
             None \<Rightarrow> ([], w)
           | Some text \<Rightarrow> ([], publish_calls e (pc_session_id ctx) (snd (detect e text)) w))
      | BuiltIn ToolExecutor \<Rightarrow>
          (case bus_get_history e w of
             (Inl _, w1) \<Rightarrow> ([], w1)
           | (Inr hist, w1) \<Rightarrow>
               (let calls = List.map_filter as_tool_call (rev hist)
                in if calls = [] then ([], w1)
                   else ([(StepComplete (step_id s), orig\<lparr>depth := Suc (depth ctx)\<rparr>)],
                         execute_calls e (pc_session_id ctx) calls w1)))
      | _ \<Rightarrow> ([], w))"

fun run_builtins ::
  "agent_env \<Rightarrow> pipeline_context \<Rightarrow> pipeline_context \<Rightarrow> step_def list \<Rightarrow> agent_world \<Rightarrow> work list \<times> agent_world" where
  "run_builtins e orig ctx [] w = ([], w)"
| "run_builtins e orig ctx (s # ss) w =
     (case run_builtin e orig ctx s w of (q1, w1) \<Rightarrow>
        case run_builtins e orig ctx ss w1 of (q2, w2) \<Rightarrow> (q1 @ q2, w2))"

definition dispatch_rpc ::
  "agent_env \<Rightarrow> step_def \<Rightarrow> pipeline_context \<Rightarrow> agent_world \<Rightarrow> (pipeline_error + work option) \<times> agent_world" where
  "dispatch_rpc e s ctx w =
     (let ns = step_type s;
          params = build_rpc_params ns ctx (kv_get (x_schemas e (a_ops w)) ns)
      in case fresh_uuid e w of (u, w1) \<Rightarrow>
        case rpc_exchange e (pc_session_id ctx) (rpc_request_new u (ns @ ''.invoke'') params) w1 of
          (Inl err, w2) \<Rightarrow> (Inl (BusFailed (step_id s) err), w2)
        | (Inr Elapsed, w2) \<Rightarrow> (Inl (TimedOut (step_id s) u), w2)
        | (Inr Garbled, w2) \<Rightarrow>
            (Inl (BusFailed (step_id s) (''I/O error: failed to deserialize RPC response for call '' @ u)), w2)
        | (Inr Disconnected, w2) \<Rightarrow>
            (Inl (BusFailed (step_id s) ''I/O error: bus disconnected while waiting for RPC response''), w2)
        | (Inr (Answered r), w2) \<Rightarrow>
            (case resp_error r of
               None \<Rightarrow> (Inr (Some (StepComplete (step_id s), ctx\<lparr>depth := Suc (depth ctx)\<rparr>)), w2)
             | Some x \<Rightarrow> (Inl (RpcFailed (step_id s) (err_code x) (err_message x)), w2)))"

fun run_rpcs ::
  "agent_env \<Rightarrow> pipeline_context \<Rightarrow> step_def list \<Rightarrow> agent_world \<Rightarrow> (pipeline_error + work list) \<times> agent_world" where
  "run_rpcs e ctx [] w = (Inr [], w)"
| "run_rpcs e ctx (s # ss) w =
     (case step_kind_from_str (step_type s) of
        BuiltIn _ \<Rightarrow> run_rpcs e ctx ss w
      | Rpc _ \<Rightarrow>
          and_then (dispatch_rpc e s ctx w) (\<lambda>follow_up w1.
            and_then (run_rpcs e ctx ss w1) (\<lambda>q w2.
              (Inr (case follow_up of None \<Rightarrow> q | Some f \<Rightarrow> f # q), w2))))"

text \<open>One round of the loop of \<open>on_trigger\<close>: what an event adds to the queue, or the error that ends it.\<close>

definition eligible :: "step_def list \<Rightarrow> trigger \<Rightarrow> merged_config \<Rightarrow> step_def list" where
  "eligible ss ev cfg = filter (\<lambda>s. is_enabled s cfg) (filter (\<lambda>s. trigger_matches (step_trigger s) ev) ss)"

definition depth_limited :: "nat \<Rightarrow> work \<Rightarrow> bool" where
  "depth_limited max_depth x =
     (case x of (StepComplete _, ctx) \<Rightarrow> max_depth \<le> depth ctx | _ \<Rightarrow> False)"

definition process_event ::
  "agent_env \<Rightarrow> step_def list \<Rightarrow> nat \<Rightarrow> pipeline_context \<Rightarrow> work \<Rightarrow> agent_world
    \<Rightarrow> (pipeline_error + work list) \<times> agent_world" where
  "process_event e steps max_depth orig x w =
     (if depth_limited max_depth x then (Inr [], w)
      else let ctx = snd x; el = eligible steps (fst x) (pc_config ctx)
           in case run_builtins e orig ctx el w of (q1, w1) \<Rightarrow>
                and_then (run_rpcs e ctx el w1) (\<lambda>q2 w2. (Inr (q1 @ q2), w2)))"

text \<open>A first-in first-out work queue, for at most so many rounds; \<open>None\<close> is work left over.\<close>

fun drain ::
  "('i \<Rightarrow> 'w \<Rightarrow> ('e + 'i list) \<times> 'w) \<Rightarrow> nat \<Rightarrow> 'i list \<Rightarrow> 'w \<Rightarrow> (('e + unit) \<times> 'w) option" where
  "drain process k [] w = Some (Inr (), w)"
| "drain process 0 (x # q) w = None"
| "drain process (Suc k) (x # q) w =
     (case process x w of
        (Inl err, w1) \<Rightarrow> Some (Inl err, w1)
      | (Inr new, w1) \<Rightarrow> drain process k (q @ new) w1)"

definition on_trigger ::
  "agent_env \<Rightarrow> step_def list \<Rightarrow> nat \<Rightarrow> nat \<Rightarrow> trigger \<Rightarrow> pipeline_context \<Rightarrow> agent_world
    \<Rightarrow> ((pipeline_error + unit) \<times> agent_world) option" where
  "on_trigger e steps max_depth fuel ev ctx w =
     drain (process_event e steps max_depth ctx) fuel [(ev, ctx)] w"

section \<open>Work queues that drain\<close>

lemma drain_more:
  "drain process k q w = Some r \<Longrightarrow> drain process (k + j) q w = Some r"
proof (induction k arbitrary: q w)
  case 0
  then show ?case by (cases q) (simp_all)
next
  case (Suc k)
  then show ?case by (cases q) (auto split: prod.splits sum.splits)
qed

text \<open>
  The contract of a work queue: processing an item replaces it by items of smaller total weight.
  Then as many rounds as the total weight are enough.
\<close>

locale work_queue =
  fixes process :: "'i \<Rightarrow> 'w \<Rightarrow> ('e + 'i list) \<times> 'w"
    and weight :: "'i \<Rightarrow> nat"
  assumes shrinks: "process x w = (Inr new, w') \<Longrightarrow> sum_list (map weight new) < weight x"
    and positive: "0 < weight x"
begin

lemma drains: "sum_list (map weight q) \<le> k \<Longrightarrow> \<exists>r. drain process k q w = Some r"
proof (induction k arbitrary: q w)
  case 0
  then show ?case
  proof (cases q)
    case (Cons x q')
    then show ?thesis using 0 positive [of x] by simp
  qed simp
next
  case (Suc k)
  show ?case
  proof (cases q)
    case (Cons x q')
    obtain y w1 where p: "process x w = (y, w1)" by fastforce
    show ?thesis
    proof (cases y)
      case (Inr new)
      with p have "sum_list (map weight new) < weight x" using shrinks by blast
      then have "sum_list (map weight (q' @ new)) \<le> k" using Suc.prems Cons by simp
      from Suc.IH [OF this] show ?thesis using Cons p Inr by simp
    qed (use Cons p in simp)
  qed simp
qed

end

text \<open>
  A queue that also keeps a property of its items and moves the state along a preorder: the
  whole run moves it along that preorder.
\<close>

locale tracked_queue = work_queue process weight
  for process :: "'i \<Rightarrow> 'w \<Rightarrow> ('e + 'i list) \<times> 'w" and weight :: "'i \<Rightarrow> nat" +
  fixes good :: "'i \<Rightarrow> bool" and moves :: "'w \<Rightarrow> 'w \<Rightarrow> bool"
  assumes keeps: "good x \<Longrightarrow> process x w = (Inr new, w') \<Longrightarrow> list_all good new"
    and step_moves: "good x \<Longrightarrow> process x w = (y, w') \<Longrightarrow> moves w w'"
    and moves_refl: "moves w w"
    and moves_trans: "moves w w1 \<Longrightarrow> moves w1 w2 \<Longrightarrow> moves w w2"
begin

lemma run_moves: "list_all good q \<Longrightarrow> drain process k q w = Some (r, w') \<Longrightarrow> moves w w'"
proof (induction k arbitrary: q w)
  case 0
  then show ?case by (cases q) (auto intro: moves_refl)
next
  case (Suc k)
  show ?case
  proof (cases q)
    case Nil
    then show ?thesis using Suc.prems by (auto intro: moves_refl)
  next
    case (Cons x q')
    then have g: "good x" "list_all good q'" using Suc.prems by auto
    obtain y w1 where p: "process x w = (y, w1)" by fastforce
    have m: "moves w w1" using step_moves [OF g(1) p] .
    show ?thesis
    proof (cases y)
      case (Inl err)
      then show ?thesis using Suc.prems Cons p m by simp
    next
      case (Inr new)
      then have "list_all good (q' @ new)" using g keeps [OF g(1)] p by simp
      moreover have "drain process k (q' @ new) w1 = Some (r, w')" using Suc.prems Cons p Inr by simp
      ultimately show ?thesis using Suc.IH m moves_trans by blast
    qed
  qed
qed

end

section \<open>The weight of an event\<close>

definition work_weight :: "nat \<Rightarrow> nat \<Rightarrow> work \<Rightarrow> nat" where
  "work_weight n max_depth x =
     (case x of (StepComplete _, ctx) \<Rightarrow> (n + 2) ^ (max_depth - depth ctx) | _ \<Rightarrow> (n + 2) ^ (max_depth + 1))"

text \<open>What processing an event adds: completions one level deeper, in the same context otherwise.\<close>

definition follows :: "pipeline_context \<Rightarrow> pipeline_context \<Rightarrow> work \<Rightarrow> bool" where
  "follows orig ctx x =
     ((\<exists>i. fst x = StepComplete i)
      \<and> (snd x = orig\<lparr>depth := Suc (depth ctx)\<rparr> \<or> snd x = ctx\<lparr>depth := Suc (depth ctx)\<rparr>))"

definition is_builtin :: "step_def \<Rightarrow> bool" where
  "is_builtin s = (case step_kind_from_str (step_type s) of BuiltIn _ \<Rightarrow> True | Rpc _ \<Rightarrow> False)"

lemma run_builtin_new:
  "run_builtin e orig ctx s w = (q, w') \<Longrightarrow>
     list_all (follows orig ctx) q \<and> length q \<le> (if is_builtin s then 1 else 0)"
  by (auto simp: run_builtin_def is_builtin_def follows_def Let_def
      split: step_kind.splits built_in.splits option.splits prod.splits sum.splits if_splits)

lemma run_builtins_new:
  "run_builtins e orig ctx ss w = (q, w') \<Longrightarrow>
     list_all (follows orig ctx) q \<and> length q \<le> length (filter is_builtin ss)"
proof (induction ss arbitrary: q w w')
  case (Cons s ss)
  obtain q1 w1 where 1: "run_builtin e orig ctx s w = (q1, w1)" by fastforce
  obtain q2 w2 where 2: "run_builtins e orig ctx ss w1 = (q2, w2)" by fastforce
  show ?case using Cons.prems Cons.IH [OF 2] run_builtin_new [OF 1] 1 2 by (auto split: if_splits)
qed simp

lemma and_then_Inr:
  "and_then r f = (Inr y, w') \<longleftrightarrow> (\<exists>x w1. r = (Inr x, w1) \<and> f x w1 = (Inr y, w'))"
  by (cases r) (auto simp: and_then_def split: sum.splits)

lemma dispatch_rpc_new:
  "dispatch_rpc e s ctx w = (Inr f, w') \<Longrightarrow>
     f = Some (StepComplete (step_id s), ctx\<lparr>depth := Suc (depth ctx)\<rparr>)"
  by (auto simp: dispatch_rpc_def Let_def split: prod.splits sum.splits rpc_wait.splits option.splits)

lemma run_rpcs_new:
  "run_rpcs e ctx ss w = (Inr q, w') \<Longrightarrow>
     list_all (follows orig ctx) q \<and> length q \<le> length (filter (\<lambda>s. \<not> is_builtin s) ss)"
proof (induction ss arbitrary: q w)
  case (Cons s ss)
  show ?case
  proof (cases "step_kind_from_str (step_type s)")
    case (BuiltIn b)
    then show ?thesis using Cons by (simp add: is_builtin_def)
  next
    case (Rpc ns)
    then obtain f w1 q' w2 where d: "dispatch_rpc e s ctx w = (Inr f, w1)"
      and r: "run_rpcs e ctx ss w1 = (Inr q', w2)"
      and q: "q = (case f of None \<Rightarrow> q' | Some f \<Rightarrow> f # q')" and w2: "w2 = w'"
      using Cons.prems by (auto simp: and_then_Inr)
    show ?thesis
      using Cons.IH [of w1 q'] r q w2 dispatch_rpc_new [OF d] Rpc by (auto simp: is_builtin_def follows_def)
  qed
qed simp

lemma process_event_new:
  assumes "process_event e steps max_depth orig x w = (Inr new, w')"
  shows "list_all (follows orig (snd x)) new \<and> length new \<le> length steps
    \<and> (depth_limited max_depth x \<longrightarrow> new = [])"
proof (cases "depth_limited max_depth x")
  case True
  then show ?thesis using assms by (simp add: process_event_def)
next
  case False
  let ?el = "eligible steps (fst x) (pc_config (snd x))"
  obtain q1 w1 where 1: "run_builtins e orig (snd x) ?el w = (q1, w1)" by fastforce
  obtain q2 where 2: "run_rpcs e (snd x) ?el w1 = (Inr q2, w')" and n: "new = q1 @ q2"
    using assms False 1 by (auto simp: process_event_def Let_def and_then_Inr)
  have "length (filter is_builtin ?el) + length (filter (\<lambda>s. \<not> is_builtin s) ?el) = length ?el"
    by (rule sum_length_filter_compl)
  moreover have "length ?el \<le> length steps"
    unfolding eligible_def by (meson length_filter_le order_trans)
  ultimately show ?thesis
    using run_builtins_new [OF 1] run_rpcs_new [OF 2, of orig] n False by auto
qed

lemma sum_list_bounded: "list_all (\<lambda>x. f x \<le> (b::nat)) xs \<Longrightarrow> sum_list (map f xs) \<le> length xs * b"
  by (induction xs) auto

lemma process_event_shrinks:
  assumes "process_event e steps max_depth orig x w = (Inr new, w')"
  shows "sum_list (map (work_weight (length steps) max_depth) new) < work_weight (length steps) max_depth x"
proof -
  let ?n = "length steps" and ?d = "depth (snd x)"
  let ?W = "work_weight ?n max_depth"
  note new = process_event_new [OF assms]
  have "list_all (\<lambda>y. ?W y \<le> (?n + 2) ^ (max_depth - Suc ?d)) new"
    using new by (auto simp: list_all_iff follows_def work_weight_def split: prod.splits)
  then have "sum_list (map ?W new) \<le> length new * (?n + 2) ^ (max_depth - Suc ?d)"
    by (rule sum_list_bounded)
  also have "\<dots> \<le> ?n * (?n + 2) ^ (max_depth - Suc ?d)" using new by simp
  finally have le: "sum_list (map ?W new) \<le> ?n * (?n + 2) ^ (max_depth - Suc ?d)" .
  obtain ev ctx where x: "x = (ev, ctx)" by fastforce
  have full: "?n * (?n + 2) ^ k < (?n + 2) ^ Suc k" for k by simp
  have other: "?n * (?n + 2) ^ (max_depth - Suc ?d) < (?n + 2) ^ (max_depth + 1)"
  proof -
    have "?n * (?n + 2) ^ (max_depth - Suc ?d) < (?n + 2) ^ Suc (max_depth - Suc ?d)" by (rule full)
    also have "\<dots> \<le> (?n + 2) ^ (max_depth + 1)" by (rule power_increasing) auto
    finally show ?thesis .
  qed
  show ?thesis
  proof (cases ev)
    case (StepComplete i)
    show ?thesis
    proof (cases "max_depth \<le> depth ctx")
      case True
      then have "new = []" using new x StepComplete by (simp add: depth_limited_def)
      then show ?thesis by (simp add: x StepComplete work_weight_def)
    next
      case False
      then have "Suc (max_depth - Suc (depth ctx)) = max_depth - depth ctx" by simp
      then show ?thesis
        using le full [of "max_depth - Suc (depth ctx)"] by (simp add: x StepComplete work_weight_def del: power_Suc)
    qed
  qed (use le other x in \<open>auto simp: work_weight_def\<close>)
qed

section \<open>What a pipeline publishes\<close>

text \<open>
  The messages an enabled step accounts for: the tool detector publishes tool calls, the tool
  executor requests, results and assistant texts, an RPC step the request of its own method.
\<close>

definition accounts_for :: "step_def \<Rightarrow> chunk \<Rightarrow> bool" where
  "accounts_for s c =
     (case step_kind_from_str (step_type s) of
        BuiltIn ToolDetector \<Rightarrow> as_tool_call c \<noteq> None
      | BuiltIn ToolExecutor \<Rightarrow>
          as_rpc_request c \<noteq> None \<or> as_tool_result c \<noteq> None \<or> (chunk_type c = Text \<and> role c = Some ASSISTANT)
      | BuiltIn _ \<Rightarrow> False
      | Rpc ns \<Rightarrow> (case as_rpc_request c of None \<Rightarrow> False | Some r \<Rightarrow> req_method r = ns @ ''.invoke''))"

definition from_pipeline :: "step_def list \<Rightarrow> pipeline_context \<Rightarrow> string \<times> chunk \<Rightarrow> bool" where
  "from_pipeline steps ctx m =
     (fst m = pc_session_id ctx
      \<and> list_ex (\<lambda>s. is_enabled s (pc_config ctx) \<and> accounts_for s (snd m)) steps)"

definition emits :: "(string \<times> chunk \<Rightarrow> bool) \<Rightarrow> agent_world \<Rightarrow> agent_world \<Rightarrow> bool" where
  "emits P w w' = (\<exists>ms. a_sent w' = a_sent w @ ms \<and> list_all P ms)"

lemma emits_refl [simp]: "emits P w w"
  by (simp add: emits_def)

lemma emits_trans: "emits P w w1 \<Longrightarrow> emits P w1 w2 \<Longrightarrow> emits P w w2"
  by (auto simp: emits_def)

lemma emits_same: "a_sent w' = a_sent w \<Longrightarrow> emits P w w'"
  by (simp add: emits_def)

lemma emits_publish: "P (sid, c) \<Longrightarrow> emits P w (snd (bus_publish e sid c w))"
  by (auto simp: bus_publish_def emits_def split: option.splits)

lemma sent_unchanged [simp]:
  "a_sent (snd (bus_get_history e w)) = a_sent w" "a_sent (snd (bus_subscribe e w)) = a_sent w"
  "a_sent (snd (fresh_uuid e w)) = a_sent w" "a_sent (snd (runtime_null e w)) = a_sent w"
  "a_sent (snd (runtime_text e t w)) = a_sent w"
  by (simp_all add: bus_get_history_def bus_subscribe_def fresh_uuid_def runtime_null_def runtime_text_def)

lemma emits_and_then:
  "emits P w (snd r) \<Longrightarrow> (\<And>x. fst r = Inr x \<Longrightarrow> emits P (snd r) (snd (f x (snd r)))) \<Longrightarrow>
     emits P w (snd (and_then r f))"
  by (cases r) (auto simp: and_then_def intro: emits_trans split: sum.splits)

lemma request_chunk_recognised: "as_rpc_request (request_chunk r c) = Some r"
  by (simp only: request_chunk_def rpc_request_recognised)

lemma rpc_exchange_emits:
  assumes "\<And>c. P (sid, request_chunk request c)"
  shows "emits P w (snd (rpc_exchange e sid request w))"
proof -
  have publish: "emits P w1 (snd (case runtime_null e w1 of (c, w2) \<Rightarrow>
         and_then (bus_publish e sid (request_chunk request c) w2) (\<lambda>_ w3.
           and_then (bus_subscribe e w3) (\<lambda>rx w4. (Inr (await_response (req_id request) rx), w4)))))" for w1
  proof -
    obtain c w2 where n: "runtime_null e w1 = (c, w2)" by fastforce
    then have "emits P w1 w2" using sent_unchanged(4) [of e w1] by (simp add: emits_same)
    moreover have "emits P w2 (snd (and_then (bus_publish e sid (request_chunk request c) w2) (\<lambda>_ w3.
           and_then (bus_subscribe e w3) (\<lambda>rx w4. (Inr (await_response (req_id request) rx), w4)))))"
      by (intro emits_and_then emits_publish assms emits_same) simp_all
    ultimately show ?thesis by (auto simp: n intro: emits_trans)
  qed
  show ?thesis
    unfolding rpc_exchange_def by (intro emits_and_then publish emits_same) simp
qed

lemma report_tool_emits:
  assumes "\<And>c. as_tool_result c \<noteq> None \<Longrightarrow> P (sid, c)"
    and "\<And>c. chunk_type c = Text \<Longrightarrow> role c = Some ASSISTANT \<Longrightarrow> P (sid, c)"
  shows "emits P w (snd (report_tool e sid keep r text w))"
proof -
  obtain c w1 where n: "runtime_null e w = (c, w1)" by fastforce
  have t: "as_tool_result (tool_result_chunk keep r c) \<noteq> None"
    by (simp add: tool_result_chunk_def as_tool_result_def get_annotation_def tool_result_roundtrip Let_def)
  have reply: "emits P w2 (snd (case runtime_text e text w2 of (t, w3) \<Rightarrow>
            bus_publish e sid (with_annotation CHAT_ROLE (JStr ''assistant'') t) w3))" for w2
  proof -
    obtain t w3 where x: "runtime_text e text w2 = (t, w3)" by fastforce
    then have "chunk_type t = Text" by (auto simp: runtime_text_def split: prod.splits)
    then have "P (sid, with_annotation CHAT_ROLE (JStr ''assistant'') t)" by (intro assms) simp_all
    moreover have "emits P w2 w3" using x sent_unchanged(5) [of e "text" w2] by (simp add: emits_same)
    ultimately show ?thesis by (auto simp: x intro: emits_trans emits_publish)
  qed
  have "emits P w w1" using n sent_unchanged(4) [of e w] by (simp add: emits_same)
  moreover have "emits P w1 (snd (report_tool e sid keep r text w))"
    unfolding report_tool_def n prod.case
    by (intro emits_and_then emits_publish assms(1) t reply)
  ultimately show ?thesis by (rule emits_trans)
qed

lemma execute_emits:
  assumes "\<And>c. as_rpc_request c \<noteq> None \<or> as_tool_result c \<noteq> None
      \<or> chunk_type c = Text \<and> role c = Some ASSISTANT \<Longrightarrow> P (sid, c)"
  shows "emits P w (snd (execute e call sid w))"
proof (cases "call_provider call = Some ''mcp''")
  case False
  obtain u w1 where f: "fresh_uuid e w = (u, w1)" by fastforce
  have "emits P w w1" using f sent_unchanged(3) [of e w] by (simp add: emits_same)
  moreover have "emits P w1 (snd (execute e call sid w))"
    unfolding execute_def f prod.case if_not_P [OF False]
    by (intro emits_and_then rpc_exchange_emits)
       (auto simp: assms request_chunk_recognised Let_def intro!: report_tool_emits split: rpc_wait.splits)
  ultimately show ?thesis by (rule emits_trans)
qed (simp add: execute_def)

lemma publish_calls_emits:
  assumes "\<And>c. as_tool_call c \<noteq> None \<Longrightarrow> P (sid, c)"
  shows "emits P w (publish_calls e sid calls w)"
proof (induction calls arbitrary: w)
  case (Cons call calls)
  obtain c w1 where n: "runtime_null e w = (c, w1)" by fastforce
  let ?c = "with_annotation CAFE_TOOL_CALL (tool_call_to_json call) c"
  have "emits P w w1" using n sent_unchanged(4) [of e w] by (simp add: emits_same)
  moreover have "as_tool_call ?c \<noteq> None" by (simp add: as_tool_call_def tool_call_roundtrip)
  then have "emits P w1 (snd (bus_publish e sid ?c w1))" by (intro emits_publish assms)
  ultimately show ?case using Cons.IH n by (auto intro: emits_trans)
qed simp

lemma execute_calls_emits:
  assumes "\<And>c. as_rpc_request c \<noteq> None \<or> as_tool_result c \<noteq> None
      \<or> chunk_type c = Text \<and> role c = Some ASSISTANT \<Longrightarrow> P (sid, c)"
  shows "emits P w (execute_calls e sid calls w)"
  by (induction calls arbitrary: w) (auto intro: emits_trans execute_emits [of P, OF assms])

lemma run_builtin_emits:
  assumes "s \<in> set steps" "is_enabled s (pc_config ctx)"
  shows "emits (from_pipeline steps ctx) w (snd (run_builtin e orig ctx s w))"
proof -
  have P: "from_pipeline steps ctx (pc_session_id ctx, c)" if "accounts_for s c" for c
    using assms that by (auto simp: from_pipeline_def list_ex_iff)
  have h: "emits Q w w1" if "bus_get_history e w = (r, w1)" for r w1 Q
    using sent_unchanged(1) [of e w] that by (simp add: emits_same)
  show ?thesis
  proof (cases "step_kind_from_str (step_type s)")
    case (BuiltIn b)
    show ?thesis
    proof (cases b)
      case ToolDetector
      then show ?thesis using BuiltIn
        by (auto simp: run_builtin_def intro!: publish_calls_emits P split: option.splits)
           (simp add: accounts_for_def)
    next
      case ToolExecutor
      then show ?thesis using BuiltIn
        by (auto simp: run_builtin_def Let_def dest: h split: prod.splits sum.splits
              intro!: emits_trans [OF h execute_calls_emits] P)
           (auto simp: accounts_for_def)
    qed (use BuiltIn in \<open>simp_all add: run_builtin_def\<close>)
  qed (simp add: run_builtin_def)
qed

lemma run_builtins_emits:
  assumes "set ss \<subseteq> {s \<in> set steps. is_enabled s (pc_config ctx)}"
  shows "emits (from_pipeline steps ctx) w (snd (run_builtins e orig ctx ss w))"
  using assms
proof (induction ss arbitrary: w)
  case (Cons s ss)
  obtain q1 w1 where 1: "run_builtin e orig ctx s w = (q1, w1)" by fastforce
  then have "emits (from_pipeline steps ctx) w w1"
    using run_builtin_emits [of s steps ctx w e orig] Cons.prems by simp
  moreover have "emits (from_pipeline steps ctx) w1 (snd (run_builtins e orig ctx ss w1))"
    using Cons by simp
  ultimately have "emits (from_pipeline steps ctx) w (snd (run_builtins e orig ctx ss w1))"
    by (rule emits_trans)
  then show ?case by (simp add: 1 case_prod_beta)
qed simp

lemma dispatch_rpc_emits:
  assumes "s \<in> set steps" "is_enabled s (pc_config ctx)" "step_kind_from_str (step_type s) = Rpc (step_type s)"
  shows "emits (from_pipeline steps ctx) w (snd (dispatch_rpc e s ctx w))"
proof -
  let ?params = "build_rpc_params (step_type s) ctx (kv_get (x_schemas e (a_ops w)) (step_type s))"
  obtain u w1 where f: "fresh_uuid e w = (u, w1)" by fastforce
  let ?req = "rpc_request_new u (step_type s @ ''.invoke'') ?params"
  have "emits (from_pipeline steps ctx) w w1" using f sent_unchanged(3) [of e w] by (simp add: emits_same)
  moreover have "from_pipeline steps ctx (pc_session_id ctx, request_chunk ?req c)" for c
    using assms
    by (auto simp: from_pipeline_def list_ex_iff accounts_for_def request_chunk_recognised rpc_request_new_def)
  then have "emits (from_pipeline steps ctx) w1 (snd (rpc_exchange e (pc_session_id ctx) ?req w1))"
    by (rule rpc_exchange_emits)
  moreover have "snd (dispatch_rpc e s ctx w) = snd (rpc_exchange e (pc_session_id ctx) ?req w1)"
    by (simp add: dispatch_rpc_def Let_def f split: prod.splits sum.splits rpc_wait.splits option.splits)
  ultimately show ?thesis by (auto intro: emits_trans)
qed

lemma step_kind_Rpc: "step_kind_from_str t = Rpc ns \<Longrightarrow> ns = t"
  by (auto simp: step_kind_from_str_def split: if_splits)

lemma run_rpcs_emits:
  assumes "set ss \<subseteq> {s \<in> set steps. is_enabled s (pc_config ctx)}"
  shows "emits (from_pipeline steps ctx) w (snd (run_rpcs e ctx ss w))"
  using assms
proof (induction ss arbitrary: w)
  case (Cons s ss)
  have rest: "emits (from_pipeline steps ctx) w1 (snd (run_rpcs e ctx ss w1))" for w1
    using Cons by simp
  show ?case
  proof (cases "step_kind_from_str (step_type s)")
    case (Rpc ns)
    then have "step_kind_from_str (step_type s) = Rpc (step_type s)" using step_kind_Rpc by metis
    then have "emits (from_pipeline steps ctx) w (snd (dispatch_rpc e s ctx w))"
      using dispatch_rpc_emits Cons.prems by simp
    then show ?thesis
      using Rpc by (auto intro!: emits_and_then rest)
  qed (use rest in simp)
qed simp

definition same_run :: "pipeline_context \<Rightarrow> work \<Rightarrow> bool" where
  "same_run orig x = (snd x = orig\<lparr>depth := depth (snd x)\<rparr>)"

lemma same_run_follows: "same_run orig x \<Longrightarrow> follows orig (snd x) y \<Longrightarrow> same_run orig y"
proof -
  assume s: "same_run orig x" and f: "follows orig (snd x) y"
  from s have "(snd x)\<lparr>depth := d\<rparr> = orig\<lparr>depth := d\<rparr>" for d
    unfolding same_run_def by (metis pipeline_context.update_convs(5) pipeline_context.surjective)
  with f show "same_run orig y" by (auto simp: follows_def same_run_def)
qed

lemma from_pipeline_depth [simp]: "from_pipeline steps (orig\<lparr>depth := d\<rparr>) = from_pipeline steps orig"
  by (simp add: from_pipeline_def fun_eq_iff)

lemma process_event_emits:
  assumes "same_run orig x" and p: "process_event e steps max_depth orig x w = (y, w')"
  shows "emits (from_pipeline steps orig) w w'"
proof (cases "depth_limited max_depth x")
  case True
  then show ?thesis using p by (simp add: process_event_def)
next
  case False
  let ?ctx = "snd x" let ?el = "eligible steps (fst x) (pc_config ?ctx)"
  have P: "from_pipeline steps ?ctx = from_pipeline steps orig"
    using assms(1) by (metis same_run_def from_pipeline_depth)
  have el: "set ?el \<subseteq> {s \<in> set steps. is_enabled s (pc_config ?ctx)}" by (auto simp: eligible_def)
  obtain q1 w1 where 1: "run_builtins e orig ?ctx ?el w = (q1, w1)" by fastforce
  have "emits (from_pipeline steps ?ctx) w w1"
    using run_builtins_emits [OF el, of w e orig] 1 by simp
  moreover have "emits (from_pipeline steps ?ctx) w1 (snd (run_rpcs e ?ctx ?el w1))"
    by (rule run_rpcs_emits [OF el])
  moreover have "w' = snd (run_rpcs e ?ctx ?el w1)"
    using p False 1 by (auto simp: process_event_def Let_def and_then_def split: prod.splits sum.splits)
  ultimately show ?thesis by (simp add: P) (blast intro: emits_trans)
qed

section \<open>The pipeline ends, and publishes only what its steps account for\<close>

interpretation pipeline_queue:
  work_queue "process_event e steps max_depth orig" "work_weight (length steps) max_depth"
  for e steps max_depth orig
proof unfold_locales
  show "0 < work_weight (length steps) max_depth x" for x
    by (cases x) (simp add: work_weight_def split: trigger.splits)
qed (rule process_event_shrinks)

interpretation pipeline_run:
  tracked_queue "process_event e steps max_depth orig" "work_weight (length steps) max_depth"
    "same_run orig" "emits (from_pipeline steps orig)"
  for e steps max_depth orig
proof unfold_locales
  show "list_all (same_run orig) new"
    if "same_run orig x" "process_event e steps max_depth orig x w = (Inr new, w')" for x w new w'
    using process_event_new [OF that(2)] same_run_follows [OF that(1)] by (auto simp: list_all_iff)
qed (auto intro: process_event_emits emits_trans)

abbreviation pipeline_fuel :: "step_def list \<Rightarrow> nat \<Rightarrow> nat" where
  "pipeline_fuel steps max_depth \<equiv> (length steps + 2) ^ (max_depth + 1)"

lemma on_trigger_ends: "\<exists>r. on_trigger e steps max_depth (pipeline_fuel steps max_depth) ev ctx w = Some r"
proof -
  have "(length steps + 2) ^ (max_depth - depth ctx) \<le> pipeline_fuel steps max_depth"
    by (rule power_increasing) auto
  then have "sum_list (map (work_weight (length steps) max_depth) [(ev, ctx)]) \<le> pipeline_fuel steps max_depth"
    by (simp add: work_weight_def split: trigger.splits)
  from pipeline_queue.drains [OF this] show ?thesis by (simp add: on_trigger_def)
qed

text \<open>
  C10: Every trigger is processed to the end. Whatever the bus answers and however the steps chain
  through their completions, the work queue of a pipeline is empty, or an RPC step has failed,
  after at most (n + 2) to the power (maximal depth + 1) events for n steps; running on changes
  nothing.
\<close>

theorem pipeline_terminates:
  "\<exists>r. \<forall>j. on_trigger e steps max_depth (pipeline_fuel steps max_depth + j) ev ctx w = Some r"
proof -
  obtain r where "on_trigger e steps max_depth (pipeline_fuel steps max_depth) ev ctx w = Some r"
    using on_trigger_ends by blast
  then have "on_trigger e steps max_depth (pipeline_fuel steps max_depth + j) ev ctx w = Some r" for j
    by (simp only: on_trigger_def drain_more)
  then show ?thesis by blast
qed

text \<open>
  A pipeline keeps to its session and its configuration. Everything it publishes, however
  long its steps chain and wherever it fails, goes to the session of the trigger and is accounted
  for by a step whose flag is enabled there: a request \<open><type>.invoke\<close> by an RPC step, a tool call
  by the tool detector, a request, a result or an assistant text by the tool executor.
\<close>

theorem pipeline_sends:
  "\<exists>r w' ms. on_trigger e steps max_depth (pipeline_fuel steps max_depth) ev ctx w = Some (r, w')
     \<and> a_sent w' = a_sent w @ ms \<and> list_all (from_pipeline steps ctx) ms"
proof -
  obtain r w' where o: "on_trigger e steps max_depth (pipeline_fuel steps max_depth) ev ctx w = Some (r, w')"
    using on_trigger_ends by fastforce
  have "emits (from_pipeline steps ctx) w w'"
    by (rule pipeline_run.run_moves [OF _ o [unfolded on_trigger_def]]) (simp add: same_run_def)
  with o show ?thesis by (auto simp: emits_def)
qed

section \<open>Parameters follow the announced schema\<close>

lemma kv_get_add_param_other: "k \<noteq> name \<Longrightarrow> kv_get (add_param ns ctx (name, spec) m) k = kv_get m k"
  by (simp add: add_param_def kv_get_obj_insert split: option.split)

lemma kv_get_add_param_same:
  "kv_get (add_param ns ctx (k, spec) m) k =
    (if k = ''session_id'' then kv_get m k
     else if k = ''text'' \<or> k = ''prompt'' then Some (JStr (or_else [] (context_text ctx)))
     else (case kv_get (mc_values (pc_config ctx)) (config_key ns k spec) of
             Some v \<Rightarrow> Some v | None \<Rightarrow> kv_get m k))"
  by (simp add: add_param_def kv_get_obj_insert split: option.split)

lemma fold_add_param:
  assumes "kv_wf props"
  shows "kv_get (fold (add_param ns ctx) props m) k =
    (case kv_get props k of
       None \<Rightarrow> kv_get m k
     | Some spec \<Rightarrow>
         if k = ''session_id'' then kv_get m k
         else if k = ''text'' \<or> k = ''prompt'' then Some (JStr (or_else [] (context_text ctx)))
         else (case kv_get (mc_values (pc_config ctx)) (config_key ns k spec) of
                 Some v \<Rightarrow> Some v | None \<Rightarrow> kv_get m k))"
  using assms
proof (induction props arbitrary: m)
  case (Cons p props)
  obtain name spec where p: "p = (name, spec)" by fastforce
  have wf: "kv_wf props" and n: "kv_get props name = None"
    using Cons.prems p by (auto simp: kv_wf_def kv_get_None kv_keys_def)
  show ?case
  proof (cases "k = name")
    case True
    then have "name = k" by simp
    then show ?thesis
      using n by (simp only: p fold_simps Cons.IH [OF wf] option.case kv_get.simps fst_conv snd_conv if_True
          kv_get_add_param_same simp_thms)
  next
    case False
    then have "kv_get (add_param ns ctx (name, spec) m) k = kv_get m k" and "(name = k) = False"
      by (auto intro: kv_get_add_param_other)
    then show ?thesis
      by (simp only: p fold_simps Cons.IH [OF wf] kv_get.simps fst_conv snd_conv if_False)
  qed
qed simp

text \<open>
  The parameters of an RPC step are what the evaluator announced. For a schema with a property
  table the request has the session id, the text for \<open>text\<close> and \<open>prompt\<close>, the configured value of
  every other declared property that is configured, under its \<open>x-config-key\<close> or
  \<open>config.<namespace>.<name>\<close>, and no other parameter.
\<close>

theorem build_rpc_params_spec:
  assumes "json_get (rpc_params_schema s) ''properties'' = Some (JObj props)" and "kv_wf props"
  shows "json_get (build_rpc_params ns ctx (Some s)) k =
    (if k = ''session_id'' then Some (JStr (pc_session_id ctx))
     else case kv_get props k of
       None \<Rightarrow> None
     | Some spec \<Rightarrow>
         if k = ''text'' \<or> k = ''prompt'' then Some (JStr (or_else [] (context_text ctx)))
         else kv_get (mc_values (pc_config ctx)) (config_key ns k spec))"
proof -
  have "build_rpc_params ns ctx (Some s) = JObj (fold (add_param ns ctx) props [(''session_id'', JStr (pc_session_id ctx))])"
    using assms(1) by (simp add: build_rpc_params_def)
  moreover have "kv_get [(''session_id'', v)] k = (if k = ''session_id'' then Some v else None)" for v
    by (simp only: kv_get.simps fst_conv snd_conv eq_commute [of "''session_id''" k])
  ultimately show ?thesis
    by (simp only: json_get.simps fold_add_param [OF assms(2)]) (simp split: option.split)
qed

definition demo_context :: pipeline_context where
  "demo_context =
     \<lparr>pc_session_id = ''s'', pc_config = \<lparr>mc_values = [(''config.tts.profile'', JStr ''narrator'')], mc_extra = []\<rparr>,
      assembled_llm_text = Some ''hello'', user_text = None, depth = 0\<rparr>"

definition demo_schema :: evaluator_schema where
  "demo_schema =
     \<lparr>schema_name = ''tts'', schema_description = [], config_schema = JNull,
      rpc_params_schema = JObj [(''properties'', JObj [(''engine'', JNull), (''profile'', JNull), (''text'', JNull)])]\<rparr>"

theorem build_rpc_params_witness:
  "json_get (build_rpc_params ''tts'' demo_context (Some demo_schema)) ''profile'' = Some (JStr ''narrator'')
   \<and> json_get (build_rpc_params ''tts'' demo_context (Some demo_schema)) ''text'' = Some (JStr ''hello'')
   \<and> json_get (build_rpc_params ''tts'' demo_context (Some demo_schema)) ''engine'' = None"
proof -
  have p: "json_get (rpc_params_schema demo_schema) ''properties''
      = Some (JObj [(''engine'', JNull), (''profile'', JNull), (''text'', JNull)])"
    by (simp add: demo_schema_def)
  have w: "kv_wf [(''engine'', JNull), (''profile'', JNull), (''text'', JNull)]" by (simp add: kv_wf_def)
  show ?thesis
    unfolding build_rpc_params_spec [OF p w]
    by (simp add: demo_context_def config_key_def context_text_def or_else_def)
qed

section \<open>An answered step completes\<close>

definition answers :: "string \<Rightarrow> rx_event \<Rightarrow> bool" where
  "answers call_id ev =
     (case ev of Closed \<Rightarrow> True | Received (Chunk _ c) \<Rightarrow> is_rpc_response_for call_id c | _ \<Rightarrow> False)"

lemma await_skips: "list_all (\<lambda>ev. \<not> answers call_id ev) evs \<Longrightarrow> await_response call_id (evs @ rest) = await_response call_id rest"
proof (induction evs)
  case (Cons ev evs)
  then show ?case by (cases ev) (auto simp: answers_def split: server_message.splits)
qed simp

lemma await_response_not_garbled: "await_response call_id evs \<noteq> Garbled"
  by (induction call_id evs rule: await_response.induct)
     (auto simp: is_rpc_response_for_def split: server_message.splits option.splits)

text \<open>
  A service's answer ends the wait. When the bus accepts the exchange and the subscription
  delivers, after any messages that do not answer this call, a reply built the way the services
  build it, the step ends with it: a completion one level deeper for a result, the reply's code
  and message for an error; what follows the reply is not read.
\<close>

theorem dispatch_rpc_answered:
  fixes e s ctx w
  defines "u \<equiv> x_uuid e (a_uuids w)"
  assumes "x_history e (a_ops w) = Inr hist" and "x_publish e (Suc (a_ops w)) = None"
    and "x_subscribe e (Suc (Suc (a_ops w))) = Inr (before @ Received (Chunk sid reply) # after)"
    and "list_all (\<lambda>ev. \<not> answers u ev) before"
    and "reply = with_retain n (as_transient (with_annotation CAFE_JSONRPC_RESPONSE (response_to_json r) c))"
    and "rpc_response_wf r" and "resp_id r = u"
  shows "fst (dispatch_rpc e s ctx w) =
    (case resp_error r of
       None \<Rightarrow> Inr (Some (StepComplete (step_id s), ctx\<lparr>depth := Suc (depth ctx)\<rparr>))
     | Some x \<Rightarrow> Inl (RpcFailed (step_id s) (err_code x) (err_message x)))"
proof -
  have rep: "as_rpc_response reply = Some r" unfolding assms(6) by (rule rpc_response_recognised [OF assms(7)])
  have "await_response u (before @ Received (Chunk sid reply) # after) = Answered r"
    using assms(8) by (simp add: await_skips [OF assms(5)] is_rpc_response_for_def rep)
  then show ?thesis
    using assms(2-4)
    by (simp add: dispatch_rpc_def Let_def fresh_uuid_def rpc_exchange_def bus_get_history_def and_then_def
        runtime_null_def bus_publish_def bus_subscribe_def rpc_request_new_def u_def split: option.splits)
qed

definition demo_reply :: json_rpc_response where
  "demo_reply = rpc_response_ok ''u'' (JStr ''done'')"

definition demo_agent_env :: "(string \<Rightarrow> string list) \<Rightarrow> agent_env" where
  "demo_agent_env captures =
     \<lparr>x_publish = (\<lambda>_. None), x_history = (\<lambda>_. Inr []),
      x_subscribe = (\<lambda>_. Inr ([Received Pong] @ Received (Chunk ''s''
        (with_retain 60 (as_transient (with_annotation CAFE_JSONRPC_RESPONSE (response_to_json demo_reply)
          (new_null ''r'' 0 ''com.test''))))) # [Closed])),
      x_uuid = (\<lambda>_. ''u''), x_clock = (\<lambda>_. 0), x_schemas = (\<lambda>_. []), x_captures = captures,
      x_parse = (\<lambda>_. None), x_strip = (\<lambda>t. t), x_pretty = (\<lambda>_. [])\<rparr>"

definition demo_world :: agent_world where
  "demo_world = \<lparr>a_ops = 0, a_uuids = 0, a_sent = []\<rparr>"

theorem dispatch_rpc_answered_witness:
  "fst (dispatch_rpc (demo_agent_env (\<lambda>_. [])) (step ''reply'' ''llm'' ''user_message'') demo_context demo_world)
   = Inr (Some (StepComplete ''reply'', demo_context\<lparr>depth := 1\<rparr>))"
  using dispatch_rpc_answered [of "demo_agent_env (\<lambda>_. [])" demo_world "[]" "[Received Pong]" "''s''"
      "with_retain 60 (as_transient (with_annotation CAFE_JSONRPC_RESPONSE (response_to_json demo_reply)
          (new_null ''r'' 0 ''com.test'')))" "[Closed]" 60 demo_reply "new_null ''r'' 0 ''com.test''"
      "step ''reply'' ''llm'' ''user_message''" demo_context]
  by (simp add: demo_agent_env_def demo_world_def demo_reply_def rpc_response_ok_def rpc_response_wf_def
      answers_def step_def demo_context_def)

section \<open>The tool executor looks at the whole history\<close>

text \<open>
  Nothing marks a call as done: as long as a tool call is in the history the bus returns, every
  run of the tool executor publishes its request again.
\<close>

lemma tool_executor_repeats:
  assumes "step_kind_from_str (step_type s) = BuiltIn ToolExecutor"
    and "x_history e (a_ops w) = Inr [c]" and "as_tool_call c = Some call" and "call_provider call = None"
    and "x_history e (Suc (a_ops w)) = Inr h" and "x_publish e (Suc (Suc (a_ops w))) = None"
    and "x_subscribe e (Suc (Suc (Suc (a_ops w)))) = Inr [Closed]"
  shows "\<exists>m. a_sent (snd (run_builtin e orig ctx s w)) = a_sent w @ [m]
    \<and> map_option req_method (as_rpc_request (snd m)) = Some (call_name call)"
  using assms
  by (simp add: run_builtin_def bus_get_history_def map_filter_simps execute_def fresh_uuid_def rpc_exchange_def
      and_then_def runtime_null_def bus_publish_def bus_subscribe_def request_chunk_recognised rpc_request_new_def)

end
