(* ===== verification/Session_Loop.thy ===== *)
theory Session_Loop
  imports Pipeline
begin

text \<open>
  The loop that routes the chunks of one session to its pipeline,
  \<open>cafe-agent-runtime/src/session_loop.rs\<close>: which chunks are triggers, the context a trigger runs
  in, and the error chunk a failed pipeline leaves in the session.
\<close>

section \<open>Routing\<close>

definition LLM_PRODUCER :: string where "LLM_PRODUCER = ''com.nominal.cafe-llm''"

definition extract_last_assistant_text :: "chunk list \<Rightarrow> string option" where
  "extract_last_assistant_text hist =
     Option.bind
       (List.find (\<lambda>c. chunk_type c = Text \<and> role c = Some ASSISTANT \<and> producer c = LLM_PRODUCER
                      \<and> (case content c of None \<Rightarrow> False | Some t \<Rightarrow> t \<noteq> [])) (rev hist))
       content"

definition trigger_of :: "chunk \<Rightarrow> trigger option" where
  "trigger_of c =
     (if chunk_type c = Text \<and> role c = Some USER then Some UserMessage
      else if chunk_type c = BinaryRef \<and> role c = Some USER then Some UserMessage
      else if role c = Some ASSISTANT \<and> get_annotation as_bool CHAT_STREAM_COMPLETE c = Some True
      then Some LlmComplete
      else if get_annotation as_str CAFE_FLOW_SIGNAL c = Some ''tick'' then Some SchedulerTick
      else None)"

definition quoted :: "string \<Rightarrow> string" where
  "quoted s = [CHR 39] @ s @ [CHR 39]"

definition pipeline_error_display :: "pipeline_error \<Rightarrow> string" where
  "pipeline_error_display err =
     (case err of
        TimedOut s i \<Rightarrow> ''RPC step '' @ quoted s @ '' timed out waiting for call_id='' @ i
      | RpcFailed s code msg \<Rightarrow>
          ''RPC step '' @ quoted s @ '' returned error: ['' @ show_int code @ ''] '' @ msg
      | BusFailed s src \<Rightarrow> ''Bus error in step '' @ quoted s @ '': '' @ src
      | SdkFailed x \<Rightarrow> ''SDK error: '' @ x
      | IoFailed x \<Rightarrow> ''I/O error: '' @ x)"

definition error_report :: "pipeline_error \<Rightarrow> chunk \<Rightarrow> chunk" where
  "error_report err c =
     with_annotation ''error.source'' (JStr ''pipeline'')
       (with_annotation CAFE_ERROR_MESSAGE (JStr (pipeline_error_display err)) c)"

definition trigger_context :: "string \<Rightarrow> merged_config \<Rightarrow> trigger \<Rightarrow> chunk list \<Rightarrow> chunk \<Rightarrow> pipeline_context" where
  "trigger_context sid cfg trig hist c =
     \<lparr>pc_session_id = sid, pc_config = cfg,
      assembled_llm_text =
        (if trig = LlmComplete
         then (case extract_last_assistant_text hist of Some t \<Rightarrow> Some t | None \<Rightarrow> content c)
         else None),
      user_text = (if trig = UserMessage then content c else None),
      depth = 0\<rparr>"

text \<open>One trigger; \<open>None\<close> would be a pipeline that does not end.\<close>

definition fire ::
  "agent_env \<Rightarrow> step_def list \<Rightarrow> nat \<Rightarrow> string \<Rightarrow> trigger \<Rightarrow> chunk \<Rightarrow> agent_world \<Rightarrow> agent_world option" where
  "fire e steps max_depth sid trig c w =
     (case bus_get_history e w of
        (Inl _, w1) \<Rightarrow> Some w1
      | (Inr hist, w1) \<Rightarrow>
          (let cfg = resolve_session_config hist (schema_snapshot (x_schemas e (a_ops w1)))
           in case on_trigger e steps max_depth (pipeline_fuel steps max_depth) trig
                     (trigger_context sid cfg trig hist c) w1 of
                None \<Rightarrow> None
              | Some (Inr _, w2) \<Rightarrow> Some w2
              | Some (Inl err, w2) \<Rightarrow>
                  (case runtime_null e w2 of (x, w3) \<Rightarrow>
                     Some (snd (bus_publish e sid (error_report err x) w3)))))"

fun route ::
  "agent_env \<Rightarrow> step_def list \<Rightarrow> nat \<Rightarrow> string \<Rightarrow> rx_event list \<Rightarrow> bool \<Rightarrow> agent_world \<Rightarrow> agent_world option" where
  "route e steps max_depth sid [] history_complete w = Some w"
| "route e steps max_depth sid (Closed # evs) history_complete w = Some w"
| "route e steps max_depth sid (Received m # evs) history_complete w =
     (case m of
        HistoryComplete _ _ \<Rightarrow> route e steps max_depth sid evs True w
      | Chunk _ c \<Rightarrow>
          if is_transient c \<or> \<not> history_complete then route e steps max_depth sid evs history_complete w
          else (case trigger_of c of
                  None \<Rightarrow> route e steps max_depth sid evs history_complete w
                | Some trig \<Rightarrow>
                    (case fire e steps max_depth sid trig c w of
                       None \<Rightarrow> None
                     | Some w1 \<Rightarrow> route e steps max_depth sid evs history_complete w1))
      | _ \<Rightarrow> route e steps max_depth sid evs history_complete w)"

definition run_session_loop ::
  "agent_env \<Rightarrow> step_def list \<Rightarrow> nat \<Rightarrow> string \<Rightarrow> agent_world \<Rightarrow> agent_world option" where
  "run_session_loop e steps max_depth sid w =
     (case bus_subscribe e w of
        (Inl _, w1) \<Rightarrow> Some w1
      | (Inr evs, w1) \<Rightarrow> route e steps max_depth sid evs False w1)"

section \<open>Only live, lasting messages are triggers\<close>

definition ends_replay :: "rx_event \<Rightarrow> bool" where
  "ends_replay ev = (case ev of Received (HistoryComplete _ _) \<Rightarrow> True | _ \<Rightarrow> False)"

definition routed :: "rx_event \<Rightarrow> bool" where
  "routed ev =
     (case ev of
        Closed \<Rightarrow> True
      | Received (Chunk _ c) \<Rightarrow> \<not> is_transient c \<and> trigger_of c \<noteq> None
      | _ \<Rightarrow> False)"

lemma routed_simps [simp]:
  "routed Closed" "routed (Received (Chunk s c)) \<longleftrightarrow> \<not> is_transient c \<and> trigger_of c \<noteq> None"
  "(\<And>s c. m \<noteq> Chunk s c) \<Longrightarrow> \<not> routed (Received m)"
  by (auto simp: routed_def split: server_message.split)

lemma ends_replay_simps [simp]:
  "\<not> ends_replay Closed" "ends_replay (Received (HistoryComplete s n))"
  "(\<And>s n. m \<noteq> HistoryComplete s n) \<Longrightarrow> \<not> ends_replay (Received m)"
  by (auto simp: ends_replay_def split: server_message.split)

text \<open>What the loop acts on: after the marker of the end of the replay, the routed messages.\<close>

definition live_events :: "rx_event list \<Rightarrow> rx_event list" where
  "live_events evs = filter routed (dropWhile (\<lambda>ev. \<not> ends_replay ev) (takeWhile (\<lambda>ev. ev \<noteq> Closed) evs))"

lemma route_filter:
  "route e steps max_depth sid evs True w
    = route e steps max_depth sid (filter routed (takeWhile (\<lambda>ev. ev \<noteq> Closed) evs)) True w"
proof (induction evs arbitrary: w)
  case (Cons ev evs)
  show ?case
  proof (cases ev)
    case (Received m)
    then show ?thesis
      by (cases m) (auto simp flip: Cons.IH split: option.split)
  qed simp
qed simp

lemma route_replay:
  "route e steps max_depth sid evs False w
    = route e steps max_depth sid (live_events evs) True w"
proof (induction evs)
  case Nil
  then show ?case by (simp add: live_events_def)
next
  case (Cons ev evs)
  show ?case
  proof (cases ev)
    case (Received m)
    then show ?thesis
      using Cons.IH by (cases m) (auto simp: live_events_def simp flip: route_filter)
  next
    case Closed
    then show ?thesis by (simp add: live_events_def)
  qed
qed

text \<open>
  C22: History does not fire pipelines. From a fresh subscription the session loop acts only on
  what arrives after the end of the replay and before the disconnection, and of that only on
  lasting chunks that are triggers: replayed messages and transient chunks, the tokens of a
  streaming answer among them, are as if they had not been sent.
\<close>

theorem session_loop_acts_on_live_events:
  "route e steps max_depth sid evs False w = route e steps max_depth sid (live_events evs) True w"
  by (rule route_replay)

section \<open>The loop serves its session\<close>

lemma fire_emits:
  "\<exists>w'. fire e steps max_depth sid trig c w = Some w' \<and> emits (\<lambda>m. fst m = sid) w w'"
proof -
  obtain h w1 where h: "bus_get_history e w = (h, w1)" by fastforce
  then have w1: "a_sent w1 = a_sent w" using sent_unchanged(1) [of e w] by simp
  show ?thesis
  proof (cases h)
    case (Inl x)
    then show ?thesis using h w1 by (simp add: fire_def emits_same)
  next
    case (Inr hist)
    let ?ctx = "trigger_context sid (resolve_session_config hist (schema_snapshot (x_schemas e (a_ops w1)))) trig hist c"
    have o: "\<exists>r. on_trigger e steps max_depth (pipeline_fuel steps max_depth) trig ?ctx w1 = Some r"
      by (rule on_trigger_ends)
    then obtain r w2 where o: "on_trigger e steps max_depth (pipeline_fuel steps max_depth) trig ?ctx w1 = Some (r, w2)"
      by fastforce
    have "emits (from_pipeline steps ?ctx) w1 w2"
      by (rule pipeline_run.run_moves [OF _ o [unfolded on_trigger_def]]) (simp add: same_run_def)
    then have e: "emits (\<lambda>m. fst m = sid) w w2"
      using w1 by (auto simp: emits_def from_pipeline_def list_all_iff trigger_context_def)
    show ?thesis
    proof (cases r)
      case (Inl err)
      obtain x w3 where n: "runtime_null e w2 = (x, w3)" by fastforce
      have "emits (\<lambda>m. fst m = sid) w2 w3" using n sent_unchanged(4) [of e w2] by (simp add: emits_same)
      moreover have "emits (\<lambda>m. fst m = sid) w3 (snd (bus_publish e sid (error_report err x) w3))"
        by (rule emits_publish) simp
      ultimately have "emits (\<lambda>m. fst m = sid) w (snd (bus_publish e sid (error_report err x) w3))"
        using e by (blast intro: emits_trans)
      then show ?thesis using h Inr o Inl n by (simp add: fire_def Let_def)
    qed (use h Inr o e in \<open>simp add: fire_def Let_def\<close>)
  qed
qed

text \<open>
  One session's loop touches one session. Whatever the bus delivers and answers, the loop
  works through it without hanging, and all it ever publishes, tool traffic and error reports
  included, goes to the session it serves.
\<close>

theorem session_loop_confined:
  "\<exists>w' ms. run_session_loop e steps max_depth sid w = Some w'
     \<and> a_sent w' = a_sent w @ ms \<and> list_all (\<lambda>m. fst m = sid) ms"
proof -
  have loop: "\<exists>w'. route e steps max_depth sid evs hc w = Some w' \<and> emits (\<lambda>m. fst m = sid) w w'" for evs hc w
  proof (induction evs arbitrary: hc w)
    case (Cons ev evs)
    show ?case
    proof (cases "\<exists>s c trig. ev = Received (Chunk s c) \<and> \<not> is_transient c \<and> hc \<and> trigger_of c = Some trig")
      case True
      then obtain s c trig where t: "ev = Received (Chunk s c)" "\<not> is_transient c" hc "trigger_of c = Some trig"
        by blast
      obtain w1 where f: "fire e steps max_depth sid trig c w = Some w1" "emits (\<lambda>m. fst m = sid) w w1"
        using fire_emits by blast
      then show ?thesis using t Cons.IH [of hc w1] by (auto intro: emits_trans)
    next
      case False
      show ?thesis
      proof (cases ev)
        case (Received m)
        then show ?thesis using False Cons.IH by (cases m) (auto split: option.split)
      qed simp
    qed
  qed simp
  obtain s w1 where s: "bus_subscribe e w = (s, w1)" by fastforce
  then have w1: "a_sent w1 = a_sent w" using sent_unchanged(2) [of e w] by simp
  show ?thesis
  proof (cases s)
    case (Inl x)
    then show ?thesis using s w1 by (simp add: run_session_loop_def)
  next
    case (Inr evs)
    then show ?thesis
      using loop [of evs False w1] s w1 by (auto simp: run_session_loop_def emits_def)
  qed
qed

end
