(* ===== verification/Routes.thy ===== *)
theory Routes
  imports Envelope
begin

text \<open>
  The HTTP proxy of the server: the registry of the routes that bus services announce and the
  path patterns they are matched by (\<open>cafe-server/src/route_registry.rs\<close>), and the decoding of
  query strings (\<open>cafe-server/src/handlers/proxy.rs\<close>).  The order of a map is its iteration order;
  statements hold for every order.  The replacement of invalid UTF-8 is an argument.
\<close>

section \<open>Path patterns\<close>

definition trim_slashes :: "string \<Rightarrow> string" where
  "trim_slashes s =
     (let is_slash = (\<lambda>c. c = CHR ''/'') in rev (dropWhile is_slash (rev (dropWhile is_slash s))))"

definition segments :: "string \<Rightarrow> string list" where
  "segments s = split_on (CHR ''/'') (trim_slashes s)"

fun match_segments :: "(string \<times> string) list \<Rightarrow> (string, string) kv \<Rightarrow> (string, string) kv option" where
  "match_segments [] params = Some params"
| "match_segments ((pat, seg) # rest) params =
     (case strip_prefix '':'' pat of
        Some name \<Rightarrow> match_segments rest (kv_insert name seg params)
      | None \<Rightarrow>
          if eq_ignore_ascii_case pat seg then match_segments rest params else None)"

definition match_pattern :: "string \<Rightarrow> string \<Rightarrow> (string, string) kv option" where
  "match_pattern pattern path =
     (if length (segments pattern) \<noteq> length (segments path) then None
      else match_segments (zip (segments pattern) (segments path)) [])"

section \<open>The registry\<close>

record route_entry =
  re_pattern :: string
  re_methods :: "string list"
  re_connection :: string
  re_last_seen :: instant

record route_registry =
  routes :: "(string, route_entry) kv"
  max_body_size :: nat
  gc_interval_secs :: nat
  stale_purge_secs :: nat

definition route_registry_new :: "nat \<Rightarrow> nat \<Rightarrow> nat \<Rightarrow> route_registry" where
  "route_registry_new body gc stale =
     \<lparr>routes = [], max_body_size = body, gc_interval_secs = gc, stale_purge_secs = stale\<rparr>"

text \<open>The flag tells whether the waiting proxy handler is notified.\<close>

definition upsert ::
  "instant \<Rightarrow> string \<Rightarrow> string list \<Rightarrow> string \<Rightarrow> route_registry \<Rightarrow> bool \<times> route_registry" where
  "upsert now pattern methods conn r =
     (if kv_contains (routes r) pattern
      then (False, r\<lparr>routes := kv_adjust pattern
              (\<lambda>e. let e' = e\<lparr>re_last_seen := now\<rparr>
                   in if re_connection e' \<noteq> conn then e'\<lparr>re_connection := conn\<rparr> else e') (routes r)\<rparr>)
      else (True, r\<lparr>routes := kv_insert pattern
              \<lparr>re_pattern = pattern, re_methods = methods, re_connection = conn, re_last_seen = now\<rparr>
              (routes r)\<rparr>))"

definition remove_route :: "string \<Rightarrow> route_registry \<Rightarrow> route_registry" where
  "remove_route pattern r = r\<lparr>routes := kv_remove pattern (routes r)\<rparr>"

definition remove_by_connection :: "string \<Rightarrow> route_registry \<Rightarrow> route_registry" where
  "remove_by_connection conn r = r\<lparr>routes := kv_retain (\<lambda>_ e. re_connection e \<noteq> conn) (routes r)\<rparr>"

fun match_entries :: "(string, route_entry) kv \<Rightarrow> string \<Rightarrow> string \<Rightarrow> (route_entry \<times> (string, string) kv) option" where
  "match_entries [] path method = None"
| "match_entries (p # rs) path method =
     (if \<not> list_ex (\<lambda>m. eq_ignore_ascii_case m method) (re_methods (snd p)) then match_entries rs path method
      else case match_pattern (re_pattern (snd p)) path of
             Some params \<Rightarrow> Some (snd p, params)
           | None \<Rightarrow> match_entries rs path method)"

definition match_path :: "route_registry \<Rightarrow> string \<Rightarrow> string \<Rightarrow> (route_entry \<times> (string, string) kv) option" where
  "match_path r path method = match_entries (routes r) path method"

text \<open>One collection of the garbage collector; \<open>Duration::as_secs\<close> rounds down.\<close>

definition route_gc :: "instant \<Rightarrow> route_registry \<Rightarrow> route_registry" where
  "route_gc now r =
     r\<lparr>routes := kv_retain (\<lambda>_ e. \<not> stale_purge_secs r < (now - re_last_seen e) div 1000000000) (routes r)\<rparr>"

section \<open>Query strings\<close>

definition hex_val :: "char \<Rightarrow> nat option" where
  "hex_val c =
     (let n = byte_val c
      in if 48 \<le> n \<and> n \<le> 57 then Some (n - 48)
         else if 65 \<le> n \<and> n \<le> 70 then Some (n - 55)
         else if 97 \<le> n \<and> n \<le> 102 then Some (n - 87)
         else None)"

text \<open>
  \<open>u8::from_str_radix\<close> at base 16 on two characters: an optional plus sign is part of the number.
\<close>

definition radix16 :: "char \<Rightarrow> char \<Rightarrow> nat option" where
  "radix16 a b =
     (if a = CHR ''+'' then hex_val b
      else case (hex_val a, hex_val b) of (Some x, Some y) \<Rightarrow> Some (16 * x + y) | _ \<Rightarrow> None)"

fun url_decode_bytes :: "string \<Rightarrow> string" where
  "url_decode_bytes [] = []"
| "url_decode_bytes (c # cs) =
     (if c = CHR ''%'' then
        (case cs of
           [] \<Rightarrow> [CHR ''%'']
         | [a] \<Rightarrow> [CHR ''%'', a]
         | a # b # rest \<Rightarrow>
             (case radix16 a b of
                Some d \<Rightarrow> char_of d # url_decode_bytes rest
              | None \<Rightarrow> CHR ''%'' # a # b # url_decode_bytes rest))
      else c # url_decode_bytes cs)"

definition url_decode :: "(string \<Rightarrow> string) \<Rightarrow> string \<Rightarrow> string" where
  "url_decode lossy s = lossy (url_decode_bytes s)"

definition parse_query :: "(string \<Rightarrow> string) \<Rightarrow> string \<Rightarrow> (string, string) kv" where
  "parse_query lossy query =
     fold (\<lambda>pair m.
         if CHR ''='' \<in> set pair
         then kv_insert (url_decode lossy (takeWhile (\<lambda>c. c \<noteq> CHR ''='') pair))
                (url_decode lossy (tl (dropWhile (\<lambda>c. c \<noteq> CHR ''='') pair))) m
         else m)
       (filter (\<lambda>s. s \<noteq> []) (split_on (CHR ''&'') query)) []"

section \<open>Matching finds what was registered\<close>

lemma match_entries_Some:
  "match_entries rs path method = Some (e, params) \<Longrightarrow>
     e \<in> snd ` set rs \<and> list_ex (\<lambda>m. eq_ignore_ascii_case m method) (re_methods e)
     \<and> match_pattern (re_pattern e) path = Some params"
  by (induction rs) (auto split: if_splits option.splits)

lemma match_entries_None:
  "match_entries rs path method = None \<longleftrightarrow>
     (\<forall>e \<in> snd ` set rs. list_ex (\<lambda>m. eq_ignore_ascii_case m method) (re_methods e)
        \<longrightarrow> match_pattern (re_pattern e) path = None)"
  by (induction rs) (auto split: option.split)

text \<open>
  Joining segments and taking them apart: the path that a list of proper segments stands for.
\<close>

definition proper_segment :: "string \<Rightarrow> bool" where
  "proper_segment s = (s \<noteq> [] \<and> CHR ''/'' \<notin> set s)"

definition join_path :: "string list \<Rightarrow> string" where
  "join_path segs = concat (map (\<lambda>s. CHR ''/'' # s) segs)"

lemma split_on_absent: "sep \<notin> set s \<Longrightarrow> split_on sep s = [s]"
  by (induction s) auto

lemma split_on_step: "sep \<notin> set s \<Longrightarrow> split_on sep (s @ sep # t) = s # split_on sep t"
  by (induction s) auto

lemma split_on_nonempty [simp]: "split_on sep s \<noteq> []"
  by (induction s) (auto split: list.splits)

lemma split_joined:
  "list_all proper_segment (s # segs) \<Longrightarrow>
     split_on (CHR ''/'') (s @ concat (map (\<lambda>s. CHR ''/'' # s) segs)) = s # segs"
proof (induction segs arbitrary: s)
  case Nil
  then show ?case by (simp add: proper_segment_def split_on_absent)
next
  case (Cons t segs)
  then have "CHR ''/'' \<notin> set s" by (simp add: proper_segment_def)
  with Cons show ?case by (simp add: split_on_step)
qed

lemma dropWhile_hd: "xs \<noteq> [] \<Longrightarrow> \<not> P (hd xs) \<Longrightarrow> dropWhile P xs = xs"
  by (cases xs) simp_all

lemma segments_join:
  assumes "list_all proper_segment segs" and "segs \<noteq> []"
  shows "segments (join_path segs) = segs"
proof -
  let ?slash = "\<lambda>c. c = CHR ''/''"
  obtain s ss where segs: "segs = s # ss" using assms by (cases segs) auto
  let ?body = "s @ concat (map (\<lambda>s. CHR ''/'' # s) ss)"
  have s: "s \<noteq> []" "CHR ''/'' \<notin> set s" using assms segs by (simp_all add: proper_segment_def)
  have hd: "\<not> ?slash (hd ?body)" using s by (metis hd_append hd_in_set)
  have last: "\<not> ?slash (last ?body)"
  proof (cases ss rule: rev_cases)
    case Nil
    then show ?thesis using s by (metis append_Nil2 concat.simps(1) last_in_set list.map_disc_iff)
  next
    case (snoc ts t)
    then have t: "t \<noteq> []" "CHR ''/'' \<notin> set t" using assms segs by (simp_all add: proper_segment_def)
    have "last ?body = last t" using snoc t by simp
    then show ?thesis using t by (metis last_in_set)
  qed
  have body: "?body \<noteq> []" using s by simp
  have "join_path segs = CHR ''/'' # ?body" by (simp add: join_path_def segs)
  then have "dropWhile ?slash (join_path segs) = ?body"
    by (simp only: dropWhile.simps simp_thms if_True dropWhile_hd [where P = ?slash, OF body hd])
  moreover have "dropWhile ?slash (rev ?body) = rev ?body"
    by (rule dropWhile_hd) (use body last in \<open>simp_all only: hd_rev rev_is_Nil_conv not_False_eq_True\<close>)
  ultimately have "trim_slashes (join_path segs) = ?body"
    by (simp only: trim_slashes_def Let_def rev_rev_ident)
  then show ?thesis
    using split_joined assms(1) segs by (simp add: segments_def)
qed

text \<open>A pattern with its parameters filled in.\<close>

definition fill :: "(string \<Rightarrow> string) \<Rightarrow> string \<Rightarrow> string" where
  "fill vals pat = (case strip_prefix '':'' pat of Some name \<Rightarrow> vals name | None \<Rightarrow> pat)"

lemma match_filled:
  "\<exists>params'. match_segments (zip pats (map (fill vals) pats)) params = Some params'
     \<and> (\<forall>name. kv_get params' name
          = (if name \<in> set (List.map_filter (strip_prefix '':'') pats) then Some (vals name) else kv_get params name))"
proof (induction pats arbitrary: params)
  case (Cons pat pats)
  show ?case
  proof (cases "strip_prefix '':'' pat")
    case None
    then show ?thesis using Cons by (simp add: fill_def eq_ignore_ascii_case_def map_filter_simps)
  next
    case (Some name)
    obtain params' where
      "match_segments (zip pats (map (fill vals) pats)) (kv_insert name (vals name) params) = Some params'"
      "\<forall>n. kv_get params' n = (if n \<in> set (List.map_filter (strip_prefix '':'') pats) then Some (vals n)
            else kv_get (kv_insert name (vals name) params) n)"
      using Cons by blast
    moreover have "fill vals pat = vals name" using Some by (simp add: fill_def)
    ultimately show ?thesis using Some by (auto simp: map_filter_simps kv_simps)
  qed
qed (simp add: map_filter_simps)

text \<open>
  A route pattern matches the paths made from it. Filling the parameters of a pattern with
  any proper segments gives a path that matches, and the parameters extracted from it are the
  values that were filled in, and no others.
\<close>

theorem match_pattern_roundtrip:
  assumes "pats \<noteq> []" "list_all proper_segment pats" "list_all proper_segment (map (fill vals) pats)"
  shows "\<exists>params. match_pattern (join_path pats) (join_path (map (fill vals) pats)) = Some params
    \<and> (\<forall>name. kv_get params name
         = (if name \<in> set (List.map_filter (strip_prefix '':'') pats) then Some (vals name) else None))"
proof -
  have "segments (join_path pats) = pats" using segments_join assms by blast
  moreover have "segments (join_path (map (fill vals) pats)) = map (fill vals) pats"
    using segments_join assms by simp
  ultimately show ?thesis using match_filled [of pats vals "[]"] by (auto simp: match_pattern_def)
qed

theorem match_pattern_witness:
  "\<exists>params. match_pattern (join_path [''api'', '':id'']) (join_path (map (fill (\<lambda>_. ''x'')) [''api'', '':id''])) = Some params
    \<and> (\<forall>name. kv_get params name
         = (if name \<in> set (List.map_filter (strip_prefix '':'') [''api'', '':id'']) then Some ''x'' else None))"
  using match_pattern_roundtrip [of "[''api'', '':id'']" "\<lambda>_. ''x''"]
  by (simp add: proper_segment_def fill_def)

section \<open>The life of a route\<close>

text \<open>
  The proxy sends a request to a live route that fits it. A match is a registered entry whose
  methods contain the request's and whose pattern the path fits; there is none exactly when no
  entry fits; and after a collection no matched entry is older than the purge limit.
\<close>

theorem match_path_spec:
  "(case match_path (route_gc now r) path method of
      Some (e, params) \<Rightarrow>
        e \<in> snd ` set (routes r) \<and> list_ex (\<lambda>m. eq_ignore_ascii_case m method) (re_methods e)
        \<and> match_pattern (re_pattern e) path = Some params
        \<and> (now - re_last_seen e) div 1000000000 \<le> stale_purge_secs r
    | None \<Rightarrow>
        list_all (\<lambda>e. stale_purge_secs r < (now - re_last_seen e) div 1000000000
            \<or> match_pattern (re_pattern e) path = None
            \<or> list_ex (\<lambda>m. eq_ignore_ascii_case m method) (re_methods e) = False) (map snd (routes r)))"
proof (cases "match_path (route_gc now r) path method")
  case None
  then have none: "\<forall>e \<in> snd ` set (routes (route_gc now r)).
      list_ex (\<lambda>m. eq_ignore_ascii_case m method) (re_methods e) \<longrightarrow> match_pattern (re_pattern e) path = None"
    by (simp only: match_path_def match_entries_None)
  have "stale_purge_secs r < (now - re_last_seen e) div 1000000000
      \<or> match_pattern (re_pattern e) path = None
      \<or> list_ex (\<lambda>m. eq_ignore_ascii_case m method) (re_methods e) = False"
    if "x \<in> set (routes r)" "e = snd x" for x e
  proof (cases "stale_purge_secs r < (now - re_last_seen e) div 1000000000")
    case False
    with that have "x \<in> set (routes (route_gc now r))" by (simp add: route_gc_def kv_retain_def)
    then have "e \<in> snd ` set (routes (route_gc now r))" using that by simp
    note fits = none [rule_format, OF this]
    show ?thesis
    proof (cases "list_ex (\<lambda>m. eq_ignore_ascii_case m method) (re_methods e)")
      case True
      from fits [OF True] show ?thesis by simp
    qed simp
  qed simp
  then show ?thesis by (simp add: None list_all_iff)
next
  case (Some p)
  obtain e params where p: "p = (e, params)" by fastforce
  have "match_entries (routes (route_gc now r)) path method = Some (e, params)"
    using Some p by (simp add: match_path_def)
  note m = match_entries_Some [OF this]
  then have "e \<in> snd ` set (routes r) \<and> (now - re_last_seen e) div 1000000000 \<le> stale_purge_secs r"
    by (auto simp: route_gc_def kv_retain_def)
  with m show ?thesis by (simp add: Some p)
qed

text \<open>Announcing a known pattern again refreshes it and moves it to the new connection, but keeps the methods.\<close>

lemma upsert_keeps_methods:
  assumes "kv_get (routes r) pattern = Some e"
  shows "kv_get (routes (snd (upsert now pattern methods conn r))) pattern
     = Some (e\<lparr>re_last_seen := now, re_connection := conn\<rparr>)"
  using assms by (simp add: upsert_def kv_contains_def kv_simps Let_def)

lemma remove_by_connection_spec:
  assumes "kv_wf (routes r)"
  shows "kv_get (routes (remove_by_connection conn r)) p
     = (case kv_get (routes r) p of Some e \<Rightarrow> if re_connection e = conn then None else Some e | None \<Rightarrow> None)"
  using assms by (simp add: remove_by_connection_def kv_get_retain split: option.split)

section \<open>Percent decoding\<close>

definition hex_digit :: "nat \<Rightarrow> char" where
  "hex_digit n = char_of (if n < 10 then 48 + n else 55 + n)"

definition percent_encode :: "string \<Rightarrow> string" where
  "percent_encode s = concat (map (\<lambda>c. [CHR ''%'', hex_digit (byte_val c div 16), hex_digit (byte_val c mod 16)]) s)"

lemma byte_val_bound: "byte_val c < 256"
  by (simp add: byte_val_def)

lemma byte_val_hex_digit: "n < 16 \<Longrightarrow> byte_val (hex_digit n) = (if n < 10 then 48 + n else 55 + n)"
  by (simp add: byte_val_def hex_digit_def)

lemma hex_val_digit: "n < 16 \<Longrightarrow> hex_val (hex_digit n) = Some n"
  by (simp add: hex_val_def byte_val_hex_digit Let_def)

lemma hex_digit_not_plus: "n < 16 \<Longrightarrow> hex_digit n \<noteq> CHR ''+''"
proof
  assume n: "n < 16" "hex_digit n = CHR ''+''"
  then have "byte_val (hex_digit n) = 43" by (simp add: byte_val_def)
  with n(1) show False by (simp add: byte_val_hex_digit split: if_splits)
qed

lemma radix16_byte: "radix16 (hex_digit (byte_val c div 16)) (hex_digit (byte_val c mod 16)) = Some (byte_val c)"
proof -
  have "byte_val c div 16 < 16" using byte_val_bound [of c] by simp
  then show ?thesis by (simp add: radix16_def hex_digit_not_plus hex_val_digit)
qed

text \<open>
  Percent encoding is undone. Decoding the percent encoding of any bytes gives the bytes back,
  and a text without a percent sign is unchanged.
\<close>

theorem url_decode_roundtrip:
  "url_decode_bytes (percent_encode s) = s \<and> url_decode_bytes (filter (\<lambda>c. c \<noteq> CHR ''%'') s) = filter (\<lambda>c. c \<noteq> CHR ''%'') s"
proof
  show "url_decode_bytes (percent_encode s) = s"
    by (induction s) (simp_all add: percent_encode_def radix16_byte, simp add: byte_val_def)
  show "url_decode_bytes (filter (\<lambda>c. c \<noteq> CHR ''%'') s) = filter (\<lambda>c. c \<noteq> CHR ''%'') s"
    by (induction s) simp_all
qed

text \<open>
  The escapes \<open>%+0\<close> to \<open>%+f\<close> are no percent encoding, but they decode to a byte: the integer
  parser takes the plus sign as that of the number.
\<close>

lemma plus_escape_decodes: "url_decode_bytes ''a%+5b'' = [CHR ''a'', CHR 5, CHR ''b'']"
  by (simp add: radix16_def hex_val_def byte_val_def char_of_def bit_simps Let_def)

end
