(* ===== verification/Services.thy ===== *)
theory Services
  imports Bus_Client
begin

text \<open>
  Two small bus services: the dice roller (\<open>cafe-dice/src/main.rs\<close>) and the letter rotation
  (\<open>cafe-rot13/src/main.rs\<close>).  A session task is a fold over the messages it receives, whose
  result is the list of the chunks it publishes; the random numbers and the fresh ids are
  arguments.
\<close>

section \<open>The session task of a service\<close>

text \<open>
  Requests are served only after the end of the replay.  The handler gets the number of the
  request within the task, by which it draws its fresh values.
\<close>

fun serve :: "(nat \<Rightarrow> json_rpc_request \<Rightarrow> chunk list) \<Rightarrow> nat \<Rightarrow> bool \<Rightarrow> server_message list \<Rightarrow> chunk list" where
  "serve handler n live [] = []"
| "serve handler n live (m # ms) =
     (case m of
        Chunk _ c \<Rightarrow>
          if \<not> live then serve handler n live ms
          else (case as_rpc_request c of
                  None \<Rightarrow> serve handler n live ms
                | Some request \<Rightarrow> handler n request @ serve handler (Suc n) live ms)
      | HistoryComplete _ _ \<Rightarrow> serve handler n True ms
      | _ \<Rightarrow> serve handler n live ms)"

definition response_for :: "json_rpc_response \<Rightarrow> chunk \<Rightarrow> chunk" where
  "response_for r c = with_retain 60 (as_transient (with_annotation CAFE_JSONRPC_RESPONSE (response_to_json r) c))"

section \<open>Dice\<close>

definition DICE :: string where "DICE = ''com.nominal.cafe-dice''"

definition MAX_DICE_COUNT :: nat where "MAX_DICE_COUNT = 10000"

fun split_once_d :: "string \<Rightarrow> (string \<times> string) option" where
  "split_once_d [] = None"
| "split_once_d (c # cs) =
     (if c = CHR ''d'' \<or> c = CHR ''D'' then Some ([], cs)
      else map_option (\<lambda>(a, b). (c # a, b)) (split_once_d cs))"

definition parse_roll :: "string \<Rightarrow> (nat \<times> nat) option" where
  "parse_roll txt0 =
     Option.bind
       (case strip_prefix ''!roll '' (str_trim txt0) of Some t \<Rightarrow> Some t | None \<Rightarrow> strip_prefix ''!r '' txt0)
       (\<lambda>txt1.
         let txt = str_trim txt1
         in case (case strip_prefix ''d'' txt of Some t \<Rightarrow> Some t | None \<Rightarrow> strip_prefix ''D'' txt) of
              Some rest \<Rightarrow>
                Option.bind (parse_uint u64_bound rest) (\<lambda>sides. if sides < 1 then None else Some (1, sides))
            | None \<Rightarrow>
                Option.bind (split_once_d txt) (\<lambda>(count_str, rest).
                  Option.bind (if count_str = [] then Some 1 else parse_uint u64_bound count_str) (\<lambda>cnt.
                    Option.bind (parse_uint u64_bound (str_trim rest)) (\<lambda>sides.
                      if cnt < 1 \<or> sides < 1 then None else Some (cnt, sides)))))"

text \<open>\<open>gen i sides\<close> is the i-th number drawn from the range from 1 to \<open>sides\<close>.\<close>

definition roll_dice :: "(nat \<Rightarrow> nat \<Rightarrow> nat) \<Rightarrow> nat \<Rightarrow> nat \<Rightarrow> string + nat list" where
  "roll_dice gen cnt sides =
     (if sides < 1 then Inl (''sides must be >= 1, got '' @ show_nat sides)
      else if cnt = 0 then Inl (''count must be >= 1, got '' @ show_nat cnt)
      else if MAX_DICE_COUNT < cnt
      then Inl (''count must be <= '' @ show_nat MAX_DICE_COUNT @ '', got '' @ show_nat cnt)
      else Inr (map (\<lambda>i. gen i sides) [0..<cnt]))"

text \<open>The rolls are cast to \<open>i64\<close> and added there, with wrap-around.\<close>

definition dice_total :: "nat list \<Rightarrow> 64 word" where
  "dice_total rolls = sum_list (map of_nat rolls)"

definition json_i64 :: "64 word \<Rightarrow> json" where
  "json_i64 w = json_int (sint w)"

definition u64_or :: "nat \<Rightarrow> json \<Rightarrow> nat" where
  "u64_or dflt v = (case as_u64 v of Some n \<Rightarrow> n | None \<Rightarrow> dflt)"

definition dice_handler ::
  "(nat \<Rightarrow> nat \<Rightarrow> nat \<Rightarrow> nat) \<Rightarrow> (nat \<Rightarrow> string) \<Rightarrow> int \<Rightarrow> nat \<Rightarrow> json_rpc_request \<Rightarrow> chunk list" where
  "dice_handler gen uuid now_ms n request =
     (let call_id = req_id request;
          reply = (\<lambda>r. response_for r (new_null (uuid (2 * n + 1)) now_ms DICE))
      in if req_method request = ''dice-detector.invoke'' then
           (case parse_roll (case as_str (json_index (req_params request) ''text'') of Some t \<Rightarrow> t | None \<Rightarrow> []) of
              Some (cnt, sides) \<Rightarrow>
                [with_annotation CAFE_TOOL_CALL
                   (tool_call_to_json
                     \<lparr>call_name = ''dice.roll'',
                      call_parameters = json_obj [(''count'', JNum (PosInt cnt)), (''sides'', JNum (PosInt sides))],
                      call_provider = None\<rparr>)
                   (new_null (uuid (2 * n)) now_ms DICE),
                 reply (rpc_response_ok call_id
                   (json_obj [(''detected'', JBool True), (''count'', JNum (PosInt cnt)),
                              (''sides'', JNum (PosInt sides))]))]
            | None \<Rightarrow> [reply (rpc_response_ok call_id (json_obj [(''detected'', JBool False)]))])
         else if req_method request = ''dice.roll'' then
           (case roll_dice (gen n) (u64_or 1 (json_index (req_params request) ''count''))
                   (u64_or 6 (json_index (req_params request) ''sides'')) of
              Inl err \<Rightarrow> [reply (rpc_response_err call_id INVALID_PARAMS (''invalid dice parameters: '' @ err))]
            | Inr rolls \<Rightarrow> [reply (rpc_response_ok call_id (json_obj [(''result'', json_i64 (dice_total rolls))]))])
         else [])"

definition dice_session ::
  "(nat \<Rightarrow> nat \<Rightarrow> nat \<Rightarrow> nat) \<Rightarrow> (nat \<Rightarrow> string) \<Rightarrow> int \<Rightarrow> server_message list \<Rightarrow> chunk list" where
  "dice_session gen uuid now_ms ms = serve (dice_handler gen uuid now_ms) 0 False ms"

section \<open>Letter rotation\<close>

definition ROT13 :: string where "ROT13 = ''com.nominal.cafe-rot13''"

text \<open>On the bytes of the text: only ASCII letters change, and their encodings are single bytes.\<close>

definition rotate_letter :: "char \<Rightarrow> char" where
  "rotate_letter c =
     (if 97 \<le> byte_val c \<and> byte_val c \<le> 122 then char_of ((byte_val c - 97 + 13) mod 26 + 97)
      else if 65 \<le> byte_val c \<and> byte_val c \<le> 90 then char_of ((byte_val c - 65 + 13) mod 26 + 65)
      else c)"

definition rot13 :: "string \<Rightarrow> string" where
  "rot13 s = map rotate_letter s"

definition rot13_handler :: "(nat \<Rightarrow> string) \<Rightarrow> int \<Rightarrow> nat \<Rightarrow> json_rpc_request \<Rightarrow> chunk list" where
  "rot13_handler uuid now_ms n request =
     (if req_method request \<noteq> ''rot13.invoke'' then []
      else let t = rot13 (case as_str (json_index (req_params request) ''text'') of Some t \<Rightarrow> t | None \<Rightarrow> [])
           in [response_for (rpc_response_ok (req_id request) (json_obj [(''text'', JStr t)]))
                 (new_null (uuid (2 * n)) now_ms ROT13),
               with_annotation CHAT_ROLE (JStr ASSISTANT) (new_text (uuid (2 * n + 1)) now_ms t ROT13)])"

definition rot13_session :: "(nat \<Rightarrow> string) \<Rightarrow> int \<Rightarrow> server_message list \<Rightarrow> chunk list" where
  "rot13_session uuid now_ms ms = serve (rot13_handler uuid now_ms) 0 False ms"

section \<open>Rotation undoes itself\<close>

lemma char_of_byte_val: "char_of (byte_val c) = c"
  by (simp add: byte_val_def)

lemma shift13: "m < 26 \<Longrightarrow> ((m + 13) mod 26 + 13) mod 26 = (m::nat)"
  by (simp add: mod_simps)

lemma shift13_below: "(m + 13) mod 26 < (26::nat)"
  by simp

lemma rotate_letter_involution: "rotate_letter (rotate_letter c) = c"
proof -
  consider "97 \<le> byte_val c \<and> byte_val c \<le> 122" | "65 \<le> byte_val c \<and> byte_val c \<le> 90"
    | "\<not> (97 \<le> byte_val c \<and> byte_val c \<le> 122)" "\<not> (65 \<le> byte_val c \<and> byte_val c \<le> 90)"
    by blast
  then show ?thesis
  proof cases
    case 1
    let ?m = "(byte_val c - 97 + 13) mod 26" let ?n = "?m + 97"
    have n: "97 \<le> ?n \<and> ?n \<le> 122" using shift13_below [of "byte_val c - 97"] by linarith
    have "byte_val c - 97 < 26" using 1 by linarith
    then have "(?m + 13) mod 26 = byte_val c - 97" by (rule shift13)
    then have "(?n - 97 + 13) mod 26 + 97 = byte_val c" using 1 by simp
    moreover have "byte_val (char_of ?n :: char) = ?n" by (rule byte_val_char_of) (use n in linarith)
    ultimately show ?thesis using 1 n by (simp add: rotate_letter_def char_of_byte_val)
  next
    case 2
    let ?m = "(byte_val c - 65 + 13) mod 26" let ?n = "?m + 65"
    have n: "65 \<le> ?n \<and> ?n \<le> 90" using shift13_below [of "byte_val c - 65"] by linarith
    have "byte_val c - 65 < 26" using 2 by linarith
    then have "(?m + 13) mod 26 = byte_val c - 65" by (rule shift13)
    then have "(?n - 65 + 13) mod 26 + 65 = byte_val c" using 2 by simp
    moreover have "byte_val (char_of ?n :: char) = ?n" by (rule byte_val_char_of) (use n in linarith)
    ultimately show ?thesis using 2 n by (simp add: rotate_letter_def char_of_byte_val)
  next
    case 3
    then show ?thesis by (auto simp: rotate_letter_def)
  qed
qed

text \<open>
  Rotating twice gives the text back, byte for byte, and every rotation keeps the length and
  the bytes outside the ASCII letters, so that valid UTF-8 stays valid.
\<close>

theorem rot13_involution:
  "rot13 (rot13 s) = s \<and> length (rot13 s) = length s
   \<and> filter (\<lambda>c. 128 \<le> byte_val c) (rot13 s) = filter (\<lambda>c. 128 \<le> byte_val c) s"
proof (intro conjI)
  show "rot13 (rot13 s) = s" by (simp add: rot13_def comp_def rotate_letter_involution)
  show "length (rot13 s) = length s" by (simp add: rot13_def)
  have ascii: "byte_val (rotate_letter c) < 128" if "byte_val c < 128" for c
  proof -
    have "x mod 26 < (31::nat)" "x mod 26 < (63::nat)" for x
      by (rule less_trans [OF mod_less_divisor]; simp)+
    then show ?thesis using that by (simp add: rotate_letter_def byte_val_char_of)
  qed
  have high: "rotate_letter c = c" if "128 \<le> byte_val c" for c using that by (simp add: rotate_letter_def)
  show "filter (\<lambda>c. 128 \<le> byte_val c) (rot13 s) = filter (\<lambda>c. 128 \<le> byte_val c) s"
  proof (induction s)
    case (Cons c s)
    then show ?case
      using ascii [of c] high [of c] by (cases "128 \<le> byte_val c") (simp_all add: rot13_def)
  qed (simp add: rot13_def)
qed

section \<open>Dice rolls are what was asked for\<close>

lemma sum_rolls_bounds:
  "list_all (\<lambda>v. 1 \<le> v \<and> v \<le> (sides::nat)) rolls \<Longrightarrow>
     length rolls \<le> sum_list rolls \<and> sum_list rolls \<le> length rolls * sides"
  by (induction rolls) auto

lemma dice_total_nat: "dice_total rolls = of_nat (sum_list rolls)"
  by (induction rolls) (simp_all add: dice_total_def)

lemma sint_of_small_nat: "n < 2 ^ 63 \<Longrightarrow> sint (of_nat n :: 64 word) = int n"
  by (simp add: sint_uint uint_nat unat_of_nat signed_take_bit_int_eq_self)

text \<open>
  A roll is fair in its bounds. With a generator that stays in its range, a valid request
  gives as many rolls as asked for, each between 1 and the number of sides; and while the largest
  possible sum fits into 63 bits, the total published is the sum of the rolls, between the number
  of dice and that number times the sides.
\<close>

theorem dice_roll_total:
  assumes "\<forall>i. 1 \<le> gen i sides \<and> gen i sides \<le> sides" and "1 \<le> sides" "1 \<le> cnt" "cnt \<le> MAX_DICE_COUNT"
    and "cnt * sides < 2 ^ 63"
  shows "\<exists>rolls. roll_dice gen cnt sides = Inr rolls \<and> length rolls = cnt
    \<and> list_all (\<lambda>v. 1 \<le> v \<and> v \<le> sides) rolls
    \<and> sint (dice_total rolls) = int (sum_list rolls)
    \<and> cnt \<le> sum_list rolls \<and> sum_list rolls \<le> cnt * sides"
proof -
  let ?rolls = "map (\<lambda>i. gen i sides) [0..<cnt]"
  have r: "roll_dice gen cnt sides = Inr ?rolls" using assms by (simp add: roll_dice_def)
  have a: "list_all (\<lambda>v. 1 \<le> v \<and> v \<le> sides) ?rolls" using assms(1) by (simp add: list_all_iff)
  have b: "cnt \<le> sum_list ?rolls \<and> sum_list ?rolls \<le> cnt * sides" using sum_rolls_bounds [OF a] by simp
  then have "sint (dice_total ?rolls) = int (sum_list ?rolls)"
    using assms(5) unfolding dice_total_nat by (intro sint_of_small_nat) linarith
  with r a b show ?thesis by auto
qed

theorem dice_roll_total_witness:
  "\<exists>rolls. roll_dice (\<lambda>i _. Suc (i mod 6)) 2 6 = Inr rolls \<and> length rolls = 2
    \<and> list_all (\<lambda>v. 1 \<le> v \<and> v \<le> 6) rolls
    \<and> sint (dice_total rolls) = int (sum_list rolls)
    \<and> 2 \<le> sum_list rolls \<and> sum_list rolls \<le> 2 * 6"
proof (rule dice_roll_total)
  have "i mod 6 < 6" for i :: nat by simp
  then show "\<forall>i::nat. 1 \<le> Suc (i mod 6) \<and> Suc (i mod 6) \<le> 6" by (simp only: Suc_le_eq) simp
qed (simp_all add: MAX_DICE_COUNT_def)

section \<open>Every live request is answered once\<close>

definition answered_ids :: "chunk list \<Rightarrow> string list" where
  "answered_ids cs = map resp_id (List.map_filter as_rpc_response cs)"

definition request_of :: "server_message \<Rightarrow> json_rpc_request option" where
  "request_of m = (case m of Chunk _ c \<Rightarrow> as_rpc_request c | _ \<Rightarrow> None)"

definition ends_history :: "server_message \<Rightarrow> bool" where
  "ends_history m = (case m of HistoryComplete _ _ \<Rightarrow> True | _ \<Rightarrow> False)"

text \<open>The requests a service sees after the end of the replay.\<close>

definition live_requests :: "server_message list \<Rightarrow> json_rpc_request list" where
  "live_requests ms = List.map_filter request_of (dropWhile (\<lambda>m. \<not> ends_history m) ms)"

lemma answered_ids_append [simp]: "answered_ids (xs @ ys) = answered_ids xs @ answered_ids ys"
  by (simp add: answered_ids_def map_filter_def)

lemma answered_ids_simps [simp]:
  "answered_ids [] = []"
  "as_rpc_response c = None \<Longrightarrow> answered_ids (c # cs) = answered_ids cs"
  "as_rpc_response c = Some r \<Longrightarrow> answered_ids (c # cs) = resp_id r # answered_ids cs"
  by (simp_all add: answered_ids_def map_filter_simps)

lemma as_rpc_response_response_for: "rpc_response_wf r \<Longrightarrow> as_rpc_response (response_for r c) = Some r"
  unfolding response_for_def by (rule rpc_response_recognised)

text \<open>
  The contract of a request handler: it answers the requests of its methods, each with one
  response of the request's id, and publishes no response otherwise.
\<close>

locale responder =
  fixes handler :: "nat \<Rightarrow> json_rpc_request \<Rightarrow> chunk list"
    and accepts :: "string \<Rightarrow> bool"
  assumes answers_once:
    "answered_ids (handler n request) = (if accepts (req_method request) then [req_id request] else [])"
begin

lemma serve_live:
  "answered_ids (serve handler n True ms)
    = map req_id (filter (\<lambda>r. accepts (req_method r)) (List.map_filter request_of ms))"
proof (induction ms arbitrary: n)
  case (Cons m ms)
  then show ?case
    by (cases m) (auto simp: request_of_def map_filter_simps answers_once split: option.split)
qed (simp add: map_filter_simps)

lemma serve_answers:
  "answered_ids (serve handler n False ms)
    = map req_id (filter (\<lambda>r. accepts (req_method r)) (live_requests ms))"
proof (induction ms)
  case (Cons m ms)
  then show ?case
    by (cases m) (simp_all add: live_requests_def ends_history_def serve_live map_filter_simps request_of_def)
qed (simp add: live_requests_def map_filter_simps)

end

definition dice_methods :: "string list" where
  "dice_methods = [''dice-detector.invoke'', ''dice.roll'']"

lemma dice_responses_wf:
  "rpc_response_wf (rpc_response_ok i (json_obj kvs))"
  "rpc_response_wf (rpc_response_err i INVALID_PARAMS msg)"
  by (simp_all add: rpc_response_wf_def rpc_response_ok_def rpc_response_err_def rpc_error_ok_def INVALID_PARAMS_def)

lemma rpc_response_ids [simp]:
  "resp_id (rpc_response_ok i v) = i" "resp_id (rpc_response_err i code msg) = i"
  by (simp_all add: rpc_response_ok_def rpc_response_err_def)

lemma no_response [simp]:
  "as_rpc_response (with_annotation CAFE_TOOL_CALL v (new_null u t p)) = None"
  "as_rpc_response (with_annotation CHAT_ROLE v (new_text u t x p)) = None"
  by (simp_all add: as_rpc_response_def get_annotation_def)

interpretation dice: responder "dice_handler gen uuid now_ms" "\<lambda>m. m \<in> set dice_methods" for gen uuid now_ms
proof unfold_locales
  fix n request
  show "answered_ids (dice_handler gen uuid now_ms n request)
      = (if req_method request \<in> set dice_methods then [req_id request] else [])"
    by (auto simp: dice_handler_def dice_methods_def Let_def as_rpc_response_response_for [OF dice_responses_wf(1)]
        as_rpc_response_response_for [OF dice_responses_wf(2)] split: option.split sum.split prod.split)
qed

interpretation rot13: responder "rot13_handler uuid now_ms" "\<lambda>m. m = ''rot13.invoke''" for uuid now_ms
  by unfold_locales
     (simp add: rot13_handler_def Let_def as_rpc_response_response_for [OF dice_responses_wf(1)])

text \<open>
  The services answer each live request exactly once. The responses a dice or a rotation
  service publishes in a session carry, in order, the ids of the requests of its own methods that
  arrive after the replay; a replayed request and another service's request get none.
\<close>

theorem services_answer_once:
  "answered_ids (dice_session gen uuid now_ms ms)
      = map req_id (filter (\<lambda>r. req_method r \<in> set dice_methods) (live_requests ms))
   \<and> answered_ids (rot13_session uuid now_ms ms)
      = map req_id (filter (\<lambda>r. req_method r = ''rot13.invoke'') (live_requests ms))"
  using dice.serve_answers [of gen uuid now_ms 0 ms] rot13.serve_answers [of uuid now_ms 0 ms]
  by (simp add: dice_session_def rot13_session_def)

section \<open>The dice notation\<close>

definition ascii :: "string \<Rightarrow> bool" where
  "ascii s = list_all (\<lambda>c. byte_val c < 128) s"

lemma ascii_simps [simp]:
  "ascii []" "ascii (c # s) \<longleftrightarrow> byte_val c < 128 \<and> ascii s" "ascii (s @ t) \<longleftrightarrow> ascii s \<and> ascii t"
  by (simp_all add: ascii_def)

lemma str_chars_ascii: "ascii s \<Longrightarrow> str_chars s = map (\<lambda>c. [c]) s"
proof (induction s)
  case (Cons c s)
  have s: "ascii s" using Cons.prems by (simp add: ascii_def)
  have "\<not> is_continuation (hd s)" if "s \<noteq> []"
    using that s by (cases s) (simp_all add: ascii_def is_continuation_def)
  then have "takeWhile is_continuation s = []" "dropWhile is_continuation s = s"
    by (cases s; simp)+
  then show ?case using Cons.IH s by simp
qed simp

lemma concat_singletons: "concat (map (\<lambda>c. [c]) s) = s"
  by (induction s) simp_all

lemma str_trim_ascii:
  assumes "ascii s" "s \<noteq> []" "\<not> char_is_whitespace (byte_val (hd s))" "\<not> char_is_whitespace (byte_val (last s))"
  shows "str_trim s = s"
proof -
  let ?ws = "\<lambda>c. char_is_whitespace (code_point c)" and ?cs = "map (\<lambda>c. [c]) s"
  have hd: "\<not> ?ws (hd ?cs)" using assms by (simp add: hd_map)
  have last: "\<not> ?ws (hd (rev ?cs))" using assms by (simp add: hd_rev last_map flip: rev_map)
  have "dropWhile ?ws ?cs = ?cs" using hd assms(2) by (cases s) simp_all
  moreover have "dropWhile ?ws (rev ?cs) = rev ?cs"
    using last assms(2) by (cases "rev ?cs") auto
  ultimately show ?thesis
    by (simp add: str_trim_def str_chars_ascii [OF assms(1)] concat_singletons)
qed

lemma show_nat_digits: "show_nat n \<noteq> [] \<and> list_all (\<lambda>c. 48 \<le> byte_val c \<and> byte_val c \<le> 57) (show_nat n)"
proof (induction n rule: show_nat.induct)
  case (1 n)
  have d: "48 \<le> byte_val (char_of (48 + k)) \<and> byte_val (char_of (48 + k)) \<le> 57" if "k < 10" for k :: nat
    using that by (simp add: byte_val_digit)
  show ?case
    using 1 d [of n] d [of "n mod 10"] by (cases "n < 10") (simp_all add: show_nat.simps [of n])
qed

lemma digit_no_space: "48 \<le> n \<Longrightarrow> n \<le> 57 \<Longrightarrow> \<not> char_is_whitespace n"
  by (simp add: char_is_whitespace_def)

lemma digits_ascii: "list_all (\<lambda>c. 48 \<le> byte_val c \<and> byte_val c \<le> 57) s \<Longrightarrow> ascii s"
  by (auto simp: ascii_def list_all_iff)

lemma str_trim_show_nat [simp]: "str_trim (show_nat n) = show_nat n"
proof (rule str_trim_ascii)
  have d: "show_nat n \<noteq> []" "\<forall>c \<in> set (show_nat n). 48 \<le> byte_val c \<and> byte_val c \<le> 57"
    using show_nat_digits [of n] by (simp_all add: list_all_iff)
  show "\<not> char_is_whitespace (byte_val (hd (show_nat n)))" "\<not> char_is_whitespace (byte_val (last (show_nat n)))"
    using d hd_in_set last_in_set digit_no_space by blast+
qed (use show_nat_digits [of n] digits_ascii in auto)

lemma parse_uint_show [simp]: "n < bound \<Longrightarrow> parse_uint bound (show_nat n) = Some n"
proof -
  assume n: "n < bound"
  obtain c cs where c: "show_nat n = c # cs" using show_nat_digits [of n] by (cases "show_nat n") auto
  then have "48 \<le> byte_val c" using show_nat_digits [of n] by simp
  then have "c \<noteq> CHR ''+''" by (auto simp: byte_val_def)
  then show ?thesis using parse_digits_show [OF n] c by (simp add: parse_uint_def)
qed

lemma no_d_in_digits:
  "list_all (\<lambda>c. 48 \<le> byte_val c \<and> byte_val c \<le> 57) s \<Longrightarrow> split_once_d (s @ CHR ''d'' # t) = Some (s, t)"
proof (induction s)
  case (Cons c s)
  then have "c \<noteq> CHR ''d''" "c \<noteq> CHR ''D''" by (auto simp: byte_val_def)
  with Cons show ?case by simp
qed simp

text \<open>
  The roll command reads back what is written. For a number of dice and of sides that are
  positive and fit into 64 bits, the long form of the command with both numbers parses to them,
  and the form without a number of dice to one die.
\<close>

theorem parse_roll_roundtrip:
  assumes "1 \<le> cnt" "cnt < u64_bound" "1 \<le> sides" "sides < u64_bound"
  shows "parse_roll (''!roll '' @ show_nat cnt @ ''d'' @ show_nat sides) = Some (cnt, sides)
    \<and> parse_roll (''!roll d'' @ show_nat sides) = Some (1, sides)"
proof -
  let ?n = "show_nat cnt" and ?m = "show_nat sides"
  note n = show_nat_digits [of cnt] and m = show_nat_digits [of sides]
  have asc: "ascii ?n" "ascii ?m" using n m by (auto intro: digits_ascii)
  have hdn: "48 \<le> byte_val (hd ?n) \<and> byte_val (hd ?n) \<le> 57" and lastm: "48 \<le> byte_val (last ?m) \<and> byte_val (last ?m) \<le> 57"
    using n m by (auto simp: list_all_iff)
  have lit: "byte_val (CHR ''!'') = 33" "byte_val (CHR ''r'') = 114" "byte_val (CHR ''o'') = 111"
    "byte_val (CHR ''l'') = 108" "byte_val (CHR '' '') = 32" "byte_val (CHR ''d'') = 100"
    by (simp_all add: byte_val_def)
  have sp: "\<not> char_is_whitespace 33" "\<not> char_is_whitespace 100" "\<not> char_is_whitespace (byte_val (hd ?n))"
    "\<not> char_is_whitespace (byte_val (last ?m))"
    using digit_no_space hdn lastm by (simp_all add: char_is_whitespace_def)
  have t1: "str_trim (''!roll '' @ ?n @ ''d'' @ ?m) = ''!roll '' @ ?n @ ''d'' @ ?m"
    by (rule str_trim_ascii) (use asc lit n m sp in simp_all)
  have t2: "str_trim (?n @ ''d'' @ ?m) = ?n @ ''d'' @ ?m"
    by (rule str_trim_ascii) (use asc lit n m sp in simp_all)
  have t3: "str_trim (''!roll '' @ ''d'' @ ?m) = ''!roll '' @ ''d'' @ ?m"
    by (rule str_trim_ascii) (use asc lit n m sp in simp_all)
  have t4: "str_trim (''d'' @ ?m) = ''d'' @ ?m"
    by (rule str_trim_ascii) (use asc lit n m sp in simp_all)
  obtain c cs where c: "?n = c # cs" using n by (cases ?n) auto
  then have "48 \<le> byte_val c \<and> byte_val c \<le> 57" using n by simp
  then have "c \<noteq> CHR ''d''" "c \<noteq> CHR ''D''" by (auto simp: byte_val_def)
  then have np: "strip_prefix ''d'' (?n @ ''d'' @ ?m) = None" "strip_prefix ''D'' (?n @ ''d'' @ ?m) = None"
    by (auto simp: c)
  have so: "split_once_d (?n @ ''d'' @ ?m) = Some (?n, ?m)" using no_d_in_digits n by simp
  have "parse_roll (''!roll '' @ ?n @ ''d'' @ ?m) = Some (cnt, sides)"
    unfolding parse_roll_def t1 strip_prefix_append option.case bind.bind_lunit Let_def t2 np so
    using assms n by simp
  moreover have "parse_roll (''!roll '' @ ''d'' @ ?m) = Some (1, sides)"
    unfolding parse_roll_def t3 strip_prefix_append option.case bind.bind_lunit Let_def t4
    using assms by simp
  ultimately show ?thesis by simp
qed

theorem parse_roll_witness:
  "parse_roll (''!roll '' @ show_nat 2 @ ''d'' @ show_nat 6) = Some (2, 6)
    \<and> parse_roll (''!roll d'' @ show_nat 6) = Some (1, 6)"
  by (rule parse_roll_roundtrip) simp_all

text \<open>
  The short form is looked for in the text as it came, not in the trimmed one, so a leading space
  makes it unreadable while the long form stays readable.
\<close>

lemma short_form_not_trimmed:
  "parse_roll '' !r d6'' = None" "parse_roll '' !roll d6'' = Some (1, 6)"
  by (simp_all add: parse_roll_def str_trim_def byte_val_def is_continuation_def char_is_whitespace_def
      parse_uint_def digit_val_def char_of_def bit_simps)

end
