(* ===== verification/Binary_Store.thy ===== *)
theory Binary_Store
  imports Bus_Client
begin

text \<open>
  The store of large binary chunks, \<open>cafe-binary-store/src\<close>: files with a \<open>.writing\<close> marker while
  an upload is in progress (\<open>storage.rs\<close>), the table of assets (\<open>db.rs\<close>), tokens (\<open>jwt.rs\<close>), the
  HTTP handlers (\<open>main.rs\<close>), the bus subscriber (\<open>bus.rs\<close>) and the collector (\<open>gc.rs\<close>).
  A file is its shard directory and name; operating system and database calls succeed, except
  where a file is missing.  Signing, the check of signatures, ids and clocks are arguments.
\<close>

section \<open>Files\<close>

type_synonym path = "string \<times> string"
type_synonym files = "(path, byte list) kv"

text \<open>The slice of the first two bytes panics inside a character.\<close>

definition shard_ok :: "string \<Rightarrow> bool" where
  "shard_ok chunk = (length chunk \<le> 2 \<or> \<not> is_continuation (chunk ! 2))"

definition chunk_path :: "string \<Rightarrow> path" where
  "chunk_path chunk = (take 2 chunk, chunk)"

definition writing_path :: "string \<Rightarrow> path" where
  "writing_path chunk = (take 2 chunk, chunk @ ''.writing'')"

definition start_write :: "string \<Rightarrow> files \<Rightarrow> string + files" where
  "start_write chunk fs =
     (if kv_contains fs (writing_path chunk) then Inl ''CONFLICT: write already in progress''
      else Inr (kv_insert (writing_path chunk) [49] (kv_insert (chunk_path chunk) [] fs)))"

definition resume_write :: "string \<Rightarrow> nat \<Rightarrow> files \<Rightarrow> string + unit" where
  "resume_write chunk off fs =
     (if \<not> kv_contains fs (writing_path chunk) then Inl ''NOT_FOUND: no in-progress write to resume''
      else case kv_get fs (chunk_path chunk) of
             None \<Rightarrow> Inl ''file not found''
           | Some f \<Rightarrow>
               if length f < off
               then Inl (''INVALID_OFFSET: file is '' @ show_nat (length f) @ '' bytes, requested offset ''
                          @ show_nat off)
               else Inr ())"

text \<open>Writing at an offset: a gap after the end of the file reads as zeros, and writing nothing leaves it alone.\<close>

definition write_at :: "nat \<Rightarrow> byte list \<Rightarrow> byte list \<Rightarrow> byte list" where
  "write_at off data f =
     (if data = [] then f
      else take off (f @ replicate (off - length f) 0) @ data @ drop (off + length data) f)"

definition append_bytes :: "string \<Rightarrow> nat \<Rightarrow> byte list \<Rightarrow> nat \<Rightarrow> files \<Rightarrow> string + files" where
  "append_bytes chunk off data max_bytes fs =
     (case kv_get fs (chunk_path chunk) of
        None \<Rightarrow> Inl ''file not found''
      | Some f \<Rightarrow>
          if max_bytes < off + length data
          then Inl (''PAYLOAD_TOO_LARGE: max '' @ show_nat max_bytes @ '' bytes, would be ''
                     @ show_nat (off + length data))
          else Inr (kv_insert (chunk_path chunk) (write_at off data f) fs))"

definition finalize_write :: "string \<Rightarrow> files \<Rightarrow> files" where
  "finalize_write chunk fs = kv_remove (writing_path chunk) fs"

text \<open>The bytes read, the size of the file and whether the reader has seen all there will be.\<close>

definition read_bytes :: "string \<Rightarrow> nat \<Rightarrow> nat \<Rightarrow> files \<Rightarrow> string + (byte list \<times> nat \<times> bool)" where
  "read_bytes chunk off max_len fs =
     (case kv_get fs (chunk_path chunk) of
        None \<Rightarrow> Inl ''file not found''
      | Some f \<Rightarrow>
          (let size = length f;
               is_writing = kv_contains fs (writing_path chunk);
               actual = min off size;
               to_read = min max_len (size - actual)
           in Inr (take to_read (drop actual f), size, \<not> is_writing \<and> size \<le> actual + to_read)))"

definition delete_files :: "string \<Rightarrow> files \<Rightarrow> files" where
  "delete_files chunk fs = kv_remove (writing_path chunk) (kv_remove (chunk_path chunk) fs)"

definition strip_suffix :: "string \<Rightarrow> string \<Rightarrow> string option" where
  "strip_suffix suf s = map_option rev (strip_prefix (rev suf) (rev s))"

text \<open>\<open>trim_end_matches\<close> removes the suffix as often as it occurs.\<close>

function trim_writing :: "string \<Rightarrow> string" where
  "trim_writing s = (case strip_suffix ''.writing'' s of None \<Rightarrow> s | Some t \<Rightarrow> trim_writing t)"
  by pat_completeness auto
termination
proof (relation "measure length")
  fix s t assume "strip_suffix ''.writing'' s = Some t"
  then have "rev s = rev ''.writing'' @ rev t" by (auto simp: strip_suffix_def strip_prefix_eq)
  then have "length (rev s) = length (rev ''.writing'' @ rev t)" by (rule arg_cong)
  then show "(t, s) \<in> measure length" by simp
qed simp

declare trim_writing.simps [simp del]

text \<open>The directory is read before anything is removed.\<close>

definition cleanup_stale_writes :: "files \<Rightarrow> string list \<times> files" where
  "cleanup_stale_writes fs =
     (let stale = filter (\<lambda>p. strip_suffix ''.writing'' (snd p) \<noteq> None) (kv_keys fs)
      in (map (trim_writing \<circ> snd) stale,
          fold (\<lambda>p. kv_remove (fst p, trim_writing (snd p)) \<circ> kv_remove p) stale fs))"

section \<open>Tokens\<close>

record claims =
  cl_chunk_id :: string
  cl_purpose :: string
  cl_iat :: nat
  cl_exp :: "nat option"

record store_env =
  v_sign :: "claims \<Rightarrow> string option"
  v_decode :: "string \<Rightarrow> claims option"
  v_now :: nat
  v_write_ttl :: nat
  v_max_chunk_bytes :: nat
  v_public_host :: "string option"
  v_port :: nat
  v_uuid :: "nat \<Rightarrow> string"
  v_now_ms :: int

definition sign_write :: "store_env \<Rightarrow> string \<Rightarrow> string option" where
  "sign_write e chunk =
     v_sign e \<lparr>cl_chunk_id = chunk, cl_purpose = ''write'', cl_iat = v_now e, cl_exp = Some (v_now e + v_write_ttl e)\<rparr>"

definition sign_read :: "store_env \<Rightarrow> string \<Rightarrow> string option" where
  "sign_read e chunk =
     v_sign e \<lparr>cl_chunk_id = chunk, cl_purpose = ''read'', cl_iat = v_now e, cl_exp = None\<rparr>"

definition verify_token :: "store_env \<Rightarrow> string \<Rightarrow> string + claims" where
  "verify_token e token =
     (case v_decode e token of
        None \<Rightarrow> Inl ''invalid JWT''
      | Some c \<Rightarrow>
          (case cl_exp c of
             None \<Rightarrow> Inr c
           | Some x \<Rightarrow> if x \<le> v_now e then Inl ''token expired'' else Inr c))"

text \<open>The check at the head of every handler.\<close>

definition authorize :: "store_env \<Rightarrow> string \<Rightarrow> string \<Rightarrow> string \<Rightarrow> string + unit" where
  "authorize e purpose chunk token =
     (case verify_token e token of
        Inl err \<Rightarrow> Inl err
      | Inr c \<Rightarrow>
          if cl_purpose c \<noteq> purpose then Inl (''token purpose must be '' @ [CHR 39] @ purpose @ [CHR 39])
          else if cl_chunk_id c \<noteq> chunk then Inl ''token chunk_id mismatch''
          else Inr ())"

section \<open>Assets\<close>

record asset =
  asset_session :: string
  asset_transient :: bool
  asset_created :: int
  asset_size :: "nat option"

type_synonym assets = "(string, asset) kv"

definition insert_asset :: "int \<Rightarrow> string \<Rightarrow> string \<Rightarrow> bool \<Rightarrow> assets \<Rightarrow> assets" where
  "insert_asset now chunk sid tr db =
     (if kv_contains db chunk then db
      else kv_insert chunk
             \<lparr>asset_session = sid, asset_transient = tr, asset_created = now, asset_size = None\<rparr> db)"

definition update_file_size :: "string \<Rightarrow> nat \<Rightarrow> assets \<Rightarrow> assets" where
  "update_file_size chunk n db = kv_adjust chunk (\<lambda>a. a\<lparr>asset_size := Some n\<rparr>) db"

definition delete_asset :: "string \<Rightarrow> assets \<Rightarrow> assets" where
  "delete_asset chunk db = kv_remove chunk db"

definition delete_session_non_transient :: "string \<Rightarrow> assets \<Rightarrow> string list \<times> assets" where
  "delete_session_non_transient sid db =
     (let hit = (\<lambda>a. asset_session a = sid \<and> \<not> asset_transient a)
      in (map fst (filter (\<lambda>p. hit (snd p)) db), kv_retain (\<lambda>_ a. \<not> hit a) db))"

definition get_session_for_chunk :: "string \<Rightarrow> assets \<Rightarrow> string option" where
  "get_session_for_chunk chunk db = map_option asset_session (kv_get db chunk)"

definition gc_transient :: "int \<Rightarrow> nat \<Rightarrow> assets \<Rightarrow> string list \<times> assets" where
  "gc_transient now ttl db =
     (let hit = (\<lambda>a. asset_transient a \<and> asset_created a < now - int ttl)
      in (map fst (filter (\<lambda>p. hit (snd p)) db), kv_retain (\<lambda>_ a. \<not> hit a) db))"

section \<open>Handlers\<close>

datatype reply =
    ErrorJson string
  | TokenJson string
  | OkJson
  | Content "byte list" "string option"
  | NoContent

datatype response = Response nat reply | Crashed

definition status_of :: "response \<Rightarrow> nat option" where
  "status_of r = (case r of Response n _ \<Rightarrow> Some n | Crashed \<Rightarrow> None)"

record store =
  st_files :: files
  st_assets :: assets

definition should_finalize :: "nat \<Rightarrow> bool \<Rightarrow> bool option \<Rightarrow> bool" where
  "should_finalize off body_empty explicit =
     (if body_empty then True else case explicit of Some v \<Rightarrow> v | None \<Rightarrow> off = 0)"

definition content_range_header :: "nat \<Rightarrow> nat \<Rightarrow> nat \<Rightarrow> string option" where
  "content_range_header off data_len n =
     (if 0 < off
      then Some (''bytes '' @ show_nat off @ ''-'' @ show_nat (off + (data_len - 1)) @ ''/'' @ show_nat n)
      else None)"

definition binary_url :: "store_env \<Rightarrow> string \<Rightarrow> string" where
  "binary_url e chunk =
     ''http://'' @ (case v_public_host e of Some h \<Rightarrow> h | None \<Rightarrow> ''localhost'') @ '':'' @ show_nat (v_port e)
       @ ''/api/binary/'' @ chunk"

definition STORE :: string where "STORE = ''com.nominal.cafe-binary-store''"

definition read_credentials :: "store_env \<Rightarrow> string \<Rightarrow> string \<Rightarrow> chunk" where
  "read_credentials e chunk token =
     with_annotation ''cafe.binary.read_token'' (JStr token)
       (with_annotation ''cafe.binary.read_url'' (JStr (binary_url e chunk))
         (mutation (v_uuid e 0) (v_now_ms e) chunk STORE))"

definition completion :: "store_env \<Rightarrow> assets \<Rightarrow> string \<Rightarrow> string option \<Rightarrow> (string \<times> chunk) list" where
  "completion e db chunk sid =
     (case (case sid of Some s \<Rightarrow> Some s | None \<Rightarrow> get_session_for_chunk chunk db) of
        None \<Rightarrow> []
      | Some s \<Rightarrow> [(s, with_annotation ''cafe.binary.completed'' (JBool True)
                        (mutation (v_uuid e 1) (v_now_ms e) chunk STORE))])"

record write_query =
  wq_token :: string
  wq_offset :: "nat option"
  wq_session_id :: "string option"
  wq_finalize :: "bool option"

definition has_prefix :: "string \<Rightarrow> string \<Rightarrow> bool" where
  "has_prefix p s = (strip_prefix p s \<noteq> None)"

text \<open>The files after the start or the resumption of a write, or the status and the error.\<close>

definition open_write :: "string \<Rightarrow> nat \<Rightarrow> files \<Rightarrow> nat \<times> string + files" where
  "open_write chunk off fs =
     (if off = 0
      then (case start_write chunk fs of
              Inl msg \<Rightarrow> Inl (if has_prefix ''CONFLICT'' msg then 409 else 500, msg)
            | Inr fs1 \<Rightarrow> Inr fs1)
      else (case resume_write chunk off fs of
              Inl msg \<Rightarrow> Inl (if has_prefix ''NOT_FOUND'' msg then 404 else 400, msg)
            | Inr _ \<Rightarrow> Inr fs))"

text \<open>The last part of a handler: it finalizes the upload or acknowledges a part.\<close>

definition end_write ::
  "store_env \<Rightarrow> string \<Rightarrow> write_query \<Rightarrow> byte list \<Rightarrow> (string \<times> chunk) list \<Rightarrow> store
    \<Rightarrow> response \<times> (string \<times> chunk) list \<times> store" where
  "end_write e chunk q body out st =
     (let off = (case wq_offset q of None \<Rightarrow> 0 | Some n \<Rightarrow> n)
      in if should_finalize off (body = []) (wq_finalize q)
         then (let db = update_file_size chunk (off + length body) (st_assets st)
               in (Response 200 (TokenJson (case sign_read e chunk of Some t \<Rightarrow> t | None \<Rightarrow> [])),
                   out @ completion e db chunk (wq_session_id q),
                   st\<lparr>st_files := finalize_write chunk (st_files st), st_assets := db\<rparr>))
         else (Response 200 OkJson, out, st))"

definition write_handler ::
  "store_env \<Rightarrow> string \<Rightarrow> write_query \<Rightarrow> byte list \<Rightarrow> store
    \<Rightarrow> response \<times> (string \<times> chunk) list \<times> store" where
  "write_handler e chunk q body st =
     (case authorize e ''write'' chunk (wq_token q) of
        Inl err \<Rightarrow> (Response 401 (ErrorJson err), [], st)
      | Inr _ \<Rightarrow>
          if \<not> shard_ok chunk then (Crashed, [], st)
          else
          (let off = (case wq_offset q of None \<Rightarrow> 0 | Some n \<Rightarrow> n)
           in case open_write chunk off (st_files st) of
                Inl (status, msg) \<Rightarrow> (Response status (ErrorJson msg), [], st)
              | Inr fs1 \<Rightarrow>
                  (case append_bytes chunk off body (v_max_chunk_bytes e) fs1 of
                     Inl msg \<Rightarrow>
                       (Response (if has_prefix ''PAYLOAD_TOO_LARGE'' msg then 413 else 500) (ErrorJson msg), [],
                        st\<lparr>st_files := fs1\<rparr>)
                   | Inr fs2 \<Rightarrow>
                       (case (off = 0, wq_session_id q) of
                          (True, Some sid) \<Rightarrow>
                            (case sign_read e chunk of
                               None \<Rightarrow> (Response 500 (ErrorJson ''internal error''), [], st\<lparr>st_files := fs2\<rparr>)
                             | Some token \<Rightarrow>
                                 end_write e chunk q body [(sid, read_credentials e chunk token)]
                                   (st\<lparr>st_files := fs2\<rparr>))
                        | _ \<Rightarrow> end_write e chunk q body [] (st\<lparr>st_files := fs2\<rparr>)))))"

text \<open>The offset of a range header.\<close>

definition range_offset :: "string option \<Rightarrow> nat" where
  "range_offset hdr =
     (case Option.bind (Option.bind hdr (strip_prefix ''bytes=''))
             (\<lambda>s. parse_uint u64_bound (takeWhile (\<lambda>c. c \<noteq> CHR ''-'') s)) of
        None \<Rightarrow> 0 | Some n \<Rightarrow> n)"

definition read_handler :: "store_env \<Rightarrow> string \<Rightarrow> string \<Rightarrow> string option \<Rightarrow> store \<Rightarrow> response" where
  "read_handler e chunk token hdr st =
     (case authorize e ''read'' chunk token of
        Inl err \<Rightarrow> Response 401 (ErrorJson err)
      | Inr _ \<Rightarrow>
          if \<not> shard_ok chunk then Crashed
          else (case read_bytes chunk (range_offset hdr) (1024 * 1024 * 8) (st_files st) of
                  Inl err \<Rightarrow> Response 404 (ErrorJson err)
                | Inr (data, sz, _) \<Rightarrow>
                    (case content_range_header (range_offset hdr) (length data) sz of
                       Some h \<Rightarrow> Response 206 (Content data (Some h))
                     | None \<Rightarrow> Response 200 (Content data None))))"

definition delete_handler :: "store_env \<Rightarrow> string \<Rightarrow> string \<Rightarrow> store \<Rightarrow> response \<times> store" where
  "delete_handler e chunk token st =
     (case authorize e ''write'' chunk token of
        Inl err \<Rightarrow> (Response 401 (ErrorJson err), st)
      | Inr _ \<Rightarrow>
          if \<not> shard_ok chunk then (Crashed, st)
          else (Response 204 NoContent,
                \<lparr>st_files = delete_files chunk (st_files st), st_assets = delete_asset chunk (st_assets st)\<rparr>))"

section \<open>The bus subscriber and the collector\<close>

definition write_credentials :: "store_env \<Rightarrow> string \<Rightarrow> string \<Rightarrow> chunk" where
  "write_credentials e chunk token =
     with_annotation ''cafe.binary.read_url'' (JStr (binary_url e chunk))
       (as_transient
         (with_annotation ''cafe.binary.write_token'' (JStr token)
           (with_annotation ''cafe.binary.write_url'' (JStr (binary_url e chunk))
             (mutation (v_uuid e 0) (v_now_ms e) chunk STORE))))"

text \<open>The direct messages, as target connection, session and chunk, and the new state.\<close>

definition store_event ::
  "store_env \<Rightarrow> server_message \<Rightarrow> store \<Rightarrow> (string \<times> string \<times> chunk) list \<times> store" where
  "store_event e m st =
     (case m of
        Chunk sid c \<Rightarrow>
          (let st1 = st\<lparr>st_assets := insert_asset (int (v_now e)) (chunk_id c) sid (is_transient c) (st_assets st)\<rparr>
           in case sign_write e (chunk_id c) of
                None \<Rightarrow> ([], st1)
              | Some token \<Rightarrow>
                  (case get_annotation as_str CAFE_SOURCE_CONNECTION c of
                     None \<Rightarrow> ([], st1)
                   | Some target \<Rightarrow> ([(target, sid, write_credentials e (chunk_id c) token)], st1)))
      | SessionDeleted sid \<Rightarrow>
          (case delete_session_non_transient sid (st_assets st) of
             (ids, db) \<Rightarrow> ([], \<lparr>st_files = fold delete_files ids (st_files st), st_assets = db\<rparr>))
      | _ \<Rightarrow> ([], st))"

definition gc_tick :: "int \<Rightarrow> nat \<Rightarrow> store \<Rightarrow> store" where
  "gc_tick now ttl st =
     (case gc_transient now ttl (st_assets st) of
        (ids, db) \<Rightarrow> \<lparr>st_files = fold delete_files ids (st_files st), st_assets = db\<rparr>)"

section \<open>An upload is what is read afterwards\<close>

text \<open>A chunk id that is no marker name: its file cannot be the marker of another chunk.\<close>

definition plain :: "string \<Rightarrow> bool" where
  "plain chunk = (strip_suffix ''.writing'' chunk = None)"

lemma strip_suffix_append [simp]: "strip_suffix suf (s @ suf) = Some s"
  by (simp add: strip_suffix_def)

lemma chunk_path_inject [simp]: "chunk_path a = chunk_path b \<longleftrightarrow> a = b"
  by (auto simp: chunk_path_def)

lemma writing_path_inject [simp]: "writing_path a = writing_path b \<longleftrightarrow> a = b"
  by (auto simp: writing_path_def)

lemma own_paths_differ [simp]: "chunk_path a \<noteq> writing_path a" "writing_path a \<noteq> chunk_path a"
  by (auto simp: chunk_path_def writing_path_def)

lemma plain_path: "plain a \<Longrightarrow> chunk_path a \<noteq> writing_path b"
  by (auto simp: plain_def chunk_path_def writing_path_def)

lemma kv_contains_simps [simp]:
  "kv_contains (kv_insert k v m) k' \<longleftrightarrow> k' = k \<or> kv_contains m k'"
  "kv_contains (kv_remove k m) k' \<longleftrightarrow> k' \<noteq> k \<and> kv_contains m k'"
  by (auto simp: kv_contains_def kv_simps)

lemma write_at_end [simp]: "write_at (length f) data f = f @ data"
  by (simp add: write_at_def)

text \<open>The requests of an upload: every part at the end of the last one, the last part final.\<close>

definition part :: "string \<Rightarrow> string option \<Rightarrow> nat \<Rightarrow> bool \<Rightarrow> write_query" where
  "part token sid off fin =
     \<lparr>wq_token = token, wq_offset = Some off, wq_session_id = sid, wq_finalize = Some fin\<rparr>"

fun upload ::
  "store_env \<Rightarrow> string \<Rightarrow> string \<Rightarrow> string option \<Rightarrow> nat \<Rightarrow> byte list list \<Rightarrow> store \<Rightarrow> response list \<times> store" where
  "upload e chunk token sid off [] st = ([], st)"
| "upload e chunk token sid off (p # ps) st =
     (case write_handler e chunk (part token sid off (ps = [])) p st of
        (r, _, st1) \<Rightarrow>
          (case upload e chunk token sid (off + length p) ps st1 of (rs, st2) \<Rightarrow> (r # rs, st2)))"

definition succeeded :: "response \<Rightarrow> bool" where
  "succeeded r = (case r of Response n _ \<Rightarrow> n = 200 | Crashed \<Rightarrow> False)"

definition may_write :: "store_env \<Rightarrow> string \<Rightarrow> string \<Rightarrow> bool" where
  "may_write e chunk token =
     (authorize e ''write'' chunk token = Inr () \<and> shard_ok chunk \<and> sign_read e chunk \<noteq> None)"

lemma end_write_files:
  assumes "end_write e chunk (part token sid off fin) body out st = (r, ms, st')" and "body \<noteq> []"
  shows "succeeded r \<and> st_files st' = (if fin then finalize_write chunk (st_files st) else st_files st)"
  using assms by (auto simp: end_write_def part_def should_finalize_def succeeded_def Let_def split: if_splits)

lemma write_part:
  assumes "may_write e chunk token" and "open_write chunk off (st_files st) = Inr fs"
    and "kv_get fs (chunk_path chunk) = Some f" "off = length f" "body \<noteq> []"
    and "off + length body \<le> v_max_chunk_bytes e"
    and "write_handler e chunk (part token sid off fin) body st = (r, ms, st')"
  shows "succeeded r \<and> st_files st' = (if fin then finalize_write chunk else id) (kv_insert (chunk_path chunk) (f @ body) fs)"
proof -
  obtain t where t: "sign_read e chunk = Some t" using assms(1) by (auto simp: may_write_def)
  have a: "append_bytes chunk off body (v_max_chunk_bytes e) fs = Inr (kv_insert (chunk_path chunk) (f @ body) fs)"
    using assms(3-6) by (simp add: append_bytes_def)
  have "\<exists>out. end_write e chunk (part token sid off fin) body out
      (st\<lparr>st_files := kv_insert (chunk_path chunk) (f @ body) fs\<rparr>) = (r, ms, st')"
    using assms(1,2,7) a t
    by (auto simp: write_handler_def may_write_def part_def split: option.splits bool.splits)
  then obtain out where "end_write e chunk (part token sid off fin) body out
      (st\<lparr>st_files := kv_insert (chunk_path chunk) (f @ body) fs\<rparr>) = (r, ms, st')" ..
  from end_write_files [OF this assms(5)] show ?thesis by simp
qed

lemma upload_rest:
  assumes "may_write e chunk token" and "ps \<noteq> []" "list_all (\<lambda>p. p \<noteq> []) ps"
    and "kv_contains (st_files st) (writing_path chunk)"
    and "kv_get (st_files st) (chunk_path chunk) = Some f" "f \<noteq> []"
    and "length f + length (concat ps) \<le> v_max_chunk_bytes e"
    and "upload e chunk token sid (length f) ps st = (rs, st')"
  shows "list_all succeeded rs \<and> kv_get (st_files st') (chunk_path chunk) = Some (f @ concat ps)
    \<and> \<not> kv_contains (st_files st') (writing_path chunk)
    \<and> (\<forall>q. q \<noteq> chunk_path chunk \<and> q \<noteq> writing_path chunk \<longrightarrow> kv_get (st_files st') q = kv_get (st_files st) q)"
  using assms(2-)
proof (induction ps arbitrary: st f rs)
  case (Cons p ps)
  obtain r ms st1 where w: "write_handler e chunk (part token sid (length f) (ps = [])) p st = (r, ms, st1)"
    by (metis prod_cases3)
  obtain rs' where u: "upload e chunk token sid (length f + length p) ps st1 = (rs', st')" and rs: "rs = r # rs'"
    using Cons.prems(7) w by (auto split: prod.splits)
  have o: "open_write chunk (length f) (st_files st) = Inr (st_files st)"
    using Cons.prems by (simp add: open_write_def resume_write_def)
  have p: "succeeded r \<and> st_files st1 = (if ps = [] then finalize_write chunk else id)
      (kv_insert (chunk_path chunk) (f @ p) (st_files st))"
    using write_part [OF assms(1) o Cons.prems(4) refl _ _ w] Cons.prems(2,6) by simp
  show ?case
  proof (cases "ps = []")
    case True
    then show ?thesis using p u rs by (simp add: finalize_write_def kv_simps)
  next
    case False
    have "list_all succeeded rs' \<and> kv_get (st_files st') (chunk_path chunk) = Some ((f @ p) @ concat ps)
      \<and> \<not> kv_contains (st_files st') (writing_path chunk)
      \<and> (\<forall>q. q \<noteq> chunk_path chunk \<and> q \<noteq> writing_path chunk \<longrightarrow> kv_get (st_files st') q = kv_get (st_files st1) q)"
      by (rule Cons.IH) (use p u Cons.prems False in \<open>auto simp: kv_simps\<close>)
    then show ?thesis using p rs False by (simp add: kv_simps)
  qed
qed simp

lemma upload_whole:
  assumes "may_write e chunk token" and "ps \<noteq> []" "list_all (\<lambda>p. p \<noteq> []) ps"
    and "\<not> kv_contains (st_files st) (writing_path chunk)" and "length (concat ps) \<le> v_max_chunk_bytes e"
    and u: "upload e chunk token sid 0 ps st = (rs, st')"
  shows "list_all succeeded rs \<and> kv_get (st_files st') (chunk_path chunk) = Some (concat ps)
    \<and> \<not> kv_contains (st_files st') (writing_path chunk)
    \<and> (\<forall>q. q \<noteq> chunk_path chunk \<and> q \<noteq> writing_path chunk \<longrightarrow> kv_get (st_files st') q = kv_get (st_files st) q)"
proof -
  obtain p ps' where ps: "ps = p # ps'" using assms(2) by (cases ps) auto
  let ?fs = "kv_insert (writing_path chunk) [49] (kv_insert (chunk_path chunk) [] (st_files st))"
  have o: "open_write chunk 0 (st_files st) = Inr ?fs"
    using assms(4) by (simp add: open_write_def start_write_def)
  obtain r ms st1 where w: "write_handler e chunk (part token sid 0 (ps' = [])) p st = (r, ms, st1)"
    by (metis prod_cases3)
  obtain rs' where u': "upload e chunk token sid (length p) ps' st1 = (rs', st')" and rs: "rs = r # rs'"
    using u w ps by (auto split: prod.splits)
  have f: "kv_get ?fs (chunk_path chunk) = Some []" by (simp add: kv_simps)
  have p: "succeeded r \<and> st_files st1 = (if ps' = [] then finalize_write chunk else id)
      (kv_insert (chunk_path chunk) p ?fs)"
    using write_part [OF assms(1) o f _ _ _ w] assms(3,5) ps by simp
  show ?thesis
  proof (cases "ps' = []")
    case True
    then show ?thesis using p u' rs ps by (simp add: finalize_write_def kv_simps)
  next
    case False
    have "list_all succeeded rs' \<and> kv_get (st_files st') (chunk_path chunk) = Some (p @ concat ps')
      \<and> \<not> kv_contains (st_files st') (writing_path chunk)
      \<and> (\<forall>q. q \<noteq> chunk_path chunk \<and> q \<noteq> writing_path chunk \<longrightarrow> kv_get (st_files st') q = kv_get (st_files st1) q)"
      by (rule upload_rest [OF assms(1) False]) (use p u' assms(3,5) ps False in \<open>auto simp: kv_simps\<close>)
    then show ?thesis using p rs ps False by (simp add: kv_simps)
  qed
qed

lemma read_whole:
  assumes "kv_get fs (chunk_path chunk) = Some f" and "\<not> kv_contains fs (writing_path chunk)"
  shows "read_bytes chunk off n fs = Inr (take n (drop off f), length f, length f \<le> off + n)"
proof (cases "off \<le> length f")
  case True
  then show ?thesis using assms by (auto simp: read_bytes_def Let_def min_def)
next
  case False
  then show ?thesis using assms by (simp add: read_bytes_def Let_def)
qed

text \<open>
  C11: What is uploaded is what is read. An upload in any number of non-empty parts, each written
  at the end of the previous one and only the last one final, succeeds part by part within the
  size limit; afterwards every window of the chunk reads the bytes of the parts in order, with the
  total size, and says that it is finished exactly when the window reaches the end; no other
  file has changed.
\<close>

theorem upload_roundtrip:
  assumes "may_write e chunk token" and "ps \<noteq> []" "list_all (\<lambda>p. p \<noteq> []) ps"
    and "\<not> kv_contains (st_files st) (writing_path chunk)" and "length (concat ps) \<le> v_max_chunk_bytes e"
    and "upload e chunk token sid 0 ps st = (rs, st')"
  shows "list_all succeeded rs
    \<and> read_bytes chunk off n (st_files st')
      = Inr (take n (drop off (concat ps)), length (concat ps), length (concat ps) \<le> off + n)
    \<and> (\<forall>q. q \<noteq> chunk_path chunk \<and> q \<noteq> writing_path chunk \<longrightarrow> kv_get (st_files st') q = kv_get (st_files st) q)"
  using upload_whole [OF assms] read_whole by blast

definition demo_store_env :: store_env where
  "demo_store_env =
     \<lparr>v_sign = (\<lambda>_. Some ''t''),
      v_decode = (\<lambda>_. Some \<lparr>cl_chunk_id = ''c1'', cl_purpose = ''write'', cl_iat = 0, cl_exp = Some 9\<rparr>),
      v_now = 1, v_write_ttl = 8, v_max_chunk_bytes = 3, v_public_host = None, v_port = 80,
      v_uuid = (\<lambda>_. ''u''), v_now_ms = 0\<rparr>"

lemma demo_may_write: "may_write demo_store_env ''c1'' ''t''"
  by (simp add: may_write_def demo_store_env_def authorize_def verify_token_def shard_ok_def sign_read_def)

theorem upload_roundtrip_witness:
  "read_bytes ''c1'' 1 2 (st_files (snd (upload demo_store_env ''c1'' ''t'' None 0 [[1, 2], [3]] \<lparr>st_files = [], st_assets = []\<rparr>)))
    = Inr ([2, 3], 3, True)"
  using upload_roundtrip [OF demo_may_write, of "[[1, 2], [3]]" "\<lparr>st_files = [], st_assets = []\<rparr>" None _ _ 1 2,
      OF _ _ _ _ surjective_pairing]
  by (simp add: kv_contains_def demo_store_env_def)

section \<open>Tokens guard the store\<close>

definition token_for :: "store_env \<Rightarrow> string \<Rightarrow> string \<Rightarrow> string \<Rightarrow> bool" where
  "token_for e purpose chunk token =
     (case v_decode e token of
        None \<Rightarrow> False
      | Some c \<Rightarrow> cl_purpose c = purpose \<and> cl_chunk_id c = chunk
                  \<and> (case cl_exp c of None \<Rightarrow> True | Some x \<Rightarrow> v_now e < x))"

lemma authorize_iff: "authorize e purpose chunk token = Inr () \<longleftrightarrow> token_for e purpose chunk token"
  by (auto simp: authorize_def verify_token_def token_for_def split: option.splits)

lemma authorize_cases:
  obtains "token_for e purpose chunk token" "authorize e purpose chunk token = Inr ()"
  | err where "authorize e purpose chunk token = Inl err"
  by (cases "authorize e purpose chunk token") (auto simp: authorize_iff)

lemma open_write_files:
  "open_write chunk off fs = Inr fs' \<Longrightarrow> q \<noteq> chunk_path chunk \<Longrightarrow> q \<noteq> writing_path chunk \<Longrightarrow> kv_get fs' q = kv_get fs q"
  by (auto simp: open_write_def start_write_def resume_write_def kv_simps split: if_splits option.splits sum.splits)

lemma end_write_other:
  "q \<noteq> writing_path chunk \<Longrightarrow>
     kv_get (st_files (snd (snd (end_write e chunk wq body out st)))) q = kv_get (st_files st) q"
  by (auto simp: end_write_def finalize_write_def Let_def kv_simps)

lemma write_handler_other:
  assumes "q \<noteq> chunk_path chunk" "q \<noteq> writing_path chunk"
  shows "kv_get (st_files (snd (snd (write_handler e chunk wq body st)))) q = kv_get (st_files st) q"
proof -
  have a: "kv_get fs2 q = kv_get fs1 q" if "append_bytes chunk off body mx fs1 = Inr fs2" for off mx fs1 fs2
    using that assms by (auto simp: append_bytes_def kv_simps split: option.splits if_splits)
  show ?thesis
    using assms open_write_files [OF _ assms] a
    by (auto simp: write_handler_def Let_def end_write_other split: sum.splits option.splits bool.splits prod.splits)
qed

text \<open>
  Only a valid token for this chunk opens it. A write or a deletion that has any effect, and a
  read that is not refused, was made with a token the key accepts, for this chunk, for this
  purpose and not expired; and whatever the token, a request leaves the files of all other
  chunks as they are.
\<close>

theorem store_is_guarded:
  "(write_handler e chunk q body st = (fst (write_handler e chunk q body st), [], st)
      \<or> token_for e ''write'' chunk (wq_token q))
   \<and> (snd (delete_handler e chunk token st) = st \<or> token_for e ''write'' chunk token)
   \<and> (status_of (read_handler e chunk token hdr st) = Some 401 \<or> token_for e ''read'' chunk token)
   \<and> (kv_get (st_files (snd (snd (write_handler e chunk q body st)))) p = kv_get (st_files st) p
      \<or> p = chunk_path chunk \<or> p = writing_path chunk)
   \<and> (kv_get (st_files (snd (delete_handler e chunk token st))) p = kv_get (st_files st) p
      \<or> p = chunk_path chunk \<or> p = writing_path chunk)"
proof (intro conjI)
  show "write_handler e chunk q body st = (fst (write_handler e chunk q body st), [], st)
      \<or> token_for e ''write'' chunk (wq_token q)"
    by (rule authorize_cases [of e "''write''" chunk "wq_token q"]) (simp_all add: write_handler_def)
  show "snd (delete_handler e chunk token st) = st \<or> token_for e ''write'' chunk token"
    by (rule authorize_cases [of e "''write''" chunk token]) (simp_all add: delete_handler_def)
  show "status_of (read_handler e chunk token hdr st) = Some 401 \<or> token_for e ''read'' chunk token"
    by (rule authorize_cases [of e "''read''" chunk token]) (simp_all add: read_handler_def status_of_def)
  show "kv_get (st_files (snd (snd (write_handler e chunk q body st)))) p = kv_get (st_files st) p
      \<or> p = chunk_path chunk \<or> p = writing_path chunk"
    using write_handler_other by blast
  show "kv_get (st_files (snd (delete_handler e chunk token st))) p = kv_get (st_files st) p
      \<or> p = chunk_path chunk \<or> p = writing_path chunk"
    by (auto simp: delete_handler_def delete_files_def kv_simps split: sum.split)
qed

section \<open>Cascades\<close>

lemma fold_delete_files:
  "kv_get (fold delete_files ids fs) p
     = (if list_ex (\<lambda>c. p = chunk_path c \<or> p = writing_path c) ids then None else kv_get fs p)"
  by (induction ids arbitrary: fs) (auto simp: delete_files_def kv_simps)

definition of_session :: "string \<Rightarrow> asset \<Rightarrow> bool" where
  "of_session sid a = (asset_session a = sid \<and> \<not> asset_transient a)"

definition expired :: "int \<Rightarrow> nat \<Rightarrow> asset \<Rightarrow> bool" where
  "expired now ttl a = (asset_transient a \<and> asset_created a < now - int ttl)"

text \<open>The state without the rows that are hit and their files.\<close>

definition removed_exactly :: "(asset \<Rightarrow> bool) \<Rightarrow> store \<Rightarrow> store \<Rightarrow> bool" where
  "removed_exactly hit st st' =
     ((\<forall>c. kv_get (st_assets st') c
         = (case kv_get (st_assets st) c of Some a \<Rightarrow> if hit a then None else Some a | None \<Rightarrow> None))
      \<and> (\<forall>p. kv_get (st_files st') p
         = (if list_ex (\<lambda>r. hit (snd r) \<and> (p = chunk_path (fst r) \<or> p = writing_path (fst r))) (st_assets st)
            then None else kv_get (st_files st) p)))"

text \<open>
  The end of a session takes its lasting assets with it, and a collection the expired
  transient ones, and nothing else: the rows that are hit disappear with their files and markers,
  every other row and every other file stays as it was.
\<close>

theorem cascades_exact:
  assumes "kv_wf (st_assets st)"
  shows "removed_exactly (of_session sid) st (snd (store_event e (SessionDeleted sid) st))
    \<and> removed_exactly (expired now ttl) st (gc_tick now ttl st)"
proof -
  have ex: "list_ex (\<lambda>c. p = chunk_path c \<or> p = writing_path c) (map fst (filter (\<lambda>r. h (snd r)) db))
      = list_ex (\<lambda>r. h (snd r) \<and> (p = chunk_path (fst r) \<or> p = writing_path (fst r))) db" for h p and db :: assets
    by (induction db) auto
  have swept: "removed_exactly h st \<lparr>st_files = fold delete_files (map fst (filter (\<lambda>r. h (snd r)) (st_assets st))) (st_files st),
      st_assets = kv_retain (\<lambda>_ a. \<not> h a) (st_assets st)\<rparr>" for h
    unfolding removed_exactly_def
    by (simp add: kv_get_retain [OF assms] fold_delete_files ex split: option.split)
  have "snd (store_event e (SessionDeleted sid) st)
      = \<lparr>st_files = fold delete_files (map fst (filter (\<lambda>r. of_session sid (snd r)) (st_assets st))) (st_files st),
         st_assets = kv_retain (\<lambda>_ a. \<not> of_session sid a) (st_assets st)\<rparr>"
    by (simp add: store_event_def delete_session_non_transient_def Let_def of_session_def)
  moreover have "gc_tick now ttl st
      = \<lparr>st_files = fold delete_files (map fst (filter (\<lambda>r. expired now ttl (snd r)) (st_assets st))) (st_files st),
         st_assets = kv_retain (\<lambda>_ a. \<not> expired now ttl a) (st_assets st)\<rparr>"
    by (simp add: gc_tick_def gc_transient_def Let_def expired_def)
  ultimately show ?thesis by (simp only: swept)
qed

theorem cascades_exact_witness:
  "kv_get (st_files (gc_tick 10 5 \<lparr>st_files = [((''c1'', ''c1''), [1])],
      st_assets = [(''c1'', \<lparr>asset_session = ''s'', asset_transient = True, asset_created = 4, asset_size = None\<rparr>)]\<rparr>)) (chunk_path ''c1'') = None"
proof -
  let ?st = "\<lparr>st_files = [((''c1'', ''c1''), [1])],
      st_assets = [(''c1'', \<lparr>asset_session = ''s'', asset_transient = True, asset_created = 4, asset_size = None\<rparr>)]\<rparr>"
  have "kv_wf (st_assets ?st)" by (simp add: kv_wf_def)
  from conjunct2 [OF cascades_exact [OF this, of "''s''" demo_store_env 10 5]]
  have "kv_get (st_files (gc_tick 10 5 ?st)) (chunk_path ''c1'')
      = (if list_ex (\<lambda>r. expired 10 5 (snd r) \<and> (chunk_path ''c1'' = chunk_path (fst r) \<or> chunk_path ''c1'' = writing_path (fst r)))
            (st_assets ?st) then None else kv_get (st_files ?st) (chunk_path ''c1''))"
    unfolding removed_exactly_def by blast
  then show ?thesis by (simp add: expired_def)
qed

section \<open>Where the store falls short\<close>

text \<open>A first part that is too large leaves its marker behind, and every later start is refused.\<close>

lemma oversized_first_part_blocks:
  assumes "may_write e chunk token" and "\<not> kv_contains (st_files st) (writing_path chunk)"
    and "v_max_chunk_bytes e < length body"
    and "write_handler e chunk (part token sid 0 fin) body st = (r, ms, st')"
  shows "(\<exists>m. r = Response 413 m)
    \<and> (\<exists>m. fst (write_handler e chunk (part token sid' 0 fin') body' st') = Response 409 m)"
  using assms
  by (auto simp: write_handler_def may_write_def part_def open_write_def start_write_def append_bytes_def
      has_prefix_def kv_simps)

text \<open>A chunk of more than eight mebibytes reads without a range as a complete response that is cut.\<close>

lemma large_read_is_cut:
  assumes "authorize e ''read'' chunk token = Inr ()" "shard_ok chunk"
    and "kv_get (st_files st) (chunk_path chunk) = Some f" "\<not> kv_contains (st_files st) (writing_path chunk)"
    and "1024 * 1024 * 8 < length f"
  shows "read_handler e chunk token None st = Response 200 (Content (take (1024 * 1024 * 8) f) None)"
  using assms
  by (simp add: read_handler_def range_offset_def read_whole [OF assms(3,4)] content_range_header_def)

text \<open>A finished chunk whose id ends in the marker's suffix is removed at startup, with the chunk it seems to mark.\<close>

lemma cleanup_removes_finished:
  "snd (cleanup_stale_writes [(chunk_path ''ab'', [1]), (chunk_path ''ab.writing'', [2])]) = []"
proof -
  have t: "trim_writing ''ab.writing'' = ''ab''"
    by (simp add: trim_writing.simps strip_suffix_def)
  show ?thesis
    by (simp add: cleanup_stale_writes_def kv_keys_def chunk_path_def strip_suffix_def t kv_remove_def)
qed

end
