(* ===== verification/Http_Api.thy ===== *)
theory Http_Api
  imports Llm_Context
begin

text \<open>
  The HTTP interface of the server over the bus (\<open>cafe-server/src\<close>): authentication
  (\<open>auth.rs\<close>), the session, chunk and chat handlers (\<open>handlers/sessions.rs\<close>, \<open>handlers/chunks.rs\<close>,
  \<open>handlers/chat.rs\<close>), event streams (\<open>sse.rs\<close>) and the substitution of binary chunks
  (\<open>binary_ref.rs\<close>).  A handler takes the outcome of its bus calls and returns its response, with
  the message it sent where it sends one.  Base64, the serialisation of a whole chunk and the
  token table are arguments.
\<close>

section \<open>Responses\<close>

record http_response =
  resp_status :: nat
  resp_body :: "json option"

definition status_only :: "nat \<Rightarrow> http_response" where
  "status_only n = \<lparr>resp_status = n, resp_body = None\<rparr>"

definition error_response :: "nat \<Rightarrow> string \<Rightarrow> http_response" where
  "error_response n txt = \<lparr>resp_status = n, resp_body = Some (json_obj [(''error'', JStr txt)])\<rparr>"

definition json_response :: "nat \<Rightarrow> json \<Rightarrow> http_response" where
  "json_response n v = \<lparr>resp_status = n, resp_body = Some v\<rparr>"

section \<open>Authentication\<close>

definition hex_digit_val :: "char \<Rightarrow> nat option" where
  "hex_digit_val c =
     (let n = byte_val c
      in if 48 \<le> n \<and> n \<le> 57 then Some (n - 48)
         else if 65 \<le> n \<and> n \<le> 70 then Some (n - 55)
         else if 97 \<le> n \<and> n \<le> 102 then Some (n - 87)
         else None)"

definition hex_byte :: "char \<Rightarrow> char \<Rightarrow> nat option" where
  "hex_byte a b =
     (if a = CHR ''+'' then hex_digit_val b
      else case (hex_digit_val a, hex_digit_val b) of (Some x, Some y) \<Rightarrow> Some (16 * x + y) | _ \<Rightarrow> None)"

text \<open>A byte cast to a character is pushed as the encoding of that character.\<close>

definition push_byte :: "nat \<Rightarrow> string" where
  "push_byte n =
     (if n < 128 then [char_of n] else [char_of (192 + n div 64), char_of (128 + n mod 64)])"

text \<open>Both following bytes are consumed before they are looked at.\<close>

fun percent_decode :: "string \<Rightarrow> string" where
  "percent_decode [] = []"
| "percent_decode (c # cs) =
     (if c = CHR ''%'' then
        (case cs of
           a # b # rest \<Rightarrow>
             (case hex_byte a b of
                Some n \<Rightarrow> push_byte n @ percent_decode rest
              | None \<Rightarrow> CHR ''%'' # percent_decode rest)
         | _ \<Rightarrow> [CHR ''%''])
      else push_byte (byte_val c) @ percent_decode cs)"

fun token_param :: "string list \<Rightarrow> string option" where
  "token_param [] = None"
| "token_param (p # ps) =
     (case strip_prefix ''token='' p of
        None \<Rightarrow> token_param ps
      | Some v \<Rightarrow> if percent_decode v = [] then token_param ps else Some (percent_decode v))"

definition extract_bearer :: "string option \<Rightarrow> string option \<Rightarrow> string option" where
  "extract_bearer auth_header query =
     (case Option.bind auth_header (strip_prefix ''Bearer '') of
        Some t \<Rightarrow> Some t
      | None \<Rightarrow> Option.bind query (\<lambda>q. token_param (split_on (CHR ''&'') q)))"

text \<open>The row of a token says whether it is an administrator's.\<close>

definition auth_user ::
  "(string \<Rightarrow> string + bool option) \<Rightarrow> string option \<Rightarrow> string option \<Rightarrow> http_response + bool" where
  "auth_user lookup auth_header query =
     (case extract_bearer auth_header query of
        None \<Rightarrow> Inl (error_response 401 ''Missing Authorization header'')
      | Some token \<Rightarrow>
          (case lookup token of
             Inl _ \<Rightarrow> Inl (error_response 500 ''Database error'')
           | Inr None \<Rightarrow> Inl (error_response 401 ''Invalid token'')
           | Inr (Some is_admin) \<Rightarrow> Inr is_admin))"

definition admin_user ::
  "(string \<Rightarrow> string + bool option) \<Rightarrow> string option \<Rightarrow> string option \<Rightarrow> http_response + bool" where
  "admin_user lookup auth_header query =
     (case auth_user lookup auth_header query of
        Inl r \<Rightarrow> Inl r
      | Inr is_admin \<Rightarrow>
          if \<not> is_admin then Inl (error_response 403 ''Admin access required'') else Inr is_admin)"

section \<open>Binary references\<close>

definition binary_refs_enabled :: "nat option \<Rightarrow> bool" where
  "binary_refs_enabled q = (q = Some 1)"

definition serialize_chunk :: "(chunk \<Rightarrow> json) \<Rightarrow> chunk \<Rightarrow> bool \<Rightarrow> json" where
  "serialize_chunk to_value c refs =
     (let use_ref = (refs \<and> chunk_type c = Binary \<or> chunk_type c = BinaryRef)
      in if use_ref
         then (let byte_size = (if chunk_type c = Binary then map_option length (chunk_data c)
                                else get_annotation as_u64 ''cafe.binary.byte_size'' c)
               in json_obj
                    [(''id'', JStr (chunk_id c)), (''content_type'', JStr ''binary-ref''),
                     (''content'', json_obj [(''chunk_id'', JStr (chunk_id c)),
                        (''mime_type'', opt_json JStr (mime_type c)),
                        (''byte_size'', opt_json (JNum \<circ> PosInt) byte_size)]),
                     (''data'', JNull), (''mime_type'', JNull), (''producer'', JStr (producer c)),
                     (''annotations'', json_obj (annotations c)), (''timestamp'', json_int (timestamp c))])
         else to_value c)"

text \<open>The data of the event a bus message becomes on a stream.\<close>

definition message_to_event :: "(chunk \<Rightarrow> json) \<Rightarrow> server_message \<Rightarrow> bool \<Rightarrow> json option" where
  "message_to_event to_value m refs =
     (case m of
        Chunk _ c \<Rightarrow> Some (serialize_chunk to_value c refs)
      | HistoryComplete _ n \<Rightarrow>
          Some (json_obj [(''type'', JStr ''history_complete''), (''count'', JNum (PosInt n))])
      | Error _ txt _ \<Rightarrow> Some (json_obj [(''type'', JStr ''error''), (''message'', JStr txt)])
      | _ \<Rightarrow> None)"

definition is_stream_complete :: "chunk \<Rightarrow> bool" where
  "is_stream_complete c = (get_annotation as_bool CHAT_STREAM_COMPLETE c = Some True)"

definition stream_events :: "(chunk \<Rightarrow> json) \<Rightarrow> nat option \<Rightarrow> server_message list \<Rightarrow> json list" where
  "stream_events to_value q ms = List.map_filter (\<lambda>m. message_to_event to_value m (binary_refs_enabled q)) ms"

section \<open>Session handlers\<close>

definition session_info_json :: "session_info \<Rightarrow> json" where
  "session_info_json i =
     json_obj [(''session_id'', JStr (si_session_id i)), (''agent_id'', JStr (si_agent_id i)),
                (''display_name'', opt_json JStr (si_display_name i)),
                (''tags'', JArr (map JStr (si_tags i))), (''is_background'', JBool (si_is_background i)),
                (''ui_mode'', JStr (si_ui_mode i)), (''message_count'', JNum (PosInt (si_message_count i))),
                (''created_at'', json_int (si_created_at i)),
                (''parent_id'', opt_json JStr (si_parent_id i))]"

definition list_sessions :: "string + session_info list \<Rightarrow> http_response" where
  "list_sessions r =
     (case r of
        Inr infos \<Rightarrow> json_response 200 (JArr (map session_info_json infos))
      | Inl e \<Rightarrow> error_response 500 e)"

definition create_session ::
  "string \<Rightarrow> string option \<Rightarrow> session_config option \<Rightarrow> string + unit \<Rightarrow> client_message \<times> http_response" where
  "create_session uuid agent config r =
     (let aid = (case agent of Some a \<Rightarrow> a | None \<Rightarrow> ''default'');
          cfg = (case config of Some c \<Rightarrow> c | None \<Rightarrow> default_session_config)
      in (CreateSession uuid aid cfg,
          case r of
            Inr _ \<Rightarrow> json_response 201 (json_obj [(''id'', JStr uuid), (''agent_id'', JStr aid)])
          | Inl e \<Rightarrow> error_response 500 e))"

definition delete_session :: "string \<Rightarrow> string + unit \<Rightarrow> client_message \<times> http_response" where
  "delete_session sid r =
     (DeleteSession sid, case r of Inr _ \<Rightarrow> status_only 204 | Inl e \<Rightarrow> error_response 500 e)"

text \<open>The error of the bus carries a code, where it is one of the bus's own.\<close>

definition fork_session ::
  "string \<Rightarrow> string \<Rightarrow> (string option \<times> string) + unit \<Rightarrow> client_message \<times> http_response" where
  "fork_session uuid sid r =
     (ForkSession sid uuid default_session_config,
      case r of
        Inr _ \<Rightarrow> json_response 201 (json_obj [(''id'', JStr uuid), (''parent_id'', JStr sid)])
      | Inl (code, e) \<Rightarrow>
          if (case code of Some c \<Rightarrow> c | None \<Rightarrow> []) = ''SESSION_NOT_FOUND''
          then error_response 404 e else error_response 500 e)"

definition update_tags ::
  "(string \<Rightarrow> string) \<Rightarrow> string \<Rightarrow> string list \<Rightarrow> string + unit \<Rightarrow> client_message option \<times> http_response" where
  "update_tags dbg sid ts r =
     (case validate_tags dbg ts of
        Inl e \<Rightarrow> (None, error_response 400 (error_display e))
      | Inr _ \<Rightarrow>
          (Some (SetSessionTags sid ts),
           case r of Inr _ \<Rightarrow> status_only 200 | Inl e \<Rightarrow> error_response 404 e))"

definition get_history ::
  "(chunk \<Rightarrow> json) \<Rightarrow> string \<Rightarrow> nat option \<Rightarrow> string + chunk list \<Rightarrow> http_response" where
  "get_history to_value sid q r =
     (case r of
        Inr cs \<Rightarrow> json_response 200 (json_obj [(''session_id'', JStr sid),
                    (''chunks'', JArr (map (\<lambda>c. serialize_chunk to_value c (binary_refs_enabled q)) cs))])
      | Inl e \<Rightarrow> error_response 404 e)"

section \<open>Chunk handlers\<close>

definition SERVER :: string where "SERVER = ''com.nominal.cafe-server''"

record send_chunk_request =
  sc_content_type :: string
  sc_content :: "string option"
  sc_data :: "string option"
  sc_mime_type :: "string option"
  sc_annotations :: "(string, json) kv option"

definition binary_ref_error :: string where
  "binary_ref_error =
     ''BinaryRef chunks published via HTTP never receive write credentials. Use the WebSocket endpoint at /api/sessions/{session_id}/ws instead.''"

text \<open>The chunk a request asks to publish, or the refusal.\<close>

definition requested_chunk ::
  "(string \<Rightarrow> byte list option) \<Rightarrow> string \<Rightarrow> int \<Rightarrow> send_chunk_request \<Rightarrow> string + chunk" where
  "requested_chunk decode uuid now_ms b =
     (if sc_content_type b = ''text''
      then Inr (new_text uuid now_ms (case sc_content b of Some t \<Rightarrow> t | None \<Rightarrow> []) SERVER)
      else if sc_content_type b = ''null'' then Inr (new_null uuid now_ms SERVER)
      else if sc_content_type b = ''binary''
      then (case Option.bind (sc_data b) decode of
              None \<Rightarrow> Inl ''Invalid base64 data''
            | Some raw \<Rightarrow>
                Inr (new_binary uuid now_ms raw
                       (case sc_mime_type b of Some m \<Rightarrow> m | None \<Rightarrow> ''application/octet-stream'') SERVER))
      else if sc_content_type b = ''binary_ref'' then Inl binary_ref_error
      else Inl ''Invalid content_type'')"

definition send_chunk ::
  "(string \<Rightarrow> byte list option) \<Rightarrow> string \<Rightarrow> int \<Rightarrow> string \<Rightarrow> send_chunk_request \<Rightarrow> string + unit
    \<Rightarrow> client_message option \<times> http_response" where
  "send_chunk decode uuid now_ms sid b r =
     (case requested_chunk decode uuid now_ms b of
        Inl txt \<Rightarrow> (None, error_response 400 txt)
      | Inr c \<Rightarrow>
          (Some (Publish sid (fold (\<lambda>(k, v). with_annotation k v)
                   (case sc_annotations b of Some anns \<Rightarrow> anns | None \<Rightarrow> []) c)),
           case r of Inr _ \<Rightarrow> status_only 202 | Inl e \<Rightarrow> error_response 500 e))"

definition trust_chunk_of :: "string \<Rightarrow> int \<Rightarrow> string \<Rightarrow> bool \<Rightarrow> chunk" where
  "trust_chunk_of uuid now_ms cid trusted =
     with_annotation SECURITY_TRUST_LEVEL
       (json_obj [(''trusted'', JBool trusted), (''source'', JStr ''user''), (''chunk_id'', JStr cid)])
       (new_null uuid now_ms SERVER)"

definition trust_chunk ::
  "string \<Rightarrow> int \<Rightarrow> string \<Rightarrow> string \<Rightarrow> bool \<Rightarrow> string + unit \<Rightarrow> client_message \<times> http_response" where
  "trust_chunk uuid now_ms sid cid trusted r =
     (Publish sid (trust_chunk_of uuid now_ms cid trusted),
      case r of Inr _ \<Rightarrow> status_only 200 | Inl e \<Rightarrow> error_response 500 e)"

definition delete_chunk_of :: "string \<Rightarrow> int \<Rightarrow> string \<Rightarrow> chunk" where
  "delete_chunk_of uuid now_ms cid =
     with_annotation FLOW_TARGET_CHUNK_ID (JStr cid)
       (with_annotation CAFE_FLOW_SIGNAL (JStr ''delete'') (new_null uuid now_ms SERVER))"

definition delete_chunk ::
  "string \<Rightarrow> int \<Rightarrow> string \<Rightarrow> string \<Rightarrow> string + unit \<Rightarrow> client_message \<times> http_response" where
  "delete_chunk uuid now_ms sid cid r =
     (Publish sid (delete_chunk_of uuid now_ms cid),
      case r of Inr _ \<Rightarrow> status_only 204 | Inl e \<Rightarrow> error_response 500 e)"

text \<open>The body of a binary download, its media type and its length, or the refusal.\<close>

definition get_chunk_binary ::
  "string \<Rightarrow> string + chunk list \<Rightarrow> http_response + byte list \<times> string \<times> nat" where
  "get_chunk_binary cid r =
     (case r of
        Inl e \<Rightarrow> Inl (error_response 404 e)
      | Inr hist \<Rightarrow>
          (case List.find (\<lambda>c. chunk_id c = cid) hist of
             None \<Rightarrow> Inl (error_response 404 ''Chunk not found'')
           | Some c \<Rightarrow>
               if chunk_type c \<noteq> Binary then Inl (error_response 400 ''Chunk is not binary'')
               else (let data = (case chunk_data c of Some d \<Rightarrow> d | None \<Rightarrow> [])
                     in Inr (data, (case mime_type c of Some m \<Rightarrow> m | None \<Rightarrow> ''application/octet-stream''),
                             length data))))"

section \<open>Chat\<close>

definition user_chunk :: "string \<Rightarrow> int \<Rightarrow> string \<Rightarrow> chunk" where
  "user_chunk uuid now_ms t = with_annotation CHAT_ROLE (JStr USER) (new_text uuid now_ms t SERVER)"

text \<open>
  The events of the answer, from the messages of the subscription that is made after the user's
  chunk has been published; the flag tells whether the stream was closed.
\<close>

fun chat_bridge :: "(chunk \<Rightarrow> json) \<Rightarrow> bool \<Rightarrow> server_message list \<Rightarrow> json list \<times> bool" where
  "chat_bridge to_value history_done [] = ([], False)"
| "chat_bridge to_value history_done (m # ms) =
     (case m of
        HistoryComplete _ _ \<Rightarrow> chat_bridge to_value True ms
      | Chunk _ c \<Rightarrow>
          if \<not> history_done then chat_bridge to_value history_done ms
          else if is_stream_complete c then ([to_value c], True)
          else (case chat_bridge to_value history_done ms of (evs, ended) \<Rightarrow> (to_value c # evs, ended))
      | Error _ txt _ \<Rightarrow>
          if \<not> history_done then chat_bridge to_value history_done ms
          else ([json_obj [(''type'', JStr ''error''), (''message'', JStr txt)]], True)
      | _ \<Rightarrow> chat_bridge to_value history_done ms)"

definition chat ::
  "(chunk \<Rightarrow> json) \<Rightarrow> string \<Rightarrow> int \<Rightarrow> string \<Rightarrow> string \<Rightarrow> string + unit \<Rightarrow> string + server_message list
    \<Rightarrow> client_message \<times> (string + json list \<times> bool)" where
  "chat to_value uuid now_ms sid t published subscribed =
     (Publish sid (user_chunk uuid now_ms t),
      case published of
        Inl e \<Rightarrow> Inl (''Bus error: '' @ e)
      | Inr _ \<Rightarrow>
          (case subscribed of
             Inl e \<Rightarrow> Inl (''Subscribe error: '' @ e)
           | Inr ms \<Rightarrow> Inr (chat_bridge to_value False ms)))"

section \<open>Requests take effect on the bus\<close>

text \<open>
  A delete request removes its chunk.  The chunk it publishes is carried out by the session at
  once: the history loses exactly the chunks with that id, nothing is added to it, and a download of
  the chunk is refused from then on.
\<close>

theorem http_delete_removes:
  "map_option history (session_publish now (delete_chunk_of uuid t cid) s)
     = Some (filter (\<lambda>c. chunk_id c \<noteq> cid) (history s))
   \<and> get_chunk_binary cid (Inr (filter (\<lambda>c. chunk_id c \<noteq> cid) (history s)))
       = Inl (error_response 404 ''Chunk not found'')"
proof -
  have "delete_target (delete_chunk_of uuid t cid) = Some cid"
    by (simp add: delete_target_def delete_chunk_of_def)
  moreover have "List.find (\<lambda>c. chunk_id c = cid) (filter (\<lambda>c. chunk_id c \<noteq> cid) (history s)) = None"
    by (simp add: find_None_iff)
  ultimately show ?thesis by (simp add: session_publish_def remove_chunk_def Let_def get_chunk_binary_def)
qed

text \<open>
  A trust request changes nothing the model sees: the annotation is set on a null chunk of its
  own, and a prompt is built from the annotations of the text chunks themselves.
\<close>

theorem trust_request_without_effect:
  "build_messages (hist @ [trust_chunk_of uuid t cid trusted]) p = build_messages hist p
   \<and> extract_config fl (hist @ [trust_chunk_of uuid t cid trusted]) = extract_config fl hist"
  by (simp add: build_messages_def extract_config_def push_chunk_def merge_chunk_def trust_chunk_of_def)

lemma fold_annotations_fields:
  "chunk_id (fold (\<lambda>(k, v). with_annotation k v) anns c) = chunk_id c
   \<and> chunk_type (fold (\<lambda>(k, v). with_annotation k v) anns c) = chunk_type c
   \<and> chunk_data (fold (\<lambda>(k, v). with_annotation k v) anns c) = chunk_data c
   \<and> mime_type (fold (\<lambda>(k, v). with_annotation k v) anns c) = mime_type c"
  by (induction anns arbitrary: c) auto

lemma fold_annotations_other:
  "k \<notin> fst ` set anns \<Longrightarrow> annotation (fold (\<lambda>(k, v). with_annotation k v) anns c) k = annotation c k"
  by (induction anns arbitrary: c) auto

text \<open>
  What a client uploads as a binary chunk is what a download of the chunk returns, with its media
  type and length, whatever annotations it carries besides the two that make a chunk transient or a
  signal.
\<close>

theorem http_binary_roundtrip:
  assumes body: "sc_content_type b = ''binary''" "sc_data b = Some d" "decode d = Some raw"
    "sc_mime_type b = Some mime" "sc_annotations b = Some anns"
    and plain: "CAFE_TRANSIENT \<notin> fst ` set anns" "CAFE_FLOW_SIGNAL \<notin> fst ` set anns"
    and fresh: "\<forall>c \<in> set (history s). chunk_id c \<noteq> uuid"
    and sent: "send_chunk decode uuid t sid b (Inr ()) = (Some (Publish sid c), resp)"
    and stored: "session_publish now c s = Some s'"
  shows "resp = status_only 202 \<and> get_chunk_binary uuid (Inr (history s')) = Inr (raw, mime, length raw)"
proof -
  let ?n = "new_binary uuid t raw mime SERVER"
  have c: "c = fold (\<lambda>(k, v). with_annotation k v) anns ?n" and r: "resp = status_only 202"
    using sent body by (auto simp: send_chunk_def requested_chunk_def)
  have "annotation c CAFE_TRANSIENT = None" "annotation c CAFE_FLOW_SIGNAL = None"
    using fold_annotations_other [OF plain(1), of ?n] fold_annotations_other [OF plain(2), of ?n] by (simp_all add: c)
  then have "history s' = history s @ [c]"
    using stored by (auto simp: session_publish_def delete_target_def is_transient_def)
  moreover have "List.find (\<lambda>c. chunk_id c = uuid) (history s @ [c]) = Some c"
  proof -
    have "chunk_id c = uuid" using fold_annotations_fields [of anns ?n] by (simp add: c new_binary_def)
    moreover have "List.find (\<lambda>c. chunk_id c = uuid) (h @ [c]) = List.find (\<lambda>c. chunk_id c = uuid) [c]"
      if "\<forall>c \<in> set h. chunk_id c \<noteq> uuid" for h
      using that by (induction h) auto
    ultimately show ?thesis using fresh by simp
  qed
  ultimately show ?thesis
    using fold_annotations_fields [of anns ?n] r by (simp add: get_chunk_binary_def c new_binary_def)
qed

theorem http_binary_roundtrip_witness:
  "get_chunk_binary ''u''
     (Inr (history (the (session_publish 0 (the (case fst (send_chunk (\<lambda>_. Some [7]) ''u'' 0 ''s''
        \<lparr>sc_content_type = ''binary'', sc_content = None, sc_data = Some ''Bw'', sc_mime_type = Some ''m'',
         sc_annotations = Some []\<rparr> (Inr ())) of Some (Publish _ c) \<Rightarrow> Some c | _ \<Rightarrow> None)) (session_new ''s'' ''a'')))))
    = Inr ([7], ''m'', 1)"
proof -
  let ?b = "\<lparr>sc_content_type = ''binary'', sc_content = None, sc_data = Some ''Bw'', sc_mime_type = Some ''m'',
         sc_annotations = Some []\<rparr>"
  let ?c = "new_binary ''u'' 0 [7] ''m'' SERVER"
  have sent: "send_chunk (\<lambda>_. Some [7]) ''u'' 0 ''s'' ?b (Inr ()) = (Some (Publish ''s'' ?c), status_only 202)"
    by (simp add: send_chunk_def requested_chunk_def)
  have stored: "session_publish 0 ?c (session_new ''s'' ''a'')
      = Some (tx_send ?c ((session_new ''s'' ''a'')\<lparr>history := [?c]\<rparr>))"
    by (simp add: session_publish_def delete_target_def is_transient_def session_new_def)
  show ?thesis
    using http_binary_roundtrip [OF _ _ _ _ _ _ _ _ sent stored]
    by (simp add: sent stored) (simp add: session_new_def)
qed

section \<open>Streams\<close>

text \<open>The live chunks of an answer: everything up to and including the first that completes it.\<close>

fun until_complete :: "chunk list \<Rightarrow> chunk list" where
  "until_complete [] = []"
| "until_complete (c # cs) = c # (if is_stream_complete c then [] else until_complete cs)"

lemma chat_bridge_live:
  "chat_bridge f True (map (Chunk sid) live) = (map f (until_complete live), list_ex is_stream_complete live)"
  by (induction live) auto

lemma chat_bridge_replay: "chat_bridge f False (map (Chunk sid) old @ ms) = chat_bridge f False ms"
  by (induction old) auto

text \<open>
  The answer of a chat request is made of the chunks published after its subscription, up to the
  one that completes the answer, and of nothing of the replay.  The user's chunk is published before
  the subscription, so an answer that was complete by then is part of the replay: no event carries
  it, and the stream is not closed by it.
\<close>

theorem chat_answers_with_live_chunks:
  "chat_bridge f False (map (Chunk sid) old @ HistoryComplete sid n # map (Chunk sid) live)
     = (map f (until_complete live), list_ex is_stream_complete live)
   \<and> chat_bridge f False (map (Chunk sid) (old @ [answer]) @ [HistoryComplete sid n]) = ([], False)"
proof -
  have "chat_bridge f False (map (Chunk sid) old @ HistoryComplete sid n # map (Chunk sid) live)
      = chat_bridge f True (map (Chunk sid) live)"
    by (simp add: chat_bridge_replay)
  moreover have "chat_bridge f False (map (Chunk sid) (old @ [answer]) @ [HistoryComplete sid n]) = ([], False)"
    by (simp only: chat_bridge_replay) simp
  ultimately show ?thesis by (simp add: chat_bridge_live)
qed

section \<open>Authentication\<close>

text \<open>
  A request passes the administrator's check exactly when it carries a token that the database
  knows as an administrator's; without a token it is 401, and a known token of a plain user is 403.
\<close>

theorem admin_access:
  "(admin_user lookup h q = Inr a \<longleftrightarrow> a \<and> Option.bind (extract_bearer h q) (\<lambda>t. case lookup t of Inr r \<Rightarrow> r | Inl _ \<Rightarrow> None) = Some True)
   \<and> (admin_user lookup None None = Inl (error_response 401 ''Missing Authorization header''))
   \<and> (auth_user lookup h q = Inr False \<longleftrightarrow> admin_user lookup h q = Inl (error_response 403 ''Admin access required''))"
  by (auto simp: admin_user_def auth_user_def extract_bearer_def error_response_def split: option.splits sum.splits)

text \<open>An invalid escape loses the two bytes after the percent sign.\<close>

lemma invalid_escape_loses_bytes: "percent_decode ''a%zzb'' = ''a%b''"
  by code_simp

end
