(* ===== verification/Client_Sdk.thy ===== *)
theory Client_Sdk
  imports Bus_Connection
begin

text \<open>
  The client side of the bus protocol, \<open>cafe-sdk/src/bus\<close>: codec choice and handshake, one
  operation per request with the loop that waits for its reply, subscriptions, waiting for the bus
  and reconnecting, and the announcement of schemas.  What reading a connection yields is a list:
  a message, or the error that ends the reading; the end of the list is the end of the stream.

  The last sections put the client against the bus: the messages an operation reads are those the
  bus's own handler sends on a fresh connection.
\<close>

section \<open>Codecs\<close>

datatype client_codec = CJson | CBincode

fun codec_as_str :: "client_codec \<Rightarrow> string" where
  "codec_as_str CJson = ''json''"
| "codec_as_str CBincode = ''bincode''"

definition codec_from_str :: "string \<Rightarrow> client_codec option" where
  "codec_from_str s =
     (if s = ''json'' then Some CJson else if s = ''bincode'' then Some CBincode else None)"

text \<open>\<open>BusReader::read_msg\<close>: at the end of the stream the buffer is decoded once more.\<close>

fun read_msg :: "'m decoder \<Rightarrow> byte list \<Rightarrow> read_result list
    \<Rightarrow> (codec_error + 'm option) \<times> byte list \<times> read_result list" where
  "read_msg dec buf reads =
     (case dec buf of
        Inl e \<Rightarrow> (Inl e, buf, reads)
      | Inr (Some (msg, consumed)) \<Rightarrow> (Inr (Some msg), drop consumed buf, reads)
      | Inr None \<Rightarrow>
          (let at_end = (\<lambda>rs. case dec buf of
                 Inl e \<Rightarrow> (Inl e, buf, rs)
               | Inr (Some (msg, consumed)) \<Rightarrow> (Inr (Some msg), drop consumed buf, rs)
               | Inr None \<Rightarrow> (Inr None, buf, rs))
           in case reads of
                [] \<Rightarrow> at_end []
              | ReadErr e # rs \<Rightarrow> (Inl (CodecIo e), buf, rs)
              | ReadBytes bs # rs \<Rightarrow> if bs = [] then at_end rs else read_msg dec (buf @ bs) rs))"

declare read_msg.simps [simp del]

lemma read_msg_next_msg: "read_msg dec buf reads = next_msg dec buf reads"
proof (induction reads arbitrary: buf)
  case Nil
  then show ?case by (simp add: read_msg.simps [of dec buf] next_msg.simps [of dec buf] split: sum.split option.split)
next
  case (Cons r reads)
  then show ?case
    by (simp add: read_msg.simps [of dec buf] next_msg.simps [of dec buf]
        split: sum.split option.split read_result.split)
qed

section \<open>Errors\<close>

text \<open>What went wrong with an HTTP request: the exchange, the status, or the body.\<close>

datatype http_failure = Transport string | Status nat | Decode

datatype sdk_error =
    BusConnect string
  | BusIo string
  | BusProtocol string
  | BusCodec codec_error
  | BusError string "string option"
  | SessionNotFound string
  | HttpError http_failure
  | JsonError string
  | TimedOut
  | BusNotReady nat

definition sdk_code :: "sdk_error \<Rightarrow> string option" where
  "sdk_code e =
     (case e of
        BusError _ c \<Rightarrow> c
      | SessionNotFound _ \<Rightarrow> Some ''SESSION_NOT_FOUND''
      | _ \<Rightarrow> None)"

section \<open>The handshake\<close>

definition handshake_message :: "string option \<Rightarrow> client_codec list \<Rightarrow> client_message" where
  "handshake_message r prefs =
     SetMeta r (if prefs = [] then None else Some (map codec_as_str prefs))"

definition negotiate_message :: "client_codec list \<Rightarrow> client_message" where
  "negotiate_message prefs = SetMeta None (Some (map codec_as_str prefs))"

definition do_negotiate :: "codec_error + server_message option \<Rightarrow> sdk_error + client_codec" where
  "do_negotiate response =
     (case response of
        Inl e \<Rightarrow> Inl (BusCodec e)
      | Inr (Some (CodecSet c _)) \<Rightarrow>
          Inr (case codec_from_str c of Some x \<Rightarrow> x | None \<Rightarrow> CJson)
      | Inr _ \<Rightarrow> Inr CJson)"

text \<open>The first outcome is kept; a later negotiation does not ask again.\<close>

definition cached_negotiate ::
  "(unit \<Rightarrow> sdk_error + client_codec) \<Rightarrow> client_codec option \<Rightarrow> (sdk_error + client_codec) \<times> client_codec option" where
  "cached_negotiate ask cached =
     (case cached of
        Some c \<Rightarrow> (Inr c, Some c)
      | None \<Rightarrow>
          (case ask () of
             Inl e \<Rightarrow> (Inl e, None)
           | Inr c \<Rightarrow> (Inr c, Some c)))"

definition connect_with_role ::
  "client_codec \<Rightarrow> codec_error + server_message option \<Rightarrow> sdk_error + unit" where
  "connect_with_role want response =
     (case response of
        Inl e \<Rightarrow> Inl (BusCodec e)
      | Inr (Some (CodecSet c _)) \<Rightarrow>
          if c \<noteq> codec_as_str want
          then Inl (BusError (''codec mismatch: bus chose '' @ c @ '' but requested '' @ codec_as_str want)
                      (Some ''CODEC_MISMATCH''))
          else Inr ()
      | Inr _ \<Rightarrow> Inr ())"

section \<open>Requests and their replies\<close>

type_synonym replies = "(codec_error + server_message) list"

fun await_reply :: "(server_message \<Rightarrow> 'a option) \<Rightarrow> sdk_error + 'a \<Rightarrow> replies \<Rightarrow> sdk_error + 'a" where
  "await_reply pick at_end [] = at_end"
| "await_reply pick at_end (Inl e # rs) = Inl (BusCodec e)"
| "await_reply pick at_end (Inr m # rs) =
     (case pick m of
        Some a \<Rightarrow> Inr a
      | None \<Rightarrow>
          (case m of
             Error _ txt code \<Rightarrow> Inl (BusError txt (Some code))
           | _ \<Rightarrow> await_reply pick at_end rs))"

definition sdk_publish :: "string \<Rightarrow> chunk \<Rightarrow> client_message" where
  "sdk_publish sid c = Publish sid c"

definition sdk_publish_direct :: "string \<Rightarrow> string \<Rightarrow> chunk \<Rightarrow> client_message" where
  "sdk_publish_direct target sid c =
     Publish sid (as_transient (with_annotation CAFE_DIRECT_TO (JStr target) c))"

definition sdk_create_session ::
  "string \<Rightarrow> string \<Rightarrow> session_config \<Rightarrow> client_message \<times> (replies \<Rightarrow> sdk_error + unit)" where
  "sdk_create_session sid aid config =
     (CreateSession sid aid config,
      await_reply (\<lambda>m. case m of SessionCreated _ _ \<Rightarrow> Some () | _ \<Rightarrow> None) (Inr ()))"

definition sdk_delete_session :: "string \<Rightarrow> client_message \<times> (replies \<Rightarrow> sdk_error + unit)" where
  "sdk_delete_session sid =
     (DeleteSession sid,
      await_reply (\<lambda>m. case m of SessionDeleted _ \<Rightarrow> Some () | _ \<Rightarrow> None) (Inr ()))"

definition sdk_fork_session ::
  "string \<Rightarrow> string \<Rightarrow> session_config \<Rightarrow> client_message \<times> (replies \<Rightarrow> sdk_error + string)" where
  "sdk_fork_session parent sid config =
     (ForkSession parent sid config,
      await_reply (\<lambda>m. case m of SessionForked _ s \<Rightarrow> Some s | _ \<Rightarrow> None) (Inr sid))"

definition sdk_set_tags :: "string \<Rightarrow> string list \<Rightarrow> client_message \<times> (replies \<Rightarrow> sdk_error + unit)" where
  "sdk_set_tags sid ts =
     (SetSessionTags sid ts,
      await_reply (\<lambda>m. case m of SessionTagsUpdated _ _ \<Rightarrow> Some () | _ \<Rightarrow> None) (Inr ()))"

definition sdk_list_sessions :: "client_message \<times> (replies \<Rightarrow> sdk_error + session_info list)" where
  "sdk_list_sessions =
     (ListSessions, await_reply (\<lambda>m. case m of SessionsList infos \<Rightarrow> Some infos | _ \<Rightarrow> None) (Inr []))"

fun collect_history :: "chunk list \<Rightarrow> replies \<Rightarrow> sdk_error + chunk list" where
  "collect_history acc [] = Inr acc"
| "collect_history acc (Inl e # rs) = Inl (BusCodec e)"
| "collect_history acc (Inr m # rs) =
     (case m of
        Chunk _ c \<Rightarrow> collect_history (acc @ [c]) rs
      | HistoryComplete _ _ \<Rightarrow> Inr acc
      | Error _ txt code \<Rightarrow> Inl (BusError txt (Some code))
      | _ \<Rightarrow> collect_history acc rs)"

definition sdk_get_history :: "string \<Rightarrow> client_message \<times> (replies \<Rightarrow> sdk_error + chunk list)" where
  "sdk_get_history sid = (Subscribe sid, collect_history [])"

text \<open>A ping takes no notice of error messages.\<close>

fun await_pong :: "replies \<Rightarrow> sdk_error + unit" where
  "await_pong [] = Inl TimedOut"
| "await_pong (Inl e # rs) = Inl (BusCodec e)"
| "await_pong (Inr m # rs) = (if m = Pong then Inr () else await_pong rs)"

definition sdk_ping :: "client_message \<times> (replies \<Rightarrow> sdk_error + unit)" where
  "sdk_ping = (Ping, await_pong)"

text \<open>
  The reading task of a subscription hands every message on until the stream ends or an error; it
  also ends when the receiving side has been dropped, after so many messages.
\<close>

fun subscription_feed :: "nat option \<Rightarrow> replies \<Rightarrow> server_message list" where
  "subscription_feed dropped_after [] = []"
| "subscription_feed dropped_after (Inl e # rs) = []"
| "subscription_feed dropped_after (Inr m # rs) =
     (case dropped_after of
        Some 0 \<Rightarrow> []
      | Some (Suc n) \<Rightarrow> m # subscription_feed (Some n) rs
      | None \<Rightarrow> m # subscription_feed None rs)"

section \<open>Waiting and reconnecting\<close>

text \<open>
  \<open>wait_for_bus\<close>: attempt number \<open>k\<close> succeeds when \<open>up k\<close>; the result comes with the number of
  pauses made.
\<close>

function wait_from :: "(nat \<Rightarrow> bool) \<Rightarrow> nat \<Rightarrow> nat \<Rightarrow> nat \<Rightarrow> (sdk_error + unit) \<times> nat" where
  "wait_from up max_retries attempt pauses =
     (if max_retries < attempt then (Inl (BusNotReady max_retries), pauses)
      else if up attempt then (Inr (), pauses)
      else if attempt < max_retries then wait_from up max_retries (Suc attempt) (Suc pauses)
      else (Inl (BusNotReady max_retries), pauses))"
  by pat_completeness auto
termination by (relation "measure (\<lambda>(_, max_retries, attempt, _). Suc max_retries - attempt)") auto

declare wait_from.simps [simp del]

definition wait_for_bus :: "(nat \<Rightarrow> bool) \<Rightarrow> nat \<Rightarrow> (sdk_error + unit) \<times> nat" where
  "wait_for_bus up max_retries = wait_from up max_retries 1 0"

text \<open>
  \<open>run_with_reconnect\<close>: the outcomes of the operation, in order, give the delays slept and
  whether the loop has ended.
\<close>

fun reconnect_from :: "nat \<Rightarrow> (string + unit) list \<Rightarrow> nat list \<times> bool" where
  "reconnect_from delay [] = ([], False)"
| "reconnect_from delay (Inr _ # rs) = ([], True)"
| "reconnect_from delay (Inl e # rs) =
     (case reconnect_from (min (delay * 2) 30) rs of (ds, ended) \<Rightarrow> (delay # ds, ended))"

definition run_with_reconnect :: "(string + unit) list \<Rightarrow> nat list \<times> bool" where
  "run_with_reconnect outcomes = reconnect_from 1 outcomes"

section \<open>Announcing a schema\<close>

definition SCHEMA_SESSION :: string where "SCHEMA_SESSION = ''__schema__''"

text \<open>Given what creating the schema session returned: the chunk published, or the error.\<close>

definition announce_schema ::
  "string \<Rightarrow> int \<Rightarrow> evaluator_schema \<Rightarrow> sdk_error + unit \<Rightarrow> sdk_error + client_message" where
  "announce_schema uuid now_ms schema created =
     (let go = Inr (Publish SCHEMA_SESSION
            (with_annotation CAFE_SCHEMA_EVALUATOR (schema_to_json schema) (new_null uuid now_ms ''cafe-sdk'')))
      in case created of
           Inr _ \<Rightarrow> go
         | Inl e \<Rightarrow> (case e of
              BusError _ (Some c) \<Rightarrow> if c = ''SESSION_EXISTS'' then go else Inl e
            | _ \<Rightarrow> Inl e))"

section \<open>The client and the bus agree on the codec\<close>

fun wire_of :: "client_codec \<Rightarrow> wire_codec" where
  "wire_of CJson = JsonLineCodec"
| "wire_of CBincode = BincodeLengthPrefixCodec"

definition first_choice :: "client_codec list \<Rightarrow> client_codec" where
  "first_choice prefs = (case prefs of [] \<Rightarrow> CJson | p # _ \<Rightarrow> p)"

lemma codec_name_wire [simp]: "codec_name (wire_of c) = codec_as_str c"
  by (cases c) simp_all

lemma codec_from_as [simp]: "codec_from_str (codec_as_str c) = Some c"
  by (cases c) (simp_all add: codec_from_str_def)

lemma select_codec_prefs: "select_codec (map codec_as_str prefs) = wire_of (first_choice prefs)"
proof (cases prefs)
  case (Cons p ps)
  then show ?thesis by (cases p) (simp_all add: first_choice_def)
qed (simp add: first_choice_def)

lemma negotiated_handshake:
  "negotiated (handshake_message r prefs) = (wire_of (first_choice prefs), if prefs = [] then None else r)"
  by (simp add: handshake_message_def negotiated_def select_codec_prefs) (simp add: first_choice_def)

lemma initial_response_handshake:
  "initial_response conn (handshake_message r prefs)
     = (if prefs = [] then Connected conn else CodecSet (codec_as_str (first_choice prefs)) conn)"
  by (simp add: initial_response_def handshake_message_def negotiated_def select_codec_prefs)

lemma initial_response_negotiate:
  "initial_response conn (negotiate_message prefs) = CodecSet (codec_as_str (first_choice prefs)) conn"
  by (simp add: initial_response_def negotiate_message_def negotiated_def select_codec_prefs)

text \<open>
  Client and bus agree on the codec.  Whatever codecs a client prefers, the codec it
  learns from its first negotiation is its first preference, every later handshake accepts it, and
  it is the one in which the bus reads and writes that connection from then on; the role is taken
  over unless the client has no preferences.
\<close>

theorem sdk_negotiation_agrees:
  "do_negotiate (Inr (Some (initial_response conn (negotiate_message prefs)))) = Inr (first_choice prefs)
   \<and> connect_with_role (first_choice prefs) (Inr (Some (initial_response conn' (handshake_message r prefs)))) = Inr ()
   \<and> negotiated (handshake_message r prefs) = (wire_of (first_choice prefs), if prefs = [] then None else r)"
  by (simp add: do_negotiate_def connect_with_role_def initial_response_negotiate initial_response_handshake
      negotiated_handshake)

section \<open>Operations carried out by the bus\<close>

text \<open>
  A short-lived connection: it is accepted and negotiated, the request is handled, and the client
  reads what the bus sent after its greeting; a frame in another codec does not decode, and a
  handler that panics closes the connection.
\<close>

definition readable :: "client_codec \<Rightarrow> wire_codec \<times> server_message \<Rightarrow> codec_error + server_message" where
  "readable want f =
     (if fst f = wire_of want then Inr (snd f) else Inl (CodecDeserialize ''frame of another codec''))"

definition sdk_exchange ::
  "(nat \<Rightarrow> env) \<Rightarrow> client_codec list \<Rightarrow> string option \<Rightarrow> client_codec \<Rightarrow> client_message \<Rightarrow> bus
    \<Rightarrow> (sdk_error + replies) \<times> bus" where
  "sdk_exchange es prefs r want msg b =
     (let (conn, b1) = accept_connection (\<lambda>_. False) b;
          (codec, b2) = negotiate (es 0) conn (handshake_message r prefs) b1
      in case connect_with_role want (Inr (case sent b2 conn of [] \<Rightarrow> None | f # _ \<Rightarrow> Some (snd f))) of
           Inl err \<Rightarrow> (Inl err, b2)
         | Inr _ \<Rightarrow>
             (case handle_message (es 1) codec conn msg b2 of
                Panicked b3 \<Rightarrow> (Inr [], b3)
              | Running b3 \<Rightarrow> (Inr (map (readable want) (drop (length (sent b2 conn)) (sent b3 conn))), b3)))"

definition sdk_call ::
  "(nat \<Rightarrow> env) \<Rightarrow> client_codec list \<Rightarrow> string option \<Rightarrow> client_message \<times> (replies \<Rightarrow> sdk_error + 'a) \<Rightarrow> bus
    \<Rightarrow> (sdk_error + 'a) \<times> bus" where
  "sdk_call es prefs r req b =
     (case sdk_exchange es prefs r (first_choice prefs) (fst req) b of
        (Inl err, b') \<Rightarrow> (Inl err, b')
      | (Inr rs, b') \<Rightarrow> (snd req rs, b'))"

definition all_encode :: "(nat \<Rightarrow> env) \<Rightarrow> bool" where
  "all_encode es \<longleftrightarrow> (\<forall>k c m. e_encodes (es k) c m)"

text \<open>After the handshake: a reliable connection that was sent one frame, over the same registry.\<close>

lemma after_handshake:
  assumes "all_encode es"
  obtains b2 where
    "negotiate (es 0) (fst (accept_connection (\<lambda>_. False) b)) (handshake_message r prefs)
        (snd (accept_connection (\<lambda>_. False) b)) = (wire_of (first_choice prefs), b2)"
    "reg b2 = reg b" "reliable b2 (fst (accept_connection (\<lambda>_. False) b))"
    "sent b2 (fst (accept_connection (\<lambda>_. False) b))
       = [(JsonLineCodec, initial_response (fst (accept_connection (\<lambda>_. False) b)) (handshake_message r prefs))]"
proof -
  let ?conn = "fst (accept_connection (\<lambda>_. False) b)"
  let ?b1 = "apply_negotiated_role (snd (negotiated (handshake_message r prefs))) ?conn
      (snd (accept_connection (\<lambda>_. False) b))"
  let ?m = "initial_response ?conn (handshake_message r prefs)"
  let ?b2 = "snd (send_msg (es 0) JsonLineCodec ?conn ?m ?b1)"
  have w: "writers ?b1 = writers (snd (accept_connection (\<lambda>_. False) b))" "reg ?b1 = reg b"
    by (auto simp: apply_negotiated_role_def accept_connection_def Let_def split: option.splits)
  then have "reliable ?b1 ?conn" "sent ?b1 ?conn = []"
    by (auto simp: reliable_def sent_def accept_connection_def Let_def kv_simps)
  then have "reliable ?b2 ?conn" "sent ?b2 ?conn = [(JsonLineCodec, ?m)]"
    using send_msg_reliable [of ?b1 ?conn "es 0" JsonLineCodec ?m] assms by (auto simp: all_encode_def)
  moreover have "negotiate (es 0) ?conn (handshake_message r prefs) (snd (accept_connection (\<lambda>_. False) b))
      = (wire_of (first_choice prefs), ?b2)"
    by (simp add: negotiate_def Let_def negotiated_handshake)
  ultimately show thesis using w(2) by (intro that [of ?b2]) simp_all
qed

text \<open>The call of a request whose handler runs: the reply function is given what the handler sent.\<close>

lemma sdk_call_run:
  assumes "all_encode es"
  obtains conn b2 where "reg b2 = reg b" "reliable b2 conn"
    "sdk_call es prefs r req b =
       (case handle_message (es 1) (wire_of (first_choice prefs)) conn (fst req) b2 of
          Panicked b3 \<Rightarrow> (snd req [], b3)
        | Running b3 \<Rightarrow>
            (snd req (map (readable (first_choice prefs)) (drop (length (sent b2 conn)) (sent b3 conn))), b3))"
proof -
  let ?conn = "fst (accept_connection (\<lambda>_. False) b)"
  obtain b2 where b2: "negotiate (es 0) ?conn (handshake_message r prefs) (snd (accept_connection (\<lambda>_. False) b))
        = (wire_of (first_choice prefs), b2)" "reg b2 = reg b" "reliable b2 ?conn"
      "sent b2 ?conn = [(JsonLineCodec, initial_response ?conn (handshake_message r prefs))]"
    using after_handshake [OF assms, of b r prefs] by blast
  have c: "connect_with_role (first_choice prefs) (Inr (Some (initial_response ?conn (handshake_message r prefs)))) = Inr ()"
    by (simp add: connect_with_role_def initial_response_handshake)
  obtain conn b1 where a: "accept_connection (\<lambda>_. False) b = (conn, b1)" by force
  have "sdk_exchange es prefs r (first_choice prefs) (fst req) b =
       (case handle_message (es 1) (wire_of (first_choice prefs)) conn (fst req) b2 of
          Panicked b3 \<Rightarrow> (Inr [], b3)
        | Running b3 \<Rightarrow>
            (Inr (map (readable (first_choice prefs)) (drop (length (sent b2 conn)) (sent b3 conn))), b3))"
    using b2 c by (simp add: sdk_exchange_def a)
  then show thesis
    using b2 a by (intro that [of b2 conn]) (simp_all add: sdk_call_def split: outcome.split)
qed

lemma readable_sent [simp]: "readable c (wire_of c, m) = Inr m"
  by (simp add: readable_def)

lemma send_error_reliable:
  "reliable b a \<Longrightarrow> e_encodes e c (Error i x k) \<Longrightarrow>
     sent (send_error e c a i x k b) a = sent b a @ [(c, Error i x k)]"
  by (auto simp: send_error_def reliable_def send_bytes_def sent_def kv_simps)

lemma collect_history_chunks:
  "collect_history acc (map Inr (map (Chunk sid) cs) @ rs) = collect_history (acc @ cs) rs"
  by (induction cs arbitrary: acc) simp_all

text \<open>A history cut off by the end of the connection is returned like a complete one.\<close>

lemma cut_off_history_is_returned: "collect_history [] (map Inr (map (Chunk sid) cs)) = Inr cs"
  using collect_history_chunks [of "[]" sid cs "[]"] by simp

lemma handle_subscribe_histories:
  "map_option history (registry_get (reg (handle_subscribe e codec conn sid b)) x)
     = map_option history (registry_get (reg b) x)"
proof (cases "registry_get (reg b) sid")
  case None
  then show ?thesis by (simp add: handle_subscribe_def cancel_scheduled_deletion_def)
next
  case (Some s)
  obtain p s1 where a: "add_subscriber conn (conn_role b conn) s = (p, s1)" by force
  then have h: "history s1 = history s" by (auto simp: add_subscriber_def)
  obtain v s2 where d: "drain_retained (e_now e) s1 = (v, s2)" by force
  have "history s2 = history s" using drain_retained_frame(8) [OF d] h by simp
  then show ?thesis using Some
    by (auto simp: handle_subscribe_def cancel_scheduled_deletion_def a d Let_def reg_simps
        split: prod.splits dest!: send_msg_result(1))
qed

text \<open>
  C13: Reading a history through the client.  On a connection that does not fail,
  \<open>get_history\<close> returns exactly the history of the session followed by its unexpired retained chunks, whatever
  codec was negotiated, and leaves every history as it was; for an unknown session it returns the
  bus's error with its code.
\<close>

theorem sdk_history_reads_session:
  assumes "all_encode es"
  shows "fst (sdk_call es prefs r (sdk_get_history sid) b) =
      (case registry_get (reg b) sid of
         None \<Rightarrow> Inl (BusError (not_found sid) (Some ''SESSION_NOT_FOUND''))
       | Some s \<Rightarrow> Inr (history s @ map fst (filter (\<lambda>(_, d). e_now (es 1) < d) (retained s))))
    \<and> map_option history (registry_get (reg (snd (sdk_call es prefs r (sdk_get_history sid) b))) x)
       = map_option history (registry_get (reg b) x)"
proof -
  let ?c = "wire_of (first_choice prefs)"
  obtain conn b2 where b2: "reg b2 = reg b" "reliable b2 conn"
    and run: "sdk_call es prefs r (sdk_get_history sid) b =
       (collect_history [] (map (readable (first_choice prefs))
          (drop (length (sent b2 conn)) (sent (handle_subscribe (es 1) ?c conn sid b2) conn))),
        handle_subscribe (es 1) ?c conn sid b2)"
    by (rule sdk_call_run [OF assms, where b = b and r = r and prefs = prefs and req = "sdk_get_history sid"]) (auto simp: sdk_get_history_def)
  have enc: "\<forall>m. e_encodes (es 1) ?c m" using assms by (simp add: all_encode_def)
  have "fst (sdk_call es prefs r (sdk_get_history sid) b) =
      (case registry_get (reg b) sid of
         None \<Rightarrow> Inl (BusError (not_found sid) (Some ''SESSION_NOT_FOUND''))
       | Some s \<Rightarrow> Inr (history s @ map fst (filter (\<lambda>(_, d). e_now (es 1) < d) (retained s))))"
  proof (cases "registry_get (reg b) sid")
    case None
    then have "handle_subscribe (es 1) ?c conn sid b2
        = send_error (es 1) ?c conn (Some sid) (not_found sid) ''SESSION_NOT_FOUND'' b2"
      by (simp add: handle_subscribe_def cancel_scheduled_deletion_def b2)
    then show ?thesis using None run send_error_reliable [OF b2(2)] enc by simp
  next
    case (Some s)
    let ?ret = "map fst (filter (\<lambda>(_, d). e_now (es 1) < d) (retained s))"
    have "sent (handle_subscribe (es 1) ?c conn sid b2) conn = sent b2 conn @ map (Pair ?c)
        (map (Chunk sid) (history s @ ?ret) @ [HistoryComplete sid (length (history s) + length ?ret)])"
      using handle_subscribe_reliable(3) [OF _ b2(2) enc, of sid s] Some b2(1) by simp
    then have "map (readable (first_choice prefs))
          (drop (length (sent b2 conn)) (sent (handle_subscribe (es 1) ?c conn sid b2) conn))
        = map Inr (map (Chunk sid) (history s @ ?ret))
          @ [Inr (HistoryComplete sid (length (history s) + length ?ret))]"
      by simp
    then show ?thesis using Some run by (simp only: fst_conv collect_history_chunks) simp
  qed
  then show ?thesis using run by (simp add: handle_subscribe_histories b2(1))
qed

text \<open>The default environment of the demonstrations encodes everything.\<close>

theorem sdk_history_reads_session_witness:
  "fst (sdk_call (\<lambda>_. demo_env 5) [CBincode, CJson] None (sdk_get_history ''p'') demo_bus)
     = Inr [demo_text ''a'', demo_text ''y'']"
proof -
  let ?s = "session_new ''p'' ''chat''
        \<lparr>history := [demo_text ''a''], retained := [(demo_text ''x'', 3), (demo_text ''y'', 9)]\<rparr>"
  have s: "registry_get (reg demo_bus) ''p'' = Some ?s"
    by (simp add: registry_get_def demo_bus_def demo_registry_def)
  have "all_encode (\<lambda>_. demo_env 5)" by (simp add: all_encode_def)
  then show ?thesis using sdk_history_reads_session [of "\<lambda>_. demo_env 5" "[CBincode, CJson]" None "''p''" demo_bus] s
    by (simp add: demo_env_def)
qed

text \<open>What the handlers of the confirmed operations send, and what becomes of the registry.\<close>

lemma create_session_replies:
  assumes "reliable b conn" and "\<forall>m. e_encodes e codec m"
  shows "\<exists>b' m. handle_create_session e codec conn sid aid config b = Running b'
     \<and> sent b' conn = sent b conn @ [(codec, m)]
     \<and> (m = SessionCreated sid aid \<and> registry_get (reg b) sid = None
          \<and> map_option agent_id (registry_get (reg b') sid) = Some aid
        \<or> (\<exists>i txt code. m = Error i txt code) \<and> reg b' = reg b)"
proof (cases "case cfg_tags config of None \<Rightarrow> Inr () | Some ts \<Rightarrow> validate_tags (e_dbg e) ts")
  case (Inl err)
  then show ?thesis
    using assms send_error_reliable [OF assms(1)] by (simp add: handle_create_session_def)
next
  case (Inr u)
  show ?thesis
  proof (cases "registry_contains (reg b) sid")
    case True
    then show ?thesis
      using Inr assms send_error_reliable [OF assms(1)] by (simp add: handle_create_session_def)
  next
    case False
    obtain st where st: "initial_session e sid aid config = Some st" "session_id st = sid" "agent_id st = aid"
      by (simp add: initial_session_eq session_new_def)
    let ?b1 = "b\<lparr>reg := registry_insert st (reg b)\<rparr>"
    have "handle_create_session e codec conn sid aid config b
        = Running (snd (send_msg e codec conn (SessionCreated sid aid) ?b1))"
      using Inr False st by (simp add: handle_create_session_def)
    then show ?thesis
      using send_msg_reliable [of ?b1 conn e codec "SessionCreated sid aid"] assms False st
      by (simp add: reg_simps registry_contains_get)
  qed
qed

lemma set_tags_replies:
  assumes "reliable b conn" and "\<forall>m. e_encodes e codec m"
  shows "\<exists>b' m. handle_set_session_tags e codec conn sid ts b = Running b'
     \<and> sent b' conn = sent b conn @ [(codec, m)]
     \<and> (m = SessionTagsUpdated sid ts \<and> map_option tags (registry_get (reg b') sid) = Some ts
        \<or> (\<exists>i txt code. m = Error i txt code) \<and> reg b' = reg b)"
proof (cases "validate_tags (e_dbg e) ts")
  case (Inl err)
  then show ?thesis
    using assms send_error_reliable [OF assms(1)] by (simp add: handle_set_session_tags_def)
next
  case (Inr u)
  show ?thesis
  proof (cases "registry_get (reg b) sid")
    case None
    then show ?thesis
      using Inr assms send_error_reliable [OF assms(1)] by (simp add: handle_set_session_tags_def)
  next
    case (Some s)
    let ?c = "make_tags_chunk (e_uuid e 0) (e_clock_ms e 0) ts"
    let ?s' = "(tx_send ?c (s\<lparr>history := history s @ [?c]\<rparr>))\<lparr>tags := ts\<rparr>"
    let ?b1 = "b\<lparr>reg := snd (set_tags sid ts (registry_put sid ?s' (reg b)))\<rparr>"
    have "handle_set_session_tags e codec conn sid ts b
        = Running (snd (send_msg e codec conn (SessionTagsUpdated sid ts) ?b1))"
      using Inr Some by (simp add: handle_set_session_tags_def publish_plain Let_def)
    then show ?thesis
      using send_msg_reliable [of ?b1 conn e codec "SessionTagsUpdated sid ts"] assms
      by (simp add: reg_simps)
  qed
qed

lemma delete_session_replies:
  fixes sid :: string
  assumes "reliable b conn" and "\<forall>m. e_encodes e codec m"
  defines "b' \<equiv> handle_delete_session e codec conn sid b"
  shows "\<exists>m. sent b' conn = sent b conn @ [(codec, m)]
     \<and> (m = SessionDeleted sid \<and> registry_get (reg b) sid \<noteq> None
          \<and> registry_get (reg b') = (registry_get (reg b))(sid := None)
        \<or> (\<exists>i txt code. m = Error i txt code) \<and> registry_get (reg b') = registry_get (reg b))"
proof -
  obtain removed r where r: "registry_remove sid (reg b) = (removed, r)" by force
  then have g: "registry_get r = (registry_get (reg b))(sid := None)"
    "removed \<longleftrightarrow> registry_get (reg b) sid \<noteq> None"
    using get_remove [of sid "reg b"] by (auto simp: registry_remove_def Let_def registry_contains_get)
  let ?b1 = "b\<lparr>reg := r\<rparr>"
  have "reliable ?b1 conn" "sent ?b1 conn = sent b conn" using assms(1) by simp_all
  then show ?thesis
    using send_msg_reliable [of ?b1 conn e codec "SessionDeleted sid"] send_error_reliable [of ?b1 conn e codec]
      assms(2) r g
    by (cases removed) (auto simp: b'_def handle_delete_session_def fun_eq_iff)
qed

lemma fork_session_replies:
  fixes parent sid :: string
  assumes "reliable b conn" and "\<forall>m. e_encodes e codec m"
  defines "b' \<equiv> handle_fork_session e codec conn parent sid b"
  shows "\<exists>m. sent b' conn = sent b conn @ [(codec, m)]
     \<and> (m = SessionForked parent sid \<and> registry_get (reg b) sid = None
          \<and> map_option parent_id (registry_get (reg b') sid) = Some (Some parent)
        \<or> (\<exists>i txt code. m = Error i txt code) \<and> registry_get (reg b') = registry_get (reg b))"
proof -
  obtain res r where f: "registry_fork (e_now e) (e_uuid e 0) (e_clock_ms e 0) parent sid (reg b) = (res, r)"
    by force
  let ?b1 = "b\<lparr>reg := r\<rparr>"
  have b1: "reliable ?b1 conn" "sent ?b1 conn = sent b conn" using assms(1) by simp_all
  show ?thesis
  proof (cases res)
    case (Inl err)
    then have "r = reg b"
      using f by (auto simp: registry_fork_def Let_def split: if_splits option.splits prod.splits)
    then show ?thesis
      using Inl f b1 send_error_reliable [OF b1(1), of e codec] assms(2)
      by (cases err) (auto simp: b'_def handle_fork_session_def)
  next
    case (Inr new)
    then obtain p where p: "registry_get (reg b) sid = None" "registry_get (reg b) parent = Some p"
      using f by (auto simp: registry_fork_def registry_contains_get Let_def split: if_splits option.splits prod.splits)
    then have "map_option parent_id (registry_get r sid) = Some (Some parent)"
      using f by (auto simp: registry_fork_def registry_contains_get Let_def reg_simps seed_def session_new_def
          split: prod.splits)
    then show ?thesis
      using Inr f p b1 send_msg_reliable [OF b1(1), of e codec "SessionForked parent sid"] assms(2)
      by (simp add: b'_def handle_fork_session_def)
  qed
qed

lemma sdk_call_reply:
  assumes "all_encode es"
    and "\<And>e codec conn b2. reliable b2 conn \<Longrightarrow> \<forall>m. e_encodes e codec m \<Longrightarrow> reg b2 = reg b \<Longrightarrow>
      \<exists>b3 m. handle_message e codec conn (fst req) b2 = Running b3 \<and> sent b3 conn = sent b2 conn @ [(codec, m)]
        \<and> P m (reg b3)"
  obtains m b3 where "sdk_call es prefs r req b = (snd req [Inr m], b3)" "P m (reg b3)"
proof -
  let ?c = "wire_of (first_choice prefs)"
  obtain conn b2 where b2: "reg b2 = reg b" "reliable b2 conn"
    and run: "sdk_call es prefs r req b =
       (case handle_message (es 1) ?c conn (fst req) b2 of
          Panicked b3 \<Rightarrow> (snd req [], b3)
        | Running b3 \<Rightarrow>
            (snd req (map (readable (first_choice prefs)) (drop (length (sent b2 conn)) (sent b3 conn))), b3))"
    by (rule sdk_call_run [OF assms(1), where b = b and r = r and prefs = prefs and req = req]) auto
  have "\<forall>m. e_encodes (es 1) ?c m" using assms(1) by (simp add: all_encode_def)
  from assms(2) [OF b2(2) this b2(1)]
  obtain b3 m where "handle_message (es 1) ?c conn (fst req) b2 = Running b3"
    "sent b3 conn = sent b2 conn @ [(?c, m)]" "P m (reg b3)" by blast
  with run show thesis by (intro that [of m b3]) simp_all
qed

text \<open>
  What a client is told is what happened.  On a connection that does not fail, creating,
  deleting, forking and tagging a session return success exactly when the bus carried the
  operation out, and otherwise an error with the bus's code and an unchanged registry.
\<close>

theorem sdk_reports_outcome:
  assumes "all_encode es"
  shows "(case sdk_call es prefs r (sdk_create_session sid aid config) b of
      (Inr _, b') \<Rightarrow> registry_get (reg b) sid = None \<and> map_option agent_id (registry_get (reg b') sid) = Some aid
    | (Inl err, b') \<Rightarrow> sdk_code err \<noteq> None \<and> registry_get (reg b') = registry_get (reg b))
  \<and> (case sdk_call es prefs r (sdk_delete_session sid) b of
      (Inr _, b') \<Rightarrow> registry_get (reg b) sid \<noteq> None \<and> registry_get (reg b') = (registry_get (reg b))(sid := None)
    | (Inl err, b') \<Rightarrow> sdk_code err \<noteq> None \<and> registry_get (reg b') = registry_get (reg b))
  \<and> (case sdk_call es prefs r (sdk_fork_session parent sid config) b of
      (Inr new, b') \<Rightarrow> new = sid \<and> registry_get (reg b) sid = None
        \<and> map_option parent_id (registry_get (reg b') sid) = Some (Some parent)
    | (Inl err, b') \<Rightarrow> sdk_code err \<noteq> None \<and> registry_get (reg b') = registry_get (reg b))
  \<and> (case sdk_call es prefs r (sdk_set_tags sid ts) b of
      (Inr _, b') \<Rightarrow> map_option tags (registry_get (reg b') sid) = Some ts
    | (Inl err, b') \<Rightarrow> sdk_code err \<noteq> None \<and> registry_get (reg b') = registry_get (reg b))"
proof (intro conjI)
  show "case sdk_call es prefs r (sdk_create_session sid aid config) b of
      (Inr _, b') \<Rightarrow> registry_get (reg b) sid = None \<and> map_option agent_id (registry_get (reg b') sid) = Some aid
    | (Inl err, b') \<Rightarrow> sdk_code err \<noteq> None \<and> registry_get (reg b') = registry_get (reg b)"
    by (rule sdk_call_reply [OF assms, where P = "\<lambda>m r'. m = SessionCreated sid aid \<and> registry_get (reg b) sid = None
          \<and> map_option agent_id (registry_get r' sid) = Some aid
        \<or> (\<exists>i txt code. m = Error i txt code) \<and> r' = reg b"
        and prefs = prefs and r = r and req = "sdk_create_session sid aid config" and b = b])
       (use create_session_replies [where sid = sid and aid = aid and config = config] in
          \<open>(fastforce simp: sdk_create_session_def sdk_code_def)+\<close>)
  show "case sdk_call es prefs r (sdk_delete_session sid) b of
      (Inr _, b') \<Rightarrow> registry_get (reg b) sid \<noteq> None \<and> registry_get (reg b') = (registry_get (reg b))(sid := None)
    | (Inl err, b') \<Rightarrow> sdk_code err \<noteq> None \<and> registry_get (reg b') = registry_get (reg b)"
    by (rule sdk_call_reply [OF assms, where P = "\<lambda>m r'. m = SessionDeleted sid \<and> registry_get (reg b) sid \<noteq> None
          \<and> registry_get r' = (registry_get (reg b))(sid := None)
        \<or> (\<exists>i txt code. m = Error i txt code) \<and> registry_get r' = registry_get (reg b)"
        and prefs = prefs and r = r and req = "sdk_delete_session sid" and b = b])
       (use delete_session_replies [where sid = sid] in \<open>(fastforce simp: sdk_delete_session_def sdk_code_def)+\<close>)
  show "case sdk_call es prefs r (sdk_fork_session parent sid config) b of
      (Inr new, b') \<Rightarrow> new = sid \<and> registry_get (reg b) sid = None
        \<and> map_option parent_id (registry_get (reg b') sid) = Some (Some parent)
    | (Inl err, b') \<Rightarrow> sdk_code err \<noteq> None \<and> registry_get (reg b') = registry_get (reg b)"
    by (rule sdk_call_reply [OF assms, where P = "\<lambda>m r'. m = SessionForked parent sid \<and> registry_get (reg b) sid = None
          \<and> map_option parent_id (registry_get r' sid) = Some (Some parent)
        \<or> (\<exists>i txt code. m = Error i txt code) \<and> registry_get r' = registry_get (reg b)"
        and prefs = prefs and r = r and req = "sdk_fork_session parent sid config" and b = b])
       (use fork_session_replies [where sid = sid and parent = parent] in \<open>(fastforce simp: sdk_fork_session_def sdk_code_def)+\<close>)
  show "case sdk_call es prefs r (sdk_set_tags sid ts) b of
      (Inr _, b') \<Rightarrow> map_option tags (registry_get (reg b') sid) = Some ts
    | (Inl err, b') \<Rightarrow> sdk_code err \<noteq> None \<and> registry_get (reg b') = registry_get (reg b)"
    by (rule sdk_call_reply [OF assms, where P = "\<lambda>m r'. m = SessionTagsUpdated sid ts
          \<and> map_option tags (registry_get r' sid) = Some ts
        \<or> (\<exists>i txt code. m = Error i txt code) \<and> r' = reg b"
        and prefs = prefs and r = r and req = "sdk_set_tags sid ts" and b = b])
       (use set_tags_replies [where sid = sid and ts = ts] in \<open>(fastforce simp: sdk_set_tags_def sdk_code_def)+\<close>)
qed

theorem sdk_reports_outcome_witness:
  "sdk_code (case fst (sdk_call (\<lambda>_. demo_env 5) [] None (sdk_delete_session ''none'') bus_new) of
      Inl err \<Rightarrow> err | Inr _ \<Rightarrow> TimedOut) \<noteq> None"
proof -
  have "all_encode (\<lambda>_. demo_env 5)" by (simp add: all_encode_def)
  moreover have "registry_get (reg bus_new) ''none'' = None" by (simp add: bus_new_def reg_simps)
  moreover obtain x b' where "sdk_call (\<lambda>_. demo_env 5) [] None (sdk_delete_session ''none'') bus_new = (x, b')"
    by force
  ultimately show ?thesis
    using sdk_reports_outcome [where es = "\<lambda>_. demo_env 5" and prefs = "[]" and r = None
        and sid = "''none''" and b = bus_new]
    by (cases x) simp_all
qed

section \<open>Retries are bounded\<close>

lemma reconnect_from_eq:
  "d \<le> 30 \<Longrightarrow> reconnect_from d rs =
     (map (\<lambda>k. min (d * 2 ^ k) 30) [0..<length (takeWhile (\<lambda>x. x \<noteq> Inr ()) rs)], Inr () \<in> set rs)"
proof (induction d rs rule: reconnect_from.induct)
  case (3 d e rs)
  have "min (min (d * 2) 30 * 2 ^ k) 30 = min (d * 2 ^ Suc k) (30::nat)" for k
  proof (cases "d * 2 \<le> 30")
    case False
    have "d * 2 * 1 \<le> d * 2 * 2 ^ k" by (intro mult_le_mono2) simp
    with False have "30 \<le> d * 2 * 2 ^ k" by linarith
    then have "min (30 * 2 ^ k) 30 = (30::nat)" "min (d * 2 * 2 ^ k) 30 = (30::nat)"
      by (simp_all only: min_absorb2) (auto intro!: min_absorb2)
    with False show ?thesis by (simp add: mult.assoc)
  qed (simp add: mult.assoc)
  moreover have "[0..<Suc n] = 0 # map Suc [0..<n]" for n by (simp add: map_Suc_upt upt_conv_Cons)
  ultimately show ?case using 3 by (simp del: upt_Suc power_Suc)
qed simp_all

lemma wait_from_eq:
  "attempt \<le> n \<Longrightarrow> wait_from up n attempt p =
     (case List.find up [attempt..<Suc n] of
        Some k \<Rightarrow> (Inr (), p + (k - attempt))
      | None \<Rightarrow> (Inl (BusNotReady n), p + (n - attempt)))"
proof (induction up n attempt p rule: wait_from.induct)
  case (1 up n attempt p)
  have k: "List.find up [Suc attempt..<Suc n] = Some k \<Longrightarrow> Suc attempt \<le> k" for k
    by (auto dest: find_mem)
  show ?case
  proof (cases "up attempt \<or> attempt = n")
    case True
    with 1 show ?thesis by (auto simp: wait_from.simps [of up n attempt] upt_conv_Cons simp del: upt_Suc)
  next
    case False
    with 1 have "wait_from up n (Suc attempt) (Suc p) =
        (case List.find up [Suc attempt..<Suc n] of
          Some k \<Rightarrow> (Inr (), Suc p + (k - Suc attempt))
        | None \<Rightarrow> (Inl (BusNotReady n), Suc p + (n - Suc attempt)))"
      by simp
    with False 1 k show ?thesis
      by (auto simp: wait_from.simps [of up n attempt] upt_conv_Cons simp del: upt_Suc split: option.splits)
  qed
qed

text \<open>
  Retrying is bounded.  Waiting for the bus makes at most the given number of attempts, one
  pause between two of them, and succeeds at the first that connects; the reconnecting loop sleeps
  after the \<open>k\<close>-th failure for the smaller of \<open>2 ^ k\<close> and 30 seconds, and ends exactly when an
  attempt ends cleanly.
\<close>

theorem retries_bounded:
  "wait_for_bus up n =
     (case List.find up [1..<Suc n] of
        Some k \<Rightarrow> (Inr (), k - 1)
      | None \<Rightarrow> (Inl (BusNotReady n), n - 1))
   \<and> run_with_reconnect rs =
     (map (\<lambda>k. min (2 ^ k) 30) [0..<length (takeWhile (\<lambda>x. x \<noteq> Inr ()) rs)], Inr () \<in> set rs)"
proof -
  have "wait_for_bus up n =
     (case List.find up [1..<Suc n] of Some k \<Rightarrow> (Inr (), k - 1) | None \<Rightarrow> (Inl (BusNotReady n), n - 1))"
  proof (cases n)
    case 0
    then show ?thesis by (simp add: wait_for_bus_def wait_from.simps)
  next
    case (Suc m)
    then show ?thesis by (simp add: wait_for_bus_def wait_from_eq del: upt_Suc split: option.split)
  qed
  then show ?thesis by (simp add: run_with_reconnect_def reconnect_from_eq del: upt_Suc)
qed

end
