(* ===== verification/Persistence.thy ===== *)
theory Persistence
  imports Client_Sdk "HOL-Library.Countable"
begin

text \<open>
  Persistence of sessions, \<open>cafe-store/src\<close>: the two tables (\<open>db.rs\<close>) with the effect of every SQL
  statement, the loop over the messages of the store's subscription, and the restoring of sessions
  after a restart of the bus (\<open>bus_client.rs\<close>).  The tables do not fail.  JSON columns are kept as
  text; writing and reading them is serde's and an argument.

  The second half puts the store beside the bus: its rows follow the histories of the sessions, and
  it shows where they do not.
\<close>

section \<open>Tables\<close>

record json_columns =
  enc_tags :: "string list \<Rightarrow> string"
  dec_tags :: "string \<Rightarrow> string list option"
  enc_annotations :: "(string, json) kv \<Rightarrow> string"
  dec_annotations :: "string \<Rightarrow> (string, json) kv option"

record session_row =
  sr_agent_id :: string
  sr_is_background :: bool
  sr_display_name :: "string option"
  sr_tags :: string
  sr_ui_mode :: string
  sr_created_at :: int
  sr_updated_at :: int

record chunk_row =
  cr_id :: string
  cr_session :: string
  cr_type :: string
  cr_content :: "string option"
  cr_data :: "byte list option"
  cr_mime_type :: "string option"
  cr_producer :: string
  cr_annotations :: string
  cr_timestamp :: int
  cr_seq :: int

record store_db =
  db_sessions :: "(string, session_row) kv"
  db_chunks :: "chunk_row list"

definition fresh_row :: "json_columns \<Rightarrow> int \<Rightarrow> string \<Rightarrow> bool \<Rightarrow> string \<Rightarrow> session_row" where
  "fresh_row d now aid background tags_text =
     \<lparr>sr_agent_id = aid, sr_is_background = background, sr_display_name = None, sr_tags = tags_text,
      sr_ui_mode = ''chat'', sr_created_at = now, sr_updated_at = now\<rparr>"

definition ensure_session :: "json_columns \<Rightarrow> int \<Rightarrow> string \<Rightarrow> store_db \<Rightarrow> store_db" where
  "ensure_session d now sid db =
     (if kv_contains (db_sessions db) sid then db
      else db\<lparr>db_sessions := kv_insert sid (fresh_row d now ''unknown'' False ''[]'') (db_sessions db)\<rparr>)"

definition set_session_tags :: "json_columns \<Rightarrow> int \<Rightarrow> string \<Rightarrow> string list \<Rightarrow> store_db \<Rightarrow> store_db" where
  "set_session_tags d now sid ts db =
     db\<lparr>db_sessions := kv_adjust sid (\<lambda>r. r\<lparr>sr_tags := enc_tags d ts, sr_updated_at := now\<rparr>) (db_sessions db)\<rparr>"

definition upsert_session_with_tags ::
  "json_columns \<Rightarrow> int \<Rightarrow> string \<Rightarrow> string \<Rightarrow> bool \<Rightarrow> string list \<Rightarrow> store_db \<Rightarrow> store_db" where
  "upsert_session_with_tags d now sid aid background ts db =
     (case kv_get (db_sessions db) sid of
        None \<Rightarrow>
          db\<lparr>db_sessions := kv_insert sid (fresh_row d now aid background (enc_tags d ts)) (db_sessions db)\<rparr>
      | Some r \<Rightarrow>
          db\<lparr>db_sessions := kv_insert sid
              (r\<lparr>sr_agent_id := aid, sr_is_background := background, sr_tags := enc_tags d ts,
                 sr_updated_at := now\<rparr>) (db_sessions db)\<rparr>)"

definition upsert_session :: "json_columns \<Rightarrow> int \<Rightarrow> string \<Rightarrow> string \<Rightarrow> bool \<Rightarrow> store_db \<Rightarrow> store_db" where
  "upsert_session d now sid aid background db = upsert_session_with_tags d now sid aid background [] db"

text \<open>Foreign keys are enforced: the rows of a deleted session go with it.\<close>

definition db_delete_session :: "string \<Rightarrow> store_db \<Rightarrow> store_db" where
  "db_delete_session sid db =
     db\<lparr>db_sessions := kv_remove sid (db_sessions db),
        db_chunks := filter (\<lambda>r. cr_session r \<noteq> sid) (db_chunks db)\<rparr>"

definition db_list_sessions :: "json_columns \<Rightarrow> store_db \<Rightarrow> session_info list" where
  "db_list_sessions d db =
     map (\<lambda>(sid, r). \<lparr>si_session_id = sid, si_agent_id = sr_agent_id r, si_display_name = sr_display_name r,
            si_tags = (case dec_tags d (sr_tags r) of Some ts \<Rightarrow> ts | None \<Rightarrow> []),
            si_is_background = sr_is_background r, si_ui_mode = sr_ui_mode r,
            si_message_count = length (filter (\<lambda>c. cr_session c = sid) (db_chunks db)),
            si_created_at = sr_created_at r, si_parent_id = None\<rparr>)
       (sort_key (\<lambda>(_, r). - sr_created_at r) (db_sessions db))"

fun type_to_db :: "content_type \<Rightarrow> string" where
  "type_to_db Text = ''text''"
| "type_to_db Binary = ''binary''"
| "type_to_db BinaryRef = ''binary-ref''"
| "type_to_db Null = ''null''"

definition type_from_db :: "string \<Rightarrow> content_type" where
  "type_from_db s =
     (if s = ''text'' then Text else if s = ''binary'' then Binary
      else if s = ''binary-ref'' then BinaryRef else Null)"

definition next_seq :: "string \<Rightarrow> store_db \<Rightarrow> int" where
  "next_seq sid db = fold max (map cr_seq (filter (\<lambda>r. cr_session r = sid) (db_chunks db))) (- 1) + 1"

definition chunk_row_of :: "json_columns \<Rightarrow> string \<Rightarrow> int \<Rightarrow> chunk \<Rightarrow> chunk_row" where
  "chunk_row_of d sid seq c =
     \<lparr>cr_id = chunk_id c, cr_session = sid, cr_type = type_to_db (chunk_type c), cr_content = content c,
      cr_data = chunk_data c, cr_mime_type = mime_type c, cr_producer = producer c,
      cr_annotations = enc_annotations d (annotations c), cr_timestamp = timestamp c, cr_seq = seq\<rparr>"

text \<open>A row that clashes on its id, or on its place in the session, is ignored.\<close>

definition insert_chunk :: "json_columns \<Rightarrow> string \<Rightarrow> chunk \<Rightarrow> store_db \<Rightarrow> string + store_db" where
  "insert_chunk d sid c db =
     (let seq = next_seq sid db
      in if list_ex (\<lambda>r. cr_id r = chunk_id c \<or> cr_session r = sid \<and> cr_seq r = seq) (db_chunks db)
         then Inr db
         else if \<not> kv_contains (db_sessions db) sid then Inl ''FOREIGN KEY constraint failed''
         else Inr (db\<lparr>db_chunks := db_chunks db @ [chunk_row_of d sid seq c]\<rparr>))"

definition db_delete_chunk :: "string \<Rightarrow> string \<Rightarrow> store_db \<Rightarrow> store_db" where
  "db_delete_chunk sid cid db =
     db\<lparr>db_chunks := filter (\<lambda>r. \<not> (cr_id r = cid \<and> cr_session r = sid)) (db_chunks db)\<rparr>"

definition chunk_of_row :: "json_columns \<Rightarrow> chunk_row \<Rightarrow> chunk" where
  "chunk_of_row d r =
     \<lparr>chunk_id = cr_id r, chunk_type = type_from_db (cr_type r), content = cr_content r,
      chunk_data = cr_data r, mime_type = cr_mime_type r, producer = cr_producer r,
      annotations = (case dec_annotations d (cr_annotations r) of Some a \<Rightarrow> a | None \<Rightarrow> []),
      timestamp = cr_timestamp r\<rparr>"

definition load_history :: "json_columns \<Rightarrow> string \<Rightarrow> store_db \<Rightarrow> chunk list" where
  "load_history d sid db =
     map (chunk_of_row d) (sort_key cr_seq (filter (\<lambda>r. cr_session r = sid) (db_chunks db)))"

definition session_count :: "store_db \<Rightarrow> nat" where "session_count db = length (db_sessions db)"
definition chunk_count :: "store_db \<Rightarrow> nat" where "chunk_count db = length (db_chunks db)"

section \<open>The message loop\<close>

definition store_filter :: subscribe_filter where
  "store_filter = default_filter\<lparr>f_annotations := Some [(''cafe.transient'', JBool False)]\<rparr>"

definition store_message :: "json_columns \<Rightarrow> int \<Rightarrow> server_message \<Rightarrow> store_db \<Rightarrow> store_db" where
  "store_message d now m db =
     (case m of
        SessionCreated sid aid \<Rightarrow> upsert_session d now sid aid False db
      | SessionDeleted sid \<Rightarrow> db_delete_session sid db
      | Chunk sid c \<Rightarrow>
          if get_annotation as_str CAFE_FLOW_SIGNAL c = Some ''delete''
          then (case get_annotation as_str FLOW_TARGET_CHUNK_ID c of
                  Some target \<Rightarrow> db_delete_chunk sid target db
                | None \<Rightarrow> db)
          else (let db1 = ensure_session d now sid db
                in case insert_chunk d sid c db1 of
                     Inr db2 \<Rightarrow> db2
                   | Inl _ \<Rightarrow> db1)
      | SessionTagsUpdated sid ts \<Rightarrow> set_session_tags d now sid ts (ensure_session d now sid db)
      | _ \<Rightarrow> db)"

definition store_run :: "json_columns \<Rightarrow> (int \<times> server_message) list \<Rightarrow> store_db \<Rightarrow> store_db" where
  "store_run d = fold (\<lambda>(now, m). store_message d now m)"

section \<open>Restoring\<close>

text \<open>
  The requests of a restore, given the outcomes of the client's operations in the order they are
  made: a session that the bus has is skipped, one that cannot be created is given up, and so is
  the rest of a history after a failed publish.
\<close>

fun replay_chunks :: "(nat \<Rightarrow> sdk_error option) \<Rightarrow> nat \<Rightarrow> string \<Rightarrow> chunk list \<Rightarrow> client_message list \<times> nat" where
  "replay_chunks outcome n sid [] = ([], n)"
| "replay_chunks outcome n sid (c # cs) =
     (case outcome n of
        Some e \<Rightarrow> ([Publish sid c], Suc n)
      | None \<Rightarrow> (case replay_chunks outcome (Suc n) sid cs of (ms, n') \<Rightarrow> (Publish sid c # ms, n')))"

definition restored_config :: "session_info \<Rightarrow> session_config" where
  "restored_config i =
     default_session_config\<lparr>cfg_tags := (if si_tags i = [] then None else Some (si_tags i))\<rparr>"

fun restore_sessions ::
  "json_columns \<Rightarrow> store_db \<Rightarrow> (nat \<Rightarrow> sdk_error option) \<Rightarrow> nat \<Rightarrow> string list \<Rightarrow> session_info list
    \<Rightarrow> client_message list" where
  "restore_sessions d db outcome n on_bus [] = []"
| "restore_sessions d db outcome n on_bus (i # is) =
     (if si_session_id i \<in> set on_bus then restore_sessions d db outcome n on_bus is
      else let create = CreateSession (si_session_id i) (si_agent_id i) (restored_config i)
           in case outcome n of
                Some e \<Rightarrow> create # restore_sessions d db outcome (Suc n) on_bus is
              | None \<Rightarrow>
                  (case replay_chunks outcome (Suc n) (si_session_id i) (load_history d (si_session_id i) db) of
                     (ms, n') \<Rightarrow> create # ms @ restore_sessions d db outcome n' on_bus is))"

definition restore_from_db ::
  "json_columns \<Rightarrow> store_db \<Rightarrow> (nat \<Rightarrow> sdk_error option) \<Rightarrow> sdk_error + session_info list \<Rightarrow> client_message list" where
  "restore_from_db d db outcome listed =
     (if db_list_sessions d db = [] then []
      else case listed of
             Inl e \<Rightarrow> []
           | Inr infos \<Rightarrow> restore_sessions d db outcome 0 (map si_session_id infos) (db_list_sessions d db))"

section \<open>The tables stay well formed\<close>

text \<open>What serde documents of the two JSON columns.\<close>

definition columns_ok :: "json_columns \<Rightarrow> bool" where
  "columns_ok d \<longleftrightarrow> (\<forall>ts. dec_tags d (enc_tags d ts) = Some ts) \<and> dec_tags d ''[]'' = Some []
     \<and> (\<forall>a. dec_annotations d (enc_annotations d a) = Some a)"

text \<open>
  Sessions are keyed by their ids, every chunk row belongs to a session, ids of chunks are unique
  over all sessions, and the places within a session increase in the order of insertion.
\<close>

definition rows_of :: "string \<Rightarrow> store_db \<Rightarrow> chunk_row list" where
  "rows_of sid db = filter (\<lambda>r. cr_session r = sid) (db_chunks db)"

definition db_ok :: "store_db \<Rightarrow> bool" where
  "db_ok db \<longleftrightarrow> kv_wf (db_sessions db)
     \<and> (\<forall>r \<in> set (db_chunks db). kv_contains (db_sessions db) (cr_session r))
     \<and> distinct (map cr_id (db_chunks db))
     \<and> (\<forall>sid. sorted_wrt (<) (map cr_seq (rows_of sid db)))"

definition empty_db :: store_db where
  "empty_db = \<lparr>db_sessions = [], db_chunks = []\<rparr>"

lemma db_ok_empty [simp]: "db_ok empty_db"
  by (simp add: db_ok_def empty_db_def rows_of_def kv_simps)

lemma fold_max_bound: "x \<in> set xs \<Longrightarrow> x \<le> fold max xs (a::int)" "a \<le> fold max xs (a::int)"
proof (induction xs arbitrary: a)
  case (Cons y ys)
  { case 1 then show ?case using Cons.IH(1) [of "max y a"] Cons.IH(2) [of "max y a"] by auto }
  { case 2 then show ?case using Cons.IH(2) [of "max y a"] by simp }
qed simp_all

lemma next_seq_above: "r \<in> set (rows_of sid db) \<Longrightarrow> cr_seq r < next_seq sid db"
  using fold_max_bound(1) [of "cr_seq r" "map cr_seq (rows_of sid db)" "- 1"]
  by (simp add: next_seq_def rows_of_def)

lemma sorted_wrt_map_filter: "sorted_wrt P (map f xs) \<Longrightarrow> sorted_wrt P (map f (filter Q xs))"
  by (induction xs) auto

lemma db_ok_filter:
  assumes "db_ok db" and "kv_wf ss" and "\<forall>r \<in> set (db_chunks db). Q r \<longrightarrow> kv_contains ss (cr_session r)"
  shows "db_ok (db\<lparr>db_sessions := ss, db_chunks := filter Q (db_chunks db)\<rparr>)"
proof -
  have "rows_of sid (db\<lparr>db_sessions := ss, db_chunks := filter Q (db_chunks db)\<rparr>) = filter Q (rows_of sid db)" for sid
    by (simp add: rows_of_def conj_commute)
  then show ?thesis
    using assms by (simp add: db_ok_def distinct_map_filter sorted_wrt_map_filter)
qed

lemma db_ok_sessions:
  "db_ok db \<Longrightarrow> kv_wf ss \<Longrightarrow> \<forall>k. kv_contains (db_sessions db) k \<longrightarrow> kv_contains ss k \<Longrightarrow>
     db_ok (db\<lparr>db_sessions := ss\<rparr>)"
  by (auto simp: db_ok_def rows_of_def)

lemma db_ok_ensure [simp]: "db_ok db \<Longrightarrow> db_ok (ensure_session d now sid db)"
  by (auto simp: ensure_session_def kv_contains_def kv_simps db_ok_def rows_of_def)

lemma db_ok_set_tags [simp]: "db_ok db \<Longrightarrow> db_ok (set_session_tags d now sid ts db)"
  unfolding set_session_tags_def
  by (rule db_ok_sessions) (auto simp: db_ok_def kv_contains_def kv_simps)

lemma db_ok_upsert [simp]: "db_ok db \<Longrightarrow> db_ok (upsert_session_with_tags d now sid aid bg ts db)"
  by (auto simp: upsert_session_with_tags_def db_ok_def rows_of_def kv_contains_def kv_simps split: option.split)

lemma db_ok_delete_session [simp]: "db_ok db \<Longrightarrow> db_ok (db_delete_session sid db)"
  unfolding db_delete_session_def
  by (rule db_ok_filter) (auto simp: db_ok_def kv_contains_def kv_simps)

lemma db_ok_delete_chunk [simp]: "db_ok db \<Longrightarrow> db_ok (db_delete_chunk sid cid db)"
  using db_ok_filter [of db "db_sessions db" "\<lambda>r. \<not> (cr_id r = cid \<and> cr_session r = sid)"]
  by (simp add: db_delete_chunk_def) (simp add: db_ok_def)

lemma db_ok_insert:
  assumes "db_ok db" and "insert_chunk d sid c db = Inr db'"
  shows "db_ok db'"
proof (cases "db' = db")
  case False
  let ?r = "chunk_row_of d sid (next_seq sid db) c"
  have new: "db' = db\<lparr>db_chunks := db_chunks db @ [?r]\<rparr>" "kv_contains (db_sessions db) sid"
    "chunk_id c \<notin> cr_id ` set (db_chunks db)"
    using assms(2) False by (auto simp: insert_chunk_def Let_def list_ex_iff split: if_splits)
  have "\<forall>r \<in> set (rows_of sid db). cr_seq r < next_seq sid db" using next_seq_above by blast
  then show ?thesis
    using assms(1) new by (auto simp: db_ok_def rows_of_def chunk_row_of_def sorted_wrt_append)
qed (use assms in simp)

lemma db_ok_message: "db_ok db \<Longrightarrow> db_ok (store_message d now m db)"
  by (auto simp: store_message_def upsert_session_def Let_def
      split: server_message.split option.split sum.split dest: db_ok_insert [OF db_ok_ensure])

lemma db_ok_run: "db_ok db \<Longrightarrow> db_ok (store_run d ms db)"
  by (induction ms arbitrary: db) (auto simp: store_run_def db_ok_message split: prod.split)

section \<open>Loading what was stored\<close>

lemma type_db_roundtrip [simp]: "type_from_db (type_to_db t) = t"
  by (cases t) (simp_all add: type_from_db_def)

lemma chunk_row_roundtrip: "columns_ok d \<Longrightarrow> chunk_of_row d (chunk_row_of d sid seq c) = c"
  by (simp add: chunk_of_row_def chunk_row_of_def columns_ok_def)

lemma load_history_rows: "db_ok db \<Longrightarrow> load_history d sid db = map (chunk_of_row d) (rows_of sid db)"
proof -
  assume "db_ok db"
  then have "sorted (map cr_seq (rows_of sid db))"
    by (simp add: db_ok_def strict_sorted_imp_sorted)
  then show ?thesis by (simp add: load_history_def rows_of_def sort_key_id_if_sorted)
qed

text \<open>
  The tables stay well formed.  Whatever messages the store has received since its file was
  new, sessions are keyed by their ids, every chunk belongs to a stored session, no two rows share
  an id, and the places within a session strictly increase, so a history loads in the order in
  which it was stored.
\<close>

theorem store_stays_well_formed:
  "db_ok (store_run d ms empty_db)
   \<and> load_history d sid (store_run d ms empty_db) = map (chunk_of_row d) (rows_of sid (store_run d ms empty_db))"
  using db_ok_run [OF db_ok_empty] by (simp add: load_history_rows)

definition stored_ids :: "store_db \<Rightarrow> string set" where
  "stored_ids db = cr_id ` set (db_chunks db)"

lemma ensure_chunks [simp]: "db_chunks (ensure_session d now sid db) = db_chunks db"
  by (simp add: ensure_session_def)

lemma ensure_contains [simp]: "kv_contains (db_sessions (ensure_session d now sid db)) sid"
  by (simp add: ensure_session_def kv_contains_def kv_simps)

lemma rows_of_ensure [simp]: "rows_of sid' (ensure_session d now sid db) = rows_of sid' db"
  by (simp add: rows_of_def)

lemma load_history_ensure [simp]: "load_history d' sid' (ensure_session d now sid db) = load_history d' sid' db"
  by (simp add: load_history_def)

lemma insert_fresh:
  assumes "chunk_id c \<notin> stored_ids db" and "kv_contains (db_sessions db) sid"
  shows "insert_chunk d sid c db = Inr (db\<lparr>db_chunks := db_chunks db @ [chunk_row_of d sid (next_seq sid db) c]\<rparr>)"
proof -
  have "r \<in> set (db_chunks db) \<Longrightarrow> cr_session r = sid \<Longrightarrow> cr_seq r \<noteq> next_seq sid db" for r
    using next_seq_above [of r sid db] by (auto simp: rows_of_def)
  then have "\<not> list_ex (\<lambda>r. cr_id r = chunk_id c \<or> cr_session r = sid \<and> cr_seq r = next_seq sid db) (db_chunks db)"
    using assms(1) by (auto simp: list_ex_iff stored_ids_def image_iff)
  then show ?thesis using assms(2) by (simp add: insert_chunk_def Let_def)
qed

lemma insert_stored: "chunk_id c \<in> stored_ids db \<Longrightarrow> insert_chunk d sid c db = Inr db"
  by (auto simp: insert_chunk_def Let_def list_ex_iff stored_ids_def)

definition signals_delete :: "chunk \<Rightarrow> bool" where
  "signals_delete c \<longleftrightarrow> get_annotation as_str CAFE_FLOW_SIGNAL c = Some ''delete''"

lemma signals_delete_target:
  "delete_target c = (if signals_delete c then get_annotation as_str FLOW_TARGET_CHUNK_ID c else None)"
  by (simp add: delete_target_def signals_delete_def get_annotation_def)

text \<open>What a chunk message does to the stored history of its session, and to the set of stored ids.\<close>

lemma store_chunk_history:
  fixes sid :: string and now :: int
  assumes "columns_ok d" and "db_ok db" and "\<not> signals_delete c"
  defines "db' \<equiv> store_message d now (Chunk sid c) db"
  shows "load_history d sid db' = load_history d sid db @ (if chunk_id c \<in> stored_ids db then [] else [c])"
    and "stored_ids db' = insert (chunk_id c) (stored_ids db)"
proof -
  let ?e = "ensure_session d now sid db"
  have e: "stored_ids ?e = stored_ids db" by (simp add: stored_ids_def)
  have ok: "db_ok db'" using db_ok_message [OF assms(2)] by (simp add: db'_def)
  show "load_history d sid db' = load_history d sid db @ (if chunk_id c \<in> stored_ids db then [] else [c])"
  proof (cases "chunk_id c \<in> stored_ids db")
    case True
    then have "db' = ?e"
      using assms(3) insert_stored [of c ?e d sid] e by (simp add: db'_def store_message_def signals_delete_def Let_def)
    then show ?thesis using True by simp
  next
    case False
    then have db': "db' = ?e\<lparr>db_chunks := db_chunks db @ [chunk_row_of d sid (next_seq sid ?e) c]\<rparr>"
      using assms(3) insert_fresh [of c ?e sid d] e by (simp add: db'_def store_message_def signals_delete_def Let_def)
    have "rows_of sid db' = rows_of sid db @ [chunk_row_of d sid (next_seq sid ?e) c]"
      by (simp add: db' rows_of_def chunk_row_of_def)
    then show ?thesis
      using False load_history_rows [OF ok] load_history_rows [OF assms(2)] chunk_row_roundtrip [OF assms(1)] by simp
  qed
  show "stored_ids db' = insert (chunk_id c) (stored_ids db)"
  proof (cases "chunk_id c \<in> stored_ids db")
    case True
    then show ?thesis
      using assms(3) insert_stored [of c ?e d sid] e
      by (auto simp: db'_def store_message_def signals_delete_def Let_def)
  next
    case False
    then show ?thesis
      using assms(3) insert_fresh [of c ?e sid d] e
      by (simp add: db'_def store_message_def signals_delete_def Let_def) (simp add: stored_ids_def chunk_row_of_def)
  qed
qed

lemma store_delete_history:
  fixes sid :: string and now :: int and d :: json_columns
  assumes "db_ok db" and "signals_delete c" and "get_annotation as_str FLOW_TARGET_CHUNK_ID c = Some t"
  defines "db' \<equiv> store_message d now (Chunk sid c) db"
  shows "load_history d sid db' = filter (\<lambda>x. chunk_id x \<noteq> t) (load_history d sid db)"
    and "stored_ids db' \<subseteq> stored_ids db"
proof -
  have db': "db' = db_delete_chunk sid t db"
    using assms(2,3) by (simp add: db'_def store_message_def signals_delete_def Let_def)
  have "rows_of sid db' = filter (\<lambda>r. cr_id r \<noteq> t) (rows_of sid db)"
    by (simp add: db' db_delete_chunk_def rows_of_def) (rule filter_cong, auto)
  then show "load_history d sid db' = filter (\<lambda>x. chunk_id x \<noteq> t) (load_history d sid db)"
    using load_history_rows [OF assms(1)] load_history_rows [of db'] db_ok_delete_chunk [OF assms(1)]
    by (simp add: db' filter_map o_def chunk_of_row_def)
  show "stored_ids db' \<subseteq> stored_ids db" by (auto simp: db' db_delete_chunk_def stored_ids_def)
qed

section \<open>The store follows the histories\<close>

text \<open>
  The bus and the store agree on what is lasting and what is a deletion when the transient mark is
  a Boolean, and a delete signal is lasting and names its target.
\<close>

definition mirrored :: "chunk \<Rightarrow> bool" where
  "mirrored c \<longleftrightarrow> (case annotation c CAFE_TRANSIENT of None \<Rightarrow> True | Some v \<Rightarrow> as_bool v \<noteq> None)
     \<and> (if signals_delete c then \<not> is_transient c \<and> get_annotation as_str FLOW_TARGET_CHUNK_ID c \<noteq> None else True)"

lemma store_filter_passes: "mirrored c \<Longrightarrow> passes (Some store_filter) c \<longleftrightarrow> \<not> is_transient c"
  by (auto simp: mirrored_def passes_def chunk_matches_filter_def store_filter_def default_filter_def is_transient_def
      split: option.splits if_splits elim!: as_bool.elims)

definition delivered :: "(instant \<Rightarrow> int) \<Rightarrow> string \<Rightarrow> (instant \<times> chunk) list \<Rightarrow> (int \<times> server_message) list" where
  "delivered clk sid ps = map (\<lambda>(t, c). (clk t, Chunk sid c)) (filter (\<lambda>(t, c). passes (Some store_filter) c) ps)"

text \<open>
  C12: The store mirrors the bus.  When the rows of a session agree with its history, then after
  any publishes, of which the store's filtered subscription delivers its share, they agree again:
  lasting chunks are appended in order, deleted ones are gone, and transient ones never get there.
  The chunks published must have new ids, and be marked the way both sides read the same.
\<close>

theorem store_mirrors_history:
  assumes "columns_ok d" and "db_ok db" and "load_history d sid db = history s"
    and "publish_all ps s = Some s'" and "\<forall>c \<in> snd ` set ps. mirrored c"
    and "distinct (map chunk_id (filter durable (map snd ps)))"
    and "\<forall>c \<in> set (filter durable (map snd ps)). chunk_id c \<notin> stored_ids db"
  shows "load_history d sid (store_run d (delivered clk sid ps) db) = history s'"
  using assms(2-7)
proof (induction ps arbitrary: s db)
  case Nil
  then show ?case by (simp add: delivered_def store_run_def)
next
  case (Cons p ps)
  obtain t c where p: "p = (t, c)" by (cases p)
  with Cons.prems(3) obtain s1 where s1: "session_publish t c s = Some s1" "publish_all ps s1 = Some s'"
    by (auto split: option.splits)
  have m: "mirrored c" "\<forall>c \<in> snd ` set ps. mirrored c" using Cons.prems(4) p by auto
  let ?db1 = "if is_transient c then db else store_message d (clk t) (Chunk sid c) db"
  have run: "store_run d (delivered clk sid (p # ps)) db = store_run d (delivered clk sid ps) ?db1"
    using store_filter_passes [OF m(1)] by (simp add: delivered_def store_run_def p)
  have ok: "db_ok ?db1" using Cons.prems(1) by (simp add: db_ok_message)
  have "load_history d sid ?db1 = history s1 \<and> (\<forall>x \<in> set (filter durable (map snd ps)). chunk_id x \<notin> stored_ids ?db1)"
  proof (cases "signals_delete c")
    case True
    then obtain target where target: "get_annotation as_str FLOW_TARGET_CHUNK_ID c = Some target" "\<not> is_transient c"
      using m(1) by (auto simp: mirrored_def)
    with True have "history s1 = filter (\<lambda>x. chunk_id x \<noteq> target) (history s)"
      using s1(1) by (simp add: session_publish_def signals_delete_target remove_chunk_def Let_def)
        (auto simp: tx_send_def)
    then show ?thesis
      using store_delete_history [OF Cons.prems(1) True target(1), where d = d and sid = sid and now = "clk t"] target(2) Cons.prems(2,6) p
      by (auto split: if_splits)
  next
    case False
    then have h: "history s1 = history s @ (if is_transient c then [] else [c])"
      using s1(1) by (auto simp: session_publish_def signals_delete_target split: option.splits if_splits)
    show ?thesis
    proof (cases "is_transient c")
      case True
      then show ?thesis using h Cons.prems(2,6) p by (auto split: if_splits)
    next
      case nt: False
      then have "durable c" using False by (simp add: durable_def signals_delete_target)
      then show ?thesis
        using store_chunk_history [OF assms(1) Cons.prems(1) False, where sid = sid and now = "clk t"] nt h
          Cons.prems(2,5,6) p
        by (auto simp: image_iff)
    qed
  qed
  moreover have "distinct (map chunk_id (filter durable (map snd ps)))"
    using Cons.prems(5) by (auto split: if_splits)
  ultimately show ?case using Cons.IH [OF ok _ s1(2) m(2)] run by simp
qed

text \<open>Columns that hold any value: its number in an enumeration, in unary.\<close>

instance json_number :: countable by countable_datatype
instance json :: countable by countable_datatype

definition unary_columns :: json_columns where
  "unary_columns =
     \<lparr>enc_tags = (\<lambda>ts. if ts = [] then ''[]'' else replicate (to_nat ts) CHR ''t''),
      dec_tags = (\<lambda>s. if s = ''[]'' then Some [] else Some (from_nat (length s))),
      enc_annotations = (\<lambda>a. replicate (to_nat a) CHR ''a''),
      dec_annotations = (\<lambda>s. Some (from_nat (length s)))\<rparr>"

lemma unary_columns_ok [simp]: "columns_ok unary_columns"
proof -
  have "replicate n CHR ''t'' \<noteq> ''[]''" for n by (cases n) auto
  then show ?thesis by (auto simp: columns_ok_def unary_columns_def)
qed

theorem store_mirrors_history_witness:
  "\<exists>s. publish_all [(0, demo_text ''a''), (1, demo_text ''b''), (2, demo_delete ''a'')]
         (session_new ''s'' ''x'') = Some s
     \<and> load_history unary_columns ''s'' (store_run unary_columns
         (delivered int ''s'' [(0, demo_text ''a''), (1, demo_text ''b''), (2, demo_delete ''a'')]) empty_db) = history s"
proof -
  let ?ps = "[(0, demo_text ''a''), (1, demo_text ''b''), (2, demo_delete ''a'')]"
  obtain s where s: "publish_all ?ps (session_new ''s'' ''x'') = Some s" by (simp add: session_publish_def)
  have e: "load_history unary_columns ''s'' empty_db = history (session_new ''s'' ''x'')"
    by (simp add: load_history_def empty_db_def session_new_def)
  have m: "mirrored (demo_text x)" "mirrored (demo_delete x)" for x
    by (simp_all add: mirrored_def signals_delete_def demo_text_def demo_delete_def get_annotation_def is_transient_def)
  show ?thesis
    using store_mirrors_history [OF unary_columns_ok db_ok_empty e s, where clk = int] m s
    by (simp add: durable_def stored_ids_def empty_db_def)
qed

section \<open>Chunk ids are unique over all sessions\<close>

text \<open>Storing chunks that are no signals keeps those whose id is not stored yet.\<close>

lemma store_new_ids:
  "columns_ok d \<Longrightarrow> db_ok db \<Longrightarrow> list_all (\<lambda>c. \<not> signals_delete c) cs \<Longrightarrow>
   distinct (map chunk_id (filter (\<lambda>c. chunk_id c \<notin> stored_ids db) cs)) \<Longrightarrow>
     load_history d sid (store_run d (map (\<lambda>c. (clk c, Chunk sid c)) cs) db)
       = load_history d sid db @ filter (\<lambda>c. chunk_id c \<notin> stored_ids db) cs"
proof (induction cs arbitrary: db)
  case (Cons c cs)
  let ?db1 = "store_message d (clk c) (Chunk sid c) db"
  note st = store_chunk_history [OF Cons.prems(1,2), where c = c and sid = sid and now = "clk c"]
  have "filter (\<lambda>c. chunk_id c \<notin> stored_ids ?db1) cs = filter (\<lambda>c. chunk_id c \<notin> stored_ids db) cs"
    using st Cons.prems(3,4) by (intro filter_cong) (auto split: if_splits simp: image_iff)
  then show ?case
    using Cons.IH [of ?db1] Cons.prems st db_ok_message [OF Cons.prems(2)]
    by (auto simp: store_run_def split: if_splits)
qed (simp add: store_run_def)

text \<open>
  The history of a fork is not persisted.  A fork holds the chunks of its parent under their
  own ids, and these identify rows over all sessions: when the parent's history is stored, of the
  fork's replay only the provenance chunk gets into the tables, so a restart restores the fork
  without the history that it was forked for.
\<close>

theorem fork_history_not_persisted:
  assumes "columns_ok d" and "db_ok db" and "list_all (\<lambda>c. \<not> signals_delete c) (history s)"
    and "registry_get r p = Some s" and "registry_fork now u t p n r = (Inr n, r')"
    and "chunk_id ` set (history s) \<subseteq> stored_ids db" and "u \<notin> stored_ids db" and "rows_of n db = []"
  shows "\<exists>f. registry_get r' n = Some f \<and> history f = history s @ [provenance_chunk u t p]
     \<and> load_history d n (store_run d ((now', SessionCreated n (agent_id f))
           # map (\<lambda>c. (clk c, Chunk n c)) (filter (passes (Some store_filter)) (history f))) db)
         = [provenance_chunk u t p]"
proof -
  obtain f where f: "registry_get r' n = Some f" "history f = history s @ [provenance_chunk u t p]"
    using assms(4,5)
    by (auto simp: registry_fork_def registry_contains_get seed_def session_new_def Let_def reg_simps
        split: if_splits prod.splits)
  let ?P = "passes (Some store_filter)" and ?pc = "provenance_chunk u t p"
  let ?db1 = "store_message d now' (SessionCreated n (agent_id f)) db"
  have ids: "stored_ids ?db1 = stored_ids db" and rows: "rows_of n ?db1 = rows_of n db"
    by (auto simp: store_message_def upsert_session_def upsert_session_with_tags_def stored_ids_def rows_of_def
        split: option.split)
  have pc: "passes (Some store_filter) ?pc" "\<not> signals_delete ?pc"
    by (simp_all add: passes_def chunk_matches_filter_def store_filter_def default_filter_def signals_delete_def
        get_annotation_def provenance_chunk_def)
  have sig: "list_all (\<lambda>c. \<not> signals_delete c) (filter ?P (history f))"
    using assms(3) pc(2) by (auto simp: f(2) list_all_iff)
  have new: "filter (\<lambda>c. chunk_id c \<notin> stored_ids ?db1) (filter ?P (history f)) = [?pc]"
    using assms(6,7) ids pc(1) by (auto simp: f(2) filter_empty_conv provenance_chunk_def new_null_def with_annotation_def)
  have "load_history d n ?db1 = []"
    using load_history_rows [OF db_ok_message [OF assms(2)]] rows assms(8) by simp
  moreover have "store_run d ((now', SessionCreated n (agent_id f)) # ms) db = store_run d ms ?db1" for ms
    by (simp add: store_run_def)
  ultimately have "load_history d n (store_run d ((now', SessionCreated n (agent_id f))
      # map (\<lambda>c. (clk c, Chunk n c)) (filter ?P (history f))) db) = [?pc]"
    using store_new_ids [OF assms(1) db_ok_message [OF assms(2), of d now' "SessionCreated n (agent_id f)"] sig,
        of n clk] unfolding new by simp
  then show ?thesis using f by (intro exI [of _ f]) simp
qed

theorem fork_history_not_persisted_witness:
  "\<exists>db r' f. load_history unary_columns ''p'' db = [demo_text ''a''] \<and> registry_get r' ''f'' = Some f
     \<and> history f = [demo_text ''a'', provenance_chunk ''u'' 0 ''p'']
     \<and> load_history unary_columns ''f'' (store_run unary_columns ((2, SessionCreated ''f'' (agent_id f))
           # map (\<lambda>c. (3, Chunk ''f'' c)) (filter (passes (Some store_filter)) (history f))) db)
         = [provenance_chunk ''u'' 0 ''p'']"
proof -
  let ?db = "store_run unary_columns (map (\<lambda>c. (1, Chunk ''p'' c)) [demo_text ''a'']) empty_db"
  let ?s = "session_new ''p'' ''chat''
        \<lparr>history := [demo_text ''a''], retained := [(demo_text ''x'', 3), (demo_text ''y'', 9)]\<rparr>"
  have sig: "\<not> signals_delete (demo_text ''a'')"
    by (simp add: signals_delete_def demo_text_def get_annotation_def)
  have ok: "db_ok ?db" by (rule db_ok_run) simp
  have h: "load_history unary_columns ''p'' ?db = [demo_text ''a'']"
    using store_new_ids [OF unary_columns_ok db_ok_empty, of "[demo_text ''a'']" "''p''" "\<lambda>_. 1"] sig
    by (simp add: stored_ids_def empty_db_def load_history_def)
  have db: "stored_ids ?db = {''a''}" "rows_of ''f'' ?db = []"
    by (simp_all add: store_run_def store_message_def insert_chunk_def ensure_session_def empty_db_def stored_ids_def
        rows_of_def chunk_row_of_def kv_simps kv_contains_def Let_def sig [unfolded signals_delete_def])
  have g: "registry_get demo_registry ''p'' = Some ?s" "registry_get demo_registry ''f'' = None"
    by (simp_all add: registry_get_def demo_registry_def)
  obtain r' where r': "registry_fork 5 ''u'' 0 ''p'' ''f'' demo_registry = (Inr ''f'', r')"
    using g by (simp add: registry_fork_def registry_contains_get seed_def session_new_def split_beta Let_def)
  show ?thesis
    using fork_history_not_persisted [OF unary_columns_ok ok _ g(1) r', of 2 "\<lambda>_. 3"] sig db h by auto
qed

section \<open>Stored tags\<close>

definition stored_tags :: "json_columns \<Rightarrow> string \<Rightarrow> store_db \<Rightarrow> string list option" where
  "stored_tags d sid db =
     map_option (\<lambda>r. case dec_tags d (sr_tags r) of Some ts \<Rightarrow> ts | None \<Rightarrow> []) (kv_get (db_sessions db) sid)"

text \<open>What a message says of the tags of a session, as the store reads it.\<close>

fun tags_view :: "string \<Rightarrow> server_message \<Rightarrow> string list option \<Rightarrow> string list option" where
  "tags_view sid (SessionCreated x _) v = (if x = sid then Some [] else v)"
| "tags_view sid (SessionDeleted x) v = (if x = sid then None else v)"
| "tags_view sid (SessionTagsUpdated x ts) v = (if x = sid then Some ts else v)"
| "tags_view sid (Chunk x c) v = (if x = sid \<and> \<not> signals_delete c \<and> v = None then Some [] else v)"
| "tags_view sid _ v = v"

lemma stored_tags_ensure:
  "columns_ok d \<Longrightarrow> stored_tags d sid (ensure_session d now x db)
     = (if x = sid \<and> stored_tags d sid db = None then Some [] else stored_tags d sid db)"
  by (auto simp: stored_tags_def ensure_session_def fresh_row_def columns_ok_def kv_simps kv_contains_def)

lemma stored_tags_sessions: "db_sessions db = db_sessions db' \<Longrightarrow> stored_tags d sid db = stored_tags d sid db'"
  by (simp add: stored_tags_def)

lemma insert_chunk_sessions: "insert_chunk d sid c db = Inr db' \<Longrightarrow> db_sessions db' = db_sessions db"
  by (auto simp: insert_chunk_def Let_def split: if_splits)

lemma stored_tags_message:
  "columns_ok d \<Longrightarrow> stored_tags d sid (store_message d now m db) = tags_view sid m (stored_tags d sid db)"
proof (cases m)
  case (Chunk x c)
  assume d: "columns_ok d"
  show ?thesis
  proof (cases "signals_delete c")
    case True
    then show ?thesis
      by (simp add: Chunk store_message_def signals_delete_def stored_tags_def db_delete_chunk_def split: option.split)
  next
    case False
    have "stored_tags d sid db' = stored_tags d sid (ensure_session d now x db)"
      if "insert_chunk d x c (ensure_session d now x db) = Inr db'" for db'
      using insert_chunk_sessions [OF that] by (rule stored_tags_sessions)
    then show ?thesis
      using False d by (simp add: Chunk store_message_def signals_delete_def Let_def stored_tags_ensure split: sum.split)
  qed
next
  case (SessionCreated x aid)
  assume "columns_ok d"
  then show ?thesis
    by (auto simp: SessionCreated store_message_def upsert_session_def upsert_session_with_tags_def stored_tags_def
        fresh_row_def columns_ok_def kv_simps split: option.split)
next
  case (SessionTagsUpdated x ts)
  assume "columns_ok d"
  then show ?thesis
    by (auto simp: SessionTagsUpdated store_message_def set_session_tags_def stored_tags_def ensure_session_def
        fresh_row_def columns_ok_def kv_simps kv_contains_def)
next
  case (SessionDeleted x)
  assume "columns_ok d"
  then show ?thesis by (auto simp: SessionDeleted store_message_def db_delete_session_def stored_tags_def kv_simps)
qed (simp_all add: store_message_def)

text \<open>
  The tags of a session as stored.  They are those of the last change of tags received since
  the session was last announced, and an announcement clears them: it does not carry the tags a
  session was created with, and every connection of the store to the bus begins with the
  announcements of all sessions.
\<close>

theorem stored_tags_last_update:
  assumes "columns_ok d"
  shows "stored_tags d sid (store_run d ms db) = fold (tags_view sid) (map snd ms) (stored_tags d sid db)"
  using stored_tags_message [OF assms]
  by (induction ms arbitrary: db) (auto simp: store_run_def)

theorem stored_tags_last_update_witness:
  "stored_tags unary_columns ''s'' (store_run unary_columns [(0, SessionTagsUpdated ''s'' [''t'']),
       (1, SessionCreated ''s'' ''chat'')] empty_db) = Some []"
  using stored_tags_last_update [OF unary_columns_ok, of "''s''" "[(0, SessionTagsUpdated ''s'' [''t'']),
       (1, SessionCreated ''s'' ''chat'')]" empty_db] by simp

section \<open>Restoring after a restart of the bus\<close>

text \<open>
  Requests carried out one after another, each on a connection of its own; what else a connection
  does has no bearing on the registry.
\<close>

fun carry_out :: "(nat \<Rightarrow> env) \<Rightarrow> (nat \<Rightarrow> string) \<Rightarrow> nat \<Rightarrow> client_message list \<Rightarrow> bus \<Rightarrow> outcome" where
  "carry_out es conns k [] b = Running b"
| "carry_out es conns k (m # ms) b =
     (case handle_message (es k) JsonLineCodec (conns k) m b of
        Panicked b' \<Rightarrow> Panicked b'
      | Running b' \<Rightarrow> carry_out es conns (Suc k) ms b')"

lemma carry_out_append:
  "carry_out es conns k (ms @ ns) b =
     (case carry_out es conns k ms b of
        Panicked b' \<Rightarrow> Panicked b'
      | Running b' \<Rightarrow> carry_out es conns (k + length ms) ns b')"
  by (induction ms arbitrary: k b) (auto split: outcome.splits)

text \<open>A chunk without the mark of the connection that published it.\<close>

definition unsourced :: "chunk \<Rightarrow> chunk" where
  "unsourced c = with_annotation CAFE_SOURCE_CONNECTION JNull c"

lemma unsourced_sourced [simp]: "unsourced (with_annotation CAFE_SOURCE_CONNECTION v c) = unsourced c"
  by (simp add: unsourced_def with_annotation_def kv_insert_twice)

definition replayable :: "chunk \<Rightarrow> bool" where
  "replayable c \<longleftrightarrow> durable c \<and> get_annotation as_str CAFE_DIRECT_TO c = None"

lemma publish_stored:
  assumes "registry_get (reg b) sid = Some s" and "replayable c"
  shows "\<exists>b' s'. handle_message e codec conn (Publish sid c) b = Running b'
     \<and> registry_get (reg b') = (registry_get (reg b))(sid := Some s')
     \<and> agent_id s' = agent_id s \<and> tags s' = tags s
     \<and> map unsourced (history s') = map unsourced (history s) @ [unsourced c]"
proof -
  let ?c = "with_annotation CAFE_SOURCE_CONNECTION (JStr conn) c"
  have "session_publish (e_now e) ?c s = Some (tx_send ?c (s\<lparr>history := history s @ [?c]\<rparr>))"
    using assms(2) by (intro session_publish_ordinary) (auto simp: replayable_def durable_def delete_target_def)
  then show ?thesis
    using assms by (intro exI [of _ "b\<lparr>reg := registry_put sid (tx_send ?c (s\<lparr>history := history s @ [?c]\<rparr>)) (reg b)\<rparr>"]
      exI [of _ "tx_send ?c (s\<lparr>history := history s @ [?c]\<rparr>)"])
      (simp add: handle_publish_def replayable_def reg_simps Let_def)
qed

lemma carry_publishes:
  "registry_get (reg b) sid = Some s \<Longrightarrow> list_all replayable cs \<Longrightarrow>
     \<exists>b' s'. carry_out es conns k (map (Publish sid) cs) b = Running b'
       \<and> registry_get (reg b') = (registry_get (reg b))(sid := Some s')
       \<and> agent_id s' = agent_id s \<and> tags s' = tags s
       \<and> map unsourced (history s') = map unsourced (history s) @ map unsourced cs"
proof (induction cs arbitrary: b s k)
  case Nil
  then show ?case by (auto simp: fun_upd_idem intro!: exI [of _ s])
next
  case (Cons c cs)
  then obtain b1 s1 where 1: "handle_message (es k) JsonLineCodec (conns k) (Publish sid c) b = Running b1"
      "registry_get (reg b1) = (registry_get (reg b))(sid := Some s1)"
      "agent_id s1 = agent_id s" "tags s1 = tags s"
      "map unsourced (history s1) = map unsourced (history s) @ [unsourced c]"
    using publish_stored [of b sid s c "es k" JsonLineCodec "conns k"] by auto
  have "registry_get (reg b1) sid = Some s1" "list_all replayable cs" using 1(2) Cons.prems(2) by simp_all
  from Cons.IH [OF this, of "Suc k"]
  obtain b2 s2 where "carry_out es conns (Suc k) (map (Publish sid) cs) b1 = Running b2"
      "registry_get (reg b2) = (registry_get (reg b1))(sid := Some s2)"
      "agent_id s2 = agent_id s1" "tags s2 = tags s1"
      "map unsourced (history s2) = map unsourced (history s1) @ map unsourced cs"
    by blast
  with 1 show ?case by (intro exI [of _ b2] exI [of _ s2]) auto
qed

lemma replay_chunks_all: "replay_chunks (\<lambda>_. None) n sid cs = (map (Publish sid) cs, n + length cs)"
  by (induction cs arbitrary: n) simp_all

text \<open>What the bus should hold of a stored session after the restore.\<close>

definition restored :: "json_columns \<Rightarrow> store_db \<Rightarrow> session_info \<Rightarrow> session_state \<Rightarrow> bool" where
  "restored d db i s \<longleftrightarrow> agent_id s = si_agent_id i \<and> tags s = si_tags i
     \<and> (\<exists>marks. map unsourced (history s) = marks @ map unsourced (load_history d (si_session_id i) db)
          \<and> length marks = (if si_tags i = [] then 0 else 1)
          \<and> list_all (\<lambda>c. annotation c SESSION_TAGS = Some (JArr (map JStr (si_tags i)))) marks)"

lemma restore_session:
  assumes "registry_get (reg b) (si_session_id i) = None" and "\<forall>t \<in> set (si_tags i). tag_ok t"
    and "list_all replayable hs"
  shows "\<exists>b' s'. carry_out es conns k (CreateSession (si_session_id i) (si_agent_id i) (restored_config i)
        # map (Publish (si_session_id i)) hs) b = Running b'
     \<and> registry_get (reg b') = (registry_get (reg b))(si_session_id i := Some s')
     \<and> agent_id s' = si_agent_id i \<and> tags s' = si_tags i
     \<and> (\<exists>marks. map unsourced (history s') = marks @ map unsourced hs
          \<and> length marks = (if si_tags i = [] then 0 else 1)
          \<and> list_all (\<lambda>c. annotation c SESSION_TAGS = Some (JArr (map JStr (si_tags i)))) marks)"
proof -
  let ?cfg = "restored_config i" and ?sid = "si_session_id i"
  have "case cfg_tags ?cfg of None \<Rightarrow> True | Some ts \<Rightarrow> \<forall>t \<in> set ts. tag_ok t"
    using assms(2) by (simp add: restored_config_def)
  from create_session_run [OF this assms(1), of "es k" JsonLineCodec "conns k" "si_agent_id i"]
  obtain b1 s1 where 1: "handle_message (es k) JsonLineCodec (conns k) (CreateSession ?sid (si_agent_id i) ?cfg) b
        = Running b1"
      "registry_get (reg b1) = (registry_get (reg b))(?sid := Some s1)"
      "agent_id s1 = si_agent_id i" "tags s1 = si_tags i" "history s1 = config_chunks (es k) ?cfg"
    by (auto simp: session_new_def restored_config_def)
  have marks: "length (config_chunks (es k) ?cfg) = (if si_tags i = [] then 0 else 1)"
    "list_all (\<lambda>c. annotation c SESSION_TAGS = Some (JArr (map JStr (si_tags i))))
       (map unsourced (config_chunks (es k) ?cfg))"
    by (simp_all add: config_chunks_def restored_config_def default_session_config_def unsourced_def make_tags_chunk_def)
  have "registry_get (reg b1) ?sid = Some s1" using 1(2) by simp
  from carry_publishes [OF this assms(3), of es conns "Suc k"] obtain b2 s2 where
      "carry_out es conns (Suc k) (map (Publish ?sid) hs) b1 = Running b2"
      "registry_get (reg b2) = (registry_get (reg b1))(?sid := Some s2)"
      "agent_id s2 = agent_id s1" "tags s2 = tags s1"
      "map unsourced (history s2) = map unsourced (history s1) @ map unsourced hs"
    by blast
  with 1 marks show ?thesis
    by (intro exI [of _ b2] exI [of _ s2]) (auto intro!: exI [of _ "map unsourced (config_chunks (es k) ?cfg)"])
qed

lemma restore_all:
  "distinct (map si_session_id is) \<Longrightarrow>
   \<forall>i \<in> set is. (\<forall>t \<in> set (si_tags i). tag_ok t) \<and> list_all replayable (load_history d (si_session_id i) db)
      \<and> (si_session_id i \<in> set on_bus \<longleftrightarrow> registry_get (reg b) (si_session_id i) \<noteq> None) \<Longrightarrow>
   \<exists>b'. carry_out es conns k (restore_sessions d db (\<lambda>_. None) n on_bus is) b = Running b'
     \<and> (\<forall>i \<in> set is. registry_get (reg b) (si_session_id i) = None \<longrightarrow>
          (\<exists>s. registry_get (reg b') (si_session_id i) = Some s \<and> restored d db i s))
     \<and> (\<forall>x. x \<notin> si_session_id ` set is \<or> registry_get (reg b) x \<noteq> None \<longrightarrow> registry_get (reg b') x = registry_get (reg b) x)"
proof (induction "is" arbitrary: b n k)
  case (Cons i "is")
  let ?sid = "si_session_id i"
  show ?case
  proof (cases "registry_get (reg b) ?sid")
    case (Some s)
    with Cons.IH [of b k n] Cons.prems show ?thesis by auto
  next
    case None
    let ?hs = "load_history d ?sid db"
    let ?ms = "CreateSession ?sid (si_agent_id i) (restored_config i) # map (Publish ?sid) ?hs"
    from restore_session [OF None, of ?hs es conns k] Cons.prems(2)
    obtain b1 s1 where 1: "carry_out es conns k ?ms b = Running b1"
        "registry_get (reg b1) = (registry_get (reg b))(?sid := Some s1)" "restored d db i s1"
      by (auto simp: restored_def)
    have "restore_sessions d db (\<lambda>_. None) n on_bus (i # is)
        = ?ms @ restore_sessions d db (\<lambda>_. None) (Suc n + length ?hs) on_bus is"
      using None Cons.prems(2) by (simp add: replay_chunks_all)
    then have run: "carry_out es conns k (restore_sessions d db (\<lambda>_. None) n on_bus (i # is)) b
        = carry_out es conns (k + length ?ms) (restore_sessions d db (\<lambda>_. None) (Suc n + length ?hs) on_bus is) b1"
      using 1(1) by (simp only: carry_out_append) simp
    have "\<forall>j \<in> set is. si_session_id j \<noteq> ?sid" using Cons.prems(1) by (auto simp: image_iff)
    with Cons.IH [of b1 "k + length ?ms" "Suc n + length ?hs"] Cons.prems 1(2)
    obtain b' where b': "carry_out es conns (k + length ?ms)
          (restore_sessions d db (\<lambda>_. None) (Suc n + length ?hs) on_bus is) b1 = Running b'"
        "\<forall>j \<in> set is. registry_get (reg b1) (si_session_id j) = None \<longrightarrow>
          (\<exists>s. registry_get (reg b') (si_session_id j) = Some s \<and> restored d db j s)"
        "\<forall>x. x \<notin> si_session_id ` set is \<or> registry_get (reg b1) x \<noteq> None \<longrightarrow>
          registry_get (reg b') x = registry_get (reg b1) x"
      by auto
    have "registry_get (reg b') ?sid = Some s1" using b'(3) 1(2) by simp
    with run b' 1(2,3) \<open>\<forall>j \<in> set is. si_session_id j \<noteq> ?sid\<close> None show ?thesis
      by (intro exI [of _ b']) (auto split: if_splits)
  qed
qed simp

text \<open>
  Sessions survive a restart of the bus.  When the store's requests are all carried out, every
  stored session that the bus did not have is there with its agent, its stored tags and its stored
  history in order, preceded only by a new chunk that records the tags where there are any; and
  every session the bus already had is untouched.
\<close>

theorem restore_recreates_sessions:
  assumes "kv_wf (db_sessions db)" and "db_list_sessions d db \<noteq> []"
    and "\<forall>i \<in> set (db_list_sessions d db). \<forall>t \<in> set (si_tags i). tag_ok t"
    and "\<forall>i \<in> set (db_list_sessions d db). list_all replayable (load_history d (si_session_id i) db)"
    and "registry_inv (reg b)"
  shows "\<exists>b'. carry_out es conns k (restore_from_db d db (\<lambda>_. None) (Inr (registry_list (reg b)))) b = Running b'
     \<and> (\<forall>i \<in> set (db_list_sessions d db). registry_get (reg b) (si_session_id i) = None \<longrightarrow>
          (\<exists>s. registry_get (reg b') (si_session_id i) = Some s \<and> restored d db i s))
     \<and> (\<forall>sid. registry_get (reg b) sid \<noteq> None \<longrightarrow> registry_get (reg b') sid = registry_get (reg b) sid)"
proof -
  let ?is = "db_list_sessions d db" and ?bus = "map si_session_id (registry_list (reg b))"
  have "map si_session_id ?is = map fst (sort_key (\<lambda>(_, r). - sr_created_at r) (db_sessions db))"
    by (simp add: db_list_sessions_def split_beta o_def)
  then have "distinct (map si_session_id ?is)"
    using assms(1) by (simp add: kv_wf_def distinct_map inj_on_def)
  moreover have "sid \<in> set ?bus \<longleftrightarrow> registry_get (reg b) sid \<noteq> None" for sid
  proof -
    have m: "registry_get (reg b) k = Some s \<longleftrightarrow> (k, s) \<in> set (sessions (reg b))" for k s
      using assms(5) by (simp add: registry_inv_def registry_get_def kv_get_mem)
    have i: "registry_get (reg b) k = Some s \<Longrightarrow> session_id s = k" for k s
      using assms(5) registry_inv_get by (auto simp: session_ok_def)
    have "?bus = map (\<lambda>(_, s). session_id s) (sessions (reg b))"
      by (simp add: registry_list_def split_beta o_def)
    moreover have "session_id s = k" if "(k, s) \<in> set (sessions (reg b))" for k s using i that m by blast
    ultimately have "sid \<in> set ?bus \<longleftrightarrow> (\<exists>s. (sid, s) \<in> set (sessions (reg b)))"
      by (auto simp del: map_map simp: image_def split_beta) (metis fst_conv snd_conv)
    then show ?thesis using m by auto
  qed
  ultimately obtain b' where
      "carry_out es conns k (restore_sessions d db (\<lambda>_. None) 0 ?bus ?is) b = Running b'"
      "\<forall>i \<in> set ?is. registry_get (reg b) (si_session_id i) = None \<longrightarrow>
          (\<exists>s. registry_get (reg b') (si_session_id i) = Some s \<and> restored d db i s)"
      "\<forall>x. x \<notin> si_session_id ` set ?is \<or> registry_get (reg b) x \<noteq> None \<longrightarrow> registry_get (reg b') x = registry_get (reg b) x"
    using restore_all [of ?is d db ?bus b es conns k 0] assms(3,4) by blast
  then show ?thesis using assms(2) by (simp add: restore_from_db_def)
qed

theorem restore_recreates_sessions_witness:
  "\<exists>db b' s. load_history unary_columns ''s'' db = [demo_text ''a'']
     \<and> carry_out (\<lambda>_. demo_env 0) (\<lambda>_. ''c-1'') 0
          (restore_from_db unary_columns db (\<lambda>_. None) (Inr (registry_list (reg bus_new)))) bus_new = Running b'
     \<and> registry_get (reg b') ''s'' = Some s \<and> tags s = [''t'']"
proof -
  let ?ms = "[(0, SessionCreated ''s'' ''chat''), (1, Chunk ''s'' (demo_text ''a'')), (2, SessionTagsUpdated ''s'' [''t''])]"
  let ?db = "store_run unary_columns ?ms empty_db"
  let ?d = unary_columns
  have sig: "\<not> signals_delete (demo_text ''a'')"
    by (simp add: signals_delete_def demo_text_def get_annotation_def)
  have ok: "db_ok ?db" by (rule db_ok_run) simp
  have rows: "db_chunks ?db = [chunk_row_of ?d ''s'' 0 (demo_text ''a'')]"
    and ss: "db_sessions ?db = [(''s'', fresh_row ?d 0 ''chat'' False ''[]''\<lparr>sr_tags := enc_tags ?d [''t''], sr_updated_at := 2\<rparr>)]"
    by (simp_all add: store_run_def store_message_def insert_chunk_def ensure_session_def empty_db_def upsert_session_def
        upsert_session_with_tags_def set_session_tags_def next_seq_def
        kv_simps kv_contains_def Let_def sig [unfolded signals_delete_def]) (simp add: unary_columns_def fresh_row_def kv_adjust_def)
  have h: "load_history ?d ''s'' ?db = [demo_text ''a'']"
    using load_history_rows [OF ok, of ?d "''s''"] rows chunk_row_roundtrip [OF unary_columns_ok]
    by (simp add: rows_of_def) (simp add: chunk_row_of_def)
  have l: "\<exists>i. db_list_sessions ?d ?db = [i] \<and> si_session_id i = ''s'' \<and> si_tags i = [''t'']"
    using unary_columns_ok by (simp add: db_list_sessions_def ss fresh_row_def columns_ok_def)
  then obtain i where i: "db_list_sessions ?d ?db = [i]" "si_session_id i = ''s''" "si_tags i = [''t'']" by blast
  have "tag_ok ''t''"
    by (simp add: tag_ok_def MAX_TAG_LEN_def byte_val_def char_is_whitespace_def char_is_control_def)
  moreover have "replayable (demo_text ''a'')"
    by (simp add: replayable_def durable_def) (simp add: demo_text_def get_annotation_def)
  moreover have "registry_get (reg bus_new) ''s'' = None" "registry_inv (reg bus_new)"
    by (simp_all add: bus_new_def registry_new_def registry_get_def registry_inv_def kv_simps)
  moreover have "kv_wf (db_sessions ?db)" using ok by (simp add: db_ok_def)
  ultimately show ?thesis
    using restore_recreates_sessions [of ?db ?d bus_new "\<lambda>_. demo_env 0" "\<lambda>_. ''c-1''" 0] i h
    by (auto simp: restored_def)
qed

end
