(* ===== verification/Proxy.thy ===== *)
theory Proxy
  imports Bus_Machine Client_Sdk Routes Http_Api Services
begin

text \<open>
  HTTP over the bus: the protocol between the server and the services that announce routes
  (\<open>cafe-http-proxy-sdk/src/lib.rs\<close>), the server's side of it (\<open>cafe-server/src/handlers/proxy.rs\<close>
  and the subscriber in \<open>cafe-server/src/main.rs\<close>), the page fetching service
  (\<open>cafe-web-fetch/src/main.rs\<close>), and the WebSocket session of the server
  (\<open>cafe-server/src/handlers/ws_handler.rs\<close>).  Base64, the validity of HTTP headers and the fetching
  of a page are arguments.
\<close>

section \<open>The protocol\<close>

definition PROXY_SESSION :: string where "PROXY_SESSION = ''cafe-server.http-proxy''"
definition HTTP_ROUTE_REGISTER :: string where "HTTP_ROUTE_REGISTER = ''cafe.http.route.register''"
definition HTTP_REQUEST_HANDLE :: string where "HTTP_REQUEST_HANDLE = ''http.request.handle''"

record route_registration =
  rr_pattern :: string
  rr_methods :: "string list"

record proxy_auth =
  pa_user_id :: string
  pa_token_type :: string

record proxy_request =
  pq_method :: string
  pq_path :: string
  pq_headers :: "(string, string) kv"
  pq_query :: "(string, string) kv"
  pq_body :: string
  pq_auth :: proxy_auth

record proxy_response =
  pr_status :: nat
  pr_headers :: "(string, string) kv"
  pr_body :: string

text \<open>Lists and maps of strings, and 16-bit numbers, as serde writes and reads them.\<close>

definition strings_from_json :: "json \<Rightarrow> string list option" where
  "strings_from_json v = (case v of JArr xs \<Rightarrow> those (map as_str xs) | _ \<Rightarrow> None)"

definition string_map_to_json :: "(string, string) kv \<Rightarrow> json" where
  "string_map_to_json m = json_obj (map (\<lambda>(k, v). (k, JStr v)) m)"

definition string_map_from_json :: "json \<Rightarrow> (string, string) kv option" where
  "string_map_from_json v =
     (case v of
        JObj kvs \<Rightarrow> those (map (\<lambda>(k, x). map_option (Pair k) (as_str x)) kvs)
      | _ \<Rightarrow> None)"

definition as_u16 :: "json \<Rightarrow> nat option" where
  "as_u16 v = Option.bind (as_u64 v) (\<lambda>n. if n < 65536 then Some n else None)"

definition registration_to_json :: "route_registration \<Rightarrow> json" where
  "registration_to_json r =
     json_obj [(''pattern'', JStr (rr_pattern r)), (''methods'', JArr (map JStr (rr_methods r)))]"

definition registration_from_json :: "json \<Rightarrow> route_registration option" where
  "registration_from_json v =
     (case struct_fields [''pattern'', ''methods''] v of
        Some [a, b] \<Rightarrow>
          (case (field_string a, Option.bind b strings_from_json) of
             (Some a', Some b') \<Rightarrow> Some \<lparr>rr_pattern = a', rr_methods = b'\<rparr>
           | _ \<Rightarrow> None)
      | _ \<Rightarrow> None)"

definition auth_to_json :: "proxy_auth \<Rightarrow> json" where
  "auth_to_json a = json_obj [(''user_id'', JStr (pa_user_id a)), (''token_type'', JStr (pa_token_type a))]"

definition auth_from_json :: "json \<Rightarrow> proxy_auth option" where
  "auth_from_json v =
     (case struct_fields [''user_id'', ''token_type''] v of
        Some [a, b] \<Rightarrow>
          (case (field_string a, field_string b) of
             (Some a', Some b') \<Rightarrow> Some \<lparr>pa_user_id = a', pa_token_type = b'\<rparr>
           | _ \<Rightarrow> None)
      | _ \<Rightarrow> None)"

definition proxy_request_to_json :: "proxy_request \<Rightarrow> json" where
  "proxy_request_to_json r =
     json_obj [(''method'', JStr (pq_method r)), (''path'', JStr (pq_path r)),
               (''headers'', string_map_to_json (pq_headers r)), (''query'', string_map_to_json (pq_query r)),
               (''body'', JStr (pq_body r)), (''auth'', auth_to_json (pq_auth r))]"

definition proxy_request_from_json :: "json \<Rightarrow> proxy_request option" where
  "proxy_request_from_json v =
     (case struct_fields [''method'', ''path'', ''headers'', ''query'', ''body'', ''auth''] v of
        Some [a, b, c, d, e, f] \<Rightarrow>
          (case (field_string a, field_string b, Option.bind c string_map_from_json,
                 Option.bind d string_map_from_json, field_string e, Option.bind f auth_from_json) of
             (Some a', Some b', Some c', Some d', Some e', Some f') \<Rightarrow>
               Some \<lparr>pq_method = a', pq_path = b', pq_headers = c', pq_query = d', pq_body = e', pq_auth = f'\<rparr>
           | _ \<Rightarrow> None)
      | _ \<Rightarrow> None)"

definition proxy_response_to_json :: "proxy_response \<Rightarrow> json" where
  "proxy_response_to_json r =
     json_obj [(''status'', JNum (PosInt (pr_status r))), (''headers'', string_map_to_json (pr_headers r)),
               (''body'', JStr (pr_body r))]"

definition proxy_response_from_json :: "json \<Rightarrow> proxy_response option" where
  "proxy_response_from_json v =
     (case struct_fields [''status'', ''headers'', ''body''] v of
        Some [a, b, c] \<Rightarrow>
          (case (Option.bind a as_u16, Option.bind b string_map_from_json, field_string c) of
             (Some a', Some b', Some c') \<Rightarrow> Some \<lparr>pr_status = a', pr_headers = b', pr_body = c'\<rparr>
           | _ \<Rightarrow> None)
      | _ \<Rightarrow> None)"

definition registration_chunk :: "string \<Rightarrow> int \<Rightarrow> route_registration \<Rightarrow> chunk" where
  "registration_chunk uuid now_ms rt =
     as_transient (with_annotation HTTP_ROUTE_REGISTER (registration_to_json rt)
       (new_null uuid now_ms ''cafe-http-proxy-sdk''))"

definition publish_registration :: "string \<Rightarrow> int \<Rightarrow> route_registration \<Rightarrow> client_message" where
  "publish_registration uuid now_ms rt = sdk_publish PROXY_SESSION (registration_chunk uuid now_ms rt)"

definition parse_registration :: "chunk \<Rightarrow> route_registration option" where
  "parse_registration c = get_annotation registration_from_json HTTP_ROUTE_REGISTER c"

definition request_rpc :: "string \<Rightarrow> proxy_request \<Rightarrow> json_rpc_request" where
  "request_rpc call_id request =
     \<lparr>req_jsonrpc = ''2.0'', req_id = call_id, req_method = HTTP_REQUEST_HANDLE,
      req_params = proxy_request_to_json request\<rparr>"

definition request_rpc_chunk :: "string \<Rightarrow> int \<Rightarrow> string \<Rightarrow> json_rpc_request \<Rightarrow> chunk" where
  "request_rpc_chunk uuid now_ms who rpc =
     as_transient (with_annotation CAFE_JSONRPC_REQUEST (request_to_json rpc) (new_null uuid now_ms who))"

definition publish_request :: "string \<Rightarrow> int \<Rightarrow> string \<Rightarrow> string \<Rightarrow> proxy_request \<Rightarrow> client_message" where
  "publish_request uuid now_ms target call_id request =
     sdk_publish_direct target PROXY_SESSION
       (request_rpc_chunk uuid now_ms ''cafe-http-proxy-sdk'' (request_rpc call_id request))"

definition parse_request :: "chunk \<Rightarrow> proxy_request option" where
  "parse_request c = Option.bind (as_rpc_request c) (\<lambda>r. proxy_request_from_json (req_params r))"

definition response_rpc_chunk :: "string \<Rightarrow> int \<Rightarrow> string \<Rightarrow> proxy_response \<Rightarrow> chunk" where
  "response_rpc_chunk uuid now_ms call_id response =
     as_transient (with_annotation CAFE_JSONRPC_RESPONSE
       (response_to_json (rpc_response_ok call_id (proxy_response_to_json response)))
       (new_null uuid now_ms ''cafe-http-proxy-sdk''))"

definition publish_response :: "string \<Rightarrow> int \<Rightarrow> string \<Rightarrow> string \<Rightarrow> proxy_response \<Rightarrow> client_message" where
  "publish_response uuid now_ms target call_id response =
     sdk_publish_direct target PROXY_SESSION (response_rpc_chunk uuid now_ms call_id response)"

definition parse_response :: "chunk \<Rightarrow> proxy_response option" where
  "parse_response c =
     Option.bind (as_rpc_response c) (\<lambda>r. Option.bind (resp_result r) proxy_response_from_json)"

section \<open>The server's side\<close>

record proxied_response =
  px_status :: nat
  px_headers :: "(string, string) kv"
  px_body :: "byte list"

text \<open>The calls that wait for an answer are known by their ids.\<close>

record proxy_state =
  ps_registry :: route_registry
  ps_pending :: "(string, unit) kv"

text \<open>Headers come with their value as text, where it is text.\<close>

definition flatten_headers :: "(string \<times> string option) list \<Rightarrow> (string, string) kv" where
  "flatten_headers hs =
     fold (\<lambda>(name, v) m. case v of Some x \<Rightarrow> kv_insert name x m | None \<Rightarrow> m) hs []"

record http_request =
  hq_method :: string
  hq_path :: string
  hq_query :: "string option"
  hq_headers :: "(string \<times> string option) list"
  hq_body :: "byte list option"

definition proxy_request_of ::
  "(byte list \<Rightarrow> string) \<Rightarrow> (string \<Rightarrow> string) \<Rightarrow> bool \<Rightarrow> http_request \<Rightarrow> byte list \<Rightarrow> proxy_request" where
  "proxy_request_of encode lossy is_admin hq body =
     (let who = (if is_admin then ''admin'' else ''user'')
      in \<lparr>pq_method = hq_method hq, pq_path = hq_path hq, pq_headers = flatten_headers (hq_headers hq),
          pq_query = parse_query lossy (case hq_query hq of Some q \<Rightarrow> q | None \<Rightarrow> []), pq_body = encode body,
          pq_auth = \<lparr>pa_user_id = who, pa_token_type = who\<rparr>\<rparr>)"

text \<open>Up to the dispatch: a refusal, or the request to be published and the waiting call.\<close>

definition proxy_begin ::
  "(byte list \<Rightarrow> string) \<Rightarrow> (string \<Rightarrow> string) \<Rightarrow> string \<Rightarrow> string \<Rightarrow> int \<Rightarrow> bool \<Rightarrow> http_request \<Rightarrow> proxy_state
    \<Rightarrow> http_response + client_message \<times> proxy_state" where
  "proxy_begin encode lossy call_id uuid now_ms is_admin hq ps =
     (case (case hq_body hq of
              None \<Rightarrow> None
            | Some body \<Rightarrow> if max_body_size (ps_registry ps) < length body then None else Some body) of
        None \<Rightarrow> Inl (error_response 413 ''Request body too large'')
      | Some body \<Rightarrow>
          (case match_path (ps_registry ps) (hq_path hq) (hq_method hq) of
             None \<Rightarrow> Inl (error_response 404 (''No route for '' @ hq_method hq @ '' '' @ hq_path hq))
           | Some (entry, _) \<Rightarrow>
               Inr (sdk_publish_direct (re_connection entry) PROXY_SESSION
                      (request_rpc_chunk uuid now_ms ''cafe-server''
                        (request_rpc call_id (proxy_request_of encode lossy is_admin hq body))),
                    ps\<lparr>ps_pending := kv_insert call_id () (ps_pending ps)\<rparr>)))"

datatype proxy_outcome =
    DispatchFailed string
  | Answered "string + proxied_response"
  | SenderDropped
  | NoAnswer

text \<open>A header is kept when its name and value are valid; names are normalised.\<close>

definition response_headers ::
  "(string \<Rightarrow> string option) \<Rightarrow> (string \<Rightarrow> bool) \<Rightarrow> (string, string) kv \<Rightarrow> (string, string) kv" where
  "response_headers header_name valid_value hs =
     fold (\<lambda>(k, v) m. case header_name k of
         Some name \<Rightarrow> if valid_value v then kv_insert name v m else m
       | None \<Rightarrow> m) hs []"

definition proxy_end ::
  "(string \<Rightarrow> string option) \<Rightarrow> (string \<Rightarrow> bool) \<Rightarrow> string \<Rightarrow> proxy_outcome \<Rightarrow> proxy_state
    \<Rightarrow> (http_response + nat \<times> (string, string) kv \<times> byte list) \<times> proxy_state" where
  "proxy_end header_name valid_value call_id outcome ps =
     (case outcome of
        DispatchFailed e \<Rightarrow> Inl (error_response 502 (''dispatch failed: '' @ e))
      | Answered (Inr r) \<Rightarrow>
          Inr (if 100 \<le> px_status r \<and> px_status r \<le> 999 then px_status r else 200,
               response_headers header_name valid_value (px_headers r), px_body r)
      | Answered (Inl e) \<Rightarrow> Inl (error_response 502 e)
      | SenderDropped \<Rightarrow> Inl (error_response 502 ''service disconnected'')
      | NoAnswer \<Rightarrow> Inl (error_response 504 ''service timeout''),
      ps\<lparr>ps_pending := kv_remove call_id (ps_pending ps)\<rparr>)"

text \<open>
  The subscriber: a registration enters the registry, and a direct answer completes the call that
  waits for it, with its body decoded.
\<close>

definition proxy_event ::
  "(string \<Rightarrow> byte list option) \<Rightarrow> instant \<Rightarrow> server_message \<Rightarrow> proxy_state
    \<Rightarrow> (string \<times> proxied_response) option \<times> proxy_state" where
  "proxy_event decode now m ps =
     (case m of
        Chunk sid c \<Rightarrow>
          if sid \<noteq> PROXY_SESSION then (None, ps)
          else (case parse_registration c of
                  Some rt \<Rightarrow>
                    (let conn = (case get_annotation as_str CAFE_SOURCE_CONNECTION c of
                                   Some x \<Rightarrow> x | None \<Rightarrow> ''unknown'')
                     in (None, ps\<lparr>ps_registry :=
                           snd (upsert now (rr_pattern rt) (rr_methods rt) conn (ps_registry ps))\<rparr>))
                | None \<Rightarrow>
                    if get_annotation as_str CAFE_DIRECT_TO c = None then (None, ps)
                    else (case (parse_response c, as_rpc_response c) of
                            (Some r, Some rpc) \<Rightarrow>
                              if kv_contains (ps_pending ps) (resp_id rpc)
                              then (Some (resp_id rpc, \<lparr>px_status = pr_status r, px_headers = pr_headers r,
                                      px_body = (case decode (pr_body r) of Some bs \<Rightarrow> bs | None \<Rightarrow> [])\<rparr>),
                                    ps\<lparr>ps_pending := kv_remove (resp_id rpc) (ps_pending ps)\<rparr>)
                              else (None, ps)
                          | _ \<Rightarrow> (None, ps)))
      | _ \<Rightarrow> (None, ps))"

section \<open>The page fetching service\<close>

definition WEB_FETCH :: string where "WEB_FETCH = ''com.nominal.cafe-web-fetch''"

definition web_fetch_route :: route_registration where
  "web_fetch_route = \<lparr>rr_pattern = ''/api/ext/sessions/:id/fetch'', rr_methods = [''POST'', ''GET'']\<rparr>"

definition first_word :: "string \<Rightarrow> string" where
  "first_word s =
     (let ws = (\<lambda>c. char_is_whitespace (code_point c))
      in concat (takeWhile (\<lambda>c. \<not> ws c) (dropWhile ws (str_chars s))))"

definition is_http_url :: "string \<Rightarrow> bool" where
  "is_http_url s = (strip_prefix ''http://'' s \<noteq> None \<or> strip_prefix ''https://'' s \<noteq> None)"

definition parse_fetch_url :: "string \<Rightarrow> string option" where
  "parse_fetch_url txt =
     (let trimmed = str_trim txt;
          rest = str_trim (case strip_prefix ''!fetch '' trimmed of
                   Some t \<Rightarrow> t
                 | None \<Rightarrow> (case strip_prefix ''!fetch'' trimmed of Some t \<Rightarrow> t | None \<Rightarrow> trimmed))
      in if is_http_url rest then Some (first_word rest) else None)"

fun strip_tags :: "bool \<Rightarrow> string \<Rightarrow> string" where
  "strip_tags in_tag [] = []"
| "strip_tags in_tag (c # cs) =
     (if c = CHR ''<'' then strip_tags True cs
      else if c = CHR ''>'' then strip_tags False cs
      else if \<not> in_tag then c # strip_tags in_tag cs
      else strip_tags in_tag cs)"

definition strip_html :: "string \<Rightarrow> string" where
  "strip_html html = strip_tags False html"

text \<open>\<open>get url\<close> is the text of the response with its content type header, or the error.\<close>

definition fetch_url_text ::
  "(string \<Rightarrow> string + string \<times> string option) \<Rightarrow> string \<Rightarrow> string + string \<times> string" where
  "fetch_url_text get url =
     (case get url of
        Inl e \<Rightarrow> Inl e
      | Inr (txt, ctype) \<Rightarrow> Inr (strip_html txt, case ctype of Some t \<Rightarrow> t | None \<Rightarrow> ''text/plain''))"

definition build_content_chunk :: "string \<Rightarrow> int \<Rightarrow> string \<Rightarrow> string \<Rightarrow> string \<Rightarrow> chunk" where
  "build_content_chunk uuid now_ms stripped url ctype =
     with_annotation SECURITY_TRUST_LEVEL
         (json_obj [(''trusted'', JBool False), (''source'', JStr ''web'')])
       (with_annotation ''web.fetch_time'' (json_int now_ms)
         (with_annotation ''web.content_type'' (JStr ctype)
           (with_annotation ''web.source_url'' (JStr url)
             (new_text uuid now_ms stripped WEB_FETCH))))"

definition extract_session_id :: "string \<Rightarrow> string option" where
  "extract_session_id path =
     (case segments path of
        a # b # c # d # _ \<Rightarrow>
          if a = ''api'' \<and> b = ''ext'' \<and> c = ''sessions'' then Some d else None
      | _ \<Rightarrow> None)"

text \<open>The service's invocation by agents.\<close>

definition web_fetch_handler ::
  "(string \<Rightarrow> string + string \<times> string option) \<Rightarrow> (nat \<Rightarrow> string) \<Rightarrow> int \<Rightarrow> nat \<Rightarrow> json_rpc_request \<Rightarrow> chunk list" where
  "web_fetch_handler get uuid now_ms n request =
     (if req_method request \<noteq> ''web-fetch.invoke'' then []
      else let call_id = req_id request;
               txt = (case as_str (json_index (req_params request) ''text'') of Some t \<Rightarrow> t | None \<Rightarrow> []);
               url = (case as_str (json_index (req_params request) ''url'') of
                        Some u \<Rightarrow> Some u | None \<Rightarrow> parse_fetch_url txt);
               reply = (\<lambda>r. response_for r (new_null (uuid (2 * n + 1)) now_ms WEB_FETCH))
           in case url of
                None \<Rightarrow> [reply (rpc_response_err call_id INVALID_PARAMS
                         ''no URL found (send `!fetch <url>` in text, or a url param)'')]
              | Some u \<Rightarrow>
                  (case fetch_url_text get u of
                     Inr (stripped, ctype) \<Rightarrow>
                       [build_content_chunk (uuid (2 * n)) now_ms stripped u ctype,
                        reply (rpc_response_ok call_id
                          (json_obj [(''chunk_id'', JStr (uuid (2 * n))), (''url'', JStr u)]))]
                   | Inl e \<Rightarrow> [reply (rpc_response_err call_id UPSTREAM_ERROR e)]))"

definition run_rpc_session ::
  "(string \<Rightarrow> string + string \<times> string option) \<Rightarrow> (nat \<Rightarrow> string) \<Rightarrow> int \<Rightarrow> server_message list \<Rightarrow> chunk list" where
  "run_rpc_session get uuid now_ms ms = serve (web_fetch_handler get uuid now_ms) 0 False ms"

text \<open>
  A proxied request: the chunk published, with its session, and the answer.  \<open>body_json\<close> decodes a
  body and parses it, or fails; the publish may fail too.
\<close>

definition handle_fetch ::
  "(string \<Rightarrow> string + json) \<Rightarrow> (string \<Rightarrow> string + string \<times> string option) \<Rightarrow> string \<Rightarrow> int
    \<Rightarrow> (string \<Rightarrow> string option) \<Rightarrow> proxy_request \<Rightarrow> string option \<Rightarrow> (string \<times> chunk) list \<times> (string + string)" where
  "handle_fetch body_json get uuid now_ms publish_fails request sid =
     (case body_json (pq_body request) of
        Inl e \<Rightarrow> ([], Inl e)
      | Inr v \<Rightarrow>
          (case as_str (json_index v ''url'') of
             None \<Rightarrow> ([], Inl ''missing url in request body'')
           | Some url \<Rightarrow>
               (case fetch_url_text get url of
                  Inl e \<Rightarrow> ([], Inl e)
                | Inr (stripped, ctype) \<Rightarrow>
                    (let c = build_content_chunk uuid now_ms stripped url ctype
                     in case sid of
                          None \<Rightarrow> ([], Inr (chunk_id c))
                        | Some x \<Rightarrow>
                            ([(x, c)], case publish_fails x of Some e \<Rightarrow> Inl e | None \<Rightarrow> Inr (chunk_id c))))))"

definition fetch_response :: "(json \<Rightarrow> string) \<Rightarrow> string + string \<Rightarrow> proxy_response" where
  "fetch_response encode_json result =
     (let go = (\<lambda>status k v. \<lparr>pr_status = status, pr_headers = [(''content-type'', ''application/json'')],
                 pr_body = encode_json (json_obj [(k, JStr v)])\<rparr>)
      in case result of Inr cid \<Rightarrow> go 200 ''chunk_id'' cid | Inl e \<Rightarrow> go 502 ''error'' e)"

text \<open>What the service publishes for a live chunk of the proxy session.\<close>

definition serve_proxied ::
  "(string \<Rightarrow> string + json) \<Rightarrow> (json \<Rightarrow> string) \<Rightarrow> (string \<Rightarrow> string + string \<times> string option) \<Rightarrow> (nat \<Rightarrow> string) \<Rightarrow> int
    \<Rightarrow> (string \<Rightarrow> string option) \<Rightarrow> chunk \<Rightarrow> client_message list" where
  "serve_proxied body_json encode_json get uuid now_ms publish_fails c =
     (case as_rpc_request c of
        None \<Rightarrow> []
      | Some rpc \<Rightarrow>
          if req_method rpc \<noteq> HTTP_REQUEST_HANDLE then []
          else (case parse_request c of
                  None \<Rightarrow> []
                | Some request \<Rightarrow>
                    (let (published, result) =
                           handle_fetch body_json get (uuid 0) now_ms publish_fails request
                             (extract_session_id (pq_path request));
                         conn = (case get_annotation as_str CAFE_SOURCE_CONNECTION c of Some x \<Rightarrow> x | None \<Rightarrow> [])
                     in map (\<lambda>(x, d). Publish x d) published
                        @ (if conn = [] then []
                           else [publish_response (uuid 1) now_ms conn (req_id rpc)
                                   (fetch_response encode_json result)]))))"

fun web_fetch_run ::
  "(nat \<Rightarrow> chunk \<Rightarrow> client_message list) \<Rightarrow> nat \<Rightarrow> bool \<Rightarrow> server_message list \<Rightarrow> client_message list" where
  "web_fetch_run handle n live [] = []"
| "web_fetch_run handle n live (m # ms) =
     (case m of
        Chunk _ c \<Rightarrow> (if live then handle n c else []) @ web_fetch_run handle (Suc n) live ms
      | HistoryComplete _ _ \<Rightarrow> web_fetch_run handle n True ms
      | _ \<Rightarrow> web_fetch_run handle n live ms)"

section \<open>Fetched pages are never part of a prompt\<close>

interpretation web_fetch: responder "web_fetch_handler get uuid now_ms" "\<lambda>m. m = ''web-fetch.invoke''" for get uuid now_ms
proof unfold_locales
  fix n request
  have wf: "rpc_response_wf (rpc_response_err i UPSTREAM_ERROR e)" for i e
    by (simp add: rpc_response_wf_def rpc_response_err_def rpc_error_ok_def UPSTREAM_ERROR_def)
  have none: "as_rpc_response (build_content_chunk u t x y z) = None" for u t x y z
    by (simp add: build_content_chunk_def as_rpc_response_def get_annotation_def)
  show "answered_ids (web_fetch_handler get uuid now_ms n request)
      = (if req_method request = ''web-fetch.invoke'' then [req_id request] else [])"
    by (auto simp: web_fetch_handler_def Let_def none as_rpc_response_response_for [OF dice_responses_wf(1)]
        as_rpc_response_response_for [OF dice_responses_wf(2)] as_rpc_response_response_for [OF wf]
        split: option.split sum.split prod.split)
qed

text \<open>
  Every live fetch request is answered exactly once, in order, whether its page can be fetched or
  not and whether it names a page at all; and a fetched page is untrusted: wherever it stands in a
  history, the prompt is the one without it.
\<close>

theorem web_fetch_answers_untrusted:
  "answered_ids (run_rpc_session get uuid now_ms ms)
     = map req_id (filter (\<lambda>r. req_method r = ''web-fetch.invoke'') (live_requests ms))
   \<and> build_messages (hist @ build_content_chunk u t txt url ctype # rest) p = build_messages (hist @ rest) p"
proof -
  have "untrusted (build_content_chunk u t txt url ctype)"
    by (simp add: untrusted_def build_content_chunk_def json_index_def)
  then have "push_chunk (build_content_chunk u t txt url ctype) msgs = msgs" for msgs
    by (simp add: push_chunk_def)
  then show ?thesis
    using web_fetch.serve_answers [of get uuid now_ms 0 ms]
    by (simp add: run_rpc_session_def build_messages_def)
qed

section \<open>What is sent is what is read\<close>








lemma strings_roundtrip: "strings_from_json (JArr (map JStr xs)) = Some xs"
proof -
  have "those (map (as_str \<circ> JStr) xs) = Some xs" by (induction xs) simp_all
  then show ?thesis by (simp add: strings_from_json_def)
qed

lemma registration_roundtrip: "registration_from_json (registration_to_json r) = Some r"
  by (simp add: registration_from_json_def registration_to_json_def struct_fields_obj field_string_def strings_roundtrip)




text \<open>What the bus hands on of a message: the chunk with the mark of the publishing connection.\<close>

definition stamped :: "string \<Rightarrow> client_message \<Rightarrow> chunk" where
  "stamped conn m = (case m of Publish _ c \<Rightarrow> with_annotation CAFE_SOURCE_CONNECTION (JStr conn) c)"

lemmas annotation_keys = HTTP_ROUTE_REGISTER_def HTTP_REQUEST_HANDLE_def

lemma stamped_registration:
  "parse_registration (stamped conn (publish_registration u t rt)) = Some rt"
  by (simp add: stamped_def publish_registration_def sdk_publish_def registration_chunk_def parse_registration_def
      get_annotation_def annotation_as_transient annotation_keys registration_roundtrip)




section \<open>An announced route leads nowhere\<close>

lemma conn_name_next: "conn_name (n + 1) \<noteq> conn_name n"
proof
  assume "conn_name (n + 1) = conn_name n"
  then have "unat (n + 1) = unat n" by (simp add: conn_name_def show_nat_inject)
  then have "n + 1 = n" by (rule unsigned_word_eqI)
  then show False by simp
qed

lemma negotiate_next_conn: "negotiate e conn first b = (codec, b') \<Longrightarrow> next_conn_id b' = next_conn_id b"
  by (auto simp: negotiate_def apply_negotiated_role_def Let_def split: prod.splits option.splits)

lemma publish_keeps_tables:
  "handle_publish e codec conn sid c b = Running b' \<Longrightarrow>
     next_conn_id b' = next_conn_id b \<and> connections b' = connections b"
  by (auto simp: handle_publish_def Let_def split: option.splits)

text \<open>
  The connection a service's client announces a route on is closed by the time a request comes in,
  because every publish of the client has a connection of its own.  So the server, which learned
  that connection from the announcement, sends every request for the route to a connection that does
  not exist: the bus tells so to the connection of the publish, which nobody reads, and nothing is
  delivered to the service or to anyone else.
\<close>

theorem proxied_request_undeliverable:
  assumes "accept_connection f b = (conn, b1)" and "negotiate e1 conn greeting b1 = (codec, b2)"
    and "handle_message e2 codec conn (publish_registration u t rt) b2 = Running b3"
    and "accept_connection g (disconnect e3 conn b3) = (conn', b4)"
    and "negotiate e4 conn' greeting' b4 = (codec', b5)"
    and "routes (ps_registry ps0) = []"
    and "proxy_event decode now (Chunk PROXY_SESSION (stamped conn (publish_registration u t rt))) ps0 = (r, ps)"
    and "proxy_begin encode lossy call_id u' t' is_admin hq ps = Inr (m, ps')"
  shows "handle_message e5 codec' conn' m b5
       = Running (send_error e5 codec' conn' (Some PROXY_SESSION)
           (''Target connection not found: '' @ conn) ''TARGET_NOT_FOUND'' b5)"
proof -
  have "ps = ps0\<lparr>ps_registry := snd (upsert now (rr_pattern rt) (rr_methods rt) conn (ps_registry ps0))\<rparr>"
    using assms(7) stamped_registration [of conn u t rt]
    by (simp add: proxy_event_def Let_def) (simp add: stamped_def publish_registration_def sdk_publish_def get_annotation_def)
  then have "routes (ps_registry ps) = [(rr_pattern rt, \<lparr>re_pattern = rr_pattern rt, re_methods = rr_methods rt,
      re_connection = conn, re_last_seen = now\<rparr>)]"
    using assms(6) by (simp add: upsert_def kv_contains_def kv_simps)
  then have "match_path (ps_registry ps) x y = Some (entry, params) \<Longrightarrow> re_connection entry = conn" for x y entry params
    by (auto simp: match_path_def split: if_splits option.splits)
  then obtain c where m: "m = sdk_publish_direct conn PROXY_SESSION c"
    using assms(8) by (auto simp: proxy_begin_def split: option.splits if_splits prod.splits)
  have "next_conn_id b3 = next_conn_id b + 1"
    using assms(1-3) negotiate_next_conn [OF assms(2)] publish_keeps_tables
    by (auto simp: accept_connection_def Let_def publish_registration_def sdk_publish_def)
  then have "conn' \<noteq> conn"
    using assms(1,4) conn_name_next by (auto simp: accept_connection_def Let_def disconnect_parts)
  then have "kv_get (connections b5) conn = None"
    using negotiate_frame(2) [OF assms(5)] assms(4)
    by (auto simp: accept_connection_def Let_def disconnect_parts kv_simps)
  then show ?thesis
    by (simp add: m sdk_publish_direct_def handle_publish_def Let_def get_annotation_def annotation_as_transient)
qed

theorem proxied_request_undeliverable_witness:
  "\<exists>codec conn' m b5. re_connection (the (map_option fst (match_path (snd (upsert 0 ''/a'' [''GET''] ''c-0''
         (route_registry_new 10 1 1))) ''/a'' ''GET''))) = ''c-0''
     \<and> handle_message (demo_env 0) codec conn' m b5
       = Running (send_error (demo_env 0) codec conn' (Some PROXY_SESSION)
           (''Target connection not found: '' @ conn_name (next_conn_id bus_new)) ''TARGET_NOT_FOUND'' b5)"
proof -
  let ?b = "bus_new\<lparr>reg := \<lparr>sessions = [(PROXY_SESSION, session_new PROXY_SESSION ''x'')], event_tx = []\<rparr>\<rparr>"
  let ?rt = "\<lparr>rr_pattern = ''/a'', rr_methods = [''GET'']\<rparr>"
  let ?ps0 = "\<lparr>ps_registry = route_registry_new 10 1 1, ps_pending = []\<rparr>"
  let ?hq = "\<lparr>hq_method = ''GET'', hq_path = ''/a'', hq_query = None, hq_headers = [], hq_body = Some []\<rparr>"
  let ?e = "demo_env 0" and ?hello = "handshake_message None [CJson]"
  obtain conn b1 where 1: "accept_connection (\<lambda>_. False) ?b = (conn, b1)" by force
  then have conn: "conn = conn_name (next_conn_id bus_new)" by (auto simp: accept_connection_def Let_def)
  obtain codec b2 where 2: "negotiate ?e conn ?hello b1 = (codec, b2)" by force
  have reg2: "reg b2 = reg ?b"
    using negotiate_frame(1) [OF 2] 1 by (auto simp: accept_connection_def Let_def)
  have "\<exists>b3. handle_message ?e codec conn (publish_registration ''u'' 0 ?rt) b2 = Running b3"
    by (simp add: publish_registration_def sdk_publish_def handle_publish_def Let_def reg2 registry_get_def
        session_publish_def registration_chunk_def delete_target_def get_annotation_def annotation_as_transient
        HTTP_ROUTE_REGISTER_def retain_secs_def)
  then obtain b3 where 3: "handle_message ?e codec conn (publish_registration ''u'' 0 ?rt) b2 = Running b3" by blast
  obtain conn' b4 where 4: "accept_connection (\<lambda>_. False) (disconnect ?e conn b3) = (conn', b4)" by force
  obtain codec' b5 where 5: "negotiate ?e conn' ?hello b4 = (codec', b5)" by force
  obtain r ps where 6: "proxy_event (\<lambda>_. None) 0 (Chunk PROXY_SESSION (stamped conn (publish_registration ''u'' 0 ?rt))) ?ps0
      = (r, ps)" by force
  have "ps = ?ps0\<lparr>ps_registry := snd (upsert 0 ''/a'' [''GET''] conn (route_registry_new 10 1 1))\<rparr>"
    using 6 stamped_registration [of conn "''u''" 0 ?rt]
    by (simp add: proxy_event_def Let_def) (simp add: stamped_def publish_registration_def sdk_publish_def get_annotation_def)
  moreover have seg: "segments ''/a'' = [''a'']" by (simp add: segments_def trim_slashes_def)
  ultimately obtain m ps' where 7: "proxy_begin (\<lambda>_. []) (\<lambda>x. x) ''call'' ''v'' 0 True ?hq ps = Inr (m, ps')"
    by (auto simp: proxy_begin_def match_path_def upsert_def route_registry_new_def kv_contains_def kv_simps
        match_pattern_def eq_ignore_ascii_case_def)
  have "routes (ps_registry ?ps0) = []" by (simp add: route_registry_new_def)
  then show ?thesis
    using proxied_request_undeliverable [OF 1 2 3 4 5 _ 6 7, of ?e] seg
    by (auto simp: conn match_path_def upsert_def route_registry_new_def kv_contains_def kv_simps
        match_pattern_def eq_ignore_ascii_case_def)
qed

section \<open>WebSocket sessions\<close>

record ws_action =
  wa_op :: string
  wa_session :: "string option"
  wa_chunk :: "chunk option"

text \<open>
  What the loop waits for: a message of the bus or the end of the subscription, with whether the
  client still takes what it is sent; or a text of the client, which parses to an action or not,
  the end of its connection, or anything else.
\<close>

datatype ws_event =
    BusMessage server_message bool
  | BusEnd
  | ClientText "string + ws_action"
  | ClientClose
  | ClientOther

datatype ws_output =
    SendEvent json
  | PublishTo string chunk
  | SubscribeTo string

definition ws_payload :: "(chunk \<Rightarrow> json) \<Rightarrow> server_message \<Rightarrow> json option" where
  "ws_payload to_value m =
     (case m of
        Chunk _ c \<Rightarrow> Some (json_obj [(''event'', JStr ''chunk''), (''chunk'', to_value c)])
      | HistoryComplete _ n \<Rightarrow>
          Some (json_obj [(''event'', JStr ''history_complete''), (''count'', JNum (PosInt n))])
      | Error _ txt code \<Rightarrow>
          Some (json_obj [(''event'', JStr ''error''), (''message'', JStr txt), (''code'', JStr code)])
      | _ \<Rightarrow> None)"

text \<open>One turn: the outputs and the session subscribed to afterwards, or \<open>None\<close> when the loop ends.\<close>

definition ws_step ::
  "(chunk \<Rightarrow> json) \<Rightarrow> (string \<Rightarrow> bool) \<Rightarrow> string \<Rightarrow> ws_event \<Rightarrow> ws_output list \<times> string option" where
  "ws_step to_value subscribe_fails cur ev =
     (case ev of
        BusMessage m taken \<Rightarrow>
          (case ws_payload to_value m of
             None \<Rightarrow> ([], Some cur)
           | Some v \<Rightarrow> ([SendEvent v], if taken then Some cur else None))
      | BusEnd \<Rightarrow> ([], None)
      | ClientText (Inl _) \<Rightarrow> ([], Some cur)
      | ClientText (Inr a) \<Rightarrow>
          if wa_op a = ''publish''
          then (case wa_chunk a of Some c \<Rightarrow> [PublishTo cur c] | None \<Rightarrow> [], Some cur)
          else if wa_op a = ''subscribe''
          then (case wa_session a of
                  Some sid \<Rightarrow> ([SubscribeTo sid], if subscribe_fails sid then None else Some sid)
                | None \<Rightarrow> ([], Some cur))
          else ([], Some cur)
      | ClientClose \<Rightarrow> ([], None)
      | ClientOther \<Rightarrow> ([], Some cur))"

fun ws_loop :: "(chunk \<Rightarrow> json) \<Rightarrow> (string \<Rightarrow> bool) \<Rightarrow> string \<Rightarrow> ws_event list \<Rightarrow> ws_output list" where
  "ws_loop to_value fails cur [] = []"
| "ws_loop to_value fails cur (ev # evs) =
     (case ws_step to_value fails cur ev of
        (outs, None) \<Rightarrow> outs
      | (outs, Some cur') \<Rightarrow> outs @ ws_loop to_value fails cur' evs)"

definition handle_ws :: "(chunk \<Rightarrow> json) \<Rightarrow> (string \<Rightarrow> bool) \<Rightarrow> string \<Rightarrow> ws_event list \<Rightarrow> ws_output list" where
  "handle_ws to_value fails sid evs =
     SubscribeTo sid # (if fails sid then [] else ws_loop to_value fails sid evs)"

text \<open>The session an output sequence ends up subscribed to.\<close>

fun last_subscribed :: "ws_output list \<Rightarrow> string option" where
  "last_subscribed [] = None"
| "last_subscribed (SubscribeTo sid # outs) = (case last_subscribed outs of Some x \<Rightarrow> Some x | None \<Rightarrow> Some sid)"
| "last_subscribed (_ # outs) = last_subscribed outs"

text \<open>
  Everything a WebSocket client publishes goes to the session it subscribed to last, whatever
  session its action names, and nothing is published after a subscription that failed.
\<close>

theorem ws_publishes_to_subscribed:
  "handle_ws to_value fails sid evs = xs @ PublishTo s c # ys \<longrightarrow>
     last_subscribed xs = Some s \<and> \<not> fails s"
proof -
  have run: "\<not> fails cur \<Longrightarrow> ws_loop to_value fails cur evs = xs @ PublishTo s c # ys \<Longrightarrow>
     (case last_subscribed xs of Some x \<Rightarrow> x | None \<Rightarrow> cur) = s \<and> \<not> fails s" for cur xs
  proof (induction evs arbitrary: cur xs)
    case (Cons ev evs)
    obtain outs nxt where st: "ws_step to_value fails cur ev = (outs, nxt)" by force
    consider "outs = []" | a where "outs = [a]"
      using st by (auto simp: ws_step_def split: ws_event.splits option.splits sum.splits if_splits)
    then show ?case
    proof cases
      case 1
      with st have "nxt = None \<or> nxt = Some cur"
        by (auto simp: ws_step_def split: ws_event.splits option.splits sum.splits if_splits)
      with 1 st Cons show ?thesis by auto
    next
      case (2 a)
      consider "\<exists>v. a = SendEvent v \<and> (nxt = None \<or> nxt = Some cur)" | "\<exists>d. a = PublishTo cur d \<and> nxt = Some cur"
        | x where "a = SubscribeTo x" "nxt = (if fails x then None else Some x)"
        using st 2 by (auto simp: ws_step_def split: ws_event.splits option.splits sum.splits if_splits)
      then show ?thesis
      proof cases
        case 1
        with 2 st Cons.prems(2) obtain v xs' where "xs = SendEvent v # xs'" "ws_loop to_value fails cur evs = xs' @ PublishTo s c # ys"
          by (cases xs) (auto split: option.splits)
        with Cons.IH [OF Cons.prems(1)] show ?thesis by simp
      next
        case 3: 2
        with 2 st Cons.prems obtain d where l: "PublishTo cur d # ws_loop to_value fails cur evs = xs @ PublishTo s c # ys"
          by auto
        show ?thesis
        proof (cases xs)
          case Nil
          then show ?thesis using l Cons.prems(1) by simp
        next
          case (Cons y ys')
          then show ?thesis using l Cons.IH [OF Cons.prems(1)] by auto
        qed
      next
        case (3 x)
        with 2 st Cons.prems(2) obtain xs' where x: "xs = SubscribeTo x # xs'" "\<not> fails x"
            "ws_loop to_value fails x evs = xs' @ PublishTo s c # ys"
          by (cases xs) (auto split: if_splits)
        with Cons.IH [OF x(2,3)] show ?thesis by (simp split: option.splits)
      qed
    qed
  qed simp
  show ?thesis
  proof (intro impI)
    assume h: "handle_ws to_value fails sid evs = xs @ PublishTo s c # ys"
    then obtain xs' where "xs = SubscribeTo sid # xs'" "\<not> fails sid" "ws_loop to_value fails sid evs = xs' @ PublishTo s c # ys"
      by (cases xs) (auto simp: handle_ws_def split: if_splits)
    with run [of sid xs'] show "last_subscribed xs = Some s \<and> \<not> fails s" by (simp split: option.splits)
  qed
qed

end
