(* ===== verification/Accounts.thy ===== *)
theory Accounts
  imports Http_Api "HOL-Library.Product_Lexorder"
begin

text \<open>
  The tables of the server and the handlers over them: access tokens and quickies
  (\<open>cafe-server/src/db.rs\<close>, \<open>handlers/admin.rs\<close>, \<open>handlers/quickies.rs\<close>), the listing of models and of
  agents (\<open>handlers/models.rs\<close>, \<open>handlers/agents.rs\<close>) and the reload signal.  The tables do not fail on
  their own; a row list stands in the order of insertion.  Hashing of tokens, fresh ids and
  parsers of files are arguments.
\<close>

section \<open>Tokens\<close>

record hasher =
  hash_password :: "string \<Rightarrow> string \<Rightarrow> string + string"
  verify_password :: "string \<Rightarrow> string \<Rightarrow> string + bool"

record token_row =
  tk_id :: string
  tk_hash :: string
  tk_prefix :: string
  tk_description :: "string option"
  tk_is_admin :: bool
  tk_created_at :: int

record quickie =
  qk_id :: int
  qk_name :: string
  qk_description :: "string option"
  qk_emoji :: "string option"
  qk_agent_id :: string
  qk_starter_message :: "string option"
  qk_config_json :: "string option"
  qk_ui_mode :: string
  qk_display_order :: int
  qk_created_at :: int

text \<open>\<open>AUTOINCREMENT\<close>: the largest id ever given is remembered.\<close>

record server_db =
  db_tokens :: "token_row list"
  db_quickies :: "quickie list"
  db_last_quickie :: int

definition token_prefix :: "string \<Rightarrow> string" where
  "token_prefix raw = concat (take 8 (str_chars raw))"

definition hash_token :: "hasher \<Rightarrow> string \<Rightarrow> string \<Rightarrow> string + string \<times> string" where
  "hash_token h salt raw =
     (case hash_password h salt raw of
        Inl e \<Rightarrow> Inl (''failed to hash token: '' @ e)
      | Inr hash \<Rightarrow> Inr (hash, token_prefix raw))"

definition insert_token :: "token_row \<Rightarrow> server_db \<Rightarrow> string + server_db" where
  "insert_token row db =
     (if tk_id row \<in> tk_id ` set (db_tokens db) then Inl ''UNIQUE constraint failed: tokens.id''
      else Inr (db\<lparr>db_tokens := db_tokens db @ [row]\<rparr>))"

definition ensure_admin_token ::
  "hasher \<Rightarrow> string \<Rightarrow> string \<Rightarrow> string \<Rightarrow> int \<Rightarrow> string option \<Rightarrow> server_db \<Rightarrow> string + string \<times> server_db" where
  "ensure_admin_token h salt token_uuid id_uuid now wanted db =
     (case (if db_tokens db \<noteq> [] then List.find tk_is_admin (db_tokens db) else None) of
        Some row \<Rightarrow> Inr (''admin token prefix: '' @ tk_prefix row, db)
      | None \<Rightarrow>
          (let token = (case wanted of Some t \<Rightarrow> t | None \<Rightarrow> ''cafe_adm_'' @ token_uuid)
           in case hash_token h salt token of
                Inl e \<Rightarrow> Inl e
              | Inr (hash, prefix) \<Rightarrow>
                  (case insert_token \<lparr>tk_id = id_uuid, tk_hash = hash, tk_prefix = prefix,
                          tk_description = Some ''Initial admin token'', tk_is_admin = True,
                          tk_created_at = now\<rparr> db of
                     Inl e \<Rightarrow> Inl e
                   | Inr db' \<Rightarrow> Inr (token, db'))))"

fun find_verified :: "hasher \<Rightarrow> string \<Rightarrow> token_row list \<Rightarrow> string + token_row option" where
  "find_verified h raw [] = Inr None"
| "find_verified h raw (row # rows) =
     (case verify_password h raw (tk_hash row) of
        Inl e \<Rightarrow> Inl (''failed to parse token hash: '' @ e)
      | Inr True \<Rightarrow> Inr (Some row)
      | Inr False \<Rightarrow> find_verified h raw rows)"

definition lookup_token :: "hasher \<Rightarrow> string \<Rightarrow> server_db \<Rightarrow> string + token_row option" where
  "lookup_token h raw db =
     find_verified h raw (filter (\<lambda>row. tk_prefix row = token_prefix raw) (db_tokens db))"

definition list_tokens :: "server_db \<Rightarrow> token_row list" where
  "list_tokens db = db_tokens db"

definition create_token ::
  "hasher \<Rightarrow> string \<Rightarrow> string \<Rightarrow> string \<Rightarrow> int \<Rightarrow> string option \<Rightarrow> bool \<Rightarrow> server_db
    \<Rightarrow> string + (token_row \<times> string) \<times> server_db" where
  "create_token h salt token_uuid id_uuid now description is_admin db =
     (let raw = ''cafe_'' @ token_uuid
      in case hash_token h salt raw of
           Inl e \<Rightarrow> Inl e
         | Inr (hash, prefix) \<Rightarrow>
             (let row = \<lparr>tk_id = id_uuid, tk_hash = hash, tk_prefix = prefix, tk_description = description,
                         tk_is_admin = is_admin, tk_created_at = now\<rparr>
              in case insert_token row db of
                   Inl e \<Rightarrow> Inl e
                 | Inr db' \<Rightarrow> Inr ((row, raw), db')))"

definition delete_token :: "string \<Rightarrow> server_db \<Rightarrow> bool \<times> server_db" where
  "delete_token tid db =
     (tid \<in> tk_id ` set (db_tokens db), db\<lparr>db_tokens := filter (\<lambda>row. tk_id row \<noteq> tid) (db_tokens db)\<rparr>)"

section \<open>Quickies\<close>

definition list_quickies :: "server_db \<Rightarrow> quickie list" where
  "list_quickies db = sort_key (\<lambda>q. (qk_display_order q, qk_id q)) (db_quickies db)"

definition create_quickie :: "int \<Rightarrow> quickie \<Rightarrow> server_db \<Rightarrow> quickie \<times> server_db" where
  "create_quickie now q db =
     (let i = db_last_quickie db + 1; q' = q\<lparr>qk_id := i, qk_created_at := now\<rparr>
      in (q', db\<lparr>db_quickies := db_quickies db @ [q'], db_last_quickie := i\<rparr>))"

definition delete_quickie :: "int \<Rightarrow> server_db \<Rightarrow> bool \<times> server_db" where
  "delete_quickie i db =
     (i \<in> qk_id ` set (db_quickies db), db\<lparr>db_quickies := filter (\<lambda>q. qk_id q \<noteq> i) (db_quickies db)\<rparr>)"

section \<open>Handlers\<close>

definition list_tokens_response :: "server_db \<Rightarrow> http_response" where
  "list_tokens_response db =
     json_response 200 (JArr (map (\<lambda>t. json_obj [(''id'', JStr (tk_id t)),
         (''description'', opt_json JStr (tk_description t)), (''is_admin'', JBool (tk_is_admin t))]) (list_tokens db)))"

definition create_token_response ::
  "hasher \<Rightarrow> string \<Rightarrow> string \<Rightarrow> string \<Rightarrow> int \<Rightarrow> string option \<Rightarrow> bool option \<Rightarrow> server_db \<Rightarrow> http_response \<times> server_db" where
  "create_token_response h salt token_uuid id_uuid now description adm db =
     (case create_token h salt token_uuid id_uuid now description (case adm of Some a \<Rightarrow> a | None \<Rightarrow> False) db of
        Inl e \<Rightarrow> (error_response 500 e, db)
      | Inr ((t, raw), db') \<Rightarrow>
          (json_response 201 (json_obj [(''id'', JStr (tk_id t)), (''token'', JStr raw),
             (''token_prefix'', JStr (tk_prefix t)), (''description'', opt_json JStr (tk_description t)),
             (''is_admin'', JBool (tk_is_admin t))]), db'))"

definition delete_token_response :: "string \<Rightarrow> server_db \<Rightarrow> http_response \<times> server_db" where
  "delete_token_response tid db =
     (case delete_token tid db of
        (True, db') \<Rightarrow> (status_only 204, db')
      | (False, db') \<Rightarrow> (error_response 404 ''Token not found'', db'))"

definition admin_list_agents :: "string + session_info list \<Rightarrow> http_response" where
  "admin_list_agents r =
     (case r of
        Inr infos \<Rightarrow> json_response 200 (JArr (map session_info_json (filter si_is_background infos)))
      | Inl e \<Rightarrow> error_response 500 e)"

definition system_status :: "string + session_info list \<Rightarrow> http_response" where
  "system_status r =
     json_response 200 (json_obj [(''uptime_seconds'', JNum (PosInt 0)),
       (''session_count'', JNum (PosInt (case r of Inr infos \<Rightarrow> length infos | Inl _ \<Rightarrow> 0))),
       (''agent_count'', JNum (PosInt 0)), (''bus_connected'', JBool True), (''store_connected'', JBool True)])"

text \<open>A failed creation or publish gives its text; a bus error also its code.\<close>

definition AGENTS_SESSION :: string where "AGENTS_SESSION = ''_cafe_agents''"

definition reload_chunk :: "string \<Rightarrow> int \<Rightarrow> chunk" where
  "reload_chunk uuid now_ms =
     as_transient (with_annotation CAFE_FLOW_SIGNAL (JStr ''reload-agents'') (new_null uuid now_ms SERVER))"

definition reload_agents ::
  "string \<Rightarrow> int \<Rightarrow> (string option \<times> string) + unit \<Rightarrow> string + unit \<Rightarrow> client_message list \<times> http_response" where
  "reload_agents uuid now_ms created published =
     (let create = CreateSession AGENTS_SESSION AGENTS_SESSION default_session_config;
          signal = Publish AGENTS_SESSION (reload_chunk uuid now_ms);
          go = ([create, signal],
                case published of
                  Inl e \<Rightarrow> error_response 500 e
                | Inr _ \<Rightarrow> json_response 200 (json_obj [(''status'', JStr ''reload requested''),
                             (''session'', JStr AGENTS_SESSION)]))
      in case created of
           Inr _ \<Rightarrow> go
         | Inl (code, e) \<Rightarrow> if code = Some ''SESSION_EXISTS'' then go else ([create], error_response 500 e))"

definition list_quickies_response :: "(quickie \<Rightarrow> json) \<Rightarrow> server_db \<Rightarrow> http_response" where
  "list_quickies_response to_value db = json_response 200 (JArr (map to_value (list_quickies db)))"

record quickie_request =
  qr_name :: string
  qr_description :: "string option"
  qr_emoji :: "string option"
  qr_agent_id :: string
  qr_starter_message :: "string option"
  qr_config :: "json option"
  qr_ui_mode :: "string option"
  qr_display_order :: "int option"

definition create_quickie_response ::
  "(quickie \<Rightarrow> json) \<Rightarrow> (json \<Rightarrow> string option) \<Rightarrow> int \<Rightarrow> quickie_request \<Rightarrow> server_db \<Rightarrow> http_response \<times> server_db" where
  "create_quickie_response to_value encode now b db =
     (case create_quickie now
             \<lparr>qk_id = 0, qk_name = qr_name b, qk_description = qr_description b, qk_emoji = qr_emoji b,
              qk_agent_id = qr_agent_id b, qk_starter_message = qr_starter_message b,
              qk_config_json = Option.bind (qr_config b) encode,
              qk_ui_mode = (case qr_ui_mode b of Some m \<Rightarrow> m | None \<Rightarrow> ''chat''),
              qk_display_order = (case qr_display_order b of Some n \<Rightarrow> n | None \<Rightarrow> 0), qk_created_at = 0\<rparr> db of
        (q, db') \<Rightarrow> (json_response 201 (to_value q), db'))"

definition delete_quickie_response :: "int \<Rightarrow> server_db \<Rightarrow> http_response \<times> server_db" where
  "delete_quickie_response i db =
     (case delete_quickie i db of
        (True, db') \<Rightarrow> (status_only 204, db')
      | (False, db') \<Rightarrow> (error_response 404 ''Quickie not found'', db'))"

section \<open>Models and agents\<close>

text \<open>The last value that a null chunk of the registry session carries under a key.\<close>

definition latest_string :: "string \<Rightarrow> chunk list \<Rightarrow> string option" where
  "latest_string k cs =
     (case List.map_filter (get_annotation as_str k) (rev (filter (\<lambda>c. chunk_type c = Null) cs)) of
        [] \<Rightarrow> None
      | x # _ \<Rightarrow> Some x)"

definition empty_catalog :: model_catalog where
  "empty_catalog = \<lparr>default_backend = None, backends = []\<rparr>"

definition list_models ::
  "(string \<Rightarrow> model_catalog option) \<Rightarrow> (string \<Rightarrow> string list option) \<Rightarrow> (backend_models \<Rightarrow> json)
    \<Rightarrow> string + chunk list \<Rightarrow> http_response" where
  "list_models parse_catalog parse_list backend_json r =
     (case r of
        Inl _ \<Rightarrow> json_response 200 (json_obj [(''models'', JArr []), (''backends'', JArr [])])
      | Inr cs \<Rightarrow>
          (let catalog = (case Option.bind (latest_string ''config.model_catalog'' cs) parse_catalog of
                            Some c \<Rightarrow> c | None \<Rightarrow> empty_catalog);
               models = (if backends catalog = []
                         then (case Option.bind (latest_string ''config.available_models'' cs) parse_list of
                                 Some ms \<Rightarrow> ms | None \<Rightarrow> [])
                         else all_models catalog)
           in json_response 200 (json_obj [(''models'', JArr (map JStr models)),
                (''default_backend'', opt_json JStr (default_backend catalog)),
                (''backends'', JArr (map backend_json (backends catalog)))])))"

record agent_info =
  ai_id :: string
  ai_description :: string
  ai_background :: bool
  ai_source :: string

definition merge_agent_lists :: "agent_info list \<Rightarrow> agent_info list \<Rightarrow> agent_info list" where
  "merge_agent_lists toml js =
     sort_key (\<lambda>a. (ai_background a, ai_id a))
       (filter (\<lambda>a. ai_id a \<notin> ai_id ` set js) toml @ js)"

text \<open>The first agent of each id, in order.\<close>

fun first_of_each :: "string set \<Rightarrow> agent_info list \<Rightarrow> agent_info list" where
  "first_of_each seen [] = []"
| "first_of_each seen (a # as) =
     (if ai_id a \<in> seen then first_of_each seen as else a # first_of_each (insert (ai_id a) seen) as)"

text \<open>A file that is not read or does not parse is \<open>None\<close>; otherwise its table, as a JSON object.\<close>

definition toml_agent_info :: "json \<Rightarrow> agent_info option" where
  "toml_agent_info v =
     (let i = (case as_str (json_index v ''name'') of Some s \<Rightarrow> s | None \<Rightarrow> [])
      in if i = [] then None
         else Some \<lparr>ai_id = i,
           ai_description = (case as_str (json_index v ''description'') of Some s \<Rightarrow> s | None \<Rightarrow> []),
           ai_background = (case as_bool (json_index v ''background'') of Some b \<Rightarrow> b | None \<Rightarrow> False),
           ai_source = ''toml''\<rparr>)"

definition scan_toml_agents :: "json option list \<Rightarrow> agent_info list" where
  "scan_toml_agents files =
     first_of_each {} (List.map_filter (\<lambda>f. Option.bind f toml_agent_info) files)"

text \<open>The manifests of the loaded script files: name, description, background.\<close>

definition scan_js_agents :: "(string \<times> string \<times> bool) list \<Rightarrow> agent_info list" where
  "scan_js_agents manifests =
     first_of_each {} (map (\<lambda>(n, d, b). \<lparr>ai_id = n, ai_description = d, ai_background = b, ai_source = ''js''\<rparr>) manifests)"

definition list_agents :: "json option list \<Rightarrow> (string \<times> string \<times> bool) list \<Rightarrow> agent_info list" where
  "list_agents files manifests = merge_agent_lists (scan_toml_agents files) (scan_js_agents manifests)"

section \<open>A token opens the door while its row exists\<close>

text \<open>
  What the hash is relied on for: it checks exactly the text it was made from.  Every row of the
  table was made by it.
\<close>

definition hasher_ok :: "hasher \<Rightarrow> bool" where
  "hasher_ok h \<longleftrightarrow>
     (\<forall>salt raw hash. hash_password h salt raw = Inr hash \<longrightarrow> (\<forall>raw'. verify_password h raw' hash = Inr (raw' = raw)))"

definition issued :: "hasher \<Rightarrow> string \<Rightarrow> token_row \<Rightarrow> bool" where
  "issued h raw row \<longleftrightarrow> tk_prefix row = token_prefix raw \<and> (\<exists>salt. hash_password h salt raw = Inr (tk_hash row))"

definition tokens_ok :: "hasher \<Rightarrow> server_db \<Rightarrow> bool" where
  "tokens_ok h db \<longleftrightarrow> distinct (map tk_id (db_tokens db)) \<and> (\<forall>row \<in> set (db_tokens db). \<exists>raw. issued h raw row)"

lemma insert_token_Inr:
  "insert_token row db = Inr db' \<longleftrightarrow>
     tk_id row \<notin> tk_id ` set (db_tokens db) \<and> db' = db\<lparr>db_tokens := db_tokens db @ [row]\<rparr>"
  by (auto simp: insert_token_def)

lemma hash_token_Inr:
  "hash_token h salt raw = Inr (hash, prefix) \<longleftrightarrow> hash_password h salt raw = Inr hash \<and> prefix = token_prefix raw"
  by (auto simp: hash_token_def split: sum.splits)

lemma issued_verify: "hasher_ok h \<Longrightarrow> issued h raw row \<Longrightarrow> verify_password h raw' (tk_hash row) = Inr (raw' = raw)"
  by (auto simp: hasher_ok_def issued_def)

lemma find_verified_eq:
  assumes "hasher_ok h" and "\<forall>row \<in> set rows. \<exists>raw. issued h raw row"
  shows "find_verified h raw rows = Inr (List.find (issued h raw) rows)"
  using assms(2)
proof (induction rows)
  case (Cons row rows)
  then obtain r where r: "issued h r row" by auto
  have "issued h raw row \<longleftrightarrow> raw = r"
  proof
    assume "issued h raw row"
    from issued_verify [OF assms(1) r, of raw] issued_verify [OF assms(1) this, of raw]
    show "raw = r" by simp
  qed (use r in simp)
  then show ?case using Cons issued_verify [OF assms(1) r, of raw] by (auto split: bool.splits)
qed simp

lemma lookup_token_eq:
  assumes "hasher_ok h" and "tokens_ok h db"
  shows "lookup_token h raw db = Inr (List.find (issued h raw) (db_tokens db))"
proof -
  have "List.find (issued h raw) (filter (\<lambda>row. tk_prefix row = token_prefix raw) rows) = List.find (issued h raw) rows"
    for rows by (induction rows) (auto simp: issued_def)
  then show ?thesis
    using find_verified_eq [OF assms(1), of "filter (\<lambda>row. tk_prefix row = token_prefix raw) (db_tokens db)" raw]
      assms(2) by (simp add: lookup_token_def tokens_ok_def)
qed

lemma tokens_ok_insert:
  "tokens_ok h db \<Longrightarrow> issued h raw row \<Longrightarrow> insert_token row db = Inr db' \<Longrightarrow> tokens_ok h db'"
  by (auto simp: tokens_ok_def insert_token_Inr)

lemma tokens_ok_delete: "tokens_ok h db \<Longrightarrow> tokens_ok h (snd (delete_token i db))"
  by (auto simp: tokens_ok_def delete_token_def distinct_map_filter)

lemma create_token_Inr:
  assumes "create_token h salt u i now d adm db = Inr ((row, raw), db')"
  shows "raw = ''cafe_'' @ u \<and> issued h raw row \<and> tk_is_admin row = adm \<and> insert_token row db = Inr db'"
proof -
  obtain hash where hash: "hash_token h salt (''cafe_'' @ u) = Inr (hash, token_prefix (''cafe_'' @ u))"
      "hash_password h salt (''cafe_'' @ u) = Inr hash"
    using assms by (cases "hash_password h salt (''cafe_'' @ u)") (simp_all add: create_token_def hash_token_def Let_def)
  let ?row = "\<lparr>tk_id = i, tk_hash = hash, tk_prefix = token_prefix (''cafe_'' @ u), tk_description = d,
      tk_is_admin = adm, tk_created_at = now\<rparr>"
  show ?thesis
    using assms hash by (cases "insert_token ?row db") (auto simp: create_token_def Let_def issued_def)
qed

lemma tokens_ok_create:
  assumes "tokens_ok h db" and "create_token h salt u i now d adm db = Inr ((row, raw), db')"
  shows "tokens_ok h db'"
  using tokens_ok_insert [OF assms(1)] create_token_Inr [OF assms(2)] by blast

lemma tokens_ok_ensure:
  assumes "tokens_ok h db" and "ensure_admin_token h salt u i now wanted db = Inr (r, db')"
  shows "tokens_ok h db'"
proof (cases "if db_tokens db \<noteq> [] then List.find tk_is_admin (db_tokens db) else None")
  case None
  define raw where "raw = (case wanted of Some t \<Rightarrow> t | None \<Rightarrow> ''cafe_adm_'' @ u)"
  obtain hash where hash: "hash_token h salt raw = Inr (hash, token_prefix raw)" "hash_password h salt raw = Inr hash"
    using assms(2) None
    by (cases "hash_password h salt raw") (simp_all add: ensure_admin_token_def hash_token_def Let_def flip: raw_def)
  let ?row = "\<lparr>tk_id = i, tk_hash = hash, tk_prefix = token_prefix raw, tk_description = Some ''Initial admin token'',
      tk_is_admin = True, tk_created_at = now\<rparr>"
  have "insert_token ?row db = Inr db'"
    using assms(2) None hash
    by (cases "insert_token ?row db") (simp_all add: ensure_admin_token_def Let_def flip: raw_def)
  moreover have "issued h raw ?row" using hash by (auto simp: issued_def)
  ultimately show ?thesis using tokens_ok_insert [OF assms(1)] by blast
next
  case (Some row)
  then show ?thesis using assms by (simp add: ensure_admin_token_def)
qed

lemma find_append: "List.find P (xs @ ys) = (case List.find P xs of Some x \<Rightarrow> Some x | None \<Rightarrow> List.find P ys)"
  by (induction xs) auto

lemma find_filter_unrelated: "\<forall>x \<in> set xs. P x \<longrightarrow> Q x \<Longrightarrow> List.find P (filter Q xs) = List.find P xs"
  by (induction xs) auto

lemma find_filter_none: "\<forall>x \<in> set xs. P x \<longrightarrow> \<not> Q x \<Longrightarrow> List.find P (filter Q xs) = None"
  by (induction xs) auto

text \<open>What a request with a bearer token may do.\<close>

definition token_access :: "hasher \<Rightarrow> server_db \<Rightarrow> string \<Rightarrow> http_response + bool" where
  "token_access h db raw =
     auth_user (\<lambda>t. map_sum (\<lambda>e. e) (map_option tk_is_admin) (lookup_token h t db)) (Some (''Bearer '' @ raw)) None"

text \<open>
  C15: A created token opens the door, with the rights it was created with, until its row is deleted,
  and then no more; what every other text opens is unaffected by both.
\<close>

theorem token_lifecycle:
  assumes "hasher_ok h" and "tokens_ok h db"
    and "create_token h salt token_uuid id_uuid now d adm db = Inr ((row, raw), db1)"
    and "token_access h db raw = Inl (error_response 401 ''Invalid token'')"
  shows "token_access h db1 raw = Inr adm
    \<and> token_access h (snd (delete_token (tk_id row) db1)) raw = Inl (error_response 401 ''Invalid token'')
    \<and> (\<forall>other. other \<noteq> raw \<longrightarrow> token_access h db1 other = token_access h db other)
    \<and> db_tokens (snd (delete_token (tk_id row) db1)) = db_tokens db"
proof -
  have bearer: "token_access h db raw = (case lookup_token h raw db of
      Inl _ \<Rightarrow> Inl (error_response 500 ''Database error'')
    | Inr None \<Rightarrow> Inl (error_response 401 ''Invalid token'')
    | Inr (Some row) \<Rightarrow> Inr (tk_is_admin row))" for db raw
    by (auto simp: token_access_def auth_user_def extract_bearer_def strip_prefix_append split: sum.split option.split)
  have row: "issued h raw row" "tk_is_admin row = adm" "tk_id row \<notin> tk_id ` set (db_tokens db)"
    "db1 = db\<lparr>db_tokens := db_tokens db @ [row]\<rparr>"
    using create_token_Inr [OF assms(3)] unfolding insert_token_Inr by blast+
  have ok1: "tokens_ok h db1" using tokens_ok_create [OF assms(2,3)] .
  have none: "List.find (issued h raw) (db_tokens db) = None"
    using assms(4) lookup_token_eq [OF assms(1,2), of raw]
    by (auto simp: bearer error_response_def split: option.splits)
  have "\<not> issued h other row" if "other \<noteq> raw" for other
    using issued_verify [OF assms(1), of other row other] issued_verify [OF assms(1) row(1), of other] that by auto
  then have "token_access h db1 other = token_access h db other" if "other \<noteq> raw" for other
    using that lookup_token_eq [OF assms(1) ok1, of other] lookup_token_eq [OF assms(1,2), of other]
    by (simp add: bearer row(4) find_append split: option.split)
  moreover have "token_access h db1 raw = Inr adm"
    using lookup_token_eq [OF assms(1) ok1, of raw] none row by (simp add: bearer find_append)
  moreover have restored: "db_tokens (snd (delete_token (tk_id row) db1)) = db_tokens db"
    using row(3,4) by (auto simp: delete_token_def filter_id_conv image_iff)
  moreover have "token_access h (snd (delete_token (tk_id row) db1)) raw = Inl (error_response 401 ''Invalid token'')"
    using lookup_token_eq [OF assms(1) tokens_ok_delete [OF ok1], of raw] restored none by (simp add: bearer)
  ultimately show ?thesis by blast
qed

definition plain_hasher :: hasher where
  "plain_hasher = \<lparr>hash_password = (\<lambda>_ raw. Inr raw), verify_password = (\<lambda>raw hash. Inr (raw = hash))\<rparr>"

theorem token_lifecycle_witness:
  "\<exists>row raw db1. create_token plain_hasher [] ''0'' ''i'' 0 None True
       \<lparr>db_tokens = [], db_quickies = [], db_last_quickie = 0\<rparr> = Inr ((row, raw), db1)
     \<and> token_access plain_hasher db1 raw = Inr True"
proof -
  let ?db = "\<lparr>db_tokens = [], db_quickies = [], db_last_quickie = 0\<rparr>"
  have h: "hasher_ok plain_hasher" by (simp add: hasher_ok_def plain_hasher_def)
  have db: "tokens_ok plain_hasher ?db" by (simp add: tokens_ok_def)
  obtain row raw db1 where c: "create_token plain_hasher [] ''0'' ''i'' 0 None True ?db = Inr ((row, raw), db1)"
    by (simp add: create_token_def hash_token_def plain_hasher_def insert_token_def Let_def)
  have "token_access plain_hasher ?db raw = Inl (error_response 401 ''Invalid token'')"
    by (simp add: token_access_def auth_user_def extract_bearer_def strip_prefix_append lookup_token_def)
  then show ?thesis using token_lifecycle [OF h db c] c by blast
qed

section \<open>Agents\<close>

lemma first_of_each_spec:
  "set (map ai_id (first_of_each seen as)) = ai_id ` set as - seen
   \<and> distinct (map ai_id (first_of_each seen as)) \<and> set (first_of_each seen as) \<subseteq> set as"
  by (induction as arbitrary: seen) auto

text \<open>
  The listing of agents has one entry for every agent id that a readable file of either kind
  defines, a script wherever a script defines the id, foreground agents first and each group in the
  order of the ids.
\<close>

theorem list_agents_spec:
  "distinct (map ai_id (list_agents files manifests))
   \<and> sorted (map (\<lambda>a. (ai_background a, ai_id a)) (list_agents files manifests))
   \<and> ai_id ` set (list_agents files manifests)
       = ai_id ` set (List.map_filter (\<lambda>f. Option.bind f toml_agent_info) files) \<union> fst ` set manifests
   \<and> {ai_id a | a. a \<in> set (list_agents files manifests) \<and> ai_source a = ''js''} = fst ` set manifests"
proof -
  let ?toml = "scan_toml_agents files" and ?js = "scan_js_agents manifests"
  note t = first_of_each_spec [of "{}" "List.map_filter (\<lambda>f. Option.bind f toml_agent_info) files", folded scan_toml_agents_def]
  let ?raw = "map (\<lambda>(n, d, b). \<lparr>ai_id = n, ai_description = d, ai_background = b, ai_source = ''js''\<rparr>) manifests"
  note j = first_of_each_spec [of "{}" ?raw, folded scan_js_agents_def]
  have src: "\<forall>a \<in> set ?toml. ai_source a = ''toml''" "\<forall>a \<in> set ?js. ai_source a = ''js''"
  proof -
    have toml: "Option.bind f toml_agent_info = Some a \<Longrightarrow> ai_source a = ''toml''" for f a
      by (cases f) (auto simp: toml_agent_info_def Let_def split: if_splits)
    show "\<forall>a \<in> set ?toml. ai_source a = ''toml''"
      using t toml by (fastforce simp: map_filter_def)
    show "\<forall>a \<in> set ?js. ai_source a = ''js''" using j by auto
  qed
  have ids: "ai_id ` set ?js = fst ` set manifests" using j by (simp add: image_image split_beta)
  have set_eq: "set (list_agents files manifests) = {a \<in> set ?toml. ai_id a \<notin> ai_id ` set ?js} \<union> set ?js"
    by (auto simp: list_agents_def merge_agent_lists_def)
  have "distinct (map ai_id (filter (\<lambda>a. ai_id a \<notin> ai_id ` set ?js) ?toml @ ?js))"
    using conjunct1 [OF conjunct2 [OF t]] conjunct1 [OF conjunct2 [OF j]] by (auto simp: distinct_map_filter)
  then have "distinct (map ai_id (list_agents files manifests))"
    by (simp only: list_agents_def merge_agent_lists_def distinct_map set_sort distinct_sort)
  moreover have "sorted (map (\<lambda>a. (ai_background a, ai_id a)) (list_agents files manifests))"
    by (simp add: list_agents_def merge_agent_lists_def)
  moreover have "ai_id ` set (list_agents files manifests)
      = ai_id ` set (List.map_filter (\<lambda>f. Option.bind f toml_agent_info) files) \<union> fst ` set manifests"
  proof -
    have "ai_id ` {a \<in> A. ai_id a \<notin> B} = ai_id ` A - B" for A :: "agent_info set" and B by auto
    then show ?thesis using conjunct1 [OF t] by (simp add: set_eq image_Un ids Un_commute Un_Diff_cancel)
  qed
  moreover have "{ai_id a | a. a \<in> set (list_agents files manifests) \<and> ai_source a = ''js''} = fst ` set manifests"
  proof -
    have "{ai_id a | a. a \<in> set (list_agents files manifests) \<and> ai_source a = ''js''} = ai_id ` set ?js"
      using src by (auto simp: set_eq)
    then show ?thesis by (simp only: ids)
  qed
  ultimately show ?thesis by blast
qed

text \<open>
  The administrator's list of background agents is always empty, whatever runs on the bus: the bus
  marks no session as a background session.
\<close>

lemma admin_lists_no_agents:
  "admin_list_agents (Inr (registry_list r)) = json_response 200 (JArr [])"
  by (simp add: admin_list_agents_def registry_list_def filter_empty_conv split_beta)

text \<open>A reload signal reaches whoever is connected and leaves no trace in the session.\<close>

lemma reload_signal_is_transient:
  "map_option history (session_publish now (reload_chunk uuid t) s) = Some (history s)"
  by (simp add: session_publish_def reload_chunk_def delete_target_def retain_secs_def annotation_as_transient)

text \<open>The id of a quickie is not given twice, even after the deletion of the last one.\<close>

definition quickies_ok :: "server_db \<Rightarrow> bool" where
  "quickies_ok db \<longleftrightarrow> distinct (map qk_id (db_quickies db)) \<and> (\<forall>q \<in> set (db_quickies db). qk_id q \<le> db_last_quickie db)"

lemma quickies_ok_create:
  "quickies_ok db \<Longrightarrow> quickies_ok (snd (create_quickie now q db)) \<and> qk_id (fst (create_quickie now q db)) \<notin> qk_id ` set (db_quickies db)"
  by (force simp: quickies_ok_def create_quickie_def Let_def)

lemma quickies_ok_delete: "quickies_ok db \<Longrightarrow> quickies_ok (snd (delete_quickie i db))"
  by (auto simp: quickies_ok_def delete_quickie_def distinct_map_filter)

end
