(* ===== verification/Allowlist.thy ===== *)
theory Allowlist
  imports Prelude
begin

text \<open>
  The peers that the bus lets in over iroh (\<open>cafe-bus/src/allowlist.rs\<close>): a table of peer ids, which
  other processes edit too, the set of ids read from it last, and the decision made at each
  handshake.  The table does not fail; rows stand in the order of insertion.
\<close>

record allowlist =
  al_rows :: "(string, string option \<times> int) kv"
  al_cache :: "string set"

definition refresh :: "allowlist \<Rightarrow> allowlist" where
  "refresh a = a\<lparr>al_cache := set (kv_keys (al_rows a))\<rparr>"

definition allowlist_connect :: "(string, string option \<times> int) kv \<Rightarrow> allowlist" where
  "allowlist_connect rows = refresh \<lparr>al_rows = rows, al_cache = {}\<rparr>"

definition allowlist_contains :: "string \<Rightarrow> allowlist \<Rightarrow> bool" where
  "allowlist_contains peer a = (peer \<in> al_cache a)"

text \<open>A replaced row is a new row.\<close>

definition allowlist_add :: "string \<Rightarrow> string option \<Rightarrow> int \<Rightarrow> allowlist \<Rightarrow> allowlist" where
  "allowlist_add peer label now a =
     refresh (a\<lparr>al_rows := kv_remove peer (al_rows a) @ [(peer, label, now)]\<rparr>)"

definition allowlist_remove :: "string \<Rightarrow> allowlist \<Rightarrow> bool \<times> allowlist" where
  "allowlist_remove peer a =
     (kv_contains (al_rows a) peer, refresh (a\<lparr>al_rows := kv_remove peer (al_rows a)\<rparr>))"

definition allowlist_list :: "allowlist \<Rightarrow> (string \<times> string option) list" where
  "allowlist_list a = map (\<lambda>(peer, label, _). (peer, label)) (sort_key fst (al_rows a))"

datatype handshake_outcome = AcceptPeer | RejectPeer nat string

definition decide :: "string \<Rightarrow> allowlist \<Rightarrow> handshake_outcome" where
  "decide peer a = (if allowlist_contains peer a then AcceptPeer else RejectPeer 403 ''not authorized'')"

definition after_handshake :: "bool \<Rightarrow> string \<Rightarrow> allowlist \<Rightarrow> handshake_outcome" where
  "after_handshake incoming peer a = (if \<not> incoming then AcceptPeer else decide peer a)"

section \<open>The decision follows the table\<close>

text \<open>
  What happens to the list: operations of the bus, its periodic refresh, and edits of the table by
  another process.
\<close>

datatype allowlist_event =
    AddPeer string "string option" int
  | RemovePeer string
  | Refresh
  | OutsideAdd string "string option" int
  | OutsideRemove string

fun allowlist_step :: "allowlist_event \<Rightarrow> allowlist \<Rightarrow> allowlist" where
  "allowlist_step (AddPeer p l now) a = allowlist_add p l now a"
| "allowlist_step (RemovePeer p) a = snd (allowlist_remove p a)"
| "allowlist_step Refresh a = refresh a"
| "allowlist_step (OutsideAdd p l now) a = a\<lparr>al_rows := kv_remove p (al_rows a) @ [(p, l, now)]\<rparr>"
| "allowlist_step (OutsideRemove p) a = a\<lparr>al_rows := kv_remove p (al_rows a)\<rparr>"

text \<open>The peers the table lists, as the events leave them.\<close>

fun listed :: "allowlist_event \<Rightarrow> string set \<Rightarrow> string set" where
  "listed (AddPeer p _ _) S = insert p S"
| "listed (RemovePeer p) S = S - {p}"
| "listed Refresh S = S"
| "listed (OutsideAdd p _ _) S = insert p S"
| "listed (OutsideRemove p) S = S - {p}"

definition rereads :: "allowlist_event \<Rightarrow> bool" where
  "rereads ev = (case ev of AddPeer _ _ _ \<Rightarrow> True | RemovePeer _ \<Rightarrow> True | Refresh \<Rightarrow> True | _ \<Rightarrow> False)"

definition peers :: "allowlist \<Rightarrow> string set" where
  "peers a = set (kv_keys (al_rows a))"

lemma keys_snoc: "kv_keys (m @ [(k, v)]) = kv_keys m @ [k]"
  by (simp add: kv_keys_def)

lemma peers_step: "peers (allowlist_step ev a) = listed ev (peers a)"
  by (cases ev) (auto simp: peers_def refresh_def allowlist_add_def allowlist_remove_def kv_simps keys_snoc)

lemma cache_step: "rereads ev \<Longrightarrow> al_cache (allowlist_step ev a) = peers (allowlist_step ev a)"
  by (cases ev) (auto simp: rereads_def peers_def refresh_def allowlist_add_def allowlist_remove_def)

text \<open>
  After every operation of the bus on the list and after every refresh, an incoming peer is let in
  exactly if the table lists it then, with all outside edits up to that point taken into account;
  with an empty table nobody is.
\<close>

theorem allowlist_decides:
  "after_handshake True peer (allowlist_step ev (fold allowlist_step evs (allowlist_connect []))) = AcceptPeer
     \<longleftrightarrow> (if rereads ev then peer \<in> fold listed (evs @ [ev]) {}
         else after_handshake True peer (fold allowlist_step evs (allowlist_connect [])) = AcceptPeer)"
proof -
  let ?a = "fold allowlist_step evs (allowlist_connect [])"
  have "peers (fold allowlist_step evs a) = fold listed evs (peers a)" for a
    by (induction evs arbitrary: a) (simp_all add: peers_step)
  then have p: "peers ?a = fold listed evs {}"
    by (simp add: peers_def allowlist_connect_def refresh_def kv_keys_def)
  show ?thesis
  proof (cases "rereads ev")
    case True
    then show ?thesis
      using cache_step [OF True, of ?a] p
      by (simp add: after_handshake_def decide_def allowlist_contains_def peers_step)
  next
    case False
    then have "al_cache (allowlist_step ev ?a) = al_cache ?a" by (cases ev) (simp_all add: rereads_def)
    with False show ?thesis by (simp add: after_handshake_def decide_def allowlist_contains_def)
  qed
qed

end
