(* ===== verification/Js_Agents.thy ===== *)
theory Js_Agents
  imports Session_Loop
begin

text \<open>
  Agents written in JavaScript, up to the engine that runs them: the manifest a script declares and
  the scan of the agent directories (\<open>cafe-js-manifest/src/lib.rs\<close>), the registry with its reloads
  (\<open>cafe-agent-js/src/loader.rs\<close>), and from \<open>cafe-agent-js/src/bridge.rs\<close> the events an agent gets,
  the chunks it may publish and the configuration it reads.  The engine, the file system and the
  hash function are parameters; an error of the engine or of a file is its text.
\<close>

section \<open>Manifests\<close>

record js_manifest =
  jm_name :: string
  jm_description :: string
  jm_background :: bool
  jm_allows_reload :: bool
  jm_persists_state :: bool
  jm_mode :: string
  jm_schedule :: "string option"
  jm_rpc_timeout_secs :: "nat option"
  jm_initial_config :: "(string, json) kv"

text \<open>
  Derived deserialisation with default values: a field left out takes its default, an array gives
  the fields by position and may end early, a null is a value.
\<close>

definition default_fields :: "string list \<Rightarrow> json \<Rightarrow> json option list option" where
  "default_fields names v =
     (case v of
        JObj kvs \<Rightarrow> Some (map (kv_get kvs) names)
      | JArr xs \<Rightarrow> if length xs \<le> length names
                   then Some (map Some xs @ replicate (length names - length xs) None) else None
      | _ \<Rightarrow> None)"

definition field_default :: "'a \<Rightarrow> (json \<Rightarrow> 'a option) \<Rightarrow> json option \<Rightarrow> 'a option" where
  "field_default x d f = (case f of None \<Rightarrow> Some x | Some v \<Rightarrow> d v)"

definition manifest_from_json :: "json \<Rightarrow> js_manifest option" where
  "manifest_from_json v =
     Option.bind (default_fields [''name'', ''description'', ''background'', ''allows_reload'', ''persists_state'',
             ''mode'', ''schedule'', ''rpc_timeout_secs'', ''initial_config''] v) (\<lambda>fs.
     Option.bind (field_string (fs ! 0)) (\<lambda>n.
     Option.bind (field_default [] as_str (fs ! 1)) (\<lambda>d.
     Option.bind (field_default False as_bool (fs ! 2)) (\<lambda>b.
     Option.bind (field_default True as_bool (fs ! 3)) (\<lambda>r.
     Option.bind (field_default True as_bool (fs ! 4)) (\<lambda>p.
     Option.bind (field_default ''stateless'' as_str (fs ! 5)) (\<lambda>m.
     Option.bind (field_option as_str (fs ! 6)) (\<lambda>s.
     Option.bind (field_option as_u64 (fs ! 7)) (\<lambda>t.
     map_option (\<lambda>i. \<lparr>jm_name = n, jm_description = d, jm_background = b, jm_allows_reload = r,
         jm_persists_state = p, jm_mode = m, jm_schedule = s, jm_rpc_timeout_secs = t, jm_initial_config = i\<rparr>)
       (field_default [] as_object (fs ! 8)))))))))))"

datatype manifest_error =
    EvalFailed string
  | ReadFailed string
  | NotJson
  | NoManifest
  | InvalidFields
  | EmptyName
  | BadMode string

definition validate :: "js_manifest \<Rightarrow> manifest_error option" where
  "validate m =
     (if str_trim (jm_name m) = [] then Some EmptyName
      else if jm_mode m = ''stateless'' \<or> jm_mode m = ''stateful'' then None
      else Some (BadMode (jm_mode m)))"

text \<open>What the throwaway engine makes of a source: the text of its manifest, or where it failed.\<close>

datatype script_result = EvalError string | ReadError string | ManifestText string

record js_engine =
  je_eval :: "string \<Rightarrow> script_result"
  je_parse :: "string \<Rightarrow> json option"
  je_sha256 :: "string \<Rightarrow> string"

definition extract_manifest :: "js_engine \<Rightarrow> string \<Rightarrow> manifest_error + js_manifest" where
  "extract_manifest g source =
     (case je_eval g source of
        EvalError x \<Rightarrow> Inl (EvalFailed x)
      | ReadError x \<Rightarrow> Inl (ReadFailed x)
      | ManifestText t \<Rightarrow>
          (case je_parse g t of
             None \<Rightarrow> Inl NotJson
           | Some v \<Rightarrow>
               if v = JNull then Inl NoManifest
               else (case manifest_from_json v of
                       None \<Rightarrow> Inl InvalidFields
                     | Some m \<Rightarrow> (case validate m of Some x \<Rightarrow> Inl x | None \<Rightarrow> Inr m))))"

section \<open>Directories of agents\<close>

text \<open>
  A file system at one moment: what a pattern matches (an entry may be an error) and the text of a
  file.  Paths are sorted by their components.
\<close>

record js_files =
  jf_glob :: "string \<Rightarrow> string + (string + string) list"
  jf_read :: "string \<Rightarrow> string + string"
  jf_exists :: "string \<Rightarrow> bool"

record loaded_js_file =
  lj_path :: string
  lj_source :: string
  lj_manifest :: js_manifest

datatype skip_reason = GlobError string | Unreadable string | Invalid manifest_error

record scan_result =
  sr_loaded :: "loaded_js_file list"
  sr_skipped :: "(string \<times> skip_reason) list"

fun scan_entries ::
  "js_engine \<Rightarrow> js_files \<Rightarrow> string \<Rightarrow> (string + string) list \<Rightarrow> scan_result \<Rightarrow> scan_result" where
  "scan_entries g fs dir [] out = out"
| "scan_entries g fs dir (Inl x # es) out =
     scan_entries g fs dir es (out\<lparr>sr_skipped := sr_skipped out @ [(dir, GlobError x)]\<rparr>)"
| "scan_entries g fs dir (Inr path # es) out =
     scan_entries g fs dir es
       (case jf_read fs path of
          Inl x \<Rightarrow> out\<lparr>sr_skipped := sr_skipped out @ [(path, Unreadable x)]\<rparr>
        | Inr source \<Rightarrow>
            (case extract_manifest g source of
               Inl x \<Rightarrow> out\<lparr>sr_skipped := sr_skipped out @ [(path, Invalid x)]\<rparr>
             | Inr m \<Rightarrow> out\<lparr>sr_loaded := sr_loaded out
                 @ [\<lparr>lj_path = path, lj_source = source, lj_manifest = m\<rparr>]\<rparr>))"

definition path_key :: "string \<Rightarrow> string list" where
  "path_key p = filter (\<lambda>s. s \<noteq> []) (split_on (CHR ''/'') p)"

definition scan_directory :: "js_engine \<Rightarrow> js_files \<Rightarrow> string \<Rightarrow> scan_result" where
  "scan_directory g fs dir =
     (case jf_glob fs (dir @ ''/*.js'') of
        Inl x \<Rightarrow> \<lparr>sr_loaded = [], sr_skipped = [(dir, GlobError x)]\<rparr>
      | Inr es \<Rightarrow>
          (let out = scan_entries g fs dir es \<lparr>sr_loaded = [], sr_skipped = []\<rparr>
           in out\<lparr>sr_loaded := sort_key (\<lambda>l. path_key (lj_path l)) (sr_loaded out)\<rparr>))"

definition split_paths :: "string \<Rightarrow> string list" where
  "split_paths extra = filter (\<lambda>s. s \<noteq> []) (split_on (CHR '':'') extra)"

fun keep_unseen :: "'a set \<Rightarrow> 'a list \<Rightarrow> 'a list" where
  "keep_unseen seen [] = []"
| "keep_unseen seen (d # ds) =
     (if d \<in> seen then keep_unseen seen ds else d # keep_unseen (insert d seen) ds)"

definition dedupe_dirs :: "string list \<Rightarrow> string list" where
  "dedupe_dirs dirs = keep_unseen {} dirs"

definition agent_dirs :: "string option \<Rightarrow> string list" where
  "agent_dirs extra =
     dedupe_dirs (''./agents-js'' # (case extra of None \<Rightarrow> [] | Some paths \<Rightarrow> split_paths paths))"

datatype load_error = FileUnreadable string | FileInvalid manifest_error | NotReloadable string

definition load_file :: "js_engine \<Rightarrow> js_files \<Rightarrow> string \<Rightarrow> load_error + loaded_js_file" where
  "load_file g fs path =
     (case jf_read fs path of
        Inl x \<Rightarrow> Inl (FileUnreadable x)
      | Inr source \<Rightarrow>
          (case extract_manifest g source of
             Inl x \<Rightarrow> Inl (FileInvalid x)
           | Inr m \<Rightarrow> Inr \<lparr>lj_path = path, lj_source = source, lj_manifest = m\<rparr>))"

section \<open>The registry of agents\<close>

record js_agent =
  ja_manifest :: js_manifest
  ja_source :: string
  ja_path :: string
  ja_file_hash :: string

type_synonym js_registry = "(string, js_agent) kv"

datatype load_warning = Redefined string string string | Skipping string skip_reason

definition hash_file :: "js_engine \<Rightarrow> js_files \<Rightarrow> string \<Rightarrow> string" where
  "hash_file g fs path = (case jf_read fs path of Inr s \<Rightarrow> je_sha256 g s | Inl _ \<Rightarrow> [])"

definition agent_of_file :: "js_engine \<Rightarrow> js_files \<Rightarrow> loaded_js_file \<Rightarrow> js_agent" where
  "agent_of_file g fs l =
     \<lparr>ja_manifest = lj_manifest l, ja_source = lj_source l, ja_path = lj_path l,
      ja_file_hash = hash_file g fs (lj_path l)\<rparr>"

definition insert_file ::
  "js_engine \<Rightarrow> js_files \<Rightarrow> loaded_js_file \<Rightarrow> js_registry \<times> load_warning list \<Rightarrow> js_registry \<times> load_warning list" where
  "insert_file g fs l rw =
     (case rw of (r, ws) \<Rightarrow>
        (let name = jm_name (lj_manifest l)
         in (kv_insert name (agent_of_file g fs l) r,
             case kv_get r name of
               None \<Rightarrow> ws
             | Some prev \<Rightarrow> ws @ [Redefined name (lj_path l) (ja_path prev)])))"

definition load_dir ::
  "js_engine \<Rightarrow> js_files \<Rightarrow> string \<Rightarrow> js_registry \<times> load_warning list \<Rightarrow> js_registry \<times> load_warning list" where
  "load_dir g fs dir rw =
     (let res = scan_directory g fs dir
      in case fold (insert_file g fs) (sr_loaded res) rw of
           (r, ws) \<Rightarrow> (r, ws @ map (\<lambda>(p, why). Skipping p why) (sr_skipped res)))"

definition load_all :: "js_engine \<Rightarrow> js_files \<Rightarrow> string list \<Rightarrow> js_registry \<times> load_warning list" where
  "load_all g fs dirs = fold (load_dir g fs) dirs ([], [])"

definition reload_file ::
  "js_engine \<Rightarrow> js_files \<Rightarrow> string \<Rightarrow> js_registry \<Rightarrow> (load_error + string) \<times> js_registry" where
  "reload_file g fs path r =
     (case load_file g fs path of
        Inl x \<Rightarrow> (Inl x, r)
      | Inr l \<Rightarrow>
          (let name = jm_name (lj_manifest l)
           in if \<not> jm_allows_reload (lj_manifest l) then (Inl (NotReloadable name), r)
              else (Inr name,
                    kv_insert name (agent_of_file g fs l)
                      (kv_retain (\<lambda>_ a. \<not> (ja_path a = path \<and> jm_name (ja_manifest a) \<noteq> name)) r))))"

definition reload_all ::
  "js_engine \<Rightarrow> js_files \<Rightarrow> string list \<Rightarrow> js_registry \<Rightarrow> (nat \<times> load_warning list) \<times> js_registry" where
  "reload_all g fs dirs r =
     (case load_all g fs dirs of (fresh, ws) \<Rightarrow> ((length fresh, ws), fresh))"

definition remove_by_path :: "string \<Rightarrow> js_registry \<Rightarrow> string option \<times> js_registry" where
  "remove_by_path path r =
     (case List.find (\<lambda>(_, a). ja_path a = path) r of
        None \<Rightarrow> (None, r)
      | Some (name, _) \<Rightarrow> (Some name, kv_remove name r))"

text \<open>A changed path: reload it if it is there, unload its agent if it is gone.\<close>

definition file_event :: "js_engine \<Rightarrow> js_files \<Rightarrow> string \<Rightarrow> js_registry \<Rightarrow> js_registry" where
  "file_event g fs path r =
     (if jf_exists fs path then snd (reload_file g fs path r) else snd (remove_by_path path r))"

section \<open>No file has two agents, and every agent is its file's\<close>

definition agent_ok :: "js_engine \<Rightarrow> js_agent \<Rightarrow> bool" where
  "agent_ok g a \<longleftrightarrow>
     extract_manifest g (ja_source a) = Inr (ja_manifest a) \<and> ja_file_hash a = je_sha256 g (ja_source a)"

definition registry_ok :: "js_engine \<Rightarrow> js_registry \<Rightarrow> bool" where
  "registry_ok g r \<longleftrightarrow>
     kv_wf r
     \<and> (\<forall>n a. kv_get r n = Some a \<longrightarrow> jm_name (ja_manifest a) = n \<and> agent_ok g a)
     \<and> (\<forall>n a m b. kv_get r n = Some a \<and> kv_get r m = Some b \<and> ja_path a = ja_path b \<longrightarrow> n = m)"

definition read_from :: "js_files \<Rightarrow> js_registry \<Rightarrow> bool" where
  "read_from fs r \<longleftrightarrow> (\<forall>n a. kv_get r n = Some a \<longrightarrow> jf_read fs (ja_path a) = Inr (ja_source a))"

definition file_ok :: "js_engine \<Rightarrow> js_files \<Rightarrow> loaded_js_file \<Rightarrow> bool" where
  "file_ok g fs l \<longleftrightarrow>
     jf_read fs (lj_path l) = Inr (lj_source l) \<and> extract_manifest g (lj_source l) = Inr (lj_manifest l)"

lemma agent_of_file_fields [simp]:
  "ja_manifest (agent_of_file g fs l) = lj_manifest l" "ja_source (agent_of_file g fs l) = lj_source l"
  "ja_path (agent_of_file g fs l) = lj_path l"
  by (simp_all add: agent_of_file_def)

lemma agent_of_file_ok: "file_ok g fs l \<Longrightarrow> agent_ok g (agent_of_file g fs l)"
  by (simp add: agent_ok_def file_ok_def agent_of_file_def hash_file_def)

lemma scan_entries_ok:
  "(\<forall>l \<in> set (sr_loaded out). file_ok g fs l) \<Longrightarrow> \<forall>l \<in> set (sr_loaded (scan_entries g fs dir es out)). file_ok g fs l"
proof (induction g fs dir es out rule: scan_entries.induct)
  case (3 g fs dir path es out)
  show ?case
    unfolding scan_entries.simps by (rule 3) (use 3(2) in \<open>simp add: file_ok_def split: sum.split\<close>)
qed simp_all

lemma scan_directory_ok: "\<forall>l \<in> set (sr_loaded (scan_directory g fs dir)). file_ok g fs l"
  using scan_entries_ok [of "\<lparr>sr_loaded = [], sr_skipped = []\<rparr>" g fs dir]
  by (auto simp: scan_directory_def Let_def split: sum.split)

lemma registry_ok_insert:
  assumes r: "registry_ok g r" and a: "agent_ok g a"
    and same: "\<And>n b. kv_get r n = Some b \<Longrightarrow> ja_path b = ja_path a \<Longrightarrow> n = jm_name (ja_manifest a)"
  shows "registry_ok g (kv_insert (jm_name (ja_manifest a)) a r)"
  unfolding registry_ok_def kv_simps
proof (intro conjI allI impI)
  show "kv_wf r" using r by (simp add: registry_ok_def)
next
  fix n b
  assume "((kv_get r)(jm_name (ja_manifest a) \<mapsto> a)) n = Some b"
  then show "jm_name (ja_manifest b) = n" "agent_ok g b"
    using r a unfolding registry_ok_def by (auto split: if_splits)
next
  fix n b m c
  assume "((kv_get r)(jm_name (ja_manifest a) \<mapsto> a)) n = Some b
    \<and> ((kv_get r)(jm_name (ja_manifest a) \<mapsto> a)) m = Some c \<and> ja_path b = ja_path c"
  moreover have "kv_get r n = Some b \<Longrightarrow> kv_get r m = Some c \<Longrightarrow> ja_path b = ja_path c \<Longrightarrow> n = m"
    using r unfolding registry_ok_def by blast
  ultimately show "n = m" using same [of n b] same [of m c] by (auto split: if_splits)
qed

lemma registry_ok_subset:
  assumes "registry_ok g r" "kv_wf r'" "\<And>n a. kv_get r' n = Some a \<Longrightarrow> kv_get r n = Some a"
  shows "registry_ok g r'"
  using assms unfolding registry_ok_def by blast

lemma insert_file_ok:
  assumes "registry_ok g r" "read_from fs r" "file_ok g fs l"
  shows "registry_ok g (fst (insert_file g fs l (r, ws))) \<and> read_from fs (fst (insert_file g fs l (r, ws)))"
proof -
  have same: "jm_name (lj_manifest l) = n" if "kv_get r n = Some a" "ja_path a = lj_path l" for n a
  proof -
    have "jf_read fs (ja_path a) = Inr (ja_source a)" using assms(2) that(1) unfolding read_from_def by blast
    then have "ja_source a = lj_source l" using assms(3) that(2) by (simp add: file_ok_def)
    moreover have "jm_name (ja_manifest a) = n \<and> agent_ok g a"
      using assms(1) that(1) unfolding registry_ok_def by blast
    ultimately show ?thesis using assms(3) by (simp add: file_ok_def agent_ok_def)
  qed
  show ?thesis
    using registry_ok_insert [OF assms(1) agent_of_file_ok [OF assms(3)]] assms(2,3) same
    by (auto simp: read_from_def file_ok_def insert_file_def kv_simps Let_def)
qed

lemma load_dir_ok:
  assumes "registry_ok g (fst rw)" "read_from fs (fst rw)"
  shows "registry_ok g (fst (load_dir g fs dir rw)) \<and> read_from fs (fst (load_dir g fs dir rw))"
proof -
  have "registry_ok g (fst (fold (insert_file g fs) ls x)) \<and> read_from fs (fst (fold (insert_file g fs) ls x))"
    if "\<forall>l \<in> set ls. file_ok g fs l" "registry_ok g (fst x)" "read_from fs (fst x)" for ls x
    using that
  proof (induction ls arbitrary: x)
    case (Cons l ls)
    then show ?case using insert_file_ok [of g "fst x" fs l "snd x"] by simp
  qed simp
  from this [OF scan_directory_ok assms] show ?thesis
    by (simp add: load_dir_def Let_def case_prod_beta)
qed

lemma load_all_ok: "registry_ok g (fst (load_all g fs dirs)) \<and> read_from fs (fst (load_all g fs dirs))"
proof -
  have "registry_ok g (fst (fold (load_dir g fs) ds x)) \<and> read_from fs (fst (fold (load_dir g fs) ds x))"
    if "registry_ok g (fst x)" "read_from fs (fst x)" for ds x
    using that by (induction ds arbitrary: x) (simp_all add: load_dir_ok)
  from this [of "([], [])"] show ?thesis
    by (simp add: load_all_def registry_ok_def read_from_def kv_simps)
qed

lemma reload_file_ok: "registry_ok g r \<Longrightarrow> registry_ok g (snd (reload_file g fs path r))"
proof (cases "load_file g fs path")
  case (Inr l)
  assume r: "registry_ok g r"
  let ?name = "jm_name (lj_manifest l)"
  let ?r = "kv_retain (\<lambda>_ a. \<not> (ja_path a = path \<and> jm_name (ja_manifest a) \<noteq> ?name)) r"
  have wf: "kv_wf r" using r by (simp add: registry_ok_def)
  have l: "lj_path l = path" "agent_ok g (agent_of_file g fs l)"
    using Inr agent_of_file_ok [of g fs l] by (auto simp: load_file_def file_ok_def split: sum.splits)
  have sub: "kv_get ?r n = Some a \<Longrightarrow> kv_get r n = Some a \<and> (ja_path a = path \<longrightarrow> jm_name (ja_manifest a) = ?name)" for n a
    using kv_get_retain [OF wf] by (auto split: option.splits if_splits)
  have kept: "registry_ok g ?r"
    using r kv_wf_retain [OF wf] by (rule registry_ok_subset) (use sub in blast)
  have same: "n = ?name" if "kv_get ?r n = Some b" "ja_path b = path" for n b
    using sub [OF that(1)] that(2) r unfolding registry_ok_def by blast
  have "registry_ok g (kv_insert (jm_name (ja_manifest (agent_of_file g fs l))) (agent_of_file g fs l) ?r)"
  proof (rule registry_ok_insert [OF kept l(2)])
    fix n b
    assume "kv_get ?r n = Some b" "ja_path b = ja_path (agent_of_file g fs l)"
    then show "n = jm_name (ja_manifest (agent_of_file g fs l))" unfolding agent_of_file_fields l by (rule same)
  qed
  then show ?thesis using r by (simp add: reload_file_def Inr Let_def)
qed (simp add: reload_file_def)

lemma remove_by_path_spec:
  assumes "registry_ok g r"
  shows "kv_get (snd (remove_by_path path r)) n
    = (case kv_get r n of Some a \<Rightarrow> if ja_path a = path then None else Some a | None \<Rightarrow> None)"
proof (cases "List.find (\<lambda>(_, a). ja_path a = path) r")
  case None
  then have "ja_path a \<noteq> path" if "kv_get r n = Some a" for a
    using kv_get_SomeD [OF that] by (auto simp: find_None_iff)
  then show ?thesis
    using None by (simp add: remove_by_path_def split: option.split)
next
  case (Some x)
  obtain k a where x: "x = (k, a)" by (cases x)
  have "(k, a) \<in> set r" "ja_path a = path" using find_mem [OF Some] x by auto
  then have k: "kv_get r k = Some a" "ja_path a = path"
    using assms by (auto simp: registry_ok_def kv_get_mem)
  then have "kv_get r n = Some b \<Longrightarrow> ja_path b = path \<longleftrightarrow> n = k" for b
    using assms unfolding registry_ok_def by (metis option.inject)
  then show ?thesis
    using Some x k by (auto simp: remove_by_path_def kv_simps split: option.split)
qed

lemma remove_by_path_ok: "registry_ok g r \<Longrightarrow> registry_ok g (snd (remove_by_path path r))"
proof -
  assume r: "registry_ok g r"
  have "kv_wf (snd (remove_by_path path r))"
    using r by (auto simp: registry_ok_def remove_by_path_def kv_simps split: option.split prod.split)
  with r show ?thesis
    by (rule registry_ok_subset) (simp add: remove_by_path_spec [OF r] split: option.splits if_splits)
qed

text \<open>What happens to the registry while the process runs.\<close>

datatype registry_event = FileEvent js_files string | ReloadSignal js_files "string list"

fun registry_step :: "js_engine \<Rightarrow> registry_event \<Rightarrow> js_registry \<Rightarrow> js_registry" where
  "registry_step g (FileEvent fs path) r = file_event g fs path r"
| "registry_step g (ReloadSignal fs dirs) r = snd (reload_all g fs dirs r)"

lemma registry_step_ok: "registry_ok g r \<Longrightarrow> registry_ok g (registry_step g ev r)"
  using reload_file_ok remove_by_path_ok load_all_ok
  by (cases ev) (simp_all add: file_event_def reload_all_def case_prod_beta)

text \<open>
  C20: The registry of agents. Whatever the directories hold at the start, and however their files
  change afterwards, reload signals included, every agent is filed under the name its own source
  declares, with the hash of this source and the manifest that it yields and that passed the
  validation, and no two agents come from the same file.
\<close>

theorem registry_stays_ok:
  "registry_ok g (fold (registry_step g) evs (fst (load_all g fs dirs)))"
proof -
  have "registry_ok g (fold (registry_step g) evs r)" if "registry_ok g r" for r
    using that by (induction evs arbitrary: r) (simp_all add: registry_step_ok)
  then show ?thesis using load_all_ok by blast
qed

end
