(* ===== verification/Js_Bridge.thy ===== *)
theory Js_Bridge
  imports Js_Agents Llm_Context
begin

text \<open>
  The bridge between the bus and a JavaScript agent, \<open>cafe-agent-js/src/bridge.rs\<close>: the events it
  is woken with, the calls, tools, fetches and publications it can make, and the history and the
  configuration it can read.  What JavaScript sees is a JSON value, printed and parsed by the
  engine; the HTTP client, the base64 decoder and the printer are parameters, and the bus is the
  environment of the theory \<open>Pipeline\<close>.
\<close>

section \<open>Events\<close>

record js_event =
  ev_type :: string
  ev_text :: string
  ev_id :: string
  ev_content_type :: string
  ev_role :: "string option"
  ev_annotations :: json

definition event_to_json :: "js_event \<Rightarrow> json" where
  "event_to_json ev =
     json_obj ([(''type'', JStr (ev_type ev)), (''text'', JStr (ev_text ev)), (''id'', JStr (ev_id ev)),
                (''content_type'', JStr (ev_content_type ev))]
               @ opt_entry ''role'' JStr (ev_role ev) @ [(''annotations'', ev_annotations ev)])"

fun content_type_str :: "content_type \<Rightarrow> string" where
  "content_type_str Text = ''text''"
| "content_type_str Binary = ''binary''"
| "content_type_str BinaryRef = ''binary_ref''"
| "content_type_str Null = ''null''"

definition event_from :: "chunk \<Rightarrow> string \<Rightarrow> string \<Rightarrow> js_event" where
  "event_from c ty text =
     \<lparr>ev_type = ty, ev_text = text, ev_id = chunk_id c, ev_content_type = content_type_str (chunk_type c),
      ev_role = role c, ev_annotations = json_obj (annotations c)\<rparr>"

fun assemble_from :: "chunk list \<Rightarrow> string option" where
  "assemble_from [] = None"
| "assemble_from (c # cs) =
     (if chunk_type c = Text \<and> role c = Some ASSISTANT \<and> producer c = ''com.nominal.cafe-llm''
      then (case content c of
              Some t \<Rightarrow> if t \<noteq> [] then Some t else assemble_from cs
            | None \<Rightarrow> assemble_from cs)
      else assemble_from cs)"

definition assemble_llm_text :: "chunk list \<Rightarrow> string option" where
  "assemble_llm_text hist = assemble_from (rev hist)"

definition classify_event :: "chunk \<Rightarrow> js_event option" where
  "classify_event c =
     (if is_transient c then None
      else if role c = Some USER \<and> (chunk_type c = Text \<or> chunk_type c = BinaryRef)
      then Some (event_from c ''user_message'' (or_else [] (content c)))
      else if role c = Some ASSISTANT \<and> or_else False (get_annotation as_bool CHAT_STREAM_COMPLETE c)
      then Some (event_from c ''llm_complete'' (or_else [] (content c)))
      else if get_annotation as_str CAFE_FLOW_SIGNAL c = Some ''tick''
      then Some (event_from c ''tick'' [])
      else None)"

text \<open>The text of a finished answer is read from the history, if it can be had.\<close>

definition fill_text :: "string + chunk list \<Rightarrow> js_event \<Rightarrow> js_event" where
  "fill_text h ev =
     (if ev_type ev = ''llm_complete''
      then (case h of
              Inr hist \<Rightarrow> (case assemble_llm_text hist of Some t \<Rightarrow> ev\<lparr>ev_text := t\<rparr> | None \<Rightarrow> ev)
            | Inl _ \<Rightarrow> ev)
      else ev)"

section \<open>Publishing\<close>

definition JS_PRODUCER :: string where "JS_PRODUCER = ''com.nominal.cafe-agent-js''"

text \<open>\<open>{:?}\<close> of a text; characters beyond ASCII are taken to be printable.\<close>

definition debug_char :: "char \<Rightarrow> string" where
  "debug_char c =
     (let n = byte_val c; hex = (\<lambda>d. char_of (if d < 10 then 48 + d else 87 + d :: nat))
      in if n = 34 \<or> n = 92 then [char_of (92 :: nat), c]
         else if n = 9 then [char_of (92 :: nat), CHR ''t'']
         else if n = 10 then [char_of (92 :: nat), CHR ''n'']
         else if n = 13 then [char_of (92 :: nat), CHR ''r'']
         else if n = 0 then [char_of (92 :: nat), CHR ''0'']
         else if n < 32 \<or> n = 127
         then [char_of (92 :: nat)] @ ''u{'' @ (if n < 16 then [hex n] else [hex (n div 16), hex (n mod 16)]) @ ''}''
         else [c])"

definition debug_str :: "string \<Rightarrow> string" where
  "debug_str s = [char_of (34 :: nat)] @ concat (map debug_char s) @ [char_of (34 :: nat)]"

definition typed_chunk ::
  "(string \<Rightarrow> string + byte list) \<Rightarrow> string \<Rightarrow> int \<Rightarrow> string \<Rightarrow> json \<Rightarrow> string + chunk" where
  "typed_chunk decode uuid now_ms ty spec =
     (if ty = ''text''
      then Inr (new_text uuid now_ms (or_else [] (as_str (json_index spec ''content''))) JS_PRODUCER)
      else if ty = ''null'' then Inr (new_null uuid now_ms JS_PRODUCER)
      else if ty = ''binary''
      then (case decode (or_else [] (as_str (json_index spec ''data''))) of
              Inl x \<Rightarrow> Inl (''invalid base64 in data: '' @ x)
            | Inr bytes \<Rightarrow> Inr (new_binary uuid now_ms bytes
                (or_else ''application/octet-stream'' (as_str (json_index spec ''mime_type''))) JS_PRODUCER))
      else Inl (''unsupported chunk type '' @ debug_str ty @ '' (use '' @ debug_str ''text'' @ '', ''
                @ debug_str ''null'' @ '' or '' @ debug_str ''binary'' @ '')''))"

definition give_role :: "string \<Rightarrow> json \<Rightarrow> chunk \<Rightarrow> chunk" where
  "give_role ty spec c =
     (case as_str (json_index spec ''role'') of
        Some r \<Rightarrow> with_annotation CHAT_ROLE (JStr r) c
      | None \<Rightarrow> if ty = ''text'' \<or> ty = ''binary'' then with_annotation CHAT_ROLE (JStr ASSISTANT) c else c)"

definition give_annotations :: "json \<Rightarrow> chunk \<Rightarrow> chunk" where
  "give_annotations spec c =
     (case as_object (json_index spec ''annotations'') of Some anns \<Rightarrow> annotate_all anns c | None \<Rightarrow> c)"

definition give_retention :: "json \<Rightarrow> chunk \<Rightarrow> chunk" where
  "give_retention spec c =
     (let retain = as_u64 (json_index spec ''retain_secs'')
      in if or_else False (as_bool (json_index spec ''transient'')) \<or> retain \<noteq> None
         then (case retain of Some secs \<Rightarrow> with_retain secs (as_transient c) | None \<Rightarrow> as_transient c)
         else c)"

definition build_publish_chunk ::
  "(string \<Rightarrow> string + byte list) \<Rightarrow> string \<Rightarrow> int \<Rightarrow> json \<Rightarrow> string + chunk" where
  "build_publish_chunk decode uuid now_ms spec =
     (let ty = or_else ''text'' (as_str (json_index spec ''type''))
      in case typed_chunk decode uuid now_ms ty spec of
           Inl x \<Rightarrow> Inl x
         | Inr c \<Rightarrow> Inr (give_retention spec (give_annotations spec (give_role ty spec c))))"

definition ok_envelope :: "json \<Rightarrow> json" where
  "ok_envelope result = json_obj [(''ok'', JBool True), (''result'', result)]"

definition err_envelope :: "int option \<Rightarrow> string \<Rightarrow> json" where
  "err_envelope code message =
     json_obj ([(''ok'', JBool False), (''error'', JStr message)] @ opt_entry ''code'' json_int code)"

text \<open>\<open>cafe._publish\<close>; a text that is no JSON is taken for null.\<close>

definition js_publish ::
  "agent_env \<Rightarrow> (string \<Rightarrow> string + byte list) \<Rightarrow> string \<Rightarrow> string \<Rightarrow> agent_world \<Rightarrow> json \<times> agent_world" where
  "js_publish e decode sid spec_json w =
     (case fresh_uuid e w of (u, w1) \<Rightarrow>
        case build_publish_chunk decode u (x_clock e (a_uuids w)) (or_else JNull (x_parse e spec_json)) of
          Inl x \<Rightarrow> (err_envelope None x, w1)
        | Inr c \<Rightarrow>
            (case bus_subscribe e w1 of
               (Inl x, w2) \<Rightarrow> (err_envelope None (''subscribe failed: '' @ x), w2)
             | (Inr _, w2) \<Rightarrow>
                 (case bus_publish e sid c w2 of
                    (Inl x, w3) \<Rightarrow> (err_envelope None (''publish failed: '' @ x), w3)
                  | (Inr _, w3) \<Rightarrow>
                      (ok_envelope (json_obj [(''published'', JBool True), (''id'', JStr (chunk_id c))]), w3))))"

section \<open>Calls\<close>

datatype rpc_outcome = RpcOk json | RpcErr "int option" string

definition js_null :: "agent_env \<Rightarrow> agent_world \<Rightarrow> chunk \<times> agent_world" where
  "js_null e w = (case fresh_uuid e w of (u, w') \<Rightarrow> (new_null u (x_clock e (a_uuids w)) JS_PRODUCER, w'))"

definition js_text :: "agent_env \<Rightarrow> string \<Rightarrow> agent_world \<Rightarrow> chunk \<times> agent_world" where
  "js_text e t w = (case fresh_uuid e w of (u, w') \<Rightarrow> (new_text u (x_clock e (a_uuids w)) t JS_PRODUCER, w'))"

text \<open>The subscription is opened before the request is published.\<close>

definition rpc_call ::
  "agent_env \<Rightarrow> string \<Rightarrow> string \<Rightarrow> json \<Rightarrow> nat \<Rightarrow> agent_world \<Rightarrow> rpc_outcome \<times> agent_world" where
  "rpc_call e sid method params timeout_secs w =
     (case bus_subscribe e w of
        (Inl x, w1) \<Rightarrow> (RpcErr None (''subscribe failed: '' @ x), w1)
      | (Inr rx, w1) \<Rightarrow>
          (case fresh_uuid e w1 of (u, w2) \<Rightarrow>
           case js_null e w2 of (c, w3) \<Rightarrow>
           case bus_publish e sid (request_chunk (rpc_request_new u method params) c) w3 of
             (Inl x, w4) \<Rightarrow> (RpcErr None (''publish failed: '' @ x), w4)
           | (Inr _, w4) \<Rightarrow>
               (case await_response u rx of
                  Elapsed \<Rightarrow> RpcErr None (method @ '' timed out after '' @ show_nat timeout_secs @ ''s'')
                | Garbled \<Rightarrow> RpcErr None (''response for '' @ u @ '' failed to deserialize'')
                | Disconnected \<Rightarrow> RpcErr None (''bus disconnected while awaiting '' @ method)
                | Answered r \<Rightarrow>
                    (case resp_error r of
                       Some x \<Rightarrow> RpcErr (Some (err_code x)) (err_message x)
                     | None \<Rightarrow> RpcOk (or_else JNull (resp_result r))),
                w4)))"

definition rpc_roundtrip ::
  "agent_env \<Rightarrow> string \<Rightarrow> string \<Rightarrow> json \<Rightarrow> nat \<Rightarrow> agent_world \<Rightarrow> json \<times> agent_world" where
  "rpc_roundtrip e sid method params timeout_secs w =
     (case rpc_call e sid method params timeout_secs w of
        (RpcOk r, w1) \<Rightarrow> (ok_envelope r, w1)
      | (RpcErr code x, w1) \<Rightarrow> (err_envelope code x, w1))"

fun str_contains :: "string \<Rightarrow> string \<Rightarrow> bool" where
  "str_contains needle [] \<longleftrightarrow> needle = []"
| "str_contains needle (c # cs) \<longleftrightarrow> strip_prefix needle (c # cs) \<noteq> None \<or> str_contains needle cs"

text \<open>A tool: the result chunk and then the text that a later model step reads, whatever the outcome.\<close>

definition publish_result :: "agent_env \<Rightarrow> string \<Rightarrow> tool_result \<Rightarrow> string \<Rightarrow> agent_world \<Rightarrow> agent_world" where
  "publish_result e sid r text w =
     (case js_null e w of (c, w1) \<Rightarrow>
      case bus_publish e sid (tool_result_chunk True r c) w1 of (_, w2) \<Rightarrow>
      case js_text e text w2 of (t, w3) \<Rightarrow>
        snd (bus_publish e sid (with_annotation CHAT_ROLE (JStr ASSISTANT) t) w3))"

definition tool_roundtrip ::
  "agent_env \<Rightarrow> string \<Rightarrow> string \<Rightarrow> json \<Rightarrow> nat \<Rightarrow> agent_world \<Rightarrow> json \<times> agent_world" where
  "tool_roundtrip e sid name params timeout_secs w =
     (case rpc_call e sid name params timeout_secs w of
        (RpcOk v, w1) \<Rightarrow>
          (ok_envelope v,
           publish_result e sid \<lparr>res_name = name, res_output = v, res_error = None, res_provider = None\<rparr>
             (''Tool call completed: '' @ name @ [CHR 10] @ ''```'' @ [CHR 10] @ x_pretty e v @ [CHR 10] @ ''```'') w1)
      | (RpcErr code x, w1) \<Rightarrow>
          (err_envelope code x,
           publish_result e sid \<lparr>res_name = name, res_output = JNull, res_error = Some x, res_provider = None\<rparr>
             (if str_contains ''timed out'' x then ''Tool call '' @ name @ '' timed out''
              else ''Tool call '' @ name @ '' failed: '' @ x) w1))"

section \<open>Fetching\<close>

text \<open>The web request that the options describe; its reply, or the text of the error.\<close>

record js_web_request =
  wq_method :: string
  wq_url :: string
  wq_headers :: "(string \<times> string) list"
  wq_body :: "string option"

record js_web_reply =
  wr_status :: nat
  wr_reason :: string
  wr_url :: string
  wr_headers :: "(string \<times> string option) list"
  wr_body :: "string option"

definition to_ascii_uppercase :: "string \<Rightarrow> string" where
  "to_ascii_uppercase s = map (\<lambda>c. let n = byte_val c in if 97 \<le> n \<and> n \<le> 122 then char_of (n - 32) else c) s"

definition web_request_of :: "string \<Rightarrow> json \<Rightarrow> js_web_request" where
  "web_request_of url opts =
     \<lparr>wq_method = to_ascii_uppercase (or_else ''GET'' (as_str (json_index opts ''method''))),
      wq_url = url,
      wq_headers = (case as_object (json_index opts ''headers'') of
                      Some hs \<Rightarrow> List.map_filter (\<lambda>(n, v). map_option (Pair n) (as_str v)) hs
                    | None \<Rightarrow> []),
      wq_body = as_str (json_index opts ''body'')\<rparr>"

definition web_annotations :: "string \<Rightarrow> string \<Rightarrow> int \<Rightarrow> json" where
  "web_annotations url ctype fetch_time_ms =
     json_obj [(''web.source_url'', JStr url), (''web.content_type'', JStr ctype),
               (''web.fetch_time'', json_int fetch_time_ms),
               (SECURITY_TRUST_LEVEL, json_obj [(''trusted'', JBool False), (''source'', JStr ''web'')])]"

definition web_result :: "int \<Rightarrow> js_web_reply \<Rightarrow> json" where
  "web_result now_ms r =
     (let headers = fold (\<lambda>(n, v). obj_insert n (JStr (or_else [] v))) (wr_headers r) [];
          ctype = or_else [] (Option.bind (kv_get headers ''content-type'') as_str)
      in json_obj [(''ok'', JBool (200 \<le> wr_status r \<and> wr_status r \<le> 299)),
           (''status'', JNum (PosInt (wr_status r))), (''statusText'', JStr (wr_reason r)),
           (''url'', JStr (wr_url r)), (''headers'', JObj headers),
           (''annotations'', web_annotations (wr_url r) ctype now_ms),
           (''body'', JStr (or_else [] (wr_body r)))])"

definition http_fetch ::
  "(js_web_request \<Rightarrow> string + js_web_reply) \<Rightarrow> (string \<Rightarrow> bool) \<Rightarrow> int \<Rightarrow> string \<Rightarrow> json \<Rightarrow> json" where
  "http_fetch send valid_method now_ms url opts =
     (let q = web_request_of url opts
      in if \<not> valid_method (wq_method q) then err_envelope None (''invalid HTTP method: '' @ wq_method q)
         else (case send q of
                 Inl x \<Rightarrow> err_envelope None x
               | Inr r \<Rightarrow> ok_envelope (web_result now_ms r)))"

section \<open>History and configuration\<close>

definition chunk_summary :: "chunk \<Rightarrow> json" where
  "chunk_summary c =
     json_obj [(''id'', JStr (chunk_id c)), (''content_type'', JStr (content_type_str (chunk_type c))),
       (''content'', opt_json JStr (content c)), (''role'', opt_json JStr (role c)),
       (''producer'', JStr (producer c)), (''mime_type'', opt_json JStr (mime_type c)),
       (''timestamp'', json_int (timestamp c)), (''transient'', JBool (is_transient c)),
       (''has_data'', JBool (case chunk_data c of None \<Rightarrow> False | Some d \<Rightarrow> d \<noteq> [])),
       (''annotations'', json_obj (annotations c))]"

definition history_json :: "string + chunk list \<Rightarrow> json" where
  "history_json r =
     (case r of
        Inl x \<Rightarrow> err_envelope None (''history failed: '' @ x)
      | Inr hist \<Rightarrow> ok_envelope (JArr (map chunk_summary hist)))"

definition resolve_config :: "chunk list \<Rightarrow> json" where
  "resolve_config hist =
     JObj (fold (\<lambda>c m.
         if chunk_type c \<noteq> Null then m
         else if Option.bind (annotation c CONFIG_TYPE) as_str \<noteq> Some ''runtime'' then m
         else fold (\<lambda>(k, v) m. if k = CONFIG_TYPE then m else obj_insert k v m) (annotations c) m)
       hist [])"

definition fetch_config_json :: "string + chunk list \<Rightarrow> json" where
  "fetch_config_json r = (case r of Inr hist \<Rightarrow> resolve_config hist | Inl _ \<Rightarrow> JObj [])"

text \<open>How the promise of \<open>main\<close> settled: its value as a text, or the failure; printing is a parameter.\<close>

definition settle :: "(json \<Rightarrow> string) \<Rightarrow> json option \<Rightarrow> string + string" where
  "settle print out =
     (case out of
        None \<Rightarrow> Inl ''agent settlement was not valid JSON''
      | Some env \<Rightarrow>
          if json_get env ''ok'' = Some (JBool True)
          then Inr (case json_get env ''value'' of
                      None \<Rightarrow> []
                    | Some v \<Rightarrow> (case as_str v of Some s \<Rightarrow> s | None \<Rightarrow> print v))
          else Inl (''js agent failed: '' @ or_else ''unknown'' (Option.bind (json_get env ''error'') as_str)))"

section \<open>JavaScript agents and pipelines see the same session\<close>

lemma assemble_is_extract: "assemble_llm_text hist = extract_last_assistant_text hist"
proof -
  have "assemble_from cs = Option.bind
      (List.find (\<lambda>c. chunk_type c = Text \<and> role c = Some ASSISTANT \<and> producer c = LLM_PRODUCER
                     \<and> (case content c of None \<Rightarrow> False | Some t \<Rightarrow> t \<noteq> [])) cs) content" for cs
    by (induction cs) (auto simp: LLM_PRODUCER_def split: option.splits)
  then show ?thesis by (simp add: assemble_llm_text_def extract_last_assistant_text_def)
qed

lemma fold_config_values:
  "kv_get m = kv_get (mc_values cfg) \<Longrightarrow>
   kv_get (fold (\<lambda>(k, v) m. if k = CONFIG_TYPE then m else obj_insert k v m) kvs m)
     = kv_get (mc_values (fold (merge_annotation known) kvs cfg))"
proof (induction kvs arbitrary: m cfg)
  case (Cons p kvs)
  obtain k v where p: "p = (k, v)" by fastforce
  have "kv_get (if k = CONFIG_TYPE then m else obj_insert k v m) = kv_get (mc_values (merge_annotation known p cfg))"
    using Cons.prems by (auto simp: p merge_annotation_def Let_def kv_simps)
  from Cons.IH [OF this] show ?case by (simp add: p)
qed simp

lemma resolve_config_values:
  "json_get (resolve_config hist) k = kv_get (mc_values (resolve_session_config hist schemas)) k"
proof -
  let ?js = "\<lambda>c m. if chunk_type c \<noteq> Null then m
      else if Option.bind (annotation c CONFIG_TYPE) as_str \<noteq> Some ''runtime'' then m
      else fold (\<lambda>(k, v) m. if k = CONFIG_TYPE then m else obj_insert k v m) (annotations c) m"
  let ?rt = "\<lambda>c cfg. if is_runtime_chunk c
      then fold (merge_annotation (known_config_keys schemas)) (annotations c) cfg else cfg"
  have "kv_get m = kv_get (mc_values cfg) \<Longrightarrow> kv_get (fold ?js hist m) = kv_get (mc_values (fold ?rt hist cfg))" for m cfg
  proof (induction hist arbitrary: m cfg)
    case (Cons c hist)
    have "kv_get (?js c m) = kv_get (mc_values (?rt c cfg))"
      using Cons.prems fold_config_values [OF Cons.prems] by (simp add: is_runtime_chunk_def)
    from Cons.IH [OF this] show ?case by simp
  qed simp
  from this [of "[]" "\<lparr>mc_values = [], mc_extra = []\<rparr>"] show ?thesis
    by (simp add: resolve_config_def resolve_session_config_def)
qed

fun trigger_word :: "trigger \<Rightarrow> string" where
  "trigger_word UserMessage = ''user_message''"
| "trigger_word LlmComplete = ''llm_complete''"
| "trigger_word SchedulerTick = ''tick''"
| "trigger_word (StepComplete i) = []"

text \<open>What the pipeline of the other runtime takes for the text of a trigger.\<close>

definition trigger_text :: "chunk list \<Rightarrow> chunk \<Rightarrow> trigger \<Rightarrow> string" where
  "trigger_text hist c trig =
     or_else [] (context_text (trigger_context [] \<lparr>mc_values = [], mc_extra = []\<rparr> trig hist c))"

lemma classify_trigger:
  "map_option (\<lambda>ev. (ev_type ev, ev_text (fill_text (Inr hist) ev))) (classify_event c)
    = (if is_transient c then None
       else map_option (\<lambda>trig. (trigger_word trig, trigger_text hist c trig)) (trigger_of c))"
  by (auto simp: classify_event_def trigger_of_def event_from_def fill_text_def assemble_is_extract
      trigger_text_def context_text_def trigger_context_def or_else_def split: option.splits)

text \<open>
  C19: The two agent runtimes agree. A JavaScript agent is woken by exactly the lasting chunks that
  trigger a pipeline, by the same kind of event and with the same text, which for a finished answer
  is read from the history; and the configuration it reads has under every key the value that the
  pipelines resolve.
\<close>

theorem js_wakes_like_pipelines:
  "map_option (\<lambda>ev. (ev_type ev, ev_text (fill_text (Inr hist) ev))) (classify_event c)
     = (if is_transient c then None
        else map_option (\<lambda>trig. (trigger_word trig, trigger_text hist c trig)) (trigger_of c))
   \<and> json_get (resolve_config hist) k = kv_get (mc_values (resolve_session_config hist schemas)) k"
  by (simp only: classify_trigger resolve_config_values simp_thms)

section \<open>What an agent publishes\<close>

lemma give_annotation [simp]:
  "k \<noteq> CAFE_TRANSIENT \<Longrightarrow> k \<noteq> CAFE_TRANSIENT_RETAIN_SECS \<Longrightarrow> annotation (give_retention spec c) k = annotation c k"
  "annotation (give_annotations spec c) k
     = (case kv_get (rev (or_else [] (as_object (json_index spec ''annotations'')))) k of
          None \<Rightarrow> annotation c k | Some v \<Rightarrow> Some v)"
  by (auto simp: give_retention_def give_annotations_def annotation_annotate_all or_else_def Let_def split: option.split)

lemma annotate_all_fields [simp]:
  "chunk_id (annotate_all anns c) = chunk_id c" "producer (annotate_all anns c) = producer c"
  by (induction anns arbitrary: c) (auto simp: annotate_all_def)

lemma give_fields [simp]:
  "chunk_id (give_retention spec c) = chunk_id c" "chunk_id (give_annotations spec c) = chunk_id c"
  "chunk_id (give_role ty spec c) = chunk_id c"
  "producer (give_retention spec c) = producer c" "producer (give_annotations spec c) = producer c"
  "producer (give_role ty spec c) = producer c"
  "chunk_type (give_retention spec c) = chunk_type c" "chunk_type (give_annotations spec c) = chunk_type c"
  "chunk_type (give_role ty spec c) = chunk_type c"
  by (auto simp: give_retention_def give_annotations_def give_role_def as_transient_def with_retain_def Let_def
      split: option.split)

lemma build_publish_annotation:
  assumes "build_publish_chunk decode uuid now_ms spec = Inr c"
    and "as_object (json_index spec ''annotations'') = Some anns" and "kv_get (rev anns) k = Some v"
    and "k \<noteq> CAFE_TRANSIENT" and "k \<noteq> CAFE_TRANSIENT_RETAIN_SECS"
  shows "annotation c k = Some v"
  using assms by (auto simp: build_publish_chunk_def Let_def or_else_def split: sum.splits)

lemma build_publish_fields:
  "build_publish_chunk decode uuid now_ms spec = Inr c \<Longrightarrow>
   chunk_id c = uuid \<and> producer c = JS_PRODUCER \<and> chunk_type c \<noteq> BinaryRef"
  by (auto simp: build_publish_chunk_def typed_chunk_def Let_def chunk_builders split: sum.splits if_splits)

text \<open>
  Fetched pages stay out of the prompt. Whatever an agent publishes with the annotations that
  came with a fetched page, as the response object does unless it is told otherwise, the model
  never sees: with or without the chunk the prompt of the session is the same.
\<close>

theorem fetched_page_withheld:
  assumes "build_publish_chunk decode uuid now_ms spec = Inr c"
    and "json_index spec ''annotations'' = web_annotations url ctype fetch_time"
  shows "build_messages (before @ c # after) p = build_messages (before @ after) p"
proof -
  obtain anns where anns: "web_annotations url ctype fetch_time = JObj anns"
    by (simp add: web_annotations_def json_obj_def)
  have "json_get (web_annotations url ctype fetch_time) SECURITY_TRUST_LEVEL
      = Some (json_obj [(''trusted'', JBool False), (''source'', JStr ''web'')])"
    by (simp add: web_annotations_def)
  moreover have "distinct (map fst anns)"
    using anns by (auto simp: web_annotations_def json_obj_def)
  then have "kv_get (rev anns) k = kv_get anns k" for k by (simp add: kv_get_rev kv_wf_def)
  ultimately have "kv_get (rev anns) SECURITY_TRUST_LEVEL
      = Some (json_obj [(''trusted'', JBool False), (''source'', JStr ''web'')])"
    by (simp add: anns)
  from build_publish_annotation [OF assms(1) _ this]
  have "annotation c SECURITY_TRUST_LEVEL = Some (json_obj [(''trusted'', JBool False), (''source'', JStr ''web'')])"
    by (simp add: assms(2) anns)
  then have "untrusted c" by (simp add: untrusted_def json_index_def)
  then have "push_chunk c ms = ms" for ms by (simp add: push_chunk_def)
  then show ?thesis by (simp add: build_messages_def)
qed

definition demo_publish_spec :: json where
  "demo_publish_spec =
     json_obj [(''type'', JStr ''text''), (''content'', JStr ''hi''), (''annotations'', web_annotations ''u'' ''text/html'' 5)]"

theorem fetched_page_withheld_witness:
  "build_messages [projr (build_publish_chunk (\<lambda>_. Inr []) ''c'' 7 demo_publish_spec)] None = []
   \<and> \<not> isl (build_publish_chunk (\<lambda>_. Inr []) ''c'' 7 demo_publish_spec)"
proof -
  obtain c where c: "build_publish_chunk (\<lambda>_. Inr []) ''c'' 7 demo_publish_spec = Inr c"
    by (simp add: build_publish_chunk_def typed_chunk_def demo_publish_spec_def json_index_def or_else_def Let_def)
  have "json_index demo_publish_spec ''annotations'' = web_annotations ''u'' ''text/html'' 5"
    by (simp add: demo_publish_spec_def json_index_def)
  from fetched_page_withheld [OF c this, of "[]" "[]" None] show ?thesis
    by (simp add: c build_messages_def)
qed

section \<open>Calls end with their answer\<close>

text \<open>
  A call of an agent ends with the first answer to it. The subscription is opened before the
  request is published, so nothing that the service publishes afterwards can be missed: the call
  yields the result or the error of the first reply under its own id, whatever other messages come
  before, and publishes exactly its request.
\<close>

theorem js_call_answered:
  assumes "x_subscribe e (a_ops w) = Inr (before @ Received (Chunk s reply) # after)"
    and "x_publish e (Suc (a_ops w)) = None"
    and "list_all (\<lambda>ev. \<not> answers (x_uuid e (a_uuids w)) ev) before"
    and "reply = with_retain n (as_transient (with_annotation CAFE_JSONRPC_RESPONSE (response_to_json r) c))"
    and "rpc_response_wf r" and "resp_id r = x_uuid e (a_uuids w)"
  shows "fst (rpc_roundtrip e sid method params timeout_secs w)
      = (case resp_error r of
           Some x \<Rightarrow> err_envelope (Some (err_code x)) (err_message x)
         | None \<Rightarrow> ok_envelope (or_else JNull (resp_result r)))
    \<and> (\<exists>q. a_sent (snd (rpc_roundtrip e sid method params timeout_secs w)) = a_sent w @ [(sid, q)]
         \<and> as_rpc_request q = Some (rpc_request_new (x_uuid e (a_uuids w)) method params))"
proof -
  have rep: "as_rpc_response reply = Some r" unfolding assms(4) by (rule rpc_response_recognised [OF assms(5)])
  have "await_response (x_uuid e (a_uuids w)) (before @ Received (Chunk s reply) # after) = Answered r"
    using assms(6) by (simp add: await_skips [OF assms(3)] is_rpc_response_for_def rep)
  then show ?thesis
    using assms(1,2)
    by (simp add: rpc_roundtrip_def rpc_call_def bus_subscribe_def fresh_uuid_def js_null_def bus_publish_def
        request_chunk_recognised split: option.split)
qed

theorem js_call_answered_witness:
  "fst (rpc_roundtrip (demo_agent_env (\<lambda>_. [])) ''s'' ''dice.roll'' JNull 30 demo_world) = ok_envelope (JStr ''done'')"
  using js_call_answered [of "demo_agent_env (\<lambda>_. [])" demo_world "[Received Pong]" "''s''"
      "with_retain 60 (as_transient (with_annotation CAFE_JSONRPC_RESPONSE (response_to_json demo_reply)
          (new_null ''r'' 0 ''com.test'')))" "[Closed]" 60 demo_reply "new_null ''r'' 0 ''com.test''"
      "''s''" "''dice.roll''" JNull 30]
  by (simp add: demo_agent_env_def demo_world_def demo_reply_def rpc_response_ok_def rpc_response_wf_def
      answers_def or_else_def)

end
