(* ===== verification/Js_Runtime.thy ===== *)
theory Js_Runtime
  imports Js_Bridge
begin

text \<open>
  The process that runs JavaScript agents, \<open>cafe-agent-js/src/main.rs\<close> and \<open>scheduler.rs\<close>, as a
  transition function: a supervisor that attaches to sessions and follows file changes and reload
  signals, one loop per session, and the long-lived runtimes of stateful agents.  A label is what
  happens next: a message for the supervisor, the control loop or a session loop, an answer that a
  loop waits for, the end of a run, a tick.  A loop waits for at most one thing at a time, which its
  phase says, and labels that do not fit the phase are not enabled.  What the scripts themselves do
  on the bus is the subject of \<open>Js_Bridge\<close>; publishing is not awaited, and its failures are only
  logged, so \<open>js_sent\<close> is what is handed to the client.
\<close>

section \<open>State\<close>

record js_env =
  xj_engine :: js_engine
  xj_dirs :: "string list"
  xj_uuid :: "nat \<Rightarrow> string"
  xj_clock :: "nat \<Rightarrow> int"
  xj_default_timeout :: nat
  xj_valid_cron :: "string \<Rightarrow> bool"

text \<open>The channel of a stateful session with its configuration slot; both outlive any one run.\<close>

record js_channel =
  ch_events :: "js_event list"
  ch_config :: json

record js_run =
  run_source :: string
  run_timeout :: nat
  run_channel :: nat
  run_done :: bool

record stateful_entry =
  se_channel :: nat
  se_source_hash :: string
  se_task :: "js_run option"

datatype loop_phase = Ready | Filling js_event | Driving js_agent nat js_event | Running | Ended

record session_task =
  st_session :: string
  st_agent :: string
  st_complete :: bool
  st_phase :: loop_phase

record js_state =
  js_registry :: js_registry
  js_attached :: "string set"
  js_stateful :: "(string, stateful_entry) kv"
  js_channels :: "js_channel list"
  js_tasks :: "session_task list"
  js_control_complete :: bool
  js_ticking :: "string list"
  js_log :: "(nat \<times> js_agent \<times> js_event) list"
  js_sent :: "(string \<times> chunk) list"
  js_uuids :: nat

definition js_emit :: "js_env \<Rightarrow> string \<Rightarrow> (string \<Rightarrow> int \<Rightarrow> chunk) \<Rightarrow> js_state \<Rightarrow> js_state" where
  "js_emit e sid mk st =
     st\<lparr>js_sent := js_sent st @ [(sid, mk (xj_uuid e (js_uuids st)) (xj_clock e (js_uuids st)))],
        js_uuids := Suc (js_uuids st)\<rparr>"

definition set_task :: "nat \<Rightarrow> (session_task \<Rightarrow> session_task) \<Rightarrow> js_state \<Rightarrow> js_state" where
  "set_task i f st = st\<lparr>js_tasks := (js_tasks st)[i := f (js_tasks st ! i)]\<rparr>"

section \<open>Attaching\<close>

definition initial_config_chunk :: "string \<Rightarrow> (string, json) kv \<Rightarrow> string \<Rightarrow> int \<Rightarrow> chunk" where
  "initial_config_chunk agent cfg uuid now_ms =
     annotate_all (if kv_get cfg CONFIG_TYPE = None then kv_insert CONFIG_TYPE (JStr ''runtime'') cfg else cfg)
       (new_null uuid now_ms (''com.nominal.cafe-agent-js/'' @ agent))"

definition seed_config :: "js_env \<Rightarrow> string \<Rightarrow> js_agent \<Rightarrow> js_state \<Rightarrow> js_state" where
  "seed_config e sid a st =
     (if jm_initial_config (ja_manifest a) \<noteq> []
      then js_emit e sid (initial_config_chunk (jm_name (ja_manifest a)) (jm_initial_config (ja_manifest a))) st
      else st)"

definition js_attach :: "js_env \<Rightarrow> string \<Rightarrow> string \<Rightarrow> js_state \<Rightarrow> js_state" where
  "js_attach e sid agent st =
     (if sid \<in> js_attached st then st
      else let st1 = st\<lparr>js_attached := insert sid (js_attached st)\<rparr>;
               st2 = (case kv_get (js_registry st1) agent of Some a \<Rightarrow> seed_config e sid a st1 | None \<Rightarrow> st1)
           in st2\<lparr>js_tasks := js_tasks st2
                @ [\<lparr>st_session = sid, st_agent = agent, st_complete = False, st_phase = Ready\<rparr>]\<rparr>)"

definition js_error_chunk :: "string \<Rightarrow> string \<Rightarrow> int \<Rightarrow> chunk" where
  "js_error_chunk message uuid now_ms =
     with_annotation ''error.source'' (JStr ''js-agent'')
       (with_annotation CAFE_ERROR_MESSAGE (JStr message) (new_null uuid now_ms JS_PRODUCER))"

definition js_tick_chunk :: "string \<Rightarrow> int \<Rightarrow> chunk" where
  "js_tick_chunk uuid now_ms = with_annotation CAFE_FLOW_SIGNAL (JStr ''tick'') (new_null uuid now_ms JS_PRODUCER)"

section \<open>Background agents and the start of a pass\<close>

text \<open>Whether the session of a background agent could be created, or was there already.\<close>

definition start_background :: "js_env \<Rightarrow> (string \<Rightarrow> bool) \<Rightarrow> js_agent \<Rightarrow> js_state \<Rightarrow> js_state" where
  "start_background e created a st =
     (let name = jm_name (ja_manifest a)
      in if \<not> created name then st
         else let st1 = seed_config e name a st
              in (case jm_schedule (ja_manifest a) of
                    Some cron \<Rightarrow> if xj_valid_cron e cron then st1\<lparr>js_ticking := js_ticking st1 @ [name]\<rparr> else st1
                  | None \<Rightarrow> st1))"

definition background_agents :: "js_registry \<Rightarrow> js_agent list" where
  "background_agents r =
     sort_key (\<lambda>a. jm_name (ja_manifest a)) (filter (\<lambda>a. jm_background (ja_manifest a)) (map snd r))"

definition attach_listed :: "js_env \<Rightarrow> session_info list \<Rightarrow> js_state \<Rightarrow> js_state" where
  "attach_listed e infos st =
     fold (\<lambda>i st. if kv_get (js_registry st) (si_agent_id i) = None then st
                  else js_attach e (si_session_id i) (si_agent_id i) st) infos st"

definition js_loaded :: "js_env \<Rightarrow> js_files \<Rightarrow> js_state" where
  "js_loaded e fs =
     \<lparr>js_registry = fst (load_all (xj_engine e) fs (xj_dirs e)), js_attached = {}, js_stateful = [],
      js_channels = [], js_tasks = [], js_control_complete = False, js_ticking = [], js_log = [],
      js_sent = [], js_uuids = 0\<rparr>"

definition js_start :: "js_env \<Rightarrow> js_files \<Rightarrow> (string \<Rightarrow> bool) \<Rightarrow> string + session_info list \<Rightarrow> js_state" where
  "js_start e fs created listed =
     attach_listed e (case listed of Inr infos \<Rightarrow> infos | Inl _ \<Rightarrow> [])
       (fold (start_background e created) (background_agents (js_registry (js_loaded e fs))) (js_loaded e fs))"

section \<open>The supervisor\<close>

definition supervise :: "js_env \<Rightarrow> server_message \<Rightarrow> js_state \<Rightarrow> js_state" where
  "supervise e m st =
     (case m of
        SessionCreated sid agent \<Rightarrow>
          if kv_get (js_registry st) agent \<noteq> None then js_attach e sid agent st else st
      | SessionDeleted sid \<Rightarrow>
          st\<lparr>js_attached := js_attached st - {sid}, js_stateful := kv_remove sid (js_stateful st)\<rparr>
      | _ \<Rightarrow> st)"

definition control_msg :: "js_env \<Rightarrow> server_message \<Rightarrow> js_files \<Rightarrow> js_state \<Rightarrow> js_state" where
  "control_msg e m fs st =
     (case m of
        HistoryComplete _ _ \<Rightarrow> st\<lparr>js_control_complete := True\<rparr>
      | Chunk _ c \<Rightarrow>
          if js_control_complete st \<and> get_annotation as_str CAFE_FLOW_SIGNAL c = Some ''reload-agents''
          then st\<lparr>js_registry := snd (reload_all (xj_engine e) fs (xj_dirs e) (js_registry st))\<rparr>
          else st
      | _ \<Rightarrow> st)"

section \<open>Session loops\<close>

text \<open>The entry of a stateful session is made when it is first needed.\<close>

definition ensure_entry :: "string \<Rightarrow> js_state \<Rightarrow> nat \<times> js_state" where
  "ensure_entry sid st =
     (case kv_get (js_stateful st) sid of
        Some en \<Rightarrow> (se_channel en, st)
      | None \<Rightarrow>
          (length (js_channels st),
           st\<lparr>js_channels := js_channels st @ [\<lparr>ch_events = [], ch_config = JObj []\<rparr>],
              js_stateful := kv_insert sid
                \<lparr>se_channel = length (js_channels st), se_source_hash = [], se_task = None\<rparr> (js_stateful st)\<rparr>))"

text \<open>An event is handed to the agent that is registered now, if it still is.\<close>

definition js_dispatch :: "nat \<Rightarrow> js_event \<Rightarrow> js_state \<Rightarrow> js_state" where
  "js_dispatch i ev st =
     (let t = js_tasks st ! i
      in case kv_get (js_registry st) (st_agent t) of
           None \<Rightarrow> set_task i (\<lambda>t. t\<lparr>st_phase := Ended\<rparr>) st
         | Some a \<Rightarrow>
             (let st1 = st\<lparr>js_log := js_log st @ [(i, a, ev)]\<rparr>
              in if jm_mode (ja_manifest a) = ''stateful''
                 then (case ensure_entry (st_session t) st1 of
                         (ch, st2) \<Rightarrow> set_task i (\<lambda>t. t\<lparr>st_phase := Driving a ch ev\<rparr>) st2)
                 else set_task i (\<lambda>t. t\<lparr>st_phase := Running\<rparr>) st1))"

definition task_msg :: "nat \<Rightarrow> server_message \<Rightarrow> js_state \<Rightarrow> js_state" where
  "task_msg i m st =
     (case m of
        HistoryComplete _ _ \<Rightarrow> set_task i (\<lambda>t. t\<lparr>st_complete := True\<rparr>) st
      | Chunk _ c \<Rightarrow>
          if \<not> st_complete (js_tasks st ! i) then st
          else (case classify_event c of
                  None \<Rightarrow> st
                | Some ev \<Rightarrow>
                    if ev_type ev = ''llm_complete'' then set_task i (\<lambda>t. t\<lparr>st_phase := Filling ev\<rparr>) st
                    else js_dispatch i ev st)
      | _ \<Rightarrow> st)"

text \<open>A stateful runtime is started again when its source has changed or it has ended.\<close>

definition needs_respawn :: "js_agent \<Rightarrow> stateful_entry \<Rightarrow> bool" where
  "needs_respawn a en \<longleftrightarrow>
     se_source_hash en \<noteq> ja_file_hash a \<or> (case se_task en of None \<Rightarrow> True | Some r \<Rightarrow> run_done r)"

definition rpc_timeout :: "js_env \<Rightarrow> js_agent \<Rightarrow> nat" where
  "rpc_timeout e a = or_else (xj_default_timeout e) (jm_rpc_timeout_secs (ja_manifest a))"

definition respawn :: "js_env \<Rightarrow> js_agent \<Rightarrow> nat \<Rightarrow> stateful_entry \<Rightarrow> stateful_entry" where
  "respawn e a ch en =
     (if needs_respawn a en
      then en\<lparr>se_source_hash := ja_file_hash a,
              se_task := Some \<lparr>run_source = ja_source a, run_timeout = rpc_timeout e a, run_channel = ch,
                               run_done = False\<rparr>\<rparr>
      else en)"

definition finish_drive :: "js_env \<Rightarrow> nat \<Rightarrow> js_agent \<Rightarrow> nat \<Rightarrow> js_event \<Rightarrow> string + chunk list \<Rightarrow> js_state \<Rightarrow> js_state" where
  "finish_drive e i a ch ev h st =
     set_task i (\<lambda>t. t\<lparr>st_phase := Ready\<rparr>)
       (st\<lparr>js_channels := (js_channels st)[ch := (js_channels st ! ch)
              \<lparr>ch_config := fetch_config_json h, ch_events := ch_events (js_channels st ! ch) @ [ev]\<rparr>],
           js_stateful := kv_adjust (st_session (js_tasks st ! i)) (respawn e a ch) (js_stateful st)\<rparr>)"

definition report_error :: "js_env \<Rightarrow> string \<Rightarrow> string + string \<Rightarrow> js_state \<Rightarrow> js_state" where
  "report_error e sid outcome st =
     (case outcome of Inl x \<Rightarrow> js_emit e sid (js_error_chunk x) st | Inr _ \<Rightarrow> st)"

definition settle_runtime :: "js_env \<Rightarrow> string \<Rightarrow> string + string \<Rightarrow> js_state \<Rightarrow> js_state" where
  "settle_runtime e sid outcome st =
     report_error e sid outcome
       (st\<lparr>js_stateful := kv_adjust sid (\<lambda>en. en\<lparr>se_task := map_option (\<lambda>r. r\<lparr>run_done := True\<rparr>) (se_task en)\<rparr>)
             (js_stateful st)\<rparr>)"

section \<open>The process\<close>

datatype js_label =
    BusMsg server_message
  | FileChanged js_files string
  | ControlMsg server_message js_files
  | ControlEnded
  | TaskMsg nat server_message
  | TaskHistory nat "string + chunk list"
  | TaskConfig nat "string + chunk list"
  | TaskRunEnded nat "string + string"
  | TaskClosed nat
  | RuntimeSettled string "string + string"
  | Tick string

definition phase_of :: "nat \<Rightarrow> js_state \<Rightarrow> loop_phase" where
  "phase_of i st = (if i < length (js_tasks st) then st_phase (js_tasks st ! i) else Ended)"

fun js_next :: "js_env \<Rightarrow> js_label \<Rightarrow> js_state \<Rightarrow> js_state option" where
  "js_next e (BusMsg m) st = Some (supervise e m st)"
| "js_next e (FileChanged fs path) st =
     Some (st\<lparr>js_registry := file_event (xj_engine e) fs path (js_registry st)\<rparr>)"
| "js_next e (ControlMsg m fs) st = Some (control_msg e m fs st)"
| "js_next e ControlEnded st = Some (st\<lparr>js_control_complete := False\<rparr>)"
| "js_next e (TaskMsg i m) st = (case phase_of i st of Ready \<Rightarrow> Some (task_msg i m st) | _ \<Rightarrow> None)"
| "js_next e (TaskHistory i h) st =
     (case phase_of i st of Filling ev \<Rightarrow> Some (js_dispatch i (fill_text h ev) st) | _ \<Rightarrow> None)"
| "js_next e (TaskConfig i h) st =
     (case phase_of i st of Driving a ch ev \<Rightarrow> Some (finish_drive e i a ch ev h st) | _ \<Rightarrow> None)"
| "js_next e (TaskRunEnded i outcome) st =
     (case phase_of i st of
        Running \<Rightarrow> Some (report_error e (st_session (js_tasks st ! i)) outcome
                          (set_task i (\<lambda>t. t\<lparr>st_phase := Ready\<rparr>) st))
      | _ \<Rightarrow> None)"
| "js_next e (TaskClosed i) st =
     (case phase_of i st of Ready \<Rightarrow> Some (set_task i (\<lambda>t. t\<lparr>st_phase := Ended\<rparr>) st) | _ \<Rightarrow> None)"
| "js_next e (RuntimeSettled sid outcome) st =
     (case Option.bind (kv_get (js_stateful st) sid) se_task of
        Some r \<Rightarrow> if run_done r then None else Some (settle_runtime e sid outcome st)
      | None \<Rightarrow> None)"
| "js_next e (Tick name) st =
     (if name \<in> set (js_ticking st) then Some (js_emit e name js_tick_chunk st) else None)"

fun js_process :: "js_env \<Rightarrow> js_label list \<Rightarrow> js_state \<Rightarrow> js_state option" where
  "js_process e [] st = Some st"
| "js_process e (l # ls) st = Option.bind (js_next e l st) (js_process e ls)"

section \<open>Lists of tasks\<close>

lemma js_emit_fields [simp]:
  "js_registry (js_emit e sid mk st) = js_registry st" "js_attached (js_emit e sid mk st) = js_attached st"
  "js_stateful (js_emit e sid mk st) = js_stateful st" "js_channels (js_emit e sid mk st) = js_channels st"
  "js_tasks (js_emit e sid mk st) = js_tasks st" "js_log (js_emit e sid mk st) = js_log st"
  by (simp_all add: js_emit_def)

lemma seed_config_fields [simp]:
  "js_registry (seed_config e sid a st) = js_registry st" "js_attached (seed_config e sid a st) = js_attached st"
  "js_stateful (seed_config e sid a st) = js_stateful st" "js_channels (seed_config e sid a st) = js_channels st"
  "js_tasks (seed_config e sid a st) = js_tasks st" "js_log (seed_config e sid a st) = js_log st"
  by (simp_all add: seed_config_def)

lemma report_error_fields [simp]:
  "js_registry (report_error e sid r st) = js_registry st" "js_attached (report_error e sid r st) = js_attached st"
  "js_stateful (report_error e sid r st) = js_stateful st" "js_channels (report_error e sid r st) = js_channels st"
  "js_tasks (report_error e sid r st) = js_tasks st" "js_log (report_error e sid r st) = js_log st"
  by (simp_all add: report_error_def split: sum.split)

lemma set_task_fields [simp]:
  "js_registry (set_task i f st) = js_registry st" "js_attached (set_task i f st) = js_attached st"
  "js_stateful (set_task i f st) = js_stateful st" "js_channels (set_task i f st) = js_channels st"
  "js_tasks (set_task i f st) = (js_tasks st)[i := f (js_tasks st ! i)]" "js_log (set_task i f st) = js_log st"
  by (simp_all add: set_task_def)

lemma ensure_entry_fields [simp]:
  "js_registry (snd (ensure_entry sid st)) = js_registry st" "js_attached (snd (ensure_entry sid st)) = js_attached st"
  "js_tasks (snd (ensure_entry sid st)) = js_tasks st" "js_log (snd (ensure_entry sid st)) = js_log st"
  by (simp_all add: ensure_entry_def split: option.split)

text \<open>New tasks wait for their replay; the others are left alone.\<close>

definition fresh_task :: "session_task \<Rightarrow> bool" where
  "fresh_task t \<longleftrightarrow> \<not> st_complete t \<and> st_phase t = Ready"

lemma js_attach_tasks:
  "\<exists>new. js_tasks (js_attach e sid agent st) = js_tasks st @ new \<and> list_all fresh_task new
     \<and> js_log (js_attach e sid agent st) = js_log st"
  by (auto simp: js_attach_def Let_def fresh_task_def split: option.split)

lemma supervise_tasks:
  "\<exists>new. js_tasks (supervise e m st) = js_tasks st @ new \<and> list_all fresh_task new
     \<and> js_log (supervise e m st) = js_log st"
  using js_attach_tasks by (auto simp: supervise_def split: server_message.split)

lemma start_background_fields [simp]:
  "js_registry (start_background e created a st) = js_registry st" "js_stateful (start_background e created a st) = js_stateful st"
  "js_channels (start_background e created a st) = js_channels st"
  "js_tasks (start_background e created a st) = js_tasks st" "js_log (start_background e created a st) = js_log st"
  by (simp_all add: start_background_def Let_def split: option.split)

lemma start_backgrounds_fields [simp]:
  "js_registry (fold (start_background e created) as st) = js_registry st"
  "js_stateful (fold (start_background e created) as st) = js_stateful st"
  "js_channels (fold (start_background e created) as st) = js_channels st"
  "js_tasks (fold (start_background e created) as st) = js_tasks st"
  "js_log (fold (start_background e created) as st) = js_log st"
  by (induction as arbitrary: st) simp_all

lemma attach_listed_tasks:
  "\<exists>new. js_tasks (attach_listed e infos st) = js_tasks st @ new \<and> list_all fresh_task new
     \<and> js_log (attach_listed e infos st) = js_log st"
proof (induction infos arbitrary: st)
  case Nil
  then show ?case by (simp add: attach_listed_def)
next
  case (Cons i infos)
  let ?st = "if kv_get (js_registry st) (si_agent_id i) = None then st
     else js_attach e (si_session_id i) (si_agent_id i) st"
  have "\<exists>new. js_tasks ?st = js_tasks st @ new \<and> list_all fresh_task new \<and> js_log ?st = js_log st"
    using js_attach_tasks [of e "si_session_id i" "si_agent_id i" st] by auto
  with Cons [of ?st] show ?case by (auto simp: attach_listed_def)
qed

lemma js_start_tasks:
  "list_all fresh_task (js_tasks (js_start e fs created listed)) \<and> js_log (js_start e fs created listed) = []"
  using attach_listed_tasks [of e "case listed of Inr infos \<Rightarrow> infos | Inl _ \<Rightarrow> []"
      "fold (start_background e created) (background_agents (js_registry (js_loaded e fs))) (js_loaded e fs)"]
  by (auto simp: js_start_def js_loaded_def)

section \<open>What an agent hears\<close>

definition task_messages :: "nat \<Rightarrow> js_label list \<Rightarrow> server_message list" where
  "task_messages i ls =
     List.map_filter (\<lambda>l. case l of TaskMsg j m \<Rightarrow> if j = i then Some m else None | _ \<Rightarrow> None) ls"

definition replay_end :: "server_message \<Rightarrow> bool" where
  "replay_end m = (case m of HistoryComplete _ _ \<Rightarrow> True | _ \<Rightarrow> False)"

definition trigger_event :: "server_message \<Rightarrow> js_event option" where
  "trigger_event m = (case m of Chunk _ c \<Rightarrow> classify_event c | _ \<Rightarrow> None)"

text \<open>The events a loop owes its agent: those of the messages after the replay.\<close>

definition due_events :: "server_message list \<Rightarrow> js_event list" where
  "due_events ms = List.map_filter trigger_event (dropWhile (\<lambda>m. \<not> replay_end m) ms)"

text \<open>The events it has handed over, by kind and chunk; the text may have been read from the history.\<close>

definition heard :: "nat \<Rightarrow> js_state \<Rightarrow> js_event list" where
  "heard i st = map (\<lambda>(_, _, ev). ev) (filter (\<lambda>(j, _, _). j = i) (js_log st))"

definition event_key :: "js_event \<Rightarrow> string \<times> string" where
  "event_key ev = (ev_type ev, ev_id ev)"

lemma event_key_fill [simp]: "event_key (fill_text h ev) = event_key ev"
  by (simp add: event_key_def fill_text_def split: sum.split option.split)

lemma task_messages_snoc:
  "task_messages i (ls @ [l]) = task_messages i ls @ (case l of TaskMsg j m \<Rightarrow> if j = i then [m] else [] | _ \<Rightarrow> [])"
  by (simp add: task_messages_def List.map_filter_def split: js_label.split)

lemma due_events_snoc:
  "due_events (ms @ [m]) = due_events ms
    @ (if list_ex replay_end ms then (case trigger_event m of None \<Rightarrow> [] | Some ev \<Rightarrow> [ev]) else [])"
proof (induction ms)
  case Nil
  then show ?case by (simp add: due_events_def List.map_filter_def trigger_event_def replay_end_def split: server_message.split)
next
  case (Cons x ms)
  then show ?case by (cases "replay_end x") (auto simp: due_events_def List.map_filter_def split: option.split)
qed

definition owed :: "loop_phase \<Rightarrow> js_event list \<Rightarrow> bool" where
  "owed ph rest =
     (case ph of Ended \<Rightarrow> length rest \<le> 1 | Filling ev \<Rightarrow> rest = [ev] | _ \<Rightarrow> rest = [])"

definition loop_ok :: "nat \<Rightarrow> server_message list \<Rightarrow> js_state \<Rightarrow> bool" where
  "loop_ok i ms st \<longleftrightarrow>
     (if i < length (js_tasks st) then st_complete (js_tasks st ! i) = list_ex replay_end ms else ms = [])
     \<and> (\<exists>rest. map event_key (due_events ms) = map event_key (heard i st) @ map event_key rest
          \<and> owed (phase_of i st) rest)"

lemma heard_log:
  "js_log st' = js_log st @ map (\<lambda>(a, ev). (j, a, ev)) xs \<Longrightarrow>
   heard i st' = heard i st @ (if j = i then map snd xs else [])"
  by (induction xs) (auto simp: heard_def case_prod_beta comp_def)

lemma loop_ok_extend:
  assumes "loop_ok i ms st" "js_tasks st' = js_tasks st @ new" "list_all fresh_task new" "js_log st' = js_log st"
  shows "loop_ok i ms st'"
proof -
  have h: "heard i st' = heard i st" using assms(4) by (simp add: heard_def)
  show ?thesis
  proof (cases "i < length (js_tasks st)")
    case True
    then show ?thesis using assms(1,2) h by (simp add: loop_ok_def phase_of_def nth_append)
  next
    case False
    then have ms: "ms = []" "heard i st = []" using assms(1) by (auto simp: loop_ok_def due_events_def)
    show ?thesis
    proof (cases "i < length (js_tasks st')")
      case True
      with False have "js_tasks st' ! i \<in> set new" using assms(2) by (simp add: nth_append)
      then show ?thesis
        using True assms(3) ms h
        by (auto simp: loop_ok_def phase_of_def list_all_iff fresh_task_def owed_def due_events_def)
    qed (use ms h in \<open>auto simp: loop_ok_def phase_of_def owed_def due_events_def\<close>)
  qed
qed

lemma loop_ok_other:
  assumes "loop_ok i ms st" "j \<noteq> i" "js_tasks st' = (js_tasks st)[j := t]"
    and "js_log st' = js_log st @ map (\<lambda>(a, ev). (j, a, ev)) xs"
  shows "loop_ok i ms st'"
proof -
  have "phase_of i st' = phase_of i st" "heard i st' = heard i st" "js_tasks st' ! i = js_tasks st ! i"
    "length (js_tasks st') = length (js_tasks st)"
    using assms(2,3) heard_log [OF assms(4), of i] by (simp_all add: phase_of_def)
  with assms(1) show ?thesis unfolding loop_ok_def by simp
qed

lemma js_dispatch_tasks:
  "\<exists>ph xs. js_tasks (js_dispatch i ev st) = (js_tasks st)[i := (js_tasks st ! i)\<lparr>st_phase := ph\<rparr>]
     \<and> js_log (js_dispatch i ev st) = js_log st @ map (\<lambda>(a, ev). (i, a, ev)) xs
     \<and> (ph = Ended \<and> xs = [] \<or> (ph = Running \<or> (\<exists>a ch. ph = Driving a ch ev)) \<and> (\<exists>a. xs = [(a, ev)]))"
proof (cases "kv_get (js_registry st) (st_agent (js_tasks st ! i))")
  case None
  then show ?thesis by (intro exI [of _ Ended] exI [of _ "[]"]) (simp add: js_dispatch_def)
next
  case (Some a)
  show ?thesis
  proof (cases "jm_mode (ja_manifest a) = ''stateful''")
    case True
    let ?r = "ensure_entry (st_session (js_tasks st ! i)) (st\<lparr>js_log := js_log st @ [(i, a, ev)]\<rparr>)"
    have t: "js_tasks (snd ?r) = js_tasks st" "js_log (snd ?r) = js_log st @ [(i, a, ev)]" by simp_all
    show ?thesis
      using Some True t
      by (intro exI [of _ "Driving a (fst ?r) ev"] exI [of _ "[(a, ev)]"])
         (simp add: js_dispatch_def Let_def case_prod_beta)
  next
    case False
    then show ?thesis
      using Some by (intro exI [of _ Running] exI [of _ "[(a, ev)]"]) (simp add: js_dispatch_def Let_def)
  qed
qed

lemma loop_ok_dispatch:
  assumes "i < length (js_tasks st)" "st_complete (js_tasks st ! i) = list_ex replay_end ms"
    and "map event_key (due_events ms) = map event_key (heard i st) @ [event_key ev]"
  shows "loop_ok i ms (js_dispatch i ev st)"
proof -
  obtain ph xs where d: "js_tasks (js_dispatch i ev st) = (js_tasks st)[i := (js_tasks st ! i)\<lparr>st_phase := ph\<rparr>]"
      "js_log (js_dispatch i ev st) = js_log st @ map (\<lambda>(a, ev). (i, a, ev)) xs"
      "ph = Ended \<and> xs = [] \<or> (ph = Running \<or> (\<exists>a ch. ph = Driving a ch ev)) \<and> (\<exists>a. xs = [(a, ev)])"
    using js_dispatch_tasks by blast
  show ?thesis
    unfolding loop_ok_def
    using assms d heard_log [OF d(2), of i]
    by (auto simp: phase_of_def owed_def intro: exI [of _ "[ev]"] exI [of _ "[]"])
qed

lemma loop_ok_set:
  assumes "loop_ok i ms st" "i < length (js_tasks st)" "js_tasks st' = (js_tasks st)[i := t]" "js_log st' = js_log st"
    and "st_complete t = st_complete (js_tasks st ! i)" "\<And>rest. owed (phase_of i st) rest \<Longrightarrow> rest = []"
    and "st_phase t = Ready \<or> st_phase t = Ended"
  shows "loop_ok i ms st'"
proof -
  obtain rest where r: "map event_key (due_events ms) = map event_key (heard i st) @ map event_key rest"
      "owed (phase_of i st) rest" "st_complete (js_tasks st ! i) = list_ex replay_end ms"
    using assms(1,2) unfolding loop_ok_def by auto
  moreover have "rest = []" using assms(6) r(2) .
  moreover have "heard i st' = heard i st" using assms(4) by (simp add: heard_def)
  moreover have "owed (phase_of i st') []" using assms(2,3,7) by (auto simp: phase_of_def owed_def)
  ultimately show ?thesis
    unfolding loop_ok_def using assms(2,3,5) by (auto intro: exI [of _ "[]"])
qed

lemma loop_ok_phase:
  assumes "loop_ok i ms st" "js_tasks st' = (js_tasks st)[j := (js_tasks st ! j)\<lparr>st_phase := ph\<rparr>]" "js_log st' = js_log st"
    and "ph = Ready \<or> ph = Ended" "phase_of j st \<noteq> Ended" "\<And>rest. owed (phase_of j st) rest \<Longrightarrow> rest = []"
  shows "loop_ok i ms st'"
proof (cases "j = i")
  case False
  then show ?thesis using loop_ok_other [OF assms(1) False assms(2), of "[]"] assms(3) by simp
next
  case True
  then have "i < length (js_tasks st)" using assms(5) by (auto simp: phase_of_def split: if_splits)
  then show ?thesis using loop_ok_set [OF assms(1) _ assms(2) [unfolded True] assms(3)] assms(4,6) True by simp
qed

lemma loop_ok_ready:
  assumes "loop_ok i ms st" "phase_of i st = Ready"
  shows "i < length (js_tasks st)" "st_complete (js_tasks st ! i) = list_ex replay_end ms"
    "map event_key (due_events ms) = map event_key (heard i st)"
  using assms by (auto simp: loop_ok_def phase_of_def owed_def split: if_splits)

lemma loop_ok_same:
  assumes "loop_ok i ms st" "phase_of i st = Ready" "\<not> replay_end m"
    "list_ex replay_end ms \<Longrightarrow> trigger_event m = None"
  shows "loop_ok i (ms @ [m]) st"
  using assms loop_ok_ready [OF assms(1,2)] by (auto simp: loop_ok_def due_events_snoc)

lemma loop_ok_task_msg:
  assumes "loop_ok i ms st" "phase_of i st = Ready"
  shows "loop_ok i (ms @ [m]) (task_msg i m st)"
proof (cases m)
  case (HistoryComplete sid n)
  then show ?thesis
    using loop_ok_ready [OF assms] assms(2)
    by (auto simp: loop_ok_def task_msg_def due_events_snoc trigger_event_def replay_end_def phase_of_def owed_def
        heard_def)
next
  case (Chunk sid c)
  show ?thesis
  proof (cases "st_complete (js_tasks st ! i) \<and> classify_event c \<noteq> None")
    case False
    then have "task_msg i m st = st" by (auto simp: Chunk task_msg_def)
    moreover have "list_ex replay_end ms \<Longrightarrow> trigger_event m = None"
      using False loop_ok_ready(2) [OF assms] by (simp add: Chunk trigger_event_def)
    ultimately show ?thesis using loop_ok_same [OF assms] by (simp add: Chunk replay_end_def)
  next
    case True
    then obtain ev where ev: "classify_event c = Some ev" by blast
    have due: "map event_key (due_events (ms @ [m])) = map event_key (heard i st) @ [event_key ev]"
      using True loop_ok_ready [OF assms] by (simp add: due_events_snoc Chunk trigger_event_def ev)
    have fin: "st_complete (js_tasks st ! i) = list_ex replay_end (ms @ [m])"
      using loop_ok_ready(2) [OF assms] by (simp add: Chunk replay_end_def)
    show ?thesis
    proof (cases "ev_type ev = ''llm_complete''")
      case False
      then have "task_msg i m st = js_dispatch i ev st" using True by (simp add: task_msg_def Chunk ev)
      then show ?thesis using loop_ok_dispatch [OF loop_ok_ready(1) [OF assms] fin due] by simp
    next
      case llm: True
      have "task_msg i m st = set_task i (\<lambda>t. t\<lparr>st_phase := Filling ev\<rparr>) st"
        using True llm by (simp add: task_msg_def Chunk ev)
      then show ?thesis
        using loop_ok_ready(1) [OF assms] fin due
        by (auto simp: loop_ok_def phase_of_def owed_def heard_def intro: exI [of _ "[ev]"])
    qed
  qed
qed (use loop_ok_same [OF assms] in \<open>simp_all add: task_msg_def replay_end_def trigger_event_def\<close>)

lemma task_msg_tasks:
  "\<exists>t xs. js_tasks (task_msg i m st) = (js_tasks st)[i := t] \<and> js_log (task_msg i m st) = js_log st @ map (\<lambda>(a, ev). (i, a, ev)) xs"
proof -
  have same: "\<exists>t xs. js_tasks st = (js_tasks st)[i := t] \<and> js_log st = js_log st @ map (\<lambda>(a, ev). (i, a, ev)) xs"
    by (rule exI [of _ "js_tasks st ! i"]) simp
  have dispatch: "\<exists>t xs. js_tasks (js_dispatch i ev st) = (js_tasks st)[i := t]
      \<and> js_log (js_dispatch i ev st) = js_log st @ map (\<lambda>(a, ev). (i, a, ev)) xs" for ev
    using js_dispatch_tasks [of i ev st] by blast
  show ?thesis
    using same dispatch by (cases m) (auto simp: task_msg_def split: option.split)
qed

lemma loop_ok_step:
  assumes "loop_ok i ms st" "js_next e l st = Some st'"
  shows "loop_ok i (ms @ (case l of TaskMsg j m \<Rightarrow> if j = i then [m] else [] | _ \<Rightarrow> [])) st'"
proof (cases l)
  case (BusMsg m)
  then show ?thesis using assms loop_ok_extend supervise_tasks [of e m st] by auto
next
  case (ControlMsg m fs)
  then show ?thesis
    using assms by (auto simp: control_msg_def loop_ok_def phase_of_def heard_def split: server_message.splits if_splits)
next
  case (TaskMsg j m)
  then have r: "phase_of j st = Ready" "st' = task_msg j m st" using assms(2) by (auto split: loop_phase.splits)
  show ?thesis
  proof (cases "j = i")
    case False
    obtain t xs where "js_tasks st' = (js_tasks st)[j := t]" "js_log st' = js_log st @ map (\<lambda>(a, ev). (j, a, ev)) xs"
      using task_msg_tasks [of j m st] r(2) by auto
    then show ?thesis using loop_ok_other [OF assms(1) False] False by (simp add: TaskMsg)
  qed (use loop_ok_task_msg [OF assms(1)] r TaskMsg in simp)
next
  case (TaskHistory j h)
  then obtain ev where r: "phase_of j st = Filling ev" "st' = js_dispatch j (fill_text h ev) st"
    using assms(2) by (auto split: loop_phase.splits)
  show ?thesis
  proof (cases "j = i")
    case False
    obtain t xs where "js_tasks st' = (js_tasks st)[j := t]" "js_log st' = js_log st @ map (\<lambda>(a, ev). (j, a, ev)) xs"
      using js_dispatch_tasks [of j "fill_text h ev" st] r(2) by auto
    then show ?thesis using loop_ok_other [OF assms(1) False] by (simp add: TaskHistory)
  next
    case True
    then have "i < length (js_tasks st)" using r(1) by (auto simp: phase_of_def split: if_splits)
    moreover have "st_complete (js_tasks st ! i) = list_ex replay_end ms"
      "map event_key (due_events ms) = map event_key (heard i st) @ [event_key (fill_text h ev)]"
      using assms(1) calculation True r(1) by (auto simp: loop_ok_def owed_def)
    ultimately show ?thesis using loop_ok_dispatch r(2) True TaskHistory by simp
  qed
next
  case (TaskConfig j h)
  then obtain a ch ev where r: "phase_of j st = Driving a ch ev" "st' = finish_drive e j a ch ev h st"
    using assms(2) by (auto split: loop_phase.splits)
  have "js_tasks st' = (js_tasks st)[j := (js_tasks st ! j)\<lparr>st_phase := Ready\<rparr>]" "js_log st' = js_log st"
    using r(2) by (simp_all add: finish_drive_def)
  from loop_ok_phase [OF assms(1) this] r(1) show ?thesis by (simp add: TaskConfig owed_def)
next
  case (TaskRunEnded j h)
  then have r: "phase_of j st = Running"
      "st' = report_error e (st_session (js_tasks st ! j)) h (set_task j (\<lambda>t. t\<lparr>st_phase := Ready\<rparr>) st)"
    using assms(2) by (auto split: loop_phase.splits)
  have "js_tasks st' = (js_tasks st)[j := (js_tasks st ! j)\<lparr>st_phase := Ready\<rparr>]" "js_log st' = js_log st"
    using r(2) by simp_all
  from loop_ok_phase [OF assms(1) this] r(1) show ?thesis by (simp add: TaskRunEnded owed_def)
next
  case (TaskClosed j)
  then have r: "phase_of j st = Ready" "st' = set_task j (\<lambda>t. t\<lparr>st_phase := Ended\<rparr>) st"
    using assms(2) by (auto split: loop_phase.splits)
  have "js_tasks st' = (js_tasks st)[j := (js_tasks st ! j)\<lparr>st_phase := Ended\<rparr>]" "js_log st' = js_log st"
    using r(2) by simp_all
  from loop_ok_phase [OF assms(1) this] r(1) show ?thesis by (simp add: TaskClosed owed_def)
qed (use assms loop_ok_extend [OF assms(1), of st' "[]"] in
      \<open>auto simp: settle_runtime_def split: option.splits if_splits bind_splits\<close>)

lemma js_process_snoc: "js_process e (ls @ [l]) st = Option.bind (js_process e ls st) (js_next e l)"
proof (induction ls arbitrary: st)
  case Nil
  then show ?case by (cases "js_next e l st") simp_all
next
  case (Cons x ls)
  then show ?case by (cases "js_next e x st") simp_all
qed

lemma loop_ok_start: "loop_ok i [] (js_start e fs created listed)"
  using js_start_tasks [of e fs created listed]
  by (auto simp: loop_ok_def phase_of_def heard_def due_events_def owed_def list_all_length fresh_task_def)

text \<open>
  C17: An agent hears every live event once. Whatever else goes on in the process, the events that a
  session loop has handed to its agent are, in order and each once, the triggering chunks that the
  loop received after the replay; the only one that may be missing is the last, while its text is
  being read from the history, or when the loop has ended because the agent is gone.
\<close>

theorem agents_hear_live_events:
  assumes "js_process e ls (js_start e fs created listed) = Some st"
  shows "\<exists>rest. map event_key (due_events (task_messages i ls)) = map event_key (heard i st) @ map event_key rest
    \<and> owed (phase_of i st) rest"
proof -
  have "loop_ok i (task_messages i ls) st"
    using assms
  proof (induction ls arbitrary: st rule: rev_induct)
    case Nil
    then show ?case using loop_ok_start [of i e fs created listed] by (simp add: task_messages_def List.map_filter_def)
  next
    case (snoc l ls)
    then show ?case using loop_ok_step by (fastforce simp: js_process_snoc task_messages_snoc bind_eq_Some_conv)
  qed
  then show ?thesis unfolding loop_ok_def by blast
qed

section \<open>The running sources are the registered ones\<close>

definition entry_ok :: "js_env \<Rightarrow> nat \<Rightarrow> stateful_entry \<Rightarrow> bool" where
  "entry_ok e n en \<longleftrightarrow>
     se_channel en < n
     \<and> (case se_task en of
          None \<Rightarrow> True
        | Some r \<Rightarrow> run_channel r < n \<and> je_sha256 (xj_engine e) (run_source r) = se_source_hash en)"

definition phase_ok :: "js_env \<Rightarrow> nat \<Rightarrow> loop_phase \<Rightarrow> bool" where
  "phase_ok e n ph = (case ph of Driving a ch ev \<Rightarrow> ch < n \<and> agent_ok (xj_engine e) a | _ \<Rightarrow> True)"

definition js_ok :: "js_env \<Rightarrow> js_state \<Rightarrow> bool" where
  "js_ok e st \<longleftrightarrow>
     registry_ok (xj_engine e) (js_registry st)
     \<and> (\<forall>sid en. kv_get (js_stateful st) sid = Some en \<longrightarrow> entry_ok e (length (js_channels st)) en)
     \<and> list_all (\<lambda>t. phase_ok e (length (js_channels st)) (st_phase t)) (js_tasks st)
     \<and> list_all (\<lambda>(i, a, ev). agent_ok (xj_engine e) a) (js_log st)"

lemma entry_ok_mono: "entry_ok e n en \<Longrightarrow> n \<le> m \<Longrightarrow> entry_ok e m en"
  by (auto simp: entry_ok_def split: option.splits)

lemma phase_ok_mono: "phase_ok e n ph \<Longrightarrow> n \<le> m \<Longrightarrow> phase_ok e m ph"
  by (auto simp: phase_ok_def split: loop_phase.splits)

lemma phase_ok_simps [simp]:
  "phase_ok e n Ready" "phase_ok e n Ended" "phase_ok e n Running" "phase_ok e n (Filling ev)"
  "phase_ok e n (Driving a ch ev) \<longleftrightarrow> ch < n \<and> agent_ok (xj_engine e) a"
  by (simp_all add: phase_ok_def)

lemma list_all_phase_mono:
  "list_all (\<lambda>t. phase_ok e n (st_phase t)) ts \<Longrightarrow> n \<le> m \<Longrightarrow> list_all (\<lambda>t. phase_ok e m (st_phase t)) ts"
  by (auto simp: list_all_iff intro: phase_ok_mono)

lemma js_ok_set_task:
  assumes "js_ok e st" "i < length (js_tasks st) \<Longrightarrow> phase_ok e (length (js_channels st)) (st_phase (f (js_tasks st ! i)))"
  shows "js_ok e (set_task i f st)"
proof (cases "i < length (js_tasks st)")
  case True
  then show ?thesis using assms by (auto simp: js_ok_def list_all_length nth_list_update)
qed (use assms in \<open>simp add: js_ok_def list_update_beyond\<close>)

lemma js_ok_attach: "js_ok e st \<Longrightarrow> js_ok e (js_attach e sid agent st)"
  by (auto simp: js_attach_def js_ok_def Let_def split: option.split)

lemma js_ok_start: "js_ok e (js_start e fs created listed)"
proof -
  have "js_ok e (attach_listed e infos st)" if "js_ok e st" for infos st
    using that by (induction infos arbitrary: st) (simp_all add: attach_listed_def js_ok_attach)
  moreover have "js_ok e (fold (start_background e created) as (js_loaded e fs))" for as
    using load_all_ok by (simp add: js_ok_def) (simp add: js_loaded_def)
  ultimately show ?thesis by (simp add: js_start_def)
qed

lemma ensure_entry_ok:
  assumes "js_ok e st" "ensure_entry sid st = (ch, st')"
  shows "js_ok e st' \<and> ch < length (js_channels st') \<and> length (js_channels st) \<le> length (js_channels st')"
proof (cases "kv_get (js_stateful st) sid")
  case None
  then have st': "ch = length (js_channels st)" "length (js_channels st') = Suc (length (js_channels st))"
      "js_stateful st' = kv_insert sid \<lparr>se_channel = length (js_channels st), se_source_hash = [], se_task = None\<rparr> (js_stateful st)"
      "js_registry st' = js_registry st" "js_tasks st' = js_tasks st" "js_log st' = js_log st"
    using assms(2) by (auto simp: ensure_entry_def)
  have "entry_ok e (Suc (length (js_channels st))) en" if "kv_get (js_stateful st') s = Some en" for s en
  proof (cases "s = sid")
    case True
    then show ?thesis using that by (auto simp: st'(3) kv_simps entry_ok_def)
  next
    case False
    then have "kv_get (js_stateful st) s = Some en" using that by (simp add: st'(3) kv_simps)
    then have "entry_ok e (length (js_channels st)) en" using assms(1) unfolding js_ok_def by blast
    then show ?thesis by (rule entry_ok_mono) simp
  qed
  then show ?thesis
    using assms(1) st' list_all_phase_mono [of e "length (js_channels st)" "js_tasks st" "Suc (length (js_channels st))"]
    by (simp add: js_ok_def)
next
  case (Some en)
  then show ?thesis using assms by (auto simp: ensure_entry_def js_ok_def entry_ok_def)
qed

lemma js_ok_dispatch:
  assumes "js_ok e st"
  shows "js_ok e (js_dispatch i ev st)"
proof (cases "kv_get (js_registry st) (st_agent (js_tasks st ! i))")
  case None
  then show ?thesis using assms by (simp add: js_dispatch_def js_ok_set_task)
next
  case (Some a)
  let ?st = "st\<lparr>js_log := js_log st @ [(i, a, ev)]\<rparr>"
  have a: "agent_ok (xj_engine e) a" using Some assms unfolding js_ok_def registry_ok_def by blast
  then have st: "js_ok e ?st" using assms by (simp add: js_ok_def)
  obtain ch st2 where en: "ensure_entry (st_session (js_tasks st ! i)) ?st = (ch, st2)" by fastforce
  show ?thesis
    using Some a st ensure_entry_ok [OF st en] en
    by (auto simp: js_dispatch_def Let_def intro!: js_ok_set_task)
qed

lemma js_ok_task_msg: "js_ok e st \<Longrightarrow> js_ok e (task_msg i m st)"
  by (auto simp: task_msg_def intro!: js_ok_dispatch js_ok_set_task split: server_message.split option.split)
     (auto simp: js_ok_def list_all_length)

lemma js_ok_finish_drive:
  assumes "js_ok e st" "phase_of i st = Driving a ch ev"
  shows "js_ok e (finish_drive e i a ch ev h st)"
proof -
  have i: "i < length (js_tasks st)" "st_phase (js_tasks st ! i) = Driving a ch ev"
    using assms(2) by (auto simp: phase_of_def split: if_splits)
  then have a: "ch < length (js_channels st)" "agent_ok (xj_engine e) a"
    using assms(1) by (auto simp: js_ok_def list_all_length dest!: spec [of _ i])
  have "entry_ok e n (respawn e a ch en)" if "entry_ok e n en" "ch < n" for en n
    using that a(2) by (auto simp: respawn_def entry_ok_def agent_ok_def)
  then show ?thesis
    using assms(1) a(1) unfolding finish_drive_def
    by (intro js_ok_set_task) (auto simp: js_ok_def kv_simps split: if_splits)
qed

lemma js_ok_settle: "js_ok e st \<Longrightarrow> js_ok e (settle_runtime e sid r st)"
proof -
  have "entry_ok e n en \<Longrightarrow> entry_ok e n (en\<lparr>se_task := map_option (\<lambda>r. r\<lparr>run_done := True\<rparr>) (se_task en)\<rparr>)" for n en
    by (auto simp: entry_ok_def split: option.splits)
  then show "js_ok e st \<Longrightarrow> js_ok e (settle_runtime e sid r st)"
    by (auto simp: settle_runtime_def js_ok_def kv_simps split: if_splits)
qed

lemma js_ok_step:
  assumes "js_ok e st" "js_next e l st = Some st'"
  shows "js_ok e st'"
proof (cases l)
  case (BusMsg m)
  have "js_ok e (st\<lparr>js_attached := A, js_stateful := kv_remove sid (js_stateful st)\<rparr>)" for A sid
    using assms(1) by (auto simp: js_ok_def kv_simps split: if_splits)
  then show ?thesis using assms BusMsg by (auto simp: supervise_def js_ok_attach split: server_message.split)
next
  case (FileChanged fs path)
  then show ?thesis using assms reload_file_ok remove_by_path_ok by (auto simp: js_ok_def file_event_def)
next
  case (ControlMsg m fs)
  have "registry_ok (xj_engine e) (snd (reload_all (xj_engine e) fs (xj_dirs e) r))" for r
    using load_all_ok by (simp add: reload_all_def case_prod_beta)
  then show ?thesis
    using assms ControlMsg by (auto simp: js_ok_def control_msg_def split: server_message.splits)
next
  case (TaskMsg i m)
  then show ?thesis using assms js_ok_task_msg by (auto split: loop_phase.splits)
next
  case (TaskHistory i h)
  then show ?thesis using assms js_ok_dispatch by (auto split: loop_phase.splits)
next
  case (TaskConfig i h)
  then show ?thesis using assms js_ok_finish_drive by (auto split: loop_phase.splits)
next
  case (TaskRunEnded i r)
  have "js_ok e (report_error e sid r x) = js_ok e x" for sid r x by (simp add: js_ok_def)
  then show ?thesis using assms TaskRunEnded js_ok_set_task by (auto split: loop_phase.splits)
next
  case (TaskClosed i)
  then show ?thesis using assms js_ok_set_task by (auto split: loop_phase.splits)
next
  case (RuntimeSettled sid r)
  then show ?thesis using assms js_ok_settle by (auto split: option.splits if_splits)
qed (use assms in \<open>auto simp: js_ok_def split: if_splits\<close>)

text \<open>The process as a transition system, of which \<open>js_ok\<close> is an invariant.\<close>

definition js_starts :: "js_env \<Rightarrow> js_state \<Rightarrow> bool" where
  "js_starts e st \<longleftrightarrow> (\<exists>fs created listed. st = js_start e fs created listed)"

definition js_step :: "js_env \<Rightarrow> js_state \<Rightarrow> js_state \<Rightarrow> bool" where
  "js_step e st st' \<longleftrightarrow> (\<exists>l. js_next e l st = Some st')"

interpretation js_safe: safe_system "js_starts e" "js_step e" "js_ok e" for e
  by unfold_locales (auto simp: js_starts_def js_step_def js_ok_start js_ok_step)

lemma js_process_steps: "js_process e ls st = Some st' \<Longrightarrow> (js_step e)\<^sup>*\<^sup>* st st'"
proof (induction ls arbitrary: st' rule: rev_induct)
  case (snoc l ls)
  then obtain x where "js_process e ls st = Some x" "js_next e l x = Some st'"
    by (auto simp: js_process_snoc bind_eq_Some_conv)
  then show ?case using snoc.IH [of x] by (auto simp: js_step_def intro: rtranclp.rtrancl_into_rtrancl)
qed simp

text \<open>
  What runs is what was registered. In every state that the process reaches, the registry is
  sound, every agent that was handed an event was loaded from a valid source, and the runtime of
  every stateful session runs a source with the hash its entry records, on a channel that exists.
\<close>

theorem js_process_safe:
  "pred_option (js_ok e) (js_process e ls (js_start e fs created listed))"
proof (cases "js_process e ls (js_start e fs created listed)")
  case (Some st)
  have "js_starts e (js_start e fs created listed)" by (auto simp: js_starts_def)
  then show ?thesis using js_safe.inv_reachable js_process_steps [OF Some] Some by auto
qed simp


section \<open>Removed agents do not come back\<close>

text \<open>
  A loop whose agent is gone ends, but its session stays marked as attached and the runtime of a
  stateful session stays alive: creating the session anew, or the agent's file coming back, does not
  attach it again before the session is deleted.
\<close>

lemma removed_agent_ends:
  assumes "kv_get (js_registry st) (st_agent (js_tasks st ! i)) = None" "i < length (js_tasks st)"
  shows "phase_of i (js_dispatch i ev st) = Ended"
    "js_attached (js_dispatch i ev st) = js_attached st" "js_stateful (js_dispatch i ev st) = js_stateful st"
  using assms by (simp_all add: js_dispatch_def phase_of_def)

lemma attached_stays_attached:
  "sid \<in> js_attached st \<Longrightarrow> js_next e (BusMsg (SessionCreated sid agent)) st = Some st"
  by (simp add: supervise_def js_attach_def)

text \<open>Attaching seeds the configuration last, over what the session's history says.\<close>

lemma js_reattach_resets_config:
  assumes "kv_wf cfg" "kv_get cfg k = Some v" "k \<noteq> CONFIG_TYPE"
    and "kv_get cfg CONFIG_TYPE = None"
  shows "json_get (resolve_config (hist @ [initial_config_chunk agent cfg uuid now_ms])) k = Some v"
proof -
  let ?c = "initial_config_chunk agent cfg uuid now_ms"
  let ?cfg = "kv_insert CONFIG_TYPE (JStr ''runtime'') cfg"
  have wf: "kv_wf ?cfg" using assms(1) by (simp add: kv_simps)
  have "annotation (new_null u n who) x = None" for u n who x by (simp add: annotation_def new_null_def)
  then have c: "annotation ?c x = kv_get ?cfg x" for x
    using assms(4) by (simp add: initial_config_chunk_def annotation_annotate_all kv_get_rev [OF wf] split: option.split)
  have "is_runtime_chunk ?c"
    using assms(4) c [of CONFIG_TYPE] by (simp add: is_runtime_chunk_def kv_simps initial_config_chunk_def)
  moreover have "kv_wf (annotations ?c)"
  proof -
    have "kv_wf (annotations x) \<Longrightarrow> kv_wf (annotations (annotate_all anns x))" for anns x
      by (induction anns arbitrary: x) (auto simp: annotate_all_def with_annotation_def kv_simps)
    then show ?thesis using assms(4) by (simp add: initial_config_chunk_def new_null_def kv_simps)
  qed
  moreover have "annotation ?c k = Some v" using c [of k] assms(2,3) by (simp add: kv_simps)
  ultimately show ?thesis
    using assms(3) fold_config_values [of m "\<lparr>mc_values = m, mc_extra = []\<rparr>" "annotations ?c" "[]" for m]
    by (simp add: resolve_config_def is_runtime_chunk_def fold_merge_values kv_get_rev annotation_def)
qed

section \<open>A run of one stateful agent\<close>

definition demo_js_engine :: js_engine where
  "demo_js_engine =
     \<lparr>je_eval = ManifestText,
      je_parse = (\<lambda>_. Some (json_obj [(''name'', JStr ''a''), (''mode'', JStr ''stateful'')])), je_sha256 = (\<lambda>s. s)\<rparr>"

definition demo_js_files :: js_files where
  "demo_js_files = \<lparr>jf_glob = (\<lambda>_. Inr [Inr ''a.js'']), jf_read = (\<lambda>_. Inr ''m''), jf_exists = (\<lambda>_. True)\<rparr>"

definition demo_js_env :: js_env where
  "demo_js_env =
     \<lparr>xj_engine = demo_js_engine, xj_dirs = [''d''], xj_uuid = (\<lambda>_. []), xj_clock = (\<lambda>_. 0),
      xj_default_timeout = 30, xj_valid_cron = (\<lambda>_. True)\<rparr>"

definition demo_js_agent :: js_agent where
  "demo_js_agent =
     \<lparr>ja_manifest = \<lparr>jm_name = ''a'', jm_description = [], jm_background = False, jm_allows_reload = True,
        jm_persists_state = True, jm_mode = ''stateful'', jm_schedule = None, jm_rpc_timeout_secs = None,
        jm_initial_config = []\<rparr>,
      ja_source = ''m'', ja_path = ''a.js'', ja_file_hash = ''m''\<rparr>"

definition demo_user_text :: chunk where
  "demo_user_text = with_annotation CHAT_ROLE (JStr USER) (new_text ''c'' 0 ''hello'' ''com.test'')"

definition demo_js_labels :: "js_label list" where
  "demo_js_labels =
     [BusMsg (SessionCreated ''s'' ''a''), TaskMsg 0 (HistoryComplete ''s'' 0), TaskMsg 0 (Chunk ''s'' demo_user_text)]"

definition demo_js_start :: js_state where
  "demo_js_start = js_start demo_js_env demo_js_files (\<lambda>_. True) (Inr [])"

lemma demo_js_start_eq:
  "demo_js_start =
     \<lparr>js_registry = [(''a'', demo_js_agent)], js_attached = {}, js_stateful = [], js_channels = [], js_tasks = [],
      js_control_complete = False, js_ticking = [], js_log = [], js_sent = [], js_uuids = 0\<rparr>"
proof -
  have v: "json_obj [(''name'', JStr ''a''), (''mode'', JStr ''stateful'')]
      = JObj [(''mode'', JStr ''stateful''), (''name'', JStr ''a'')]"
    by (simp add: json_obj_def)
  have "str_trim ''a'' \<noteq> []"
    by (simp add: str_trim_def byte_val_def is_continuation_def char_is_whitespace_def)
  then have "extract_manifest demo_js_engine ''m'' = Inr (ja_manifest demo_js_agent)"
    by (simp add: extract_manifest_def demo_js_engine_def demo_js_agent_def v manifest_from_json_def
        default_fields_def field_default_def field_string_def validate_def)
  then have "fst (load_all demo_js_engine demo_js_files [''d'']) = [(''a'', demo_js_agent)]"
    by (simp add: load_all_def load_dir_def scan_directory_def demo_js_files_def insert_file_def agent_of_file_def
        hash_file_def Let_def)
       (simp add: demo_js_agent_def demo_js_engine_def)
  moreover have "\<not> jm_background (ja_manifest demo_js_agent)" by (simp add: demo_js_agent_def)
  ultimately show ?thesis
    by (simp add: demo_js_start_def js_start_def js_loaded_def demo_js_env_def background_agents_def attach_listed_def)
qed

definition demo_js_event :: js_event where
  "demo_js_event = event_from demo_user_text ''user_message'' ''hello''"

definition demo_js_final :: js_state where
  "demo_js_final =
     \<lparr>js_registry = [(''a'', demo_js_agent)], js_attached = {''s''},
      js_stateful = [(''s'', \<lparr>se_channel = 0, se_source_hash = [], se_task = None\<rparr>)],
      js_channels = [\<lparr>ch_events = [], ch_config = JObj []\<rparr>],
      js_tasks = [\<lparr>st_session = ''s'', st_agent = ''a'', st_complete = True,
                   st_phase = Driving demo_js_agent 0 demo_js_event\<rparr>],
      js_control_complete = False, js_ticking = [], js_log = [(0, demo_js_agent, demo_js_event)],
      js_sent = [], js_uuids = 0\<rparr>"

lemma demo_js_run: "js_process demo_js_env demo_js_labels demo_js_start = Some demo_js_final"
proof -
  have "classify_event demo_user_text = Some demo_js_event"
    by (simp add: classify_event_def demo_user_text_def demo_js_event_def or_else_def)
  moreover have "ev_type demo_js_event \<noteq> ''llm_complete''" by (simp add: demo_js_event_def event_from_def)
  moreover have "jm_mode (ja_manifest demo_js_agent) = ''stateful''" "jm_initial_config (ja_manifest demo_js_agent) = []"
    by (simp_all add: demo_js_agent_def)
  ultimately show ?thesis
    by (simp add: demo_js_labels_def demo_js_start_eq demo_js_final_def supervise_def js_attach_def seed_config_def
        phase_of_def task_msg_def set_task_def js_dispatch_def ensure_entry_def Let_def)
qed

theorem agents_hear_live_events_witness:
  "\<exists>rest. map event_key (due_events (task_messages 0 demo_js_labels)) = [event_key demo_js_event] @ map event_key rest"
  using agents_hear_live_events [OF demo_js_run [unfolded demo_js_start_def], of 0]
  by (auto simp: heard_def demo_js_final_def)


end
