(* ===== verification/Streams.thy ===== *)
theory Streams
  imports Prelude
begin

text \<open>
  Text that arrives in pieces: what the standard library's \<open>str::lines\<close>, \<open>str::find\<close>,
  \<open>slice::windows\<close> and \<open>String::from_utf8_lossy\<close> do on bytes, and the contract \<open>incremental\<close> of a
  reader that cuts frames off the front of a growing buffer.  Its consequence, that the frames do not
  depend on how the bytes were split into reads, is used for the streams of language models and for
  the event streams of the HTTP client.
\<close>

section \<open>Lines and substrings\<close>

abbreviation LF :: char where "LF \<equiv> CHR 0x0A"
abbreviation CR :: char where "CR \<equiv> CHR 0x0D"

text \<open>\<open>str::lines\<close>: a line ends with a newline, and then loses one carriage return before it.\<close>

definition chomp :: "string \<Rightarrow> string" where
  "chomp s = (if s \<noteq> [] \<and> last s = CR then butlast s else s)"

definition str_lines :: "string \<Rightarrow> string list" where
  "str_lines s =
     (let segs = split_on LF s
      in map chomp (butlast segs) @ (if last segs = [] then [] else [last segs]))"

text \<open>\<open>str::trim_end_matches\<close> with a character of one byte.\<close>

definition trim_end :: "char \<Rightarrow> string \<Rightarrow> string" where
  "trim_end c s = rev (dropWhile (\<lambda>x. x = c) (rev s))"

text \<open>\<open>str::find\<close> with a string, and the position of a window of bytes.\<close>

fun find_sub :: "'a list \<Rightarrow> 'a list \<Rightarrow> nat option" where
  "find_sub p [] = (if p = [] then Some 0 else None)"
| "find_sub p (c # cs) =
     (if take (length p) (c # cs) = p then Some 0 else map_option Suc (find_sub p cs))"

lemma find_sub_split: "find_sub p s = Some i \<Longrightarrow> s = take i s @ p @ drop (i + length p) s"
proof (induction s arbitrary: i)
  case (Cons c cs)
  show ?case
  proof (cases "take (length p) (c # cs) = p")
    case True
    with Cons.prems show ?thesis by simp (metis append_take_drop_id)
  next
    case False
    with Cons.prems obtain j where "i = Suc j" "find_sub p cs = Some j" by auto
    with Cons.IH show ?thesis by simp
  qed
qed (simp split: if_splits)

lemma find_sub_bound: "find_sub p s = Some i \<Longrightarrow> i + length p \<le> length s"
proof (induction s arbitrary: i)
  case (Cons c cs)
  show ?case
  proof (cases "take (length p) (c # cs) = p")
    case True
    then have "length p \<le> length (c # cs)" by (metis length_take min.cobounded1)
    with True Cons.prems show ?thesis by simp
  next
    case False
    with Cons.prems Cons.IH show ?thesis by fastforce
  qed
qed (simp split: if_splits)

lemma find_sub_append: "find_sub p s = Some i \<Longrightarrow> find_sub p (s @ x) = Some i"
proof (induction s arbitrary: i)
  case Nil
  then show ?case by (cases x) (auto split: if_splits)
next
  case (Cons c cs)
  from find_sub_bound [OF Cons.prems] Cons.prems Cons.IH show ?case
    by (auto simp: Let_def take_Cons' split: if_splits)
qed

section \<open>Decoding UTF-8\<close>

text \<open>
  \<open>utf8_head\<close> is the decision at the first byte of what is left: whether a well-formed sequence
  starts there, and how many bytes it has, or else how many bytes the maximal malformed part has.
  Bytes past the end read as zero.  The ranges are those of the Unicode standard (no overlong forms,
  no surrogates, nothing above U+10FFFF).
\<close>

definition byte_at :: "string \<Rightarrow> nat \<Rightarrow> nat" where
  "byte_at s i = (if i < length s then byte_val (s ! i) else 0)"

definition second_byte :: "nat \<Rightarrow> nat \<Rightarrow> bool" where
  "second_byte b c =
     (if b = 224 then 160 \<le> c \<and> c \<le> 191
      else if b = 237 then 128 \<le> c \<and> c \<le> 159
      else if b = 240 then 144 \<le> c \<and> c \<le> 191
      else if b = 244 then 128 \<le> c \<and> c \<le> 143
      else 128 \<le> c \<and> c \<le> 191)"

definition continues :: "nat \<Rightarrow> bool" where
  "continues c = (128 \<le> c \<and> c \<le> 191)"

definition utf8_head :: "string \<Rightarrow> bool \<times> nat" where
  "utf8_head s =
     (let b = byte_at s 0
      in if b < 128 then (True, 1)
         else if b < 194 \<or> 244 < b \<or> \<not> second_byte b (byte_at s 1) then (False, 1)
         else if b < 224 then (True, 2)
         else if \<not> continues (byte_at s 2) then (False, 2)
         else if b < 240 then (True, 3)
         else if \<not> continues (byte_at s 3) then (False, 3)
         else (True, 4))"

lemma utf8_head_pos: "utf8_head s = (ok, n) \<Longrightarrow> 0 < n"
  by (auto simp: utf8_head_def Let_def split: if_splits)

definition REPLACEMENT :: string where
  "REPLACEMENT = [CHR 0xEF, CHR 0xBF, CHR 0xBD]"

function from_utf8_lossy :: "string \<Rightarrow> string" where
  "from_utf8_lossy [] = []"
| "from_utf8_lossy (c # cs) =
     (let s = c # cs; h = utf8_head s
      in (if fst h then take (snd h) s else REPLACEMENT) @ from_utf8_lossy (drop (snd h) s))"
  by pat_completeness auto
termination
proof (relation "measure length")
  fix c :: char and cs :: string and x xa
  assume "x = c # cs" "xa = utf8_head x"
  then show "(drop (snd xa) x, c # cs) \<in> measure length"
    using utf8_head_pos [of "c # cs"] by (cases "utf8_head (c # cs)") auto
qed simp

lemma from_utf8_lossy_ascii: "\<forall>c \<in> set s. byte_val c < 128 \<Longrightarrow> from_utf8_lossy s = s"
proof (induction s rule: from_utf8_lossy.induct)
  case (2 c cs)
  have "utf8_head (c # cs) = (True, 1)" using "2.prems" by (simp add: utf8_head_def byte_at_def)
  with 2 show ?case by simp
qed simp

text \<open>Well-formed text, which is what a Rust string holds.\<close>

function is_utf8 :: "string \<Rightarrow> bool" where
  "is_utf8 [] = True"
| "is_utf8 (c # cs) =
     (let h = utf8_head (c # cs) in fst h \<and> is_utf8 (drop (snd h) (c # cs)))"
  by pat_completeness auto
termination
proof (relation "measure length")
  fix c :: char and cs :: string and x
  assume "x = utf8_head (c # cs)"
  then show "(drop (snd x) (c # cs), c # cs) \<in> measure length"
    using utf8_head_pos [of "c # cs"] by (cases "utf8_head (c # cs)") auto
qed simp

lemma from_utf8_lossy_valid: "is_utf8 s \<Longrightarrow> from_utf8_lossy s = s"
  by (induction s rule: is_utf8.induct) (auto simp: Let_def)

lemma byte_at_append: "0 < byte_at s i \<Longrightarrow> byte_at (s @ t) i = byte_at s i \<and> i < length s"
  by (auto simp: byte_at_def nth_append split: if_splits)

lemma second_byte_pos: "second_byte b c \<Longrightarrow> 0 < c"
  by (auto simp: second_byte_def split: if_splits)

lemma utf8_head_append:
  assumes "s \<noteq> []" and "utf8_head s = (True, n)"
  shows "utf8_head (s @ t) = (True, n) \<and> n \<le> length s"
proof -
  have 0: "byte_at (s @ t) 0 = byte_at s 0" using assms(1) by (simp add: byte_at_def nth_append)
  have 1: "second_byte b (byte_at s 1) \<Longrightarrow> byte_at (s @ t) 1 = byte_at s 1 \<and> 1 < length s" for b
    using byte_at_append second_byte_pos by blast
  have c: "continues (byte_at s i) \<Longrightarrow> byte_at (s @ t) i = byte_at s i \<and> i < length s" for i
    using byte_at_append [of s i] by (auto simp: continues_def)
  show ?thesis
    using assms 0 1 [of "byte_at s 0"] c [of 2] c [of 3]
    by (auto simp: utf8_head_def Let_def Suc_le_eq split: if_splits)
qed

text \<open>Decoding whole characters at a time is decoding at once.\<close>

lemma from_utf8_lossy_append: "is_utf8 a \<Longrightarrow> from_utf8_lossy (a @ b) = a @ from_utf8_lossy b"
proof (induction a rule: is_utf8.induct)
  case (2 c cs)
  obtain n where h: "utf8_head (c # cs) = (True, n)" using "2.prems" by (cases "utf8_head (c # cs)") (auto simp: Let_def)
  then have h': "utf8_head (c # cs @ b) = (True, n)" "n \<le> length (c # cs)"
    using utf8_head_append [of "c # cs" n b] by auto
  have "from_utf8_lossy (drop n (c # cs) @ b) = drop n (c # cs) @ from_utf8_lossy b"
    using 2 h by (simp add: Let_def)
  moreover have "take n (c # cs @ b) = take n (c # cs)" "drop n (c # cs @ b) = drop n (c # cs) @ b"
    using h'(2) by (simp_all flip: append_Cons)
  ultimately show ?case using h' by (simp add: Let_def)
qed simp

lemma from_utf8_lossy_concat: "\<forall>a \<in> set as. is_utf8 a \<Longrightarrow> from_utf8_lossy (concat as) = concat as"
  by (induction as) (simp_all add: from_utf8_lossy_append)

lemma is_utf8_append: "is_utf8 a \<Longrightarrow> is_utf8 b \<Longrightarrow> is_utf8 (a @ b)"
proof (induction a rule: is_utf8.induct)
  case (2 c cs)
  obtain n where h: "utf8_head (c # cs) = (True, n)" using "2.prems" by (cases "utf8_head (c # cs)") (auto simp: Let_def)
  then have h': "utf8_head (c # cs @ b) = (True, n)" "n \<le> length (c # cs)"
    using utf8_head_append [of "c # cs" n b] by auto
  then have "drop n (c # cs @ b) = drop n (c # cs) @ b" by (simp flip: append_Cons)
  with 2 h h' show ?case by (simp add: Let_def)
qed simp

lemma is_utf8_ascii_Cons [simp]: "byte_val c < 128 \<Longrightarrow> is_utf8 (c # s) = is_utf8 s"
  by (simp add: utf8_head_def byte_at_def)

lemma is_utf8_hd: "is_utf8 (c # s) \<Longrightarrow> \<not> is_continuation c"
  by (auto simp: Let_def utf8_head_def byte_at_def is_continuation_def split: if_splits)

declare from_utf8_lossy.simps(2) [simp del] is_utf8.simps(2) [simp del]

section \<open>Trimming and splitting\<close>

lemma str_chars_Cons:
  "s = [] \<or> \<not> is_continuation (hd s) \<Longrightarrow> str_chars (c # s) = [c] # str_chars s"
  by (cases s) simp_all

lemma str_chars_snoc: "\<not> is_continuation c \<Longrightarrow> str_chars (s @ [c]) = str_chars s @ [[c]]"
proof (induction s rule: str_chars.induct)
  case (2 d ds)
  show ?case
  proof (cases "\<forall>x \<in> set ds. is_continuation x")
    case True
    moreover from this have "takeWhile is_continuation ds = ds" "dropWhile is_continuation ds = []"
      by (simp_all add: takeWhile_eq_all_conv dropWhile_eq_Nil_conv)
    ultimately show ?thesis using 2(2) by (simp only: str_chars.simps append_Cons) simp
  next
    case False
    then obtain x where "x \<in> set ds" "\<not> is_continuation x" by blast
    then have "takeWhile is_continuation (ds @ [c]) = takeWhile is_continuation ds"
      "dropWhile is_continuation (ds @ [c]) = dropWhile is_continuation ds @ [c]"
      by (simp_all add: takeWhile_append1 dropWhile_append1)
    with 2 show ?thesis by simp
  qed
qed simp

text \<open>A character of one byte that is neither white space nor part of a longer one.\<close>

definition plain_char :: "char \<Rightarrow> bool" where
  "plain_char c = (\<not> is_continuation c \<and> \<not> char_is_whitespace (byte_val c))"

lemma str_trim_plain:
  assumes "plain_char c" and "s = [] \<or> \<not> is_continuation (hd s)" and "plain_char (last (c # s))"
  shows "str_trim (c # s) = c # s"
proof -
  have 1: "str_chars (c # s) = [c] # str_chars s" by (rule str_chars_Cons [OF assms(2)])
  obtain t d where t: "c # s = t @ [d]" "d = last (c # s)" by (metis append_butlast_last_id list.distinct(1))
  then have "str_chars (c # s) = str_chars t @ [[d]]" using assms(3) by (simp add: str_chars_snoc plain_char_def)
  moreover have "dropWhile (\<lambda>c. char_is_whitespace (code_point c)) (str_chars (c # s)) = str_chars (c # s)"
    using assms(1) by (simp only: 1) (simp add: plain_char_def)
  moreover have "dropWhile (\<lambda>c. char_is_whitespace (code_point c)) (rev (str_chars t @ [[d]])) = rev (str_chars t @ [[d]])"
    using assms(3) t(2) by (simp add: plain_char_def)
  ultimately have "str_trim (c # s) = concat (str_chars (c # s))"
    by (simp only: str_trim_def Let_def rev_rev_ident)
  then show ?thesis by (simp only: concat_str_chars)
qed

lemma str_trim_space: "s = [] \<or> \<not> is_continuation (hd s) \<Longrightarrow> str_trim (CHR '' '' # s) = str_trim s"
proof -
  assume "s = [] \<or> \<not> is_continuation (hd s)"
  then have "str_chars (CHR '' '' # s) = [CHR '' ''] # str_chars s" by (rule str_chars_Cons)
  moreover have "char_is_whitespace (code_point [CHR '' ''])" by (simp add: byte_val_def char_is_whitespace_def)
  ultimately show ?thesis by (simp only: str_trim_def Let_def dropWhile.simps if_True)
qed

lemma split_on_Cons: "split_on c (x @ c # y) = split_on c x @ split_on c y"
proof (induction x)
  case (Cons a x)
  have "split_on c x \<noteq> []" by (induction x) (auto split: list.splits)
  with Cons show ?case by (auto split: list.splits)
qed simp

lemma split_on_none: "c \<notin> set x \<Longrightarrow> split_on c x = [x]"
  by (induction x) auto

lemma find_sub_first: "c \<notin> set x \<Longrightarrow> find_sub [c, c] (x @ c # c # y) = Some (length x)"
  by (induction x) auto

section \<open>Frames from a growing buffer\<close>

text \<open>
  \<open>drain\<close> is the loop that takes frames as long as there is one.  A frame takes at least one
  byte, so as many rounds as there are bytes are enough.
\<close>

primrec drain_upto :: "('b list \<Rightarrow> ('f \<times> 'b list) option) \<Rightarrow> nat \<Rightarrow> 'b list \<Rightarrow> 'f list \<times> 'b list" where
  "drain_upto next_frame 0 buf = ([], buf)"
| "drain_upto next_frame (Suc n) buf =
     (case next_frame buf of
        None \<Rightarrow> ([], buf)
      | Some (f, rest) \<Rightarrow> (let (fs, rest') = drain_upto next_frame n rest in (f # fs, rest')))"

definition drain :: "('b list \<Rightarrow> ('f \<times> 'b list) option) \<Rightarrow> 'b list \<Rightarrow> 'f list \<times> 'b list" where
  "drain next_frame buf = drain_upto next_frame (length buf) buf"

text \<open>What is taken after each of several reads, and what is left in the buffer.\<close>

primrec feed ::
  "('b list \<Rightarrow> ('f \<times> 'b list) option) \<Rightarrow> 'b list \<Rightarrow> 'b list list \<Rightarrow> 'f list list \<times> 'b list" where
  "feed next_frame buf [] = ([], buf)"
| "feed next_frame buf (bs # reads) =
     (let (fs, rest) = drain next_frame (buf @ bs); (fss, rest') = feed next_frame rest reads
      in (fs # fss, rest'))"

locale incremental =
  fixes next_frame :: "'b list \<Rightarrow> ('f \<times> 'b list) option"
  assumes frame_stable: "next_frame buf = Some (f, rest) \<Longrightarrow> next_frame (buf @ more_bytes) = Some (f, rest @ more_bytes)"
    and frame_shrinks: "next_frame buf = Some (f, rest) \<Longrightarrow> length rest < length buf"
begin

lemma drain_upto_enough: "length buf \<le> n \<Longrightarrow> drain_upto next_frame n buf = drain next_frame buf"
proof (induction n arbitrary: buf rule: less_induct)
  case (less n)
  show ?case
  proof (cases "next_frame buf")
    case None
    then show ?thesis by (cases n; cases "length buf") (simp_all add: drain_def)
  next
    case (Some p)
    obtain f rest where p: "next_frame buf = Some (f, rest)" using Some by (cases p) auto
    obtain l where l: "length buf = Suc l" "length rest \<le> l" using frame_shrinks [OF p] by (cases "length buf") auto
    obtain m where m: "n = Suc m" "l \<le> m" using less.prems l by (cases n) auto
    have "drain_upto next_frame m rest = drain next_frame rest" using less.IH [of m] m l by simp
    moreover have "drain_upto next_frame l rest = drain next_frame rest" using less.IH [of l] m l by simp
    ultimately show ?thesis using m l p by (simp add: drain_def)
  qed
qed

lemma drain_unfold:
  "drain next_frame buf =
     (case next_frame buf of
        None \<Rightarrow> ([], buf)
      | Some (f, rest) \<Rightarrow> (let (fs, rest') = drain next_frame rest in (f # fs, rest')))"
proof (cases "next_frame buf")
  case None
  then show ?thesis by (cases "length buf") (simp_all add: drain_def)
next
  case (Some p)
  obtain f rest where p: "next_frame buf = Some (f, rest)" using Some by (cases p) auto
  obtain l where "length buf = Suc l" "length rest \<le> l" using frame_shrinks [OF p] by (cases "length buf") auto
  with p drain_upto_enough [of rest l] show ?thesis by (simp add: drain_def)
qed

lemma drain_left: "next_frame (snd (drain next_frame buf)) = None"
proof (induction "length buf" arbitrary: buf rule: less_induct)
  case less
  show ?case
    using less [of "snd (the (next_frame buf))"] frame_shrinks
    by (subst drain_unfold) (auto simp: split_beta split: option.splits)
qed

lemma drain_append:
  "drain next_frame (buf @ x) =
     (let (fs, rest) = drain next_frame buf; (gs, rest') = drain next_frame (rest @ x) in (fs @ gs, rest'))"
proof (induction "length buf" arbitrary: buf rule: less_induct)
  case less
  show ?case
  proof (cases "next_frame buf")
    case None
    then have "drain next_frame buf = ([], buf)" by (subst drain_unfold) simp
    then show ?thesis by (simp add: split_beta)
  next
    case (Some p)
    obtain f rest where p: "next_frame buf = Some (f, rest)" using Some by (cases p) auto
    have "drain next_frame buf = (let (fs, rest') = drain next_frame rest in (f # fs, rest'))"
      by (subst drain_unfold) (simp add: p)
    moreover have "drain next_frame (buf @ x) = (let (fs, rest') = drain next_frame (rest @ x) in (f # fs, rest'))"
      by (subst drain_unfold) (simp add: frame_stable [OF p])
    ultimately show ?thesis using less [OF frame_shrinks [OF p]] by (simp add: split_beta)
  qed
qed

lemma feed_frames:
  assumes "next_frame buf = None"
  shows "(concat (fst (feed next_frame buf reads)), snd (feed next_frame buf reads))
    = drain next_frame (buf @ concat reads)"
  using assms
proof (induction reads arbitrary: buf)
  case Nil
  then show ?case by (subst drain_unfold) simp
next
  case (Cons bs reads)
  let ?d = "drain next_frame (buf @ bs)"
  have "drain next_frame (buf @ concat (bs # reads)) = (let (gs, rest') = drain next_frame (snd ?d @ concat reads)
      in (fst ?d @ gs, rest'))"
    using drain_append [of "buf @ bs" "concat reads"] by (simp add: split_beta)
  then show ?case using Cons.IH [OF drain_left, of "buf @ bs"] by (simp add: split_beta prod_eq_iff)
qed

lemma no_frame_in_nothing: "next_frame [] = None"
  using frame_shrinks [of "[]"] by (cases "next_frame []") auto

text \<open>The frames are those of the whole, whatever the reads were.\<close>

lemma feed_all: "concat (fst (feed next_frame [] reads)) = fst (drain next_frame (concat reads))"
  using feed_frames [OF no_frame_in_nothing, of reads] by (metis append_Nil fst_conv)

end

text \<open>Frames that end with a separator, the end included or not.\<close>

definition cut_after :: "'b list \<Rightarrow> 'b list \<Rightarrow> ('b list \<times> 'b list) option" where
  "cut_after sep buf =
     (case find_sub sep buf of
        None \<Rightarrow> None
      | Some i \<Rightarrow> Some (take (i + length sep) buf, drop (i + length sep) buf))"

lemma cut_after_incremental: "sep \<noteq> [] \<Longrightarrow> incremental (cut_after sep)"
  by unfold_locales
    (auto simp: cut_after_def find_sub_append less_diff_conv2 simp flip: length_greater_0_conv
      dest: find_sub_bound split: option.splits)

lemma cut_after_split: "cut_after sep buf = Some (f, rest) \<Longrightarrow> buf = f @ rest"
  by (auto simp: cut_after_def split: option.splits)

text \<open>A blank line ends an event of a server-sent event stream.\<close>

definition BLANK_LINE :: string where "BLANK_LINE = [LF, LF]"

lemma cut_after_blank_line: "LF \<notin> set x \<Longrightarrow> cut_after BLANK_LINE (x @ BLANK_LINE @ y) = Some (x @ BLANK_LINE, y)"
  by (simp add: cut_after_def BLANK_LINE_def find_sub_first)

interpretation event_frames: incremental "cut_after BLANK_LINE"
  by (rule cut_after_incremental) (simp add: BLANK_LINE_def)

lemma drain_events:
  "\<forall>x \<in> set xs. LF \<notin> set x \<Longrightarrow>
     drain (cut_after BLANK_LINE) (concat (map (\<lambda>x. x @ BLANK_LINE) xs)) = (map (\<lambda>x. x @ BLANK_LINE) xs, [])"
proof (induction xs)
  case Nil
  then show ?case by (simp add: drain_def)
next
  case (Cons x xs)
  then show ?case
    by (subst event_frames.drain_unfold) (simp add: cut_after_blank_line)
qed

end
