(* ===== verification/Llm_Backends.thy ===== *)
theory Llm_Backends
  imports Llm_Service Streams
begin

text \<open>
  The language model providers, \<open>cafe-llm/src/backends/{ollama,openai,opencode_go}.rs\<close>, and how
  \<open>main.rs\<close> and \<open>config.rs\<close> set them up: the requests they send, the three wire protocols of OpenCode
  Go, and the decoding of what streams back.  HTTP itself is the transport argument, which answers a
  request with an error text or with a status and the reads of the body; JSON text is the argument
  \<open>parse\<close>.  The infinity marked \<open>True\<close> is the negative one.
\<close>

section \<open>Requests and answers over HTTP\<close>

record http_call =
  hc_url :: string
  hc_headers :: "(string \<times> string) list"
  hc_body :: json

record http_answer =
  ha_status :: nat
  ha_status_line :: string
  ha_text :: "string + string"
  ha_reads :: "(string + string) list"

type_synonym poster = "http_call \<Rightarrow> string + http_answer"
type_synonym getter = "string \<Rightarrow> (string \<times> string) list \<Rightarrow> string + http_answer"
type_synonym json_parser = "string \<Rightarrow> string + json"

definition is_success :: "http_answer \<Rightarrow> bool" where
  "is_success a = (200 \<le> ha_status a \<and> ha_status a < 300)"

definition bearer :: "string \<Rightarrow> string \<times> string" where
  "bearer key = (''Authorization'', ''Bearer '' @ key)"

text \<open>A prompt that is sent, refused with the body as the reason, or answered with a stream.\<close>

definition send_prompt ::
  "string \<Rightarrow> poster \<Rightarrow> http_call \<Rightarrow> ((string + string) list \<Rightarrow> stream_event list)
    \<Rightarrow> string + stream_event list" where
  "send_prompt provider post call dec =
     (case post call of
        Inl e \<Rightarrow> Inl e
      | Inr a \<Rightarrow>
          if is_success a then Inr (dec (ha_reads a))
          else Inl (provider @ '' error '' @ ha_status_line a @ '': ''
                    @ (case ha_text a of Inr t \<Rightarrow> t | Inl _ \<Rightarrow> [])))"

definition message_to_json :: "llm_message \<Rightarrow> json" where
  "message_to_json m = json_obj [(''role'', JStr (msg_role m)), (''content'', JStr (msg_content m))]"

definition json_f32 :: "ieee \<Rightarrow> json" where
  "json_f32 t = (case t of Finite r \<Rightarrow> JNum (Float r) | _ \<Rightarrow> JNull)"

definition json_u32 :: "nat \<Rightarrow> json" where
  "json_u32 n = JNum (PosInt n)"

text \<open>\<open>Value\<close> indexed by a number.\<close>

definition json_item :: "json \<Rightarrow> nat \<Rightarrow> json" where
  "json_item v i = (case v of JArr xs \<Rightarrow> if i < length xs then xs ! i else JNull | _ \<Rightarrow> JNull)"

text \<open>Texts that are not empty are tokens.\<close>

definition token_events :: "string \<Rightarrow> stream_event list" where
  "token_events t = (if t = [] then [] else [Token t])"

section \<open>Ollama\<close>

definition ollama_body :: "llm_message list \<Rightarrow> llm_params \<Rightarrow> json" where
  "ollama_body messages params =
     json_obj ([(''model'', JStr (p_model params)), (''messages'', JArr (map message_to_json messages)),
                (''stream'', JBool True)]
       @ opt_entry ''options'' (\<lambda>t. json_obj [(''temperature'', json_f32 t)]) (p_temperature params))"

text \<open>The content of a line that is an \<open>OllamaChunk\<close>: its message is optional, \<open>done\<close> is not.\<close>

definition ollama_message :: "json \<Rightarrow> string option" where
  "ollama_message v =
     (case struct_fields [''content''] v of Some [c] \<Rightarrow> field_string c | _ \<Rightarrow> None)"

definition ollama_chunk :: "json \<Rightarrow> string option option" where
  "ollama_chunk v =
     (case struct_fields [''message'', ''done''] v of
        Some [m, d] \<Rightarrow>
          Option.bind (field_option ollama_message m)
            (\<lambda>msg. Option.bind (Option.bind d as_bool) (\<lambda>_. Some msg))
      | _ \<Rightarrow> None)"

definition ollama_line :: "json_parser \<Rightarrow> string \<Rightarrow> string" where
  "ollama_line parse line =
     (let l = str_trim line
      in if l = [] then []
         else (case parse l of
                 Inl _ \<Rightarrow> []
               | Inr v \<Rightarrow> (case ollama_chunk v of Some (Some t) \<Rightarrow> t | _ \<Rightarrow> [])))"

definition ollama_tokens :: "json_parser \<Rightarrow> string \<Rightarrow> string" where
  "ollama_tokens parse bytes = concat (map (ollama_line parse) (str_lines (from_utf8_lossy bytes)))"

primrec ollama_events :: "json_parser \<Rightarrow> (string + string) list \<Rightarrow> stream_event list" where
  "ollama_events parse [] = [StreamEnd]"
| "ollama_events parse (r # reads) =
     (case r of Inl e \<Rightarrow> [StreamError e] | Inr bytes \<Rightarrow> token_events (ollama_tokens parse bytes))
       @ ollama_events parse reads"

definition ollama_complete ::
  "json_parser \<Rightarrow> poster \<Rightarrow> string \<Rightarrow> llm_message list \<Rightarrow> llm_params \<Rightarrow> string + stream_event list" where
  "ollama_complete parse post base_url messages params =
     send_prompt ''Ollama'' post
       \<lparr>hc_url = base_url @ ''/api/chat'', hc_headers = [], hc_body = ollama_body messages params\<rparr>
       (ollama_events parse)"

text \<open>A listing: the body as JSON, one name per entry of an array; a refusal is an empty list.\<close>

definition named_entries :: "string \<Rightarrow> string \<Rightarrow> json \<Rightarrow> string list option" where
  "named_entries field key v =
     (case struct_fields [field] v of
        Some [Some (JArr xs)] \<Rightarrow>
          those (map (\<lambda>x. case struct_fields [key] x of Some [n] \<Rightarrow> field_string n | _ \<Rightarrow> None) xs)
      | _ \<Rightarrow> None)"

definition fetch_listing ::
  "json_parser \<Rightarrow> getter \<Rightarrow> string \<Rightarrow> (string \<times> string) list \<Rightarrow> string \<Rightarrow> string \<Rightarrow> string + string list" where
  "fetch_listing parse get url headers field key =
     (case get url headers of
        Inl e \<Rightarrow> Inl e
      | Inr a \<Rightarrow>
          if \<not> is_success a then Inr []
          else (case ha_text a of
                  Inl e \<Rightarrow> Inl e
                | Inr t \<Rightarrow>
                    (case parse t of
                       Inl e \<Rightarrow> Inl e
                     | Inr v \<Rightarrow> (case named_entries field key v of
                                   None \<Rightarrow> Inl ''error decoding response body'' | Some ms \<Rightarrow> Inr ms))))"

definition ollama_list_models :: "json_parser \<Rightarrow> getter \<Rightarrow> string \<Rightarrow> string + string list" where
  "ollama_list_models parse get base_url =
     fetch_listing parse get (base_url @ ''/api/tags'') [] ''models'' ''name''"

section \<open>OpenAI-compatible servers\<close>

definition chat_body :: "llm_message list \<Rightarrow> llm_params \<Rightarrow> json" where
  "chat_body messages params =
     json_obj ([(''model'', JStr (p_model params)), (''messages'', JArr (map message_to_json messages)),
                (''stream'', JBool True)]
       @ opt_entry ''temperature'' json_f32 (p_temperature params)
       @ opt_entry ''max_tokens'' json_u32 (p_max_tokens params))"

definition chat_delta :: "json \<Rightarrow> string option" where
  "chat_delta v =
     as_str (json_index (json_index (json_item (json_index v ''choices'') 0) ''delta'') ''content'')"

definition text_or_none :: "string option \<Rightarrow> string" where
  "text_or_none t = (case t of None \<Rightarrow> [] | Some s \<Rightarrow> s)"

definition openai_line :: "json_parser \<Rightarrow> string \<Rightarrow> string" where
  "openai_line parse line =
     (let l = str_trim line
      in if l = [] then []
         else let data = (case strip_prefix ''data: '' l of Some d \<Rightarrow> d | None \<Rightarrow> l)
              in if data = ''[DONE]'' then []
                 else (case parse data of Inl _ \<Rightarrow> [] | Inr v \<Rightarrow> text_or_none (chat_delta v)))"

definition openai_frame :: "json_parser \<Rightarrow> string \<Rightarrow> string" where
  "openai_frame parse frame = concat (map (openai_line parse) (str_lines (from_utf8_lossy frame)))"

fun openai_events :: "json_parser \<Rightarrow> string \<Rightarrow> (string + string) list \<Rightarrow> stream_event list" where
  "openai_events parse buf [] = [StreamEnd]"
| "openai_events parse buf (Inl e # reads) = StreamError e # openai_events parse buf reads"
| "openai_events parse buf (Inr bytes # reads) =
     (let (frames, rest) = drain (cut_after BLANK_LINE) (buf @ bytes)
      in token_events (concat (map (openai_frame parse) frames)) @ openai_events parse rest reads)"

definition openai_headers :: "string \<Rightarrow> (string \<times> string) list" where
  "openai_headers api_key = (if api_key = [] then [] else [bearer api_key])"

definition openai_complete ::
  "json_parser \<Rightarrow> poster \<Rightarrow> string \<Rightarrow> string \<Rightarrow> llm_message list \<Rightarrow> llm_params \<Rightarrow> string + stream_event list" where
  "openai_complete parse post base_url api_key messages params =
     send_prompt ''OpenAI'' post
       \<lparr>hc_url = base_url @ ''/v1/chat/completions'', hc_headers = openai_headers api_key,
        hc_body = chat_body messages params\<rparr>
       (openai_events parse [])"

definition openai_fetch_models :: "json_parser \<Rightarrow> getter \<Rightarrow> string \<Rightarrow> string \<Rightarrow> string + string list" where
  "openai_fetch_models parse get api_key url =
     fetch_listing parse get (trim_end (CHR ''/'') url @ ''/v1/models'') (openai_headers api_key) ''data'' ''id''"

definition openai_list_models ::
  "json_parser \<Rightarrow> getter \<Rightarrow> string \<Rightarrow> string \<Rightarrow> string list \<Rightarrow> string + string list" where
  "openai_list_models parse get base_url api_key urls =
     Inr (vec_dedup (sort (concat (map
       (\<lambda>u. case openai_fetch_models parse get api_key u of Inr ms \<Rightarrow> ms | Inl _ \<Rightarrow> []) (base_url # urls)))))"

section \<open>OpenCode Go\<close>

definition DEFAULT_MAX_TOKENS :: nat where "DEFAULT_MAX_TOKENS = 4096"
definition SESSION_HEADER :: string where "SESSION_HEADER = ''x-opencode-session''"
definition ANTHROPIC_VERSION :: string where "ANTHROPIC_VERSION = ''2023-06-01''"
definition DEFAULT_SESSION :: string where "DEFAULT_SESSION = ''cafe-llm''"

datatype protocol = ChatCompletions | Responses | Messages

definition starts_with :: "string \<Rightarrow> string \<Rightarrow> bool" where
  "starts_with p s = (strip_prefix p s \<noteq> None)"

definition protocol_for_model :: "string \<Rightarrow> protocol" where
  "protocol_for_model model =
     (let m = to_ascii_lowercase model
      in if starts_with ''grok'' m \<or> starts_with ''gpt-'' m \<or> starts_with ''muse-spark'' m then Responses
         else if starts_with ''minimax'' m \<or> starts_with ''qwen'' m then Messages
         else ChatCompletions)"

definition push_system :: "string option \<Rightarrow> string \<Rightarrow> string option" where
  "push_system slot text = (case slot of Some s \<Rightarrow> Some (s @ LF # text) | None \<Rightarrow> Some text)"

text \<open>The system texts on one side, the other turns on the other.\<close>

fun lift_system ::
  "llm_message list \<Rightarrow> string option \<Rightarrow> json list \<Rightarrow> string option \<times> json list" where
  "lift_system [] slot turns = (slot, turns)"
| "lift_system (m # ms) slot turns =
     (if msg_role m = ''system'' then lift_system ms (push_system slot (msg_content m)) turns
      else lift_system ms slot (turns @ [message_to_json m]))"

definition responses_body :: "llm_message list \<Rightarrow> llm_params \<Rightarrow> json" where
  "responses_body messages params =
     (let (instructions, input) = lift_system messages None []
      in json_obj ([(''model'', JStr (p_model params)), (''input'', JArr input), (''stream'', JBool True)]
           @ opt_entry ''instructions'' JStr instructions
           @ opt_entry ''temperature'' json_f32 (p_temperature params)
           @ opt_entry ''max_output_tokens'' json_u32 (p_max_tokens params)))"

text \<open>\<open>f32::clamp\<close> to the interval from 0 to 1; a NaN stays one.\<close>

definition clamp_unit :: "ieee \<Rightarrow> ieee" where
  "clamp_unit t =
     (case t of
        Finite r \<Rightarrow> Finite (if r < 0 then 0 else if 1 < r then 1 else r)
      | Infinity negative \<Rightarrow> Finite (if negative then 0 else 1)
      | NaN \<Rightarrow> NaN)"

definition messages_body :: "llm_message list \<Rightarrow> llm_params \<Rightarrow> json" where
  "messages_body messages params =
     (let (system, msgs) = lift_system messages None []
      in json_obj ([(''model'', JStr (p_model params)),
                    (''max_tokens'', json_u32 (case p_max_tokens params of Some n \<Rightarrow> n | None \<Rightarrow> DEFAULT_MAX_TOKENS)),
                    (''messages'', JArr msgs), (''stream'', JBool True)]
           @ opt_entry ''system'' JStr system
           @ opt_entry ''temperature'' (\<lambda>t. json_f32 (clamp_unit t)) (p_temperature params)))"

definition extract_delta :: "protocol \<Rightarrow> json \<Rightarrow> string option" where
  "extract_delta p v =
     (case p of
        ChatCompletions \<Rightarrow> chat_delta v
      | Responses \<Rightarrow>
          if as_str (json_index v ''type'') = Some ''response.output_text.delta''
          then as_str (json_index v ''delta'') else None
      | Messages \<Rightarrow>
          if as_str (json_index v ''type'') = Some ''content_block_delta''
             \<and> as_str (json_index (json_index v ''delta'') ''type'') = Some ''text_delta''
          then as_str (json_index (json_index v ''delta'') ''text'') else None)"

definition stream_failure :: "json \<Rightarrow> string option" where
  "stream_failure v =
     (if Option.bind (json_get v ''type'') as_str = Some ''error'' \<or> json_index v ''error'' \<noteq> JNull
      then Some (''OpenCode Go stream error: ''
             @ (case Option.bind (Option.bind (json_get v ''error'') (\<lambda>e. json_get e ''message'')) as_str of
                  Some m \<Rightarrow> m
                | None \<Rightarrow> (case Option.bind (json_get v ''error'') as_str of
                             Some m \<Rightarrow> m | None \<Rightarrow> ''unknown error'')))
      else None)"

definition opencode_line :: "json_parser \<Rightarrow> protocol \<Rightarrow> string \<Rightarrow> string + string" where
  "opencode_line parse p line =
     (case strip_prefix ''data:'' (trim_end CR line) of
        None \<Rightarrow> Inr []
      | Some d \<Rightarrow>
          (let data = str_trim d
           in if data = [] \<or> data = ''[DONE]'' then Inr []
              else (case parse data of
                      Inl _ \<Rightarrow> Inr []
                    | Inr v \<Rightarrow> (case stream_failure v of
                                  Some e \<Rightarrow> Inl e
                                | None \<Rightarrow> Inr (text_or_none (extract_delta p v))))))"

primrec lines_text :: "json_parser \<Rightarrow> protocol \<Rightarrow> string list \<Rightarrow> string \<Rightarrow> string + string" where
  "lines_text parse p [] text = Inr text"
| "lines_text parse p (l # ls) text =
     (case opencode_line parse p l of Inl e \<Rightarrow> Inl e | Inr d \<Rightarrow> lines_text parse p ls (text @ d))"

definition frame_text :: "json_parser \<Rightarrow> protocol \<Rightarrow> string \<Rightarrow> string + string option" where
  "frame_text parse p frame =
     (case lines_text parse p (str_lines frame) [] of
        Inl e \<Rightarrow> Inl e
      | Inr text \<Rightarrow> Inr (if text = [] then None else Some text))"

text \<open>One read: frames are taken until there is none left or one fails, and the buffer keeps the rest.\<close>

primrec opencode_loop ::
  "json_parser \<Rightarrow> protocol \<Rightarrow> nat \<Rightarrow> string \<Rightarrow> string \<Rightarrow> (string + string) \<times> string" where
  "opencode_loop parse p 0 text buf = (Inr text, buf)"
| "opencode_loop parse p (Suc n) text buf =
     (case cut_after BLANK_LINE buf of
        None \<Rightarrow> (Inr text, buf)
      | Some (frame, rest) \<Rightarrow>
          (case frame_text parse p (from_utf8_lossy frame) of
             Inl e \<Rightarrow> (Inl e, rest)
           | Inr None \<Rightarrow> opencode_loop parse p n text rest
           | Inr (Some d) \<Rightarrow> opencode_loop parse p n (text @ d) rest))"

fun opencode_events :: "json_parser \<Rightarrow> protocol \<Rightarrow> string \<Rightarrow> (string + string) list \<Rightarrow> stream_event list" where
  "opencode_events parse p buf [] = [StreamEnd]"
| "opencode_events parse p buf (Inl e # reads) =
     StreamError (''OpenCode Go stream error: '' @ e) # opencode_events parse p buf reads"
| "opencode_events parse p buf (Inr bytes # reads) =
     (let (r, rest) = opencode_loop parse p (length (buf @ bytes)) [] (buf @ bytes)
      in (case r of Inl e \<Rightarrow> [StreamError e] | Inr t \<Rightarrow> token_events t) @ opencode_events parse p rest reads)"

definition opencode_call ::
  "string \<Rightarrow> string \<Rightarrow> llm_message list \<Rightarrow> llm_params \<Rightarrow> http_call" where
  "opencode_call base_url api_key messages params =
     (let p = protocol_for_model (p_model params);
          (path, body) = (case p of
              ChatCompletions \<Rightarrow> (''/v1/chat/completions'', chat_body messages params)
            | Responses \<Rightarrow> (''/v1/responses'', responses_body messages params)
            | Messages \<Rightarrow> (''/v1/messages'', messages_body messages params));
          session = (case p_session_id params of
              Some s \<Rightarrow> if s = [] then DEFAULT_SESSION else s
            | None \<Rightarrow> DEFAULT_SESSION);
          auth = (case p of
              Messages \<Rightarrow> [(''x-api-key'', api_key), (''anthropic-version'', ANTHROPIC_VERSION)]
            | _ \<Rightarrow> [bearer api_key])
      in \<lparr>hc_url = base_url @ path, hc_headers = (SESSION_HEADER, session) # auth, hc_body = body\<rparr>)"

text \<open>\<open>base_url\<close> is the configured one without slashes at its end, as \<open>new\<close> stores it.\<close>

definition opencode_base :: "string \<Rightarrow> string" where
  "opencode_base base_url = trim_end (CHR ''/'') base_url"

definition opencode_complete ::
  "json_parser \<Rightarrow> poster \<Rightarrow> string \<Rightarrow> string \<Rightarrow> llm_message list \<Rightarrow> llm_params \<Rightarrow> string + stream_event list" where
  "opencode_complete parse post base_url api_key messages params =
     send_prompt ''OpenCode Go'' post (opencode_call (opencode_base base_url) api_key messages params)
       (opencode_events parse (protocol_for_model (p_model params)) [])"

definition opencode_list_models :: "json_parser \<Rightarrow> getter \<Rightarrow> string \<Rightarrow> string \<Rightarrow> string + string list" where
  "opencode_list_models parse get base_url api_key =
     (case fetch_listing parse get (opencode_base base_url @ ''/v1/models'') [bearer api_key] ''data'' ''id'' of
        Inl e \<Rightarrow> Inl e
      | Inr ms \<Rightarrow> Inr (vec_dedup (sort ms)))"

section \<open>Configuration\<close>

record llm_env =
  le_socket :: string
  le_backend :: string
  le_ollama_url :: string
  le_ollama_model :: string
  le_openai_url :: string
  le_openai_key :: string
  le_openai_model :: string
  le_opencode_url :: string
  le_opencode_key :: string
  le_opencode_model :: string
  le_model_urls :: "string list"

definition env_or :: "(string \<Rightarrow> string option) \<Rightarrow> string \<Rightarrow> string \<Rightarrow> string" where
  "env_or env name dflt = (case env name of Some v \<Rightarrow> v | None \<Rightarrow> dflt)"

definition llm_config_from_env :: "(string \<Rightarrow> string option) \<Rightarrow> llm_env" where
  "llm_config_from_env env =
     \<lparr>le_socket = env_or env ''CAFE_BUS_SOCKET'' ''/tmp/cafe-bus.sock'',
      le_backend = env_or env ''LLM_BACKEND'' ''ollama'',
      le_ollama_url = env_or env ''OLLAMA_URL'' ''http://localhost:11434'',
      le_ollama_model = env_or env ''OLLAMA_MODEL'' ''gemma3:1b'',
      le_openai_url = env_or env ''OPENAI_URL'' ''http://localhost:6900'',
      le_openai_key = env_or env ''OPENAI_API_KEY'' [],
      le_openai_model = env_or env ''OPENAI_MODEL'' [],
      le_opencode_url = env_or env ''OPENCODE_GO_URL'' ''https://opencode.ai/zen/go'',
      le_opencode_key = env_or env ''OPENCODE_API_KEY'' [],
      le_opencode_model = env_or env ''OPENCODE_GO_MODEL'' ''deepseek-v4.1-flash'',
      le_model_urls = (case env ''MODEL_LIST_URLS'' of
          None \<Rightarrow> [] | Some s \<Rightarrow> map str_trim (split_on (CHR '','') s))\<rparr>"

definition configured_router :: "json_parser \<Rightarrow> poster \<Rightarrow> getter \<Rightarrow> llm_env \<Rightarrow> backend_router option" where
  "configured_router parse post get c =
     router_new (le_backend c)
       [(''ollama'',
         \<lparr>be_complete = ollama_complete parse post (le_ollama_url c),
          be_list_models = ollama_list_models parse get (le_ollama_url c)\<rparr>, Some (le_ollama_model c)),
        (''openai'',
         \<lparr>be_complete = openai_complete parse post (le_openai_url c) (le_openai_key c),
          be_list_models = openai_list_models parse get (le_openai_url c) (le_openai_key c) (le_model_urls c)\<rparr>,
         Some (le_openai_model c)),
        (''opencode-go'',
         \<lparr>be_complete = opencode_complete parse post (le_opencode_url c) (le_opencode_key c),
          be_list_models = opencode_list_models parse get (le_opencode_url c) (le_opencode_key c)\<rparr>,
         Some (le_opencode_model c))]"

definition process_default_model :: "llm_env \<Rightarrow> string" where
  "process_default_model c =
     (if le_backend c = ''openai'' then le_openai_model c
      else if le_backend c = ''opencode-go'' \<or> le_backend c = ''opencode_go'' then le_opencode_model c
      else le_ollama_model c)"


section \<open>What reaches a provider\<close>

lemma join_lines_snoc: "ss \<noteq> [] \<Longrightarrow> join_lines (ss @ [s]) = join_lines ss @ LF # s"
  by (induction ss rule: join_lines.induct) (auto simp: join_lines_Cons)

text \<open>System texts as one, in order, when there are any.\<close>

definition system_texts :: "llm_message list \<Rightarrow> string list" where
  "system_texts ms = map msg_content (filter (\<lambda>m. msg_role m = ''system'') ms)"

definition joined :: "string list \<Rightarrow> string option" where
  "joined ss = (if ss = [] then None else Some (join_lines ss))"

lemma push_system_joined: "push_system (joined ss) s = joined (ss @ [s])"
  by (simp add: push_system_def joined_def join_lines_snoc)

lemma lift_system_parts:
  "lift_system ms (joined ss) turns
     = (joined (ss @ system_texts ms),
        turns @ map message_to_json (filter (\<lambda>m. msg_role m \<noteq> ''system'') ms))"
  by (induction ms arbitrary: ss turns) (simp_all add: push_system_joined system_texts_def)

lemma lift_system_eq:
  "lift_system ms None []
     = (joined (system_texts ms), map message_to_json (filter (\<lambda>m. msg_role m \<noteq> ''system'') ms))"
  using lift_system_parts [of ms "[]" "[]"] by (simp add: joined_def)

lemma kv_get_opt_entry: "kv_get (rev (opt_entry k f x)) k' = (if k' = k then map_option f x else None)"
  by (simp add: opt_entry_def split: option.splits)

lemmas body_simps = kv_get_append kv_get_opt_entry

text \<open>The part of a body that carries the turns, and the part that carries the instructions.\<close>

definition turns_key :: "protocol \<Rightarrow> string" where
  "turns_key p = (case p of Responses \<Rightarrow> ''input'' | _ \<Rightarrow> ''messages'')"

definition system_key :: "protocol \<Rightarrow> string" where
  "system_key p = (case p of Responses \<Rightarrow> ''instructions'' | _ \<Rightarrow> ''system'')"

text \<open>
  Every request to OpenCode Go carries the whole prompt.  The turns are in order; the system
  texts are among them for chat completions, and for the other two protocols they are taken out and
  joined, line by line, in a field of their own.  The request names the conversation, and has the key
  in the one header that its endpoint reads.
\<close>

theorem opencode_request_spec:
  "let p = protocol_for_model (p_model params); c = opencode_call url key messages params
   in json_get (hc_body c) (turns_key p)
      = Some (JArr (map message_to_json
          (if p = ChatCompletions then messages else filter (\<lambda>m. msg_role m \<noteq> ''system'') messages)))
    \<and> json_get (hc_body c) (system_key p)
      = (if p = ChatCompletions then None else map_option JStr (joined (system_texts messages)))
    \<and> json_get (hc_body c) ''model'' = Some (JStr (p_model params))
    \<and> (\<exists>sid. sid \<noteq> [] \<and> kv_get (hc_headers c) SESSION_HEADER = Some sid)
    \<and> kv_get (hc_headers c) ''x-api-key'' = (if p = Messages then Some key else None)
    \<and> kv_get (hc_headers c) ''Authorization'' = (if p = Messages then None else Some (''Bearer '' @ key))"
proof (cases "protocol_for_model (p_model params)")
  case ChatCompletions
  then show ?thesis
    by (auto simp: opencode_call_def Let_def chat_body_def turns_key_def system_key_def body_simps
        bearer_def SESSION_HEADER_def DEFAULT_SESSION_def split: option.split)
next
  case Responses
  then show ?thesis
    by (auto simp: opencode_call_def Let_def responses_body_def lift_system_eq turns_key_def system_key_def
        body_simps bearer_def SESSION_HEADER_def DEFAULT_SESSION_def split: option.split)
next
  case Messages
  then show ?thesis
    by (auto simp: opencode_call_def Let_def messages_body_def lift_system_eq turns_key_def system_key_def
        body_simps bearer_def SESSION_HEADER_def DEFAULT_SESSION_def split: option.split)
qed

text \<open>What the Anthropic endpoint demands: a token limit, and a temperature between 0 and 1.\<close>

lemma messages_body_bounds:
  "(\<exists>n. json_get (messages_body messages params) ''max_tokens'' = Some (json_u32 n)
      \<and> (p_max_tokens params = None \<and> n = 4096 \<or> p_max_tokens params = Some n))
   \<and> (json_get (messages_body messages params) ''temperature'' = None
      \<or> json_get (messages_body messages params) ''temperature'' = Some JNull
      \<or> (\<exists>r. json_get (messages_body messages params) ''temperature'' = Some (JNum (Float r)) \<and> 0 \<le> r \<and> r \<le> 1))"
  by (auto simp: messages_body_def lift_system_eq body_simps DEFAULT_MAX_TOKENS_def clamp_unit_def json_f32_def
      split: option.split ieee.split)

text \<open>Upper case makes no difference to the choice of the protocol.\<close>

lemma to_ascii_lowercase_idem: "to_ascii_lowercase (to_ascii_lowercase s) = to_ascii_lowercase s"
proof -
  have "byte_val (char_of (byte_val c + 32)) = byte_val c + 32" if "byte_val c \<le> 90" for c
    using that by (intro byte_val_char_of) simp
  then show ?thesis by (simp add: to_ascii_lowercase_def)
qed

lemma protocol_ignores_case: "eq_ignore_ascii_case a b \<Longrightarrow> protocol_for_model a = protocol_for_model b"
  by (simp add: eq_ignore_ascii_case_def protocol_for_model_def)

section \<open>Streams, however they are cut\<close>

lemma complete_token_events:
  "complete_to_string (token_events t @ evs) acc = complete_to_string evs (acc @ t)"
  by (simp add: token_events_def)

text \<open>What the frames of a whole body say: their text, or the first failure.\<close>

primrec frames_text :: "json_parser \<Rightarrow> protocol \<Rightarrow> string list \<Rightarrow> string \<Rightarrow> string + string" where
  "frames_text parse p [] text = Inr text"
| "frames_text parse p (f # fs) text =
     (case frame_text parse p (from_utf8_lossy f) of
        Inl e \<Rightarrow> Inl e
      | Inr d \<Rightarrow> frames_text parse p fs (text @ text_or_none d))"

lemma frames_text_append:
  "frames_text parse p (fs @ gs) text
     = (case frames_text parse p fs text of Inl e \<Rightarrow> Inl e | Inr t \<Rightarrow> frames_text parse p gs t)"
  by (induction fs arbitrary: "text") (simp_all split: sum.split)

lemma frames_text_acc:
  "frames_text parse p fs (a @ t)
     = (case frames_text parse p fs t of Inl e \<Rightarrow> Inl e | Inr u \<Rightarrow> Inr (a @ u))"
  by (induction fs arbitrary: t) (simp_all split: sum.split)

lemma opencode_loop_spec:
  assumes "length buf \<le> n"
  shows "case frames_text parse p (fst (drain (cut_after BLANK_LINE) buf)) text of
      Inl e \<Rightarrow> fst (opencode_loop parse p n text buf) = Inl e
    | Inr t \<Rightarrow> opencode_loop parse p n text buf = (Inr t, snd (drain (cut_after BLANK_LINE) buf))"
  using assms
proof (induction n arbitrary: "text" buf)
  case 0
  then show ?case by (simp add: drain_def)
next
  case (Suc n)
  show ?case
  proof (cases "cut_after BLANK_LINE buf")
    case None
    then show ?thesis by (subst (1 2) event_frames.drain_unfold) simp
  next
    case (Some q)
    obtain f rest where q: "cut_after BLANK_LINE buf = Some (f, rest)" using Some by (cases q) auto
    have "length rest \<le> n" using Suc.prems event_frames.frame_shrinks [OF q] by simp
    note IH = Suc.IH [OF this]
    have d: "drain (cut_after BLANK_LINE) buf = (f # fst (drain (cut_after BLANK_LINE) rest), snd (drain (cut_after BLANK_LINE) rest))"
      by (subst event_frames.drain_unfold) (simp add: q split_beta)
    consider (fail) e where "frame_text parse p (from_utf8_lossy f) = Inl e"
      | (silent) "frame_text parse p (from_utf8_lossy f) = Inr None"
      | (spoken) t where "frame_text parse p (from_utf8_lossy f) = Inr (Some t)"
      by (metis sum.exhaust option.exhaust)
    then show ?thesis
    proof cases
      case fail
      then show ?thesis by (simp add: d q)
    next
      case silent
      then show ?thesis using IH [of "text"] by (simp add: d q text_or_none_def split: sum.splits)
    next
      case (spoken t)
      then show ?thesis using IH [of "text @ t"] by (simp add: d q text_or_none_def split: sum.splits)
    qed
  qed
qed

text \<open>
  The answer of a provider does not depend on how the network cuts it.  Reading the whole
  stream of an OpenAI-compatible server or of OpenCode Go gives a function of the bytes alone: the
  text of their frames, or, from OpenCode Go, the first failure that one of them reports.
\<close>

theorem stream_is_function_of_bytes:
  "complete_to_string (openai_events parse [] (map Inr reads)) []
     = Some (Inr (concat (map (openai_frame parse) (fst (drain (cut_after BLANK_LINE) (concat reads))))))
   \<and> complete_to_string (opencode_events parse p [] (map Inr reads)) []
     = Some (frames_text parse p (fst (drain (cut_after BLANK_LINE) (concat reads))) [])"
proof -
  let ?nf = "cut_after BLANK_LINE :: string \<Rightarrow> _"
  have nil: "?nf [] = None" by (rule event_frames.no_frame_in_nothing)
  have cut: "drain ?nf (buf @ bytes @ concat reads)
      = (fst (drain ?nf (buf @ bytes)) @ fst (drain ?nf (snd (drain ?nf (buf @ bytes)) @ concat reads)),
         snd (drain ?nf (snd (drain ?nf (buf @ bytes)) @ concat reads)))" for buf bytes reads
    using event_frames.drain_append [of "buf @ bytes" "concat reads"] by (simp add: split_beta)
  have none: "drain ?nf buf = ([], buf)" if "?nf buf = None" for buf
    using that by (subst event_frames.drain_unfold) simp
  have "complete_to_string (openai_events parse buf (map Inr reads)) acc
      = Some (Inr (acc @ concat (map (openai_frame parse) (fst (drain ?nf (buf @ concat reads))))))"
    if "?nf buf = None" for buf acc
    using that
    by (induction reads arbitrary: buf acc)
      (simp_all add: none cut complete_token_events split_beta event_frames.drain_left)
  moreover have "complete_to_string (opencode_events parse p buf (map Inr reads)) acc
      = Some (frames_text parse p (fst (drain ?nf (buf @ concat reads))) acc)"
    if "?nf buf = None" for buf acc
    using that
  proof (induction reads arbitrary: buf acc)
    case Nil
    then show ?case by (simp add: none)
  next
    case (Cons bytes reads)
    let ?loop = "opencode_loop parse p (length (buf @ bytes)) [] (buf @ bytes)" and ?d = "drain ?nf (buf @ bytes)"
    note s = opencode_loop_spec [of "buf @ bytes" "length (buf @ bytes)" parse p "[]"]
    note a = frames_text_acc [of parse p "fst ?d" acc "[]"]
    show ?case
    proof (cases "frames_text parse p (fst ?d) []")
      case (Inl e)
      then show ?thesis using s a by (simp add: split_beta cut frames_text_append)
    next
      case (Inr t)
      then show ?thesis
        using s a Cons.IH [OF event_frames.drain_left, of "buf @ bytes" "acc @ t"]
        by (simp add: split_beta cut frames_text_append complete_token_events)
    qed
  qed
  ultimately show ?thesis using nil by simp
qed

section \<open>A provider's stream is read back\<close>

text \<open>The event by which each protocol sends a piece of text.\<close>

definition delta_payload :: "protocol \<Rightarrow> string \<Rightarrow> json" where
  "delta_payload p d =
     (case p of
        ChatCompletions \<Rightarrow>
          json_obj [(''choices'', JArr [json_obj [(''delta'', json_obj [(''content'', JStr d)])]])]
      | Responses \<Rightarrow> json_obj [(''type'', JStr ''response.output_text.delta''), (''delta'', JStr d)]
      | Messages \<Rightarrow>
          json_obj [(''type'', JStr ''content_block_delta''),
                    (''delta'', json_obj [(''type'', JStr ''text_delta''), (''text'', JStr d)])])"

lemma extract_delta_payload: "extract_delta p (delta_payload p d) = Some d"
  by (cases p) (simp_all add: extract_delta_def delta_payload_def chat_delta_def json_index_def json_item_def)

lemma delta_payload_no_failure: "stream_failure (delta_payload p d) = None"
  by (cases p) (simp_all add: stream_failure_def delta_payload_def json_index_def)

text \<open>What compact JSON text of an object is: one line of UTF-8 in braces that parses back.\<close>

definition object_text :: "(json \<Rightarrow> string) \<Rightarrow> json_parser \<Rightarrow> json \<Rightarrow> bool" where
  "object_text ser parse v =
     (parse (ser v) = Inr v \<and> is_utf8 (ser v) \<and> LF \<notin> set (ser v) \<and> ser v \<noteq> []
      \<and> hd (ser v) = CHR ''{'' \<and> last (ser v) = CHR ''}'')"

definition sse_event :: "string \<Rightarrow> string" where
  "sse_event data = ''data: '' @ data"

lemma plain_braces [simp]: "plain_char (CHR ''{'')" "plain_char (CHR ''}'')" "plain_char (CHR ''d'')" "plain_char (CHR '']'')" "plain_char (CHR ''['')"
  by (simp_all add: plain_char_def is_continuation_def byte_val_def char_is_whitespace_def)

lemma object_text_shape:
  assumes "object_text ser parse v"
  obtains rest where "ser v = CHR ''{'' # rest" "rest = [] \<or> \<not> is_continuation (hd rest)" "last (CHR ''{'' # rest) = CHR ''}''"
proof -
  obtain rest where r: "ser v = CHR ''{'' # rest"
    using assms by (cases "ser v") (auto simp: object_text_def)
  then have "is_utf8 rest"
    using assms by (simp add: object_text_def is_utf8_ascii_Cons byte_val_def)
  then have "rest = [] \<or> \<not> is_continuation (hd rest)" using is_utf8_hd by (cases rest) auto
  with r that assms show thesis by (simp add: object_text_def)
qed

lemma object_text_trims:
  assumes "object_text ser parse v"
  shows "str_trim (ser v) = ser v" and "str_trim (CHR '' '' # ser v) = ser v"
    and "str_trim (sse_event (ser v)) = sse_event (ser v)"
proof -
  obtain rest where r: "ser v = CHR ''{'' # rest" "rest = [] \<or> \<not> is_continuation (hd rest)"
    "last (CHR ''{'' # rest) = CHR ''}''"
    using assms by (rule object_text_shape)
  show 1: "str_trim (ser v) = ser v"
    using str_trim_plain [of "CHR ''{''" rest] r by simp
  have "\<not> is_continuation (CHR ''{'')" by (simp add: is_continuation_def byte_val_def)
  then show "str_trim (CHR '' '' # ser v) = ser v" using 1 r by (subst str_trim_space) simp_all
  have "\<not> is_continuation (CHR ''a'')" by (simp add: is_continuation_def byte_val_def)
  then show "str_trim (sse_event (ser v)) = sse_event (ser v)"
    using r by (simp add: sse_event_def) (subst str_trim_plain, simp_all)
qed

lemma str_lines_event:
  assumes "LF \<notin> set x" and "x \<noteq> []" and "last x \<noteq> CR"
  shows "str_lines (x @ BLANK_LINE) = [x, []]"
  using assms by (simp add: str_lines_def BLANK_LINE_def split_on_Cons split_on_none chomp_def)

lemma is_utf8_event: "is_utf8 x \<Longrightarrow> is_utf8 (sse_event x @ BLANK_LINE)"
  by (simp add: sse_event_def BLANK_LINE_def is_utf8_ascii_Cons is_utf8_append byte_val_def)

lemma sse_event_lines:
  assumes "is_utf8 x" "LF \<notin> set x" "x \<noteq> []" "last x \<noteq> CR"
  shows "from_utf8_lossy (sse_event x @ BLANK_LINE) = sse_event x @ BLANK_LINE"
    and "str_lines (sse_event x @ BLANK_LINE) = [sse_event x, []]"
  using assms is_utf8_event [of x] str_lines_event [of "sse_event x"]
  by (simp_all add: from_utf8_lossy_valid) (simp_all add: sse_event_def)

lemma done_trims:
  "str_trim ''data: [DONE]'' = ''data: [DONE]''" "str_trim '' [DONE]'' = ''[DONE]''" "str_trim [] = []"
proof -
  have c: "\<not> is_continuation (CHR ''a'')" "\<not> is_continuation (CHR ''D'')" "\<not> is_continuation (CHR ''['')"
    by (simp_all add: is_continuation_def byte_val_def)
  show "str_trim ''data: [DONE]'' = ''data: [DONE]''" using c by (subst str_trim_plain) simp_all
  have "str_trim ''[DONE]'' = ''[DONE]''" using c by (subst str_trim_plain) simp_all
  then show "str_trim '' [DONE]'' = ''[DONE]''" using c by (subst str_trim_space) simp_all
  show "str_trim [] = []" by (simp add: str_trim_def)
qed

lemma done_frame:
  "openai_frame parse (sse_event ''[DONE]'' @ BLANK_LINE) = []"
  "frame_text parse p (from_utf8_lossy (sse_event ''[DONE]'' @ BLANK_LINE)) = Inr None"
proof -
  have "is_utf8 ''[DONE]''" by (simp add: is_utf8_ascii_Cons byte_val_def)
  note l = sse_event_lines [OF this, simplified]
  have e: "sse_event ''[DONE]'' = ''data: [DONE]''" by (simp add: sse_event_def)
  have p: "strip_prefix ''data: '' ''data: [DONE]'' = Some ''[DONE]''"
    "strip_prefix ''data:'' ''data: [DONE]'' = Some '' [DONE]''" by simp_all
  have t: "trim_end CR ''data: [DONE]'' = ''data: [DONE]''" "trim_end CR [] = []" by (simp_all add: trim_end_def)
  show "openai_frame parse (sse_event ''[DONE]'' @ BLANK_LINE) = []"
    by (simp add: openai_frame_def l del: append_Cons append.simps)
      (simp add: e openai_line_def done_trims p del: strip_prefix.simps)
  show "frame_text parse p (from_utf8_lossy (sse_event ''[DONE]'' @ BLANK_LINE)) = Inr None"
    by (simp add: frame_text_def l del: append_Cons append.simps)
      (simp add: e opencode_line_def done_trims p t del: strip_prefix.simps, simp)
qed

lemma delta_frame:
  assumes "object_text ser parse (delta_payload p d)"
  shows "frame_text parse p (from_utf8_lossy (sse_event (ser (delta_payload p d)) @ BLANK_LINE))
      = Inr (if d = [] then None else Some d)"
    and "p = ChatCompletions \<Longrightarrow> openai_frame parse (sse_event (ser (delta_payload p d)) @ BLANK_LINE) = d"
proof -
  let ?t = "ser (delta_payload p d)"
  have o: "parse ?t = Inr (delta_payload p d)" "is_utf8 ?t" "LF \<notin> set ?t" "?t \<noteq> []" "last ?t = CHR ''}''" "hd ?t = CHR ''{''"
    using assms by (simp_all add: object_text_def)
  then have l: "from_utf8_lossy (sse_event ?t @ BLANK_LINE) = sse_event ?t @ BLANK_LINE"
    "str_lines (sse_event ?t @ BLANK_LINE) = [sse_event ?t, []]"
    by (simp_all add: sse_event_lines)
  have nd: "?t \<noteq> ''[DONE]''" using o(6) by auto
  have trim: "trim_end CR (sse_event ?t) = sse_event ?t"
    using o(4,5) by (cases ?t rule: rev_cases) (simp_all add: trim_end_def sse_event_def)
  have strip: "strip_prefix ''data:'' (sse_event ?t) = Some (CHR '' '' # ?t)" by (simp add: sse_event_def)
  have empty: "opencode_line parse p [] = Inr []" by (simp add: opencode_line_def trim_end_def)
  have "opencode_line parse p (sse_event ?t) = Inr d"
    using o(1,4) nd
    by (simp add: opencode_line_def trim strip object_text_trims [OF assms] delta_payload_no_failure extract_delta_payload
        text_or_none_def)
  then show "frame_text parse p (from_utf8_lossy (sse_event ?t @ BLANK_LINE)) = Inr (if d = [] then None else Some d)"
    by (simp add: frame_text_def l empty)
  show "openai_frame parse (sse_event ?t @ BLANK_LINE) = d" if p: "p = ChatCompletions"
  proof -
    have "chat_delta (delta_payload p d) = Some d"
      using extract_delta_payload [of p d] p by (simp add: extract_delta_def)
    moreover have "strip_prefix ''data: '' (sse_event ?t) = Some ?t" by (simp add: sse_event_def)
    moreover have "sse_event ?t \<noteq> []" by (simp add: sse_event_def)
    ultimately have "openai_line parse (sse_event ?t) = d"
      using o(1) nd by (simp add: openai_line_def object_text_trims [OF assms] text_or_none_def)
    moreover have "openai_line parse [] = []" by (simp add: openai_line_def done_trims)
    ultimately show ?thesis by (simp add: openai_frame_def l)
  qed
qed

lemma frames_text_deltas:
  "\<forall>d \<in> set ds. object_text ser parse (delta_payload p d) \<Longrightarrow>
     frames_text parse p (map (\<lambda>d. sse_event (ser (delta_payload p d)) @ BLANK_LINE) ds) acc = Inr (acc @ concat ds)"
  by (induction ds arbitrary: acc) (simp_all add: delta_frame(1) text_or_none_def)

text \<open>
  C30: What a provider streams is what the session gets.  When a server sends the pieces of an answer
  as events of its protocol and ends with the usual marker, the backend for it collects the
  pieces, all of them and in order, wherever the network cuts the bytes, within a character or not.
\<close>

theorem provider_stream_roundtrip:
  assumes "\<forall>d \<in> set ds. object_text ser parse (delta_payload p d)"
    and "concat reads = concat (map (\<lambda>x. x @ BLANK_LINE)
          (map (\<lambda>d. sse_event (ser (delta_payload p d))) ds @ [sse_event ''[DONE]'']))"
  shows "complete_to_string (opencode_events parse p [] (map Inr reads)) [] = Some (Inr (concat ds))
    \<and> (p = ChatCompletions \<longrightarrow>
         complete_to_string (openai_events parse [] (map Inr reads)) [] = Some (Inr (concat ds)))"
proof -
  let ?es = "map (\<lambda>d. sse_event (ser (delta_payload p d))) ds @ [sse_event ''[DONE]'']"
  have "\<forall>x \<in> set ?es. LF \<notin> set x" using assms(1) by (auto simp: object_text_def sse_event_def)
  then have d: "fst (drain (cut_after BLANK_LINE) (concat reads)) = map (\<lambda>x. x @ BLANK_LINE) ?es"
    unfolding assms(2) by (simp only: drain_events fst_conv)
  have "frames_text parse p (map (\<lambda>x. x @ BLANK_LINE) ?es) [] = Inr (concat ds)"
    using frames_text_deltas [OF assms(1), of "[]"]
    by (simp add: frames_text_append done_frame text_or_none_def comp_def)
  moreover have "concat (map (openai_frame parse) (map (\<lambda>x. x @ BLANK_LINE) ?es)) = concat ds" if "p = ChatCompletions"
  proof -
    have "map (openai_frame parse \<circ> (\<lambda>d. sse_event (ser (delta_payload p d)) @ BLANK_LINE)) ds = ds"
      using assms(1) delta_frame(2) [OF _ that] by (intro map_idI) auto
    then show ?thesis by (simp add: done_frame comp_def)
  qed
  ultimately show ?thesis using stream_is_function_of_bytes [of parse reads p] by (simp only: d) simp
qed

definition demo_ser :: "json \<Rightarrow> string" where
  "demo_ser v = CHR ''{'' # text_or_none (chat_delta v) @ ''}''"

definition demo_parse :: json_parser where
  "demo_parse s = Inr (delta_payload ChatCompletions (butlast (tl s)))"

theorem provider_stream_roundtrip_witness:
  "complete_to_string (openai_events demo_parse []
     [Inr ''data: {h'', Inr ([CHR ''}'', LF, LF] @ ''data: {i}'' @ [LF]), Inr (LF # ''data: [DONE]'' @ [LF, LF])]) []
     = Some (Inr ''hi'')"
proof -
  have "chat_delta (delta_payload ChatCompletions d) = Some d" for d
    using extract_delta_payload [of ChatCompletions d] by (simp add: extract_delta_def)
  then have s: "demo_ser (delta_payload ChatCompletions d) = CHR ''{'' # d @ ''}''" for d
    by (simp add: demo_ser_def text_or_none_def)
  then have "\<forall>d \<in> set [''h'', ''i'']. object_text demo_ser demo_parse (delta_payload ChatCompletions d)"
    by (simp add: object_text_def demo_parse_def byte_val_def)
  from provider_stream_roundtrip [OF this,
      of "[''data: {h'', [CHR ''}'', LF, LF] @ ''data: {i}'' @ [LF], LF # ''data: [DONE]'' @ [LF, LF]]"]
  show ?thesis by (simp add: s sse_event_def BLANK_LINE_def)
qed

section \<open>Ollama reads lines, but only within a read\<close>

lemma str_lines_append:
  assumes "a = [] \<or> last a = LF"
  shows "str_lines (a @ b) = str_lines a @ str_lines b"
proof (cases "a = []")
  case False
  then have "a = butlast a @ [LF]" using assms by (metis append_butlast_last_id)
  then obtain c where c: "a = c @ [LF]" by blast
  have "split_on LF b \<noteq> []" by (induction b) (auto split: list.splits)
  then show ?thesis by (simp add: c str_lines_def split_on_Cons butlast_append Let_def)
qed (simp add: str_lines_def)

lemma ollama_tokens_append:
  "is_utf8 a \<Longrightarrow> a = [] \<or> last a = LF \<Longrightarrow> ollama_tokens parse (a @ b) = ollama_tokens parse a @ ollama_tokens parse b"
  by (simp add: ollama_tokens_def from_utf8_lossy_append from_utf8_lossy_valid str_lines_append)

text \<open>When every read is made of whole lines, the answer is that of the whole.\<close>

lemma ollama_whole_lines:
  "\<forall>a \<in> set reads. is_utf8 a \<and> (a = [] \<or> last a = LF) \<Longrightarrow>
     complete_to_string (ollama_events parse (map Inr reads)) acc = Some (Inr (acc @ ollama_tokens parse (concat reads)))"
proof (induction reads arbitrary: acc)
  case Nil
  then show ?case by (simp add: ollama_tokens_def str_lines_def)
qed (simp add: complete_token_events ollama_tokens_append)

text \<open>
  A line that arrives in two reads is lost.  The Ollama backend decodes each read by itself and
  passes over what is not a whole chunk, so when the network cuts a line in two pieces neither of
  which is JSON, its text is missing from the answer, which ends as if it were complete; in one read
  the same bytes give the text.
\<close>

theorem ollama_split_line_lost:
  assumes "is_utf8 a" and "is_utf8 b" and "LF \<notin> set (a @ b)" and "b \<noteq> []" and "last b \<noteq> CR"
    and "str_trim (a @ b) \<noteq> []" and "parse (str_trim (a @ b)) = Inr v" and "ollama_chunk v = Some (Some t)"
    and "parse (str_trim a) = Inl e" and "parse (str_trim b) = Inl e'"
  shows "complete_to_string (ollama_events parse [Inr a, Inr (b @ [LF])]) [] = Some (Inr [])
    \<and> complete_to_string (ollama_events parse [Inr ((a @ b) @ [LF])]) [] = Some (Inr t)"
proof -
  have utf8: "is_utf8 (x @ [LF])" if "is_utf8 x" for x
    using that by (intro is_utf8_append) (simp_all add: byte_val_def)
  have line: "str_lines (x @ [LF]) = [x]" if "LF \<notin> set x" "x \<noteq> []" "last x \<noteq> CR" for x
    using that by (simp add: str_lines_def split_on_Cons split_on_none chomp_def)
  have rest: "str_lines a = (if a = [] then [] else [a])"
    using assms(3) by (simp add: str_lines_def split_on_none)
  have "ollama_line parse a = []" using assms(9) by (simp add: ollama_line_def Let_def)
  then have "ollama_tokens parse a = []"
    by (simp only: ollama_tokens_def from_utf8_lossy_valid [OF assms(1)] rest) simp
  moreover have "ollama_tokens parse (b @ [LF]) = []"
    using assms(2-5,10) by (simp add: ollama_tokens_def from_utf8_lossy_valid utf8 line ollama_line_def Let_def)
  moreover have "ollama_tokens parse ((a @ b) @ [LF]) = t"
    using assms(3-8) line [of "a @ b"] from_utf8_lossy_valid [OF utf8 [OF is_utf8_append [OF assms(1,2)]]]
    by (simp only: ollama_tokens_def) (simp add: ollama_line_def Let_def)
  ultimately show ?thesis by (simp add: complete_token_events)
qed

theorem ollama_split_line_lost_witness:
  "complete_to_string (ollama_events
       (\<lambda>s. if s = ''{hi}'' then Inr (json_obj [(''done'', JBool False), (''message'', json_obj [(''content'', JStr ''hi'')])])
            else Inl ''EOF'') [Inr ''{h'', Inr (''i}'' @ [LF])]) [] = Some (Inr [])"
  (is "complete_to_string (ollama_events ?parse _) _ = _")
proof -
  have c: "\<not> is_continuation (CHR ''h'')" "\<not> is_continuation (CHR ''}'')" "plain_char (CHR ''h'')" "plain_char (CHR ''i'')"
    by (simp_all add: plain_char_def is_continuation_def byte_val_def char_is_whitespace_def)
  have t: "str_trim ''{hi}'' = ''{hi}''" "str_trim ''{h'' = ''{h''" "str_trim ''i}'' = ''i}''"
    using c by (simp_all add: str_trim_plain)
  have v: "ollama_chunk (json_obj [(''done'', JBool False), (''message'', json_obj [(''content'', JStr ''hi'')])]) = Some (Some ''hi'')"
    by (simp add: ollama_chunk_def struct_fields_obj kv_simps)
      (simp add: field_option_def json_obj_def ollama_message_def struct_fields_def field_string_def)
  show ?thesis
    using ollama_split_line_lost [of "''{h''" "''i}''" ?parse, OF _ _ _ _ _ _ _ v, of "''EOF''" "''EOF''"]
    by (simp add: t byte_val_def)
qed

section \<open>Event streams with carriage returns\<close>

lemma find_sub_single: "y = [] \<or> hd y \<noteq> c \<Longrightarrow> c \<notin> set x \<Longrightarrow> find_sub [c, c] (x @ c # y) = map_option ((+) (Suc (length x))) (find_sub [c, c] y)"
  by (induction x) (cases y; auto simp: option.map_comp comp_def)+

lemma crlf_no_frame: "\<forall>l \<in> set ls. LF \<notin> set l \<Longrightarrow> find_sub BLANK_LINE (concat (map (\<lambda>l. l @ [CR, LF]) ls)) = None"
proof (induction ls)
  case Nil
  then show ?case by (simp add: BLANK_LINE_def)
next
  case (Cons l ls)
  let ?y = "concat (map (\<lambda>l. l @ [CR, LF]) ls)"
  have "?y = [] \<or> hd ?y \<noteq> LF" using Cons.prems by (cases ls) (auto simp: hd_append dest: hd_in_set)
  moreover have "LF \<notin> set (l @ [CR])" using Cons.prems by simp
  ultimately have "find_sub [LF, LF] ((l @ [CR]) @ LF # ?y) = map_option ((+) (Suc (length (l @ [CR])))) (find_sub [LF, LF] ?y)"
    by (rule find_sub_single)
  with Cons show ?case by (simp add: BLANK_LINE_def)
qed

text \<open>
  The blank line that ends an event is looked for as two newlines, so from a server that ends its
  lines with carriage return and newline, as the format allows, nothing is ever read: the answer
  is empty and ends normally.
\<close>

lemma crlf_stream_is_empty:
  assumes "\<forall>l \<in> set ls. LF \<notin> set l" and "concat reads = concat (map (\<lambda>l. l @ [CR, LF]) ls)"
  shows "complete_to_string (opencode_events parse p [] (map Inr reads)) [] = Some (Inr [])
    \<and> complete_to_string (openai_events parse [] (map Inr reads)) [] = Some (Inr [])"
proof -
  have "cut_after BLANK_LINE (concat reads) = None" using crlf_no_frame [OF assms(1)] by (simp add: assms(2) cut_after_def)
  then have "fst (drain (cut_after BLANK_LINE) (concat reads)) = []" by (subst event_frames.drain_unfold) simp
  then show ?thesis using stream_is_function_of_bytes [of parse reads p] by simp
qed

section \<open>The configured service\<close>

text \<open>With the canonical names, what the process takes as its default model is that of its backend.\<close>

lemma configured_router_some: "\<exists>r. configured_router parse post get c = Some r"
  by (simp add: configured_router_def router_new_def)

lemma normalize_plain:
  "normalize ''ollama'' = ''ollama''" "normalize ''openai'' = ''openai''" "normalize ''opencode-go'' = ''opencode-go''"
  "normalize ''opencode_go'' = ''opencode-go''" "normalize ''OpenCodeGo'' = ''opencode-go''"
proof -
  have p: "plain_char (CHR ''o'')" "plain_char (CHR ''O'')" "plain_char (CHR ''a'')" "plain_char (CHR ''i'')"
    "\<not> is_continuation (CHR ''l'')" "\<not> is_continuation (CHR ''p'')"
    by (simp_all add: plain_char_def is_continuation_def byte_val_def char_is_whitespace_def)
  have "str_trim ''ollama'' = ''ollama''" "str_trim ''openai'' = ''openai''" "str_trim ''opencode-go'' = ''opencode-go''"
    "str_trim ''opencode_go'' = ''opencode_go''" "str_trim ''OpenCodeGo'' = ''OpenCodeGo''"
    using p by (simp_all add: str_trim_plain)
  then show "normalize ''ollama'' = ''ollama''" "normalize ''openai'' = ''openai''" "normalize ''opencode-go'' = ''opencode-go''"
    "normalize ''opencode_go'' = ''opencode-go''" "normalize ''OpenCodeGo'' = ''opencode-go''"
    by (simp_all add: normalize_def to_ascii_lowercase_def byte_val_def char_of_def bit_simps)
qed

lemmas configured_simps =
  configured_router_def router_new_def default_model_for_def resolve_def default_entry_def process_default_model_def normalize_plain

lemma default_model_agrees:
  "configured_router parse post get c = Some r \<Longrightarrow>
   le_backend c \<in> {''ollama'', ''openai'', ''opencode-go'', ''opencode_go''} \<Longrightarrow>
     default_model_for r None = Some (process_default_model c)"
  by (auto simp: configured_simps)

text \<open>
  The router reads the configured name without regard to case and spelling, and the process does not:
  written \<open>OpenCodeGo\<close>, the backend is OpenCode Go and the process default is the model of Ollama.
\<close>

lemma default_model_differs:
  "configured_router parse post get c = Some r \<Longrightarrow> le_backend c = ''OpenCodeGo'' \<Longrightarrow>
     default_model_for r None = Some (le_opencode_model c) \<and> process_default_model c = le_ollama_model c"
  by (auto simp: configured_simps)

end
