(* ===== verification/Chunk_Json.thy ===== *)
theory Chunk_Json
  imports Envelope
begin

text \<open>
  The JSON of whole chunks and of session listings, as serde derives it for
  \<open>cafe-types/src/chunk.rs\<close> and \<open>cafe-types/src/session.rs\<close>.  Base64 is the pair of arguments
  \<open>encode\<close> and \<open>decode\<close>.  What is read back is the chunk with its annotations in the order of their
  keys, which is the order of a JSON object.
\<close>

definition content_type_json :: "content_type \<Rightarrow> json" where
  "content_type_json t =
     JStr (case t of Text \<Rightarrow> ''text'' | Binary \<Rightarrow> ''binary'' | BinaryRef \<Rightarrow> ''binary_ref'' | Null \<Rightarrow> ''null'')"

definition content_type_from_json :: "json \<Rightarrow> content_type option" where
  "content_type_from_json v =
     (case as_str v of
        None \<Rightarrow> None
      | Some s \<Rightarrow>
          if s = ''text'' then Some Text else if s = ''binary'' then Some Binary
          else if s = ''binary_ref'' then Some BinaryRef else if s = ''null'' then Some Null else None)"

definition from_i64 :: "json \<Rightarrow> int option" where
  "from_i64 v =
     (case v of
        JNum (PosInt n) \<Rightarrow> if n < 2 ^ 63 then Some (int n) else None
      | JNum (NegInt i) \<Rightarrow> if - (2 ^ 63) \<le> i then Some i else None
      | _ \<Rightarrow> None)"

definition is_i64 :: "int \<Rightarrow> bool" where
  "is_i64 i = (- (2 ^ 63) \<le> i \<and> i < 2 ^ 63)"

lemma from_i64_int: "is_i64 i \<Longrightarrow> from_i64 (json_int i) = Some i"
  by (auto simp: from_i64_def json_int_def is_i64_def)

definition chunk_to_json :: "(byte list \<Rightarrow> string) \<Rightarrow> chunk \<Rightarrow> json" where
  "chunk_to_json encode c =
     json_obj [(''id'', JStr (chunk_id c)), (''content_type'', content_type_json (chunk_type c)),
               (''content'', opt_json JStr (content c)), (''data'', opt_json (JStr \<circ> encode) (chunk_data c)),
               (''mime_type'', opt_json JStr (mime_type c)), (''producer'', JStr (producer c)),
               (''annotations'', json_obj (annotations c)), (''timestamp'', json_int (timestamp c))]"

text \<open>
  A field with a deserialiser of its own has no default, so \<open>data\<close> must be present, while the two
  plain optional fields may be missing.
\<close>

definition chunk_from_json :: "(string \<Rightarrow> byte list option) \<Rightarrow> json \<Rightarrow> chunk option" where
  "chunk_from_json decode v =
     (case struct_fields [''id'', ''content_type'', ''content'', ''data'', ''mime_type'', ''producer'',
                          ''annotations'', ''timestamp''] v of
        Some [i, t, c, d, m, p, a, ts] \<Rightarrow>
          Option.bind (field_string i) (\<lambda>i.
          Option.bind (Option.bind t content_type_from_json) (\<lambda>t.
          Option.bind (field_option as_str c) (\<lambda>c.
          Option.bind (Option.bind d (\<lambda>d. field_option (\<lambda>x. Option.bind (as_str x) decode) (Some d))) (\<lambda>d.
          Option.bind (field_option as_str m) (\<lambda>m.
          Option.bind (field_string p) (\<lambda>p.
          Option.bind (Option.bind a as_object) (\<lambda>a.
          Option.bind (Option.bind ts from_i64) (\<lambda>ts.
            Some \<lparr>chunk_id = i, chunk_type = t, content = c, chunk_data = d, mime_type = m, producer = p,
                  annotations = a, timestamp = ts\<rparr>))))))))
      | _ \<Rightarrow> None)"

definition ordered :: "chunk \<Rightarrow> chunk" where
  "ordered c = c\<lparr>annotations := fold (\<lambda>(k, v). obj_insert k v) (annotations c) []\<rparr>"

lemma ordered_fields [simp]:
  "chunk_id (ordered c) = chunk_id c" "chunk_type (ordered c) = chunk_type c" "content (ordered c) = content c"
  "chunk_data (ordered c) = chunk_data c" "timestamp (ordered c) = timestamp c"
  by (simp_all add: ordered_def)

lemma ordered_annotation:
  assumes "kv_wf (annotations c)"
  shows "annotation (ordered c) k = annotation c k"
  using kv_get_rev [OF assms]
  by (simp add: ordered_def annotation_def kv_get_fold_obj_insert split: option.splits)

lemma content_type_roundtrip [simp]: "content_type_from_json (content_type_json t) = Some t"
  by (cases t) (simp_all add: content_type_from_json_def content_type_json_def)

lemma field_option_opt_json:
  "(\<And>y. x = Some y \<Longrightarrow> dec (enc y) = Some y \<and> enc y \<noteq> JNull) \<Longrightarrow> field_option dec (Some (opt_json enc x)) = Some x"
  by (cases x) (auto simp: field_option_def opt_json_def split: json.splits)

text \<open>A chunk is read back from its JSON, with its annotations in order.\<close>

lemma chunk_json_roundtrip:
  assumes "\<forall>bs. decode (encode bs) = Some bs" and "is_i64 (timestamp c)"
  shows "chunk_from_json decode (chunk_to_json encode c) = Some (ordered c)"
proof -
  have "field_option as_str (Some (opt_json JStr x)) = Some x" for x
    by (rule field_option_opt_json) simp
  moreover have "field_option (\<lambda>x. Option.bind (as_str x) decode) (Some (opt_json (JStr \<circ> encode) x)) = Some x" for x
    by (rule field_option_opt_json) (simp add: assms(1))
  moreover have "as_object (json_obj m) = Some (fold (\<lambda>(k, v). obj_insert k v) m [])" for m
    by (simp add: json_obj_def)
  ultimately show ?thesis
    by (simp add: chunk_from_json_def chunk_to_json_def struct_fields_obj field_string_def ordered_def
        from_i64_int [OF assms(2)])
qed

section \<open>Session listings\<close>

definition string_list_from_json :: "json \<Rightarrow> string list option" where
  "string_list_from_json v = (case v of JArr xs \<Rightarrow> those (map as_str xs) | _ \<Rightarrow> None)"

text \<open>A field marked \<open>default\<close> may be missing; a list that is present has to be one.\<close>

definition field_or :: "(json \<Rightarrow> 'a option) \<Rightarrow> 'a \<Rightarrow> json option \<Rightarrow> 'a option" where
  "field_or dec dflt f = (case f of None \<Rightarrow> Some dflt | Some v \<Rightarrow> dec v)"

definition session_info_from_json :: "json \<Rightarrow> session_info option" where
  "session_info_from_json v =
     (case struct_fields [''session_id'', ''agent_id'', ''display_name'', ''tags'', ''is_background'', ''ui_mode'',
                          ''message_count'', ''created_at'', ''parent_id''] v of
        Some [s, a, d, ts, b, u, n, cr, p] \<Rightarrow>
          Option.bind (field_string s) (\<lambda>s.
          Option.bind (field_string a) (\<lambda>a.
          Option.bind (field_option as_str d) (\<lambda>d.
          Option.bind (field_or string_list_from_json [] ts) (\<lambda>ts.
          Option.bind (Option.bind b as_bool) (\<lambda>b.
          Option.bind (field_string u) (\<lambda>u.
          Option.bind (Option.bind n as_u64) (\<lambda>n.
          Option.bind (Option.bind cr from_i64) (\<lambda>cr.
          Option.bind (field_option as_str p) (\<lambda>p.
            Some \<lparr>si_session_id = s, si_agent_id = a, si_display_name = d, si_tags = ts, si_is_background = b,
                  si_ui_mode = u, si_message_count = n, si_created_at = cr, si_parent_id = p\<rparr>)))))))))
      | _ \<Rightarrow> None)"

lemma string_list_roundtrip: "string_list_from_json (JArr (map JStr xs)) = Some xs"
  by (induction xs) (simp_all add: string_list_from_json_def comp_def)

end
