(* ===== verification/Http_Client.thy ===== *)
theory Http_Client
  imports Llm_Backends Chunk_Json Proxy
begin

text \<open>
  The client of the server's HTTP interface, \<open>cafe-sdk/src/http/mod.rs\<close>, with its reader of event
  streams \<open>http/sse.rs\<close> and the WebSocket client \<open>ws.rs\<close>.  An operation is the request it sends and the
  reading of the outcome: an error of the exchange, or a status and a body.  Put against the handlers
  of the server and the configuration of language models, the theory shows what its operations achieve.
\<close>

section \<open>Requests\<close>

record http_client =
  hcl_base_url :: string
  hcl_token :: string

record api_request =
  aq_verb :: string
  aq_url :: string
  aq_headers :: "(string \<times> string) list"
  aq_body :: "json option"

type_synonym api_outcome = "string + nat \<times> (string + string)"

definition api_request :: "http_client \<Rightarrow> string \<Rightarrow> string \<Rightarrow> json option \<Rightarrow> api_request" where
  "api_request c verb path body =
     \<lparr>aq_verb = verb, aq_url = hcl_base_url c @ path, aq_headers = [bearer (hcl_token c)], aq_body = body\<rparr>"

definition error_for_status :: "api_outcome \<Rightarrow> sdk_error + (string + string)" where
  "error_for_status r =
     (case r of
        Inl e \<Rightarrow> Inl (HttpError (Transport e))
      | Inr (status, body) \<Rightarrow>
          if 400 \<le> status \<and> status < 600 then Inl (HttpError (Status status)) else Inr body)"

definition api_json :: "json_parser \<Rightarrow> api_outcome \<Rightarrow> sdk_error + json" where
  "api_json parse r =
     (case error_for_status r of
        Inl e \<Rightarrow> Inl e
      | Inr (Inl e) \<Rightarrow> Inl (HttpError (Transport e))
      | Inr (Inr t) \<Rightarrow> (case parse t of Inl _ \<Rightarrow> Inl (HttpError Decode) | Inr v \<Rightarrow> Inr v))"

definition api_unit :: "api_outcome \<Rightarrow> sdk_error + unit" where
  "api_unit r = (case error_for_status r of Inl e \<Rightarrow> Inl e | Inr _ \<Rightarrow> Inr ())"

definition api_decode :: "(json \<Rightarrow> 'a option) \<Rightarrow> sdk_error + json \<Rightarrow> sdk_error + 'a" where
  "api_decode dec r =
     (case r of
        Inl e \<Rightarrow> Inl e
      | Inr v \<Rightarrow> (case dec v of Some x \<Rightarrow> Inr x | None \<Rightarrow> Inl (HttpError Decode)))"

definition api_map :: "(json \<Rightarrow> 'a) \<Rightarrow> sdk_error + json \<Rightarrow> sdk_error + 'a" where
  "api_map f r = (case r of Inl e \<Rightarrow> Inl e | Inr v \<Rightarrow> Inr (f v))"

definition session_path :: "string \<Rightarrow> string \<Rightarrow> string" where
  "session_path sid rest = ''/api/sessions/'' @ sid @ rest"

section \<open>Operations\<close>

definition json_list :: "(json \<Rightarrow> 'a option) \<Rightarrow> json \<Rightarrow> 'a list option" where
  "json_list dec v = (case v of JArr xs \<Rightarrow> those (map dec xs) | _ \<Rightarrow> None)"

definition http_list_sessions ::
  "json_parser \<Rightarrow> http_client \<Rightarrow> api_request \<times> (api_outcome \<Rightarrow> sdk_error + session_info list)" where
  "http_list_sessions parse c =
     (api_request c ''GET'' ''/api/sessions'' None,
      \<lambda>r. api_decode (json_list session_info_from_json) (api_json parse r))"

definition text_at :: "string \<Rightarrow> json \<Rightarrow> string" where
  "text_at k v = text_or_none (as_str (json_index v k))"

definition http_create_session ::
  "json_parser \<Rightarrow> http_client \<Rightarrow> string \<Rightarrow> api_request \<times> (api_outcome \<Rightarrow> sdk_error + string)" where
  "http_create_session parse c agent =
     (api_request c ''POST'' ''/api/sessions'' (Some (json_obj [(''agent_id'', JStr agent)])),
      \<lambda>r. api_map (text_at ''id'') (api_json parse r))"

definition http_delete_session :: "http_client \<Rightarrow> string \<Rightarrow> api_request \<times> (api_outcome \<Rightarrow> sdk_error + unit)" where
  "http_delete_session c sid = (api_request c ''DELETE'' (session_path sid []) None, api_unit)"

definition http_fork_session ::
  "json_parser \<Rightarrow> http_client \<Rightarrow> string \<Rightarrow> api_request \<times> (api_outcome \<Rightarrow> sdk_error + (string \<times> string))" where
  "http_fork_session parse c sid =
     (api_request c ''POST'' (session_path sid ''/fork'') None,
      \<lambda>r. api_map (\<lambda>v. (text_at ''id'' v, text_at ''parent_id'' v)) (api_json parse r))"

text \<open>Entries that are not chunks are passed over.\<close>

definition array_of :: "(json \<Rightarrow> 'a option) \<Rightarrow> json \<Rightarrow> 'a list" where
  "array_of dec v = (case v of JArr xs \<Rightarrow> List.map_filter dec xs | _ \<Rightarrow> [])"

definition http_get_history ::
  "json_parser \<Rightarrow> (string \<Rightarrow> byte list option) \<Rightarrow> http_client \<Rightarrow> string
    \<Rightarrow> api_request \<times> (api_outcome \<Rightarrow> sdk_error + chunk list)" where
  "http_get_history parse decode c sid =
     (api_request c ''GET'' (session_path sid ''/history'') None,
      \<lambda>r. api_map (\<lambda>v. array_of (chunk_from_json decode) (json_index v ''chunks'')) (api_json parse r))"

definition publish_body :: "string \<Rightarrow> (string \<times> json) list \<Rightarrow> json" where
  "publish_body t anns = json_obj [(''content_type'', JStr t), (''annotations'', json_obj anns)]"

definition chunks_request :: "http_client \<Rightarrow> string \<Rightarrow> json \<Rightarrow> api_request \<times> (api_outcome \<Rightarrow> sdk_error + unit)" where
  "chunks_request c sid body = (api_request c ''POST'' (session_path sid ''/chunks'') (Some body), api_unit)"

definition http_set_system_prompt ::
  "http_client \<Rightarrow> string \<Rightarrow> string \<Rightarrow> api_request \<times> (api_outcome \<Rightarrow> sdk_error + unit)" where
  "http_set_system_prompt c sid txt =
     chunks_request c sid (publish_body ''null''
       [(''config.type'', JStr ''runtime''), (''config.system_prompt'', JStr txt)])"

definition http_rename_session ::
  "http_client \<Rightarrow> string \<Rightarrow> string \<Rightarrow> api_request \<times> (api_outcome \<Rightarrow> sdk_error + unit)" where
  "http_rename_session c sid name =
     chunks_request c sid (publish_body ''null'' [(''config.session.name'', JStr name)])"

definition http_set_tags ::
  "http_client \<Rightarrow> string \<Rightarrow> string list \<Rightarrow> api_request \<times> (api_outcome \<Rightarrow> sdk_error + unit)" where
  "http_set_tags c sid ts =
     (api_request c ''PATCH'' (session_path sid ''/tags'') (Some (json_obj [(''tags'', JArr (map JStr ts))])), api_unit)"

definition http_set_model ::
  "http_client \<Rightarrow> string \<Rightarrow> string \<Rightarrow> api_request \<times> (api_outcome \<Rightarrow> sdk_error + unit)" where
  "http_set_model c sid model =
     chunks_request c sid (publish_body ''null''
       [(''config.type'', JStr ''runtime''), (''config.model'', JStr model)])"

definition http_list_models ::
  "json_parser \<Rightarrow> http_client \<Rightarrow> api_request \<times> (api_outcome \<Rightarrow> sdk_error + string list)" where
  "http_list_models parse c =
     (api_request c ''GET'' ''/api/models'' None,
      \<lambda>r. api_map (\<lambda>v. array_of as_str (json_index v ''models'')) (api_json parse r))"

definition http_publish_chunk ::
  "http_client \<Rightarrow> string \<Rightarrow> string \<Rightarrow> string option \<Rightarrow> string option \<Rightarrow> string option \<Rightarrow> (string \<times> json) list option
    \<Rightarrow> api_request \<times> (api_outcome \<Rightarrow> sdk_error + unit)" where
  "http_publish_chunk c sid t txt data mime anns =
     chunks_request c sid (json_obj ([(''content_type'', JStr t)]
       @ opt_entry ''content'' JStr txt @ opt_entry ''data'' JStr data @ opt_entry ''mime_type'' JStr mime
       @ opt_entry ''annotations'' json_obj anns))"

record http_agent =
  ha_id :: string
  ha_description :: string
  ha_background :: bool

definition http_agent_from_json :: "json \<Rightarrow> http_agent option" where
  "http_agent_from_json v =
     (case struct_fields [''id'', ''description'', ''background''] v of
        Some [i, d, b] \<Rightarrow>
          Option.bind (field_string i) (\<lambda>i.
          Option.bind (field_string d) (\<lambda>d.
          Option.bind (Option.bind b as_bool) (\<lambda>b.
            Some \<lparr>ha_id = i, ha_description = d, ha_background = b\<rparr>)))
      | _ \<Rightarrow> None)"

definition http_list_agents ::
  "json_parser \<Rightarrow> http_client \<Rightarrow> api_request \<times> (api_outcome \<Rightarrow> sdk_error + http_agent list)" where
  "http_list_agents parse c =
     (api_request c ''GET'' ''/api/agents'' None,
      \<lambda>r. api_decode (json_list http_agent_from_json) (api_json parse r))"

section \<open>Event streams\<close>

text \<open>The text between the first marker and the next newline; what stands before the marker goes with it.\<close>

definition DATA :: string where "DATA = ''data: ''"

definition sse_line :: "string \<Rightarrow> (string \<times> string) option" where
  "sse_line buf =
     (case find_sub DATA buf of
        None \<Rightarrow> None
      | Some i \<Rightarrow>
          (let rest = drop (i + length DATA) buf
           in case find_sub [LF] rest of
                None \<Rightarrow> None
              | Some j \<Rightarrow> Some (take j rest, drop (Suc j) rest)))"

datatype sse_outcome = SseChunk chunk | SseInvalid string string | SseIncomplete

type_synonym chunk_parser = "string \<Rightarrow> string + chunk"

definition try_parse_sse_chunk :: "chunk_parser \<Rightarrow> string \<Rightarrow> sse_outcome \<times> string" where
  "try_parse_sse_chunk parse_chunk buf =
     (case sse_line buf of
        None \<Rightarrow> (SseIncomplete, buf)
      | Some (raw, rest) \<Rightarrow>
          (case parse_chunk raw of Inr c \<Rightarrow> (SseChunk c, rest) | Inl e \<Rightarrow> (SseInvalid raw e, rest)))"

text \<open>The chunks handed over until none is left or one is the last of an answer.\<close>

primrec sse_chunks :: "chunk_parser \<Rightarrow> (chunk \<Rightarrow> bool) \<Rightarrow> nat \<Rightarrow> string \<Rightarrow> chunk list \<times> bool \<times> string" where
  "sse_chunks parse_chunk stops 0 buf = ([], False, buf)"
| "sse_chunks parse_chunk stops (Suc n) buf =
     (case try_parse_sse_chunk parse_chunk buf of
        (SseChunk c, rest) \<Rightarrow>
          if stops c then ([c], True, rest)
          else (case sse_chunks parse_chunk stops n rest of (cs, stopped, rest') \<Rightarrow> (c # cs, stopped, rest'))
      | (SseInvalid _ _, rest) \<Rightarrow> sse_chunks parse_chunk stops n rest
      | (SseIncomplete, rest) \<Rightarrow> ([], False, rest))"

primrec sse_client ::
  "chunk_parser \<Rightarrow> (chunk \<Rightarrow> bool) \<Rightarrow> string \<Rightarrow> (string + string) list \<Rightarrow> chunk list \<times> (sdk_error + unit)" where
  "sse_client parse_chunk stops buf [] = ([], Inr ())"
| "sse_client parse_chunk stops buf (r # reads) =
     (case r of
        Inl e \<Rightarrow> ([], Inl (HttpError (Transport e)))
      | Inr bytes \<Rightarrow>
          (let buf' = buf @ from_utf8_lossy bytes;
               (cs, stopped, rest) = sse_chunks parse_chunk stops (length buf') buf'
           in if stopped then (cs, Inr ())
              else (case sse_client parse_chunk stops rest reads of (cs', r') \<Rightarrow> (cs @ cs', r'))))"

text \<open>The status of the response is not looked at.\<close>

definition http_stream_chat ::
  "chunk_parser \<Rightarrow> http_client \<Rightarrow> string \<Rightarrow> string
    \<Rightarrow> api_request \<times> (string + nat \<times> (string + string) list \<Rightarrow> chunk list \<times> (sdk_error + unit))" where
  "http_stream_chat parse_chunk c sid message =
     (api_request c ''POST'' (session_path sid ''/chat'') (Some (json_obj [(''content'', JStr message)])),
      \<lambda>r. case r of
            Inl e \<Rightarrow> ([], Inl (HttpError (Transport e)))
          | Inr (_, reads) \<Rightarrow> sse_client parse_chunk is_stream_complete [] reads)"

definition http_subscribe_session ::
  "chunk_parser \<Rightarrow> http_client \<Rightarrow> string
    \<Rightarrow> api_request \<times> (string + nat \<times> (string + string) list \<Rightarrow> chunk list \<times> (sdk_error + unit))" where
  "http_subscribe_session parse_chunk c sid =
     (api_request c ''GET'' (session_path sid ''/stream'') None,
      \<lambda>r. case r of
            Inl e \<Rightarrow> ([], Inl (HttpError (Transport e)))
          | Inr (_, reads) \<Rightarrow> sse_client parse_chunk (\<lambda>_. False) [] reads)"

section \<open>The WebSocket client\<close>

text \<open>\<open>str::replace\<close> at every occurrence, from the left.\<close>

function str_replace :: "string \<Rightarrow> string \<Rightarrow> string \<Rightarrow> string" where
  "str_replace p r s =
     (if p = [] then s
      else case find_sub p s of
             None \<Rightarrow> s
           | Some i \<Rightarrow> take i s @ r @ str_replace p r (drop (i + length p) s))"
  by pat_completeness auto
termination
proof (relation "measure (\<lambda>(p, r, s). length s)")
  fix p r s :: string and i :: nat
  assume "p \<noteq> []" "find_sub p s = Some i"
  then show "((p, r, drop (i + length p) s), p, r, s) \<in> measure (\<lambda>(p, r, s). length s)"
    using find_sub_bound [of p s i] by (cases p) auto
qed simp

declare str_replace.simps [simp del]

definition ws_url :: "string \<Rightarrow> string \<Rightarrow> string \<Rightarrow> string" where
  "ws_url server_url sid token =
     str_replace ''https://'' ''wss://'' (str_replace ''http://'' ''ws://'' (trim_end (CHR ''/'') server_url))
       @ ''/api/sessions/'' @ sid @ ''/ws?token='' @ token"

text \<open>What a text message of the server becomes; anything else is passed over.\<close>

definition ws_receive :: "json_parser \<Rightarrow> (string \<Rightarrow> byte list option) \<Rightarrow> string \<Rightarrow> string \<Rightarrow> server_message option" where
  "ws_receive parse decode sid txt =
     (case parse txt of
        Inl _ \<Rightarrow> None
      | Inr v \<Rightarrow>
          (case as_str (json_index v ''event'') of
             None \<Rightarrow> None
           | Some e \<Rightarrow>
               if e = ''chunk'' then map_option (Chunk sid) (chunk_from_json decode (json_index v ''chunk''))
               else if e = ''history_complete''
               then Some (HistoryComplete sid (case as_u64 (json_index v ''count'') of Some n \<Rightarrow> n | None \<Rightarrow> 0))
               else None))"

definition ws_publish :: "(byte list \<Rightarrow> string) \<Rightarrow> chunk \<Rightarrow> json" where
  "ws_publish encode c = json_obj [(''op'', JStr ''publish''), (''chunk'', chunk_to_json encode c)]"

section \<open>What the server reads\<close>

text \<open>The body of a publish request (\<open>handlers/chunks.rs\<close>).\<close>

definition send_chunk_request_from_json :: "json \<Rightarrow> send_chunk_request option" where
  "send_chunk_request_from_json v =
     (case struct_fields [''content_type'', ''content'', ''data'', ''mime_type'', ''annotations''] v of
        Some [t, c, d, m, a] \<Rightarrow>
          Option.bind (field_string t) (\<lambda>t.
          Option.bind (field_option as_str c) (\<lambda>c.
          Option.bind (field_option as_str d) (\<lambda>d.
          Option.bind (field_option as_str m) (\<lambda>m.
          Option.bind (field_option as_object a) (\<lambda>a.
            Some \<lparr>sc_content_type = t, sc_content = c, sc_data = d, sc_mime_type = m, sc_annotations = a\<rparr>)))))
      | _ \<Rightarrow> None)"

text \<open>What a request to publish makes the server send to the bus.\<close>

definition served_publish ::
  "(string \<Rightarrow> byte list option) \<Rightarrow> string \<Rightarrow> int \<Rightarrow> string \<Rightarrow> api_request \<Rightarrow> client_message option" where
  "served_publish decode uuid now_ms sid rq =
     Option.bind (Option.bind (aq_body rq) send_chunk_request_from_json)
       (\<lambda>b. fst (send_chunk decode uuid now_ms sid b (Inr ())))"

text \<open>A configuration request, whose annotations are read in the order of their keys.\<close>

definition config_chunk :: "string \<Rightarrow> int \<Rightarrow> string \<Rightarrow> string \<Rightarrow> chunk" where
  "config_chunk uuid now_ms k v =
     with_annotation CONFIG_TYPE (JStr ''runtime'') (with_annotation k (JStr v) (new_null uuid now_ms SERVER))"

lemma served_config:
  assumes "k < CONFIG_TYPE"
  shows "served_publish decode uuid now_ms sid
       (fst (chunks_request c sid (publish_body ''null'' [(CONFIG_TYPE, JStr ''runtime''), (k, JStr v)])))
     = Some (Publish sid (config_chunk uuid now_ms k v))"
proof -
  have "json_obj [(CONFIG_TYPE, JStr ''runtime''), (k, JStr v)] = JObj [(k, JStr v), (CONFIG_TYPE, JStr ''runtime'')]"
    using assms by (auto simp: json_obj_def)
  then show ?thesis
    by (simp add: served_publish_def chunks_request_def api_request_def publish_body_def send_chunk_request_from_json_def
        struct_fields_obj field_string_def field_option_def send_chunk_def requested_chunk_def config_chunk_def)
qed

lemma config_chunk_runtime: "runtime_chunk (config_chunk u t k v)"
  by (simp add: runtime_chunk_def config_chunk_def)

text \<open>
  Choosing a model over HTTP works once.  The request goes through the server as a
  configuration chunk with the legacy key, which only fills what is still empty: in a session
  that has no model yet the language model service uses the chosen one, and in a session that has
  one, from its creation or from an earlier choice, the request is accepted and changes nothing.  The
  system prompt behaves in the same way.
\<close>

theorem http_set_model_effect:
  "\<exists>c. served_publish decode uuid now_ms sid (fst (http_set_model cl sid m)) = Some (Publish sid c)
     \<and> llm_model (extract_config fl (hist @ [c]))
         = (case llm_model (extract_config fl hist) of Some old \<Rightarrow> Some old | None \<Rightarrow> Some m)
     \<and> (\<exists>d. served_publish decode uuid now_ms sid (fst (http_set_system_prompt cl sid p)) = Some (Publish sid d)
          \<and> llm_system_prompt (extract_config fl (hist @ [d]))
              = (case llm_system_prompt (extract_config fl hist) of Some old \<Rightarrow> Some old | None \<Rightarrow> Some p))"
proof -
  have keys: "CONFIG_MODEL < CONFIG_TYPE" "CONFIG_SYSTEM_PROMPT < CONFIG_TYPE" by simp_all
  have "llm_model (extract_config fl (hist @ [config_chunk uuid now_ms CONFIG_MODEL m]))
      = (case llm_model (extract_config fl hist) of Some old \<Rightarrow> Some old | None \<Rightarrow> Some m)"
    by (simp add: extract_config_def merge_chunk_fields config_chunk_runtime)
      (simp add: field_step_def take_key_def take_legacy_def config_chunk_def split: option.split)
  moreover have "llm_system_prompt (extract_config fl (hist @ [config_chunk uuid now_ms CONFIG_SYSTEM_PROMPT p]))
      = (case llm_system_prompt (extract_config fl hist) of Some old \<Rightarrow> Some old | None \<Rightarrow> Some p)"
    by (simp add: extract_config_def merge_chunk_fields config_chunk_runtime)
      (simp add: field_step_def take_key_def take_legacy_def config_chunk_def split: option.split)
  moreover note served_config [OF keys(1), of decode uuid now_ms sid cl m]
    served_config [OF keys(2), of decode uuid now_ms sid cl p]
  ultimately show ?thesis by (simp add: http_set_model_def http_set_system_prompt_def)
qed

section \<open>Streams of events\<close>

lemma sse_line_incremental: "incremental sse_line"
proof
  fix buf f rest more_bytes :: string
  assume "sse_line buf = Some (f, rest)"
  then obtain i j where i: "find_sub DATA buf = Some i" and j: "find_sub [LF] (drop (i + length DATA) buf) = Some j"
    and f: "f = take j (drop (i + length DATA) buf)" "rest = drop (Suc j) (drop (i + length DATA) buf)"
    by (auto simp: sse_line_def Let_def split: option.splits)
  have le: "i + length DATA \<le> length buf" by (rule find_sub_bound [OF i])
  have lj: "Suc j \<le> length (drop (i + length DATA) buf)" using find_sub_bound [OF j] by simp
  show "length rest < length buf" using lj f le by (simp add: DATA_def)
  have "drop (i + length DATA) (buf @ more_bytes) = drop (i + length DATA) buf @ more_bytes" using le by simp
  then show "sse_line (buf @ more_bytes) = Some (f, rest @ more_bytes)"
    using find_sub_append [OF i] find_sub_append [OF j] f lj by (simp add: sse_line_def Let_def)
qed

interpretation sse_lines: incremental sse_line
  by (rule sse_line_incremental)

text \<open>The chunks in a sequence of lines, to the first that ends the stream, and whether there is one.\<close>

primrec delivered :: "chunk_parser \<Rightarrow> (chunk \<Rightarrow> bool) \<Rightarrow> string list \<Rightarrow> chunk list \<times> bool" where
  "delivered parse_chunk stops [] = ([], False)"
| "delivered parse_chunk stops (l # ls) =
     (case parse_chunk l of
        Inl _ \<Rightarrow> delivered parse_chunk stops ls
      | Inr c \<Rightarrow> if stops c then ([c], True) else (c # fst (delivered parse_chunk stops ls), snd (delivered parse_chunk stops ls)))"

lemma delivered_append:
  "delivered pc stops (ls @ ms)
     = (if snd (delivered pc stops ls) then delivered pc stops ls
        else (fst (delivered pc stops ls) @ fst (delivered pc stops ms), snd (delivered pc stops ms)))"
  by (induction ls) (auto split: sum.split)

lemma sse_chunks_spec:
  assumes "length buf \<le> n"
  shows "fst (sse_chunks pc stops n buf) = fst (delivered pc stops (fst (drain sse_line buf)))
    \<and> fst (snd (sse_chunks pc stops n buf)) = snd (delivered pc stops (fst (drain sse_line buf)))
    \<and> (fst (snd (sse_chunks pc stops n buf)) \<or> snd (snd (sse_chunks pc stops n buf)) = snd (drain sse_line buf))"
  using assms
proof (induction n arbitrary: buf)
  case 0
  then show ?case by (simp add: drain_def)
next
  case (Suc n)
  show ?case
  proof (cases "sse_line buf")
    case None
    then have "drain sse_line buf = ([], buf)" by (subst sse_lines.drain_unfold) simp
    with None show ?thesis by (simp add: try_parse_sse_chunk_def)
  next
    case (Some q)
    obtain l rest where q: "sse_line buf = Some (l, rest)" using Some by (cases q) auto
    have "length rest \<le> n" using Suc.prems sse_lines.frame_shrinks [OF q] by simp
    note IH = Suc.IH [OF this]
    have "drain sse_line buf = (l # fst (drain sse_line rest), snd (drain sse_line rest))"
      by (subst sse_lines.drain_unfold) (simp add: q split_beta)
    then show ?thesis
      using IH by (auto simp: q try_parse_sse_chunk_def split_beta split: sum.split)
  qed
qed

text \<open>When the network cuts between characters, what is delivered is a function of the bytes.\<close>

lemma sse_client_function:
  assumes "\<forall>r \<in> set reads. is_utf8 r"
  shows "sse_client pc stops [] (map Inr reads) = (fst (delivered pc stops (fst (drain sse_line (concat reads)))), Inr ())"
proof -
  have none: "drain sse_line buf = ([], buf)" if "sse_line buf = None" for buf
    using that by (subst sse_lines.drain_unfold) simp
  have "sse_client pc stops buf (map Inr reads) = (fst (delivered pc stops (fst (drain sse_line (buf @ concat reads)))), Inr ())"
    if "sse_line buf = None" for buf
    using that assms
  proof (induction reads arbitrary: buf)
    case Nil
    then show ?case by (simp add: none)
  next
    case (Cons r reads)
    let ?b = "buf @ r" and ?d = "drain sse_line (buf @ r)"
    have r: "from_utf8_lossy r = r" using Cons.prems(2) by (simp add: from_utf8_lossy_valid)
    have d: "fst (drain sse_line (buf @ r @ concat reads)) = fst ?d @ fst (drain sse_line (snd ?d @ concat reads))"
      using sse_lines.drain_append [of ?b "concat reads"] by (simp add: split_beta)
    have IH: "sse_client pc stops (snd ?d) (map Inr reads)
        = (fst (delivered pc stops (fst (drain sse_line (snd ?d @ concat reads)))), Inr ())"
      using Cons.IH [OF sse_lines.drain_left] Cons.prems(2) by simp
    show ?case
      using sse_chunks_spec [of ?b "length ?b" pc stops] IH
      by (auto simp: r d delivered_append Let_def split_beta simp del: length_append)
  qed
  then show ?thesis using sse_lines.no_frame_in_nothing by simp
qed

section \<open>The client and the server\<close>

text \<open>The bytes of a sequence of events, and the lines that the client finds in them.\<close>

definition event_wire :: "(json \<Rightarrow> string) \<Rightarrow> json list \<Rightarrow> string" where
  "event_wire ser evs = concat (map (\<lambda>v. sse_event (ser v) @ BLANK_LINE) evs)"

lemma sse_line_event:
  "LF \<notin> set x \<Longrightarrow> sse_line (sse_event x @ LF # y) = Some (x, y)"
  "LF \<notin> set x \<Longrightarrow> sse_line (LF # sse_event x @ LF # y) = Some (x, y)"
proof -
  have "find_sub [LF] (x @ LF # y) = Some (length x)" if "LF \<notin> set x"
    using that by (induction x) auto
  then show "LF \<notin> set x \<Longrightarrow> sse_line (sse_event x @ LF # y) = Some (x, y)"
    "LF \<notin> set x \<Longrightarrow> sse_line (LF # sse_event x @ LF # y) = Some (x, y)"
    by (simp_all add: sse_line_def DATA_def sse_event_def Let_def)
qed

lemma drain_event_wire:
  "\<forall>v \<in> set evs. LF \<notin> set (ser v) \<Longrightarrow>
     fst (drain sse_line (event_wire ser evs)) = map ser evs
     \<and> fst (drain sse_line (LF # event_wire ser evs)) = map ser evs"
proof (induction evs)
  case Nil
  have "sse_line [LF] = None" "sse_line [] = None" by (simp_all add: sse_line_def DATA_def)
  then show ?case by (subst (1 2) sse_lines.drain_unfold) (simp add: event_wire_def)
next
  case (Cons v evs)
  have w: "event_wire ser (v # evs) = sse_event (ser v) @ LF # LF # event_wire ser evs"
    by (simp add: event_wire_def BLANK_LINE_def)
  have lf: "LF \<notin> set (ser v)" using Cons.prems by simp
  show ?case
    unfolding w using Cons
    by (subst (1 2) sse_lines.drain_unfold) (simp add: sse_line_event [OF lf] split_beta)
qed

definition json_chunk_parser :: "json_parser \<Rightarrow> (string \<Rightarrow> byte list option) \<Rightarrow> chunk_parser" where
  "json_chunk_parser parse decode raw =
     (case parse raw of
        Inl e \<Rightarrow> Inl e
      | Inr v \<Rightarrow> (case chunk_from_json decode v of None \<Rightarrow> Inl ''invalid chunk'' | Some c \<Rightarrow> Inr c))"

text \<open>The answer to a chat message: what follows the replayed history, to the chunk that ends the answer
  or to an error.\<close>

fun until_end :: "server_message list \<Rightarrow> chunk list" where
  "until_end [] = []"
| "until_end (Chunk _ c # ms) = (if is_stream_complete c then [c] else c # until_end ms)"
| "until_end (Error _ _ _ # ms) = []"
| "until_end (_ # ms) = until_end ms"

fun chat_answer :: "server_message list \<Rightarrow> chunk list" where
  "chat_answer [] = []"
| "chat_answer (HistoryComplete _ _ # ms) = until_end ms"
| "chat_answer (_ # ms) = chat_answer ms"

lemma error_event_no_chunk: "chunk_from_json decode (json_obj [(''type'', JStr ''error''), (''message'', JStr t)]) = None"
  by (simp add: chunk_from_json_def struct_fields_obj field_string_def)

definition message_ok :: "server_message \<Rightarrow> bool" where
  "message_ok m = (case m of Chunk _ c \<Rightarrow> is_i64 (timestamp c) \<and> kv_wf (annotations c) | _ \<Rightarrow> True)"

lemma stream_complete_ordered: "kv_wf (annotations c) \<Longrightarrow> is_stream_complete (ordered c) = is_stream_complete c"
  by (simp add: is_stream_complete_def get_annotation_def ordered_annotation)

lemma bridge_delivers:
  assumes "\<forall>bs. decode (encode bs) = Some bs" and "\<forall>m \<in> set ms. message_ok m"
    and "\<forall>v \<in> set (fst (chat_bridge (chunk_to_json encode) True ms)). parse (ser v) = Inr v"
  shows "fst (delivered (json_chunk_parser parse decode) is_stream_complete
      (map ser (fst (chat_bridge (chunk_to_json encode) True ms)))) = map ordered (until_end ms)"
  using assms(2,3)
proof (induction ms rule: until_end.induct)
  case (2 s c ms)
  then show ?case
    by (auto simp: json_chunk_parser_def chunk_json_roundtrip [OF assms(1)] message_ok_def stream_complete_ordered
        split: prod.splits)
qed (auto simp: json_chunk_parser_def error_event_no_chunk)

lemma bridge_skips_history:
  "fst (chat_bridge to_value False ms)
     = (case dropWhile (\<lambda>m. case m of HistoryComplete _ _ \<Rightarrow> False | _ \<Rightarrow> True) ms of
          [] \<Rightarrow> [] | _ # rest \<Rightarrow> fst (chat_bridge to_value True rest))"
  by (induction ms) (auto split: server_message.split)

lemma chat_answer_eq:
  "chat_answer ms
     = (case dropWhile (\<lambda>m. case m of HistoryComplete _ _ \<Rightarrow> False | _ \<Rightarrow> True) ms of
          [] \<Rightarrow> [] | _ # rest \<Rightarrow> until_end rest)"
  by (induction ms rule: chat_answer.induct) auto

text \<open>
  C29: A chat over HTTP.  Whatever the bus sends to the server after the user's message, the
  client of the SDK hands over the chunks of the answer, each once and in order, to the one that
  ends it, when the network cuts the stream between characters.  An error of the bus ends the answer
  too, but is not reported: the client returns as if the answer were complete.
\<close>

theorem http_chat_delivers:
  assumes "\<forall>bs. decode (encode bs) = Some bs" and "\<forall>m \<in> set ms. message_ok m"
    and "events = fst (chat_bridge (chunk_to_json encode) False ms)"
    and "\<forall>v \<in> set events. parse (ser v) = Inr v \<and> LF \<notin> set (ser v)"
    and "\<forall>r \<in> set reads. is_utf8 r" and "concat reads = event_wire ser events"
  shows "snd (http_stream_chat (json_chunk_parser parse decode) cl sid t) (Inr (status, map Inr reads))
    = (map ordered (chat_answer ms), Inr ())"
proof -
  let ?pc = "json_chunk_parser parse decode"
  have "fst (drain sse_line (concat reads)) = map ser events"
    using drain_event_wire [of events ser] assms(4) by (simp add: assms(6))
  moreover have "fst (delivered ?pc is_stream_complete (map ser events)) = map ordered (chat_answer ms)"
  proof (cases "dropWhile (\<lambda>m. case m of HistoryComplete _ _ \<Rightarrow> False | _ \<Rightarrow> True) ms")
    case Nil
    then have "events = []" "chat_answer ms = []"
      by (simp_all only: assms(3) bridge_skips_history chat_answer_eq list.case)
    then show ?thesis by simp
  next
    case (Cons m rest)
    then have "set rest \<subseteq> set ms" by (metis set_dropWhileD list.set_intros(2) subsetI)
    then show ?thesis
      using bridge_delivers [OF assms(1), of rest parse ser] assms(2,4)
      by (auto simp only: assms(3) bridge_skips_history chat_answer_eq Cons list.case)
  qed
  ultimately show ?thesis
    by (simp add: http_stream_chat_def sse_client_function [OF assms(5)])
qed

text \<open>A code that could stand for base64: a character for each byte.\<close>

definition demo_encode :: "byte list \<Rightarrow> string" where
  "demo_encode = map (\<lambda>w. char_of (unat w))"

definition demo_decode :: "string \<Rightarrow> byte list option" where
  "demo_decode s = Some (map (\<lambda>c. of_nat (byte_val c)) s)"

lemma demo_code: "\<forall>bs. demo_decode (demo_encode bs) = Some bs"
proof -
  have "byte_val (char_of (unat (w :: byte))) = unat w" for w :: byte
    using unsigned_less [of w, where ?'a = nat] by (intro byte_val_char_of) simp
  then show ?thesis by (simp add: o_def demo_decode_def demo_encode_def)
qed

theorem http_chat_delivers_witness:
  "\<exists>parse. snd (http_stream_chat (json_chunk_parser parse demo_decode)
        \<lparr>hcl_base_url = ''http://h'', hcl_token = ''t''\<rparr> ''s'' ''hi'')
      (Inr (200, [Inr ''data: a'', Inr ([LF, LF] @ ''data: b'' @ [LF, LF])]))
    = ([ordered (new_text ''c'' 5 ''hello'' ''p'')], Inr ())"
proof -
  let ?ms = "[Chunk ''s'' (new_null ''old'' 0 ''p''), HistoryComplete ''s'' 1, Chunk ''s'' (new_text ''c'' 5 ''hello'' ''p''),
      Error None ''boom'' ''E'']"
  let ?e1 = "chunk_to_json demo_encode (new_text ''c'' 5 ''hello'' ''p'')"
  let ?e2 = "json_obj [(''type'', JStr ''error''), (''message'', JStr ''boom'')]"
  let ?ser = "\<lambda>v. if v = ?e2 then ''b'' else ''a''"
  let ?parse = "\<lambda>s. if s = ''b'' then Inr ?e2 else Inr ?e1 :: string + json"
  have c: "is_stream_complete (new_text ''c'' 5 ''hello'' ''p'') = False"
    by (simp add: is_stream_complete_def get_annotation_def)
  have ev: "fst (chat_bridge (chunk_to_json demo_encode) False ?ms) = [?e1, ?e2]" by (simp add: c)
  have ne: "?e1 \<noteq> ?e2"
    using chunk_json_roundtrip [OF demo_code, of "new_text ''c'' 5 ''hello'' ''p''"] error_event_no_chunk [of demo_decode "''boom''"]
    by (auto simp: is_i64_def new_text_def)
  have "snd (http_stream_chat (json_chunk_parser ?parse demo_decode) \<lparr>hcl_base_url = ''http://h'', hcl_token = ''t''\<rparr> ''s'' ''hi'')
      (Inr (200, map Inr [''data: a'', [LF, LF] @ ''data: b'' @ [LF, LF]])) = (map ordered (chat_answer ?ms), Inr ())"
  proof (rule http_chat_delivers [OF demo_code])
    show "\<forall>m \<in> set ?ms. message_ok m" by (simp add: message_ok_def is_i64_def new_text_def new_null_def kv_wf_def kv_keys_def)
    show "[?e1, ?e2] = fst (chat_bridge (chunk_to_json demo_encode) False ?ms)" using ev by simp
    show "\<forall>v \<in> set [?e1, ?e2]. ?parse (?ser v) = Inr v \<and> LF \<notin> set (?ser v)" using ne by simp
    show "\<forall>r \<in> set [''data: a'', [LF, LF] @ ''data: b'' @ [LF, LF]]. is_utf8 r" by (simp add: byte_val_def)
    show "concat [''data: a'', [LF, LF] @ ''data: b'' @ [LF, LF]] = event_wire ?ser [?e1, ?e2]"
      using ne by (simp add: event_wire_def sse_event_def BLANK_LINE_def)
  qed
  then show ?thesis by (intro exI [of _ ?parse]) (simp add: c)
qed

text \<open>
  A refusal looks like an empty answer: the status of a streaming request is not examined.
\<close>

lemma http_stream_ignores_status:
  "snd (http_stream_chat pc cl sid t) (Inr (401, [Inr ''Invalid token''])) = ([], Inr ())"
proof -
  have "find_sub DATA ''Invalid token'' = None" by (simp add: DATA_def)
  then have "sse_line ''Invalid token'' = None" by (simp add: sse_line_def)
  moreover have "is_utf8 ''Invalid token''" by (simp add: byte_val_def)
  moreover from calculation have "drain sse_line ''Invalid token'' = ([], ''Invalid token'')"
    by (subst sse_lines.drain_unfold) simp
  ultimately show ?thesis
    using sse_client_function [of "[''Invalid token'']" pc is_stream_complete]
    by (simp add: http_stream_chat_def)
qed

text \<open>
  Histories over HTTP lose references.  A session's history reaches the client with its
  chunks in order, except that every reference to a binary asset is missing: the server sends it in a
  shape of its own, under a content type that no chunk has, and the client passes over what it cannot
  read.
\<close>

theorem http_history_drops_refs:
  assumes "\<forall>bs. decode (encode bs) = Some bs" and "\<forall>c \<in> set cs. is_i64 (timestamp c)"
    and "resp_body (get_history (chunk_to_json encode) sid None (Inr cs)) = Some v" and "parse txt = Inr v"
  shows "snd (http_get_history parse decode cl sid) (Inr (200, Inr txt))
    = Inr (map ordered (filter (\<lambda>c. chunk_type c \<noteq> BinaryRef) cs))"
proof -
  have v: "v = json_obj [(''session_id'', JStr sid),
      (''chunks'', JArr (map (\<lambda>c. serialize_chunk (chunk_to_json encode) c False) cs))]"
    using assms(3) by (simp add: get_history_def json_response_def binary_refs_enabled_def)
  have "chunk_from_json decode (serialize_chunk (chunk_to_json encode) c False)
      = (if chunk_type c = BinaryRef then None else Some (ordered c))" if "c \<in> set cs" for c
    using that assms(2) chunk_json_roundtrip [OF assms(1), of c]
    by (auto simp: serialize_chunk_def chunk_from_json_def struct_fields_obj field_string_def content_type_from_json_def Let_def)
  then have "List.map_filter (chunk_from_json decode) (map (\<lambda>c. serialize_chunk (chunk_to_json encode) c False) cs)
      = map ordered (filter (\<lambda>c. chunk_type c \<noteq> BinaryRef) cs)"
    by (induction cs) (auto simp: List.map_filter_def)
  then show ?thesis
    by (simp add: http_get_history_def api_json_def error_for_status_def api_map_def assms(4) v json_index_def json_get_obj
        array_of_def)
qed

theorem http_history_drops_refs_witness:
  "\<exists>parse. snd (http_get_history parse demo_decode \<lparr>hcl_base_url = ''http://h'', hcl_token = ''t''\<rparr> ''s'') (Inr (200, Inr ''x''))
     = Inr [ordered (new_text ''a'' 0 ''hi'' ''p'')]"
proof -
  let ?cs = "[new_text ''a'' 0 ''hi'' ''p'', new_binary_ref ''b'' 0 ''image/png'' ''p'']"
  obtain v where v: "resp_body (get_history (chunk_to_json demo_encode) ''s'' None (Inr ?cs)) = Some v"
    by (simp add: get_history_def json_response_def)
  have "\<forall>c \<in> set ?cs. is_i64 (timestamp c)" by (simp add: is_i64_def new_text_def new_binary_ref_def)
  from http_history_drops_refs [OF demo_code this v, of "\<lambda>_. Inr v" "''x''"] show ?thesis
    by (intro exI [of _ "\<lambda>_. Inr v"]) (simp add: new_text_def new_binary_ref_def)
qed

text \<open>A listing of sessions is read back as the server wrote it.\<close>

lemma http_list_sessions_roundtrip:
  assumes "\<forall>i \<in> set infos. is_i64 (si_created_at i)"
    and "resp_body (list_sessions (Inr infos)) = Some v" and "parse txt = Inr v"
  shows "snd (http_list_sessions parse cl) (Inr (200, Inr txt)) = Inr infos"
proof -
  have s: "field_option as_str (Some (opt_json JStr x)) = Some x" for x
    by (rule field_option_opt_json) simp
  have "session_info_from_json (session_info_json i) = Some i" if "i \<in> set infos" for i
    using that assms(1)
    by (simp add: session_info_from_json_def session_info_json_def struct_fields_obj field_string_def s field_or_def
        string_list_roundtrip from_i64_int)
  then have "those (map session_info_from_json (map session_info_json infos)) = Some infos"
    by (induction infos) auto
  moreover have "v = JArr (map session_info_json infos)"
    using assms(2) by (simp add: list_sessions_def json_response_def)
  ultimately show ?thesis
    by (simp add: http_list_sessions_def api_json_def error_for_status_def api_decode_def assms(3) json_list_def)
qed

text \<open>Over a WebSocket the client reads the chunks and the end of the history, and no errors.\<close>

lemma ws_receives:
  assumes "\<forall>bs. decode (encode bs) = Some bs" and "message_ok m"
    and "ws_payload (chunk_to_json encode) m = Some v" and "parse txt = Inr v"
  shows "ws_receive parse decode sid txt
    = (case m of
         Chunk _ c \<Rightarrow> Some (Chunk sid (ordered c))
       | HistoryComplete _ n \<Rightarrow> Some (HistoryComplete sid n)
       | _ \<Rightarrow> None)"
  using assms(2-4)
  by (auto simp: ws_payload_def ws_receive_def json_index_def json_get_obj message_ok_def chunk_json_roundtrip [OF assms(1)]
      split: server_message.splits)

end
