(* ===== verification/Mcp_Bridge.thy ===== *)
theory Mcp_Bridge
  imports Streams Chunk_Json Services Http_Api
begin

text \<open>
  The bridge that offers bus services as MCP tools, \<open>cafe-mcp-bridge/src\<close>: the table of tools and its
  patterns (\<open>tools.rs\<close>), the handling of a request and the plan and outcome of a tool call (\<open>main.rs\<close>),
  and the two transports.  What a call does outside is an \<open>mcp_action\<close>; the outcomes of bus
  calls, of HTTP requests and of reading a directory are the fields of \<open>mcp_world\<close>.  A panic is an
  outcome of its own.
\<close>

section \<open>The table of tools\<close>

record tool_def =
  td_name :: string
  td_description :: string
  td_schema :: json
  td_method :: "string option"

definition param :: "string \<Rightarrow> string \<Rightarrow> string \<Rightarrow> string \<times> json" where
  "param k t d = (k, json_obj [(''type'', JStr t), (''description'', JStr d)])"

definition number_pair :: "string \<Rightarrow> string \<Rightarrow> string \<times> json" where
  "number_pair k d =
     (k, json_obj [(''type'', JStr ''array''), (''items'', json_obj [(''type'', JStr ''number'')]),
                   (''description'', JStr d)])"

definition tool ::
  "string \<Rightarrow> string \<Rightarrow> (string \<times> json) list \<Rightarrow> string list \<Rightarrow> string option \<Rightarrow> tool_def" where
  "tool name description params required meth =
     \<lparr>td_name = name, td_description = description,
      td_schema = json_obj [(''type'', JStr ''object''), (''properties'', json_obj params),
                            (''required'', JArr (map JStr required))],
      td_method = meth\<rparr>"

definition knowledge_tools :: "tool_def list" where
  "knowledge_tools =
     [tool ''kb_search''
        ''Search indexed documents by semantic similarity''
        [param ''namespace'' ''string'' ''Namespace to search'',
           param ''query'' ''string'' ''Search query'',
           param ''k'' ''integer'' ''Number of results (default 5)'']
        [''namespace'', ''query''] (Some ''knowledgebase.search''),
      tool ''kb_search_context''
        ''Search indexed documents and return neighboring chunks for context''
        [param ''namespace'' ''string'' ''Namespace to search'',
           param ''query'' ''string'' ''Search query'',
           param ''k'' ''integer'' ''Number of results (default 5)'',
           param ''context_chunks'' ''integer'' ''Neighbors per result (default 2)'']
        [''namespace'', ''query''] (Some ''knowledgebase.search_with_context''),
      tool ''kb_index''
        ''Index a document into the knowledge base (full + chunks automatically)''
        [param ''namespace'' ''string'' ''Namespace to store in'',
           param ''text'' ''string'' ''Document text content'',
           param ''doc_id'' ''string'' ''Optional document ID (auto-generated if omitted)'',
           param ''metadata'' ''string'' ''Optional JSON metadata string'',
           param ''chunk_size'' ''integer'' ''Chunk size in chars (default 512)'',
           param ''chunk_overlap'' ''integer'' ''Chunk overlap in chars (default 64)'']
        [''namespace'', ''text''] (Some ''knowledgebase.index''),
      tool ''kb_list''
        ''List all documents in a namespace''
        [param ''namespace'' ''string'' ''Namespace to list'']
        [''namespace''] (Some ''knowledgebase.list''),
      tool ''kb_delete''
        ''Delete a document and its chunks from the knowledge base''
        [param ''namespace'' ''string'' ''Namespace containing the document'',
           param ''doc_id'' ''string'' ''Document ID to delete'']
        [''namespace'', ''doc_id''] (Some ''knowledgebase.delete'')]"

definition speech_tools :: "tool_def list" where
  "speech_tools =
     [tool ''stt_transcribe''
        ''Transcribe audio to text using voicebox''
        [param ''audio'' ''string'' ''Base64-encoded WAV audio data'',
           param ''mime_type'' ''string'' ''MIME type (default audio/wav)'',
           param ''language'' ''string'' ''Language code (default en)'',
           param ''model'' ''string'' ''Model name (default whisper-small)'']
        [''audio''] (Some ''stt.invoke''),
      tool ''tts_synthesize''
        ''Synthesize text to speech using voicebox (returns chunk_id of generated audio)''
        [param ''text'' ''string'' ''Text to synthesize'',
           param ''profile'' ''string'' ''Voice profile name (default default)'',
           param ''engine'' ''string'' ''TTS engine (default qwen)'']
        [''text''] (Some ''tts.invoke'')]"

definition dice_tools :: "tool_def list" where
  "dice_tools =
     [tool ''dice_roll''
        ''Roll dice and return the total''
        [param ''count'' ''integer'' ''Number of dice (default 1)'',
           param ''sides'' ''integer'' ''Sides per die (default 6)'']
        [] (Some ''dice.roll'')]"

definition fetch_tools :: "tool_def list" where
  "fetch_tools =
     [tool ''web_fetch''
        ''Fetch a URL and return the text content with HTML stripped. Handled inline by cafe-mcp-bridge.''
        [param ''url'' ''string'' ''URL to fetch'']
        [''url''] None]"

definition task_tools :: "tool_def list" where
  "task_tools =
     [tool ''sheetbot_list_tasks''
        ''List all SheetBot tasks''
        []
        [] (Some ''sheetbot.list_tasks''),
      tool ''sheetbot_get_task''
        ''Get a SheetBot task by ID''
        [param ''id'' ''string'' ''Task ID'']
        [''id''] (Some ''sheetbot.get_task''),
      tool ''sheetbot_create_task''
        ''Create a new SheetBot task''
        [param ''script'' ''string'' ''Sheet script content'',
           param ''name'' ''string'' ''Optional task name'',
           param ''type'' ''string'' ''Optional task type'',
           param ''data'' ''string'' ''Optional JSON data string'']
        [''script''] (Some ''sheetbot.create_task''),
      tool ''sheetbot_update_task''
        ''Update an existing SheetBot task''
        [param ''id'' ''string'' ''Task ID'',
           param ''name'' ''string'' ''Optional new name'',
           param ''data'' ''string'' ''Optional new data JSON'']
        [''id''] (Some ''sheetbot.update_task''),
      tool ''sheetbot_complete_task''
        ''Mark a SheetBot task as complete''
        [param ''id'' ''string'' ''Task ID'']
        [''id''] (Some ''sheetbot.complete_task''),
      tool ''sheetbot_fail_task''
        ''Mark a SheetBot task as failed''
        [param ''id'' ''string'' ''Task ID'']
        [''id''] (Some ''sheetbot.fail_task''),
      tool ''sheetbot_delete_task''
        ''Delete a SheetBot task''
        [param ''id'' ''string'' ''Task ID'']
        [''id''] (Some ''sheetbot.delete_task''),
      tool ''sheetbot_accept_task''
        ''Accept a SheetBot task for processing''
        [param ''id'' ''string'' ''Task ID'']
        [''id''] (Some ''sheetbot.accept_task''),
      tool ''sheetbot_clone_task''
        ''Clone an existing SheetBot task''
        [param ''id'' ''string'' ''Task ID to clone'']
        [''id''] (Some ''sheetbot.clone_task''),
      tool ''sheetbot_get_next_task''
        ''Get the next pending SheetBot task''
        []
        [] (Some ''sheetbot.get_next_task'')]"

definition sheet_tools :: "tool_def list" where
  "sheet_tools =
     [tool ''sheetbot_list_sheets''
        ''List all SheetBot sheets''
        []
        [] (Some ''sheetbot.list_sheets''),
      tool ''sheetbot_get_sheet''
        ''Get a SheetBot sheet by ID''
        [param ''id'' ''string'' ''Sheet ID'']
        [''id''] (Some ''sheetbot.get_sheet''),
      tool ''sheetbot_upsert_sheet_data''
        ''Upsert data into a SheetBot sheet''
        [param ''id'' ''string'' ''Sheet ID'',
           param ''key'' ''string'' ''Row key'',
           param ''data'' ''string'' ''JSON data string to store'']
        [''id'', ''key'', ''data''] (Some ''sheetbot.upsert_sheet_data''),
      tool ''sheetbot_delete_sheet_row''
        ''Delete a row from a SheetBot sheet by key''
        [param ''id'' ''string'' ''Sheet ID'',
           param ''key'' ''string'' ''Row key to delete'']
        [''id'', ''key''] (Some ''sheetbot.delete_sheet_row''),
      tool ''sheetbot_list_library''
        ''List all SheetBot library scripts''
        []
        [] (Some ''sheetbot.list_library'')]"

definition image_tools :: "tool_def list" where
  "image_tools =
     [tool ''comfy_generate''
        ''Generate an image using ComfyUI from a text prompt''
        [param ''text'' ''string'' ''Image generation prompt'',
           param ''workflow_path'' ''string'' ''Optional workflow path'',
           param ''input_node'' ''string'' ''Optional input node ID'']
        [''text''] (Some ''comfy.invoke'')]"

definition light_tools :: "tool_def list" where
  "light_tools =
     [tool ''hue_register''
        ''Register a new application key with the Hue bridge. Press the link button on the bridge, then call again.''
        [param ''bridge_ip'' ''string'' ''Optional bridge IP (auto-discovered if omitted)'']
        [] (Some ''hue.register''),
      tool ''hue_list_lights''
        ''List all Hue lights with their current state''
        []
        [] (Some ''hue.list_lights''),
      tool ''hue_get_light''
        ''Get the current state of a single Hue light''
        [param ''light_id'' ''string'' ''Light ID'']
        [''light_id''] (Some ''hue.get_light''),
      tool ''hue_set_light''
        ''Set the state of a Hue light (on/off, brightness, color, color temperature)''
        [param ''light_id'' ''string'' ''Light ID'',
           param ''on'' ''boolean'' ''Turn on/off'',
           param ''brightness'' ''number'' ''Brightness 0-100'',
           number_pair ''color_xy'' ''CIE xy color as [x, y]'',
           param ''color_temp'' ''integer'' ''Color temperature in mirek (153-500)'',
           param ''transition_time'' ''integer'' ''Transition time in ms'']
        [''light_id''] (Some ''hue.set_light''),
      tool ''hue_list_groups''
        ''List all Hue grouped lights (rooms/zones)''
        []
        [] (Some ''hue.list_groups''),
      tool ''hue_get_group''
        ''Get the current state of a Hue grouped light (room/zone)''
        [param ''group_id'' ''string'' ''Group ID'']
        [''group_id''] (Some ''hue.get_group''),
      tool ''hue_set_group''
        ''Set the state of a Hue grouped light (room/zone): on/off, brightness, color, color temperature''
        [param ''group_id'' ''string'' ''Group ID'',
           param ''on'' ''boolean'' ''Turn on/off'',
           param ''brightness'' ''number'' ''Brightness 0-100'',
           number_pair ''color_xy'' ''CIE xy color as [x, y]'',
           param ''color_temp'' ''integer'' ''Color temperature in mirek (153-500)'',
           param ''transition_time'' ''integer'' ''Transition time in ms'']
        [''group_id''] (Some ''hue.set_group''),
      tool ''hue_list_scenes''
        ''List all Hue scenes''
        []
        [] (Some ''hue.list_scenes''),
      tool ''hue_activate_scene''
        ''Activate a Hue scene by scene ID''
        [param ''scene_id'' ''string'' ''Scene ID'']
        [''scene_id''] (Some ''hue.activate_scene'')]"


definition TOOLS :: "tool_def list" where
  "TOOLS = knowledge_tools @ speech_tools @ dice_tools @ fetch_tools @ task_tools @ sheet_tools
     @ image_tools @ light_tools"

text \<open>The management tools, which a switch of the process adds to the listing.\<close>

definition META_TOOLS :: "tool_def list" where
  "META_TOOLS =
     [tool ''cafe_meta_ping''
        ''Ping the cafe bus to verify connectivity''
        []
        [] None,
      tool ''cafe_meta_list_sessions''
        ''List all sessions on the cafe bus''
        []
        [] None,
      tool ''cafe_meta_get_history''
        ''Get the full chunk history for a session''
        [param ''session_id'' ''string'' ''Session ID'']
        [''session_id''] None,
      tool ''cafe_meta_publish_chunk''
        ''Publish a text chunk to a session''
        [param ''session_id'' ''string'' ''Session ID'',
           param ''text'' ''string'' ''Text content'']
        [''session_id'', ''text''] None,
      tool ''cafe_meta_delete_session''
        ''Delete a session from the bus''
        [param ''session_id'' ''string'' ''Session ID to delete'']
        [''session_id''] None,
      tool ''cafe_meta_fork_session''
        ''Create a new session copied verbatim from an existing session''
        [param ''parent_session_id'' ''string'' ''Session ID to fork from'',
           param ''session_id'' ''string'' ''New session ID (omit for auto-generated)'']
        [''parent_session_id''] None,
      tool ''cafe_meta_list_agents''
        ''List available agent configurations from agents/*.toml''
        []
        [] None,
      tool ''cafe_meta_list_models''
        ''List available LLM models from cafe-server''
        []
        [] None]"

section \<open>Patterns\<close>

text \<open>The recursion on positions of the two character vectors, as one on what is left of them.\<close>

fun glob_match :: "string list \<Rightarrow> string list \<Rightarrow> bool" where
  "glob_match [] name = (name = [])"
| "glob_match (p # ps) [] = list_all (\<lambda>c. c = ''*'') (p # ps)"
| "glob_match (p # ps) (n # ns) =
     (if p = ''*'' then glob_match ps (n # ns) \<or> glob_match (p # ps) ns
      else if p = ''?'' then glob_match ps ns
      else p = n \<and> glob_match ps ns)"

definition matches_pattern :: "string \<Rightarrow> string \<Rightarrow> bool" where
  "matches_pattern name pattern = (pattern = ''*'' \<or> glob_match (str_chars pattern) (str_chars name))"

definition filter_tools :: "string list \<Rightarrow> tool_def list" where
  "filter_tools patterns =
     (if patterns = [] then TOOLS
      else filter (\<lambda>t. list_ex (matches_pattern (td_name t)) patterns) TOOLS)"

section \<open>Tool calls\<close>

datatype mcp_action =
    PingBus
  | ListAllSessions
  | ReadHistory string
  | PublishText string string
  | RemoveSession string
  | ForkInto string string
  | ReadAgents
  | ReadModels
  | FetchPage string
  | CallService string "(string \<times> json) list"

datatype planned = Panics | Refused string | Performs mcp_action

text \<open>Indexing a JSON map panics at a key that is not there, before the check of the type.\<close>

definition needed :: "string \<Rightarrow> (string \<times> json) list \<Rightarrow> (string \<Rightarrow> planned) \<Rightarrow> planned" where
  "needed k args f =
     (case kv_get args k of
        None \<Rightarrow> Panics
      | Some v \<Rightarrow> (case as_str v of None \<Rightarrow> Refused (''missing '' @ k) | Some s \<Rightarrow> f s))"

definition plan_meta :: "string \<Rightarrow> string \<Rightarrow> (string \<times> json) list \<Rightarrow> planned" where
  "plan_meta uuid name args =
     (if name = ''cafe_meta_ping'' then Performs PingBus
      else if name = ''cafe_meta_list_sessions'' then Performs ListAllSessions
      else if name = ''cafe_meta_get_history''
      then needed ''session_id'' args (\<lambda>s. Performs (ReadHistory s))
      else if name = ''cafe_meta_publish_chunk''
      then needed ''session_id'' args (\<lambda>s. needed ''text'' args (\<lambda>t. Performs (PublishText s t)))
      else if name = ''cafe_meta_delete_session''
      then needed ''session_id'' args (\<lambda>s. Performs (RemoveSession s))
      else if name = ''cafe_meta_fork_session''
      then needed ''parent_session_id'' args (\<lambda>p. Performs (ForkInto p
             (case Option.bind (kv_get args ''session_id'') as_str of Some s \<Rightarrow> s | None \<Rightarrow> uuid)))
      else if name = ''cafe_meta_list_agents'' then Performs ReadAgents
      else if name = ''cafe_meta_list_models'' then Performs ReadModels
      else Refused (''unknown meta tool: '' @ name))"

definition plan_rpc :: "string \<Rightarrow> (string \<times> json) list \<Rightarrow> planned" where
  "plan_rpc name args =
     (case List.find (\<lambda>t. td_name t = name) TOOLS of
        None \<Rightarrow> Refused (''unknown tool: '' @ name)
      | Some t \<Rightarrow>
          (case td_method t of
             None \<Rightarrow> Refused (''tool '' @ name @ '' has no RPC method'')
           | Some meth \<Rightarrow> Performs (CallService meth args)))"

definition dispatch_tool :: "string \<Rightarrow> string \<Rightarrow> json \<Rightarrow> planned" where
  "dispatch_tool uuid name arguments =
     (let args = (case as_object arguments of Some m \<Rightarrow> m | None \<Rightarrow> [])
      in if name = ''web_fetch''
         then (case Option.bind (kv_get args ''url'') as_str of
                 None \<Rightarrow> Refused ''missing url'' | Some u \<Rightarrow> Performs (FetchPage u))
         else if strip_prefix ''cafe_meta_'' name \<noteq> None then plan_meta uuid name args
         else plan_rpc name args)"

text \<open>The tags of a page left out, on the bytes of its text: the two brackets are single bytes.\<close>

fun strip_markup :: "bool \<Rightarrow> string \<Rightarrow> string" where
  "strip_markup in_tag [] = []"
| "strip_markup in_tag (c # cs) =
     (if c = CHR ''<'' then strip_markup True cs
      else if c = CHR ''>'' then strip_markup False cs
      else if in_tag then strip_markup in_tag cs
      else c # strip_markup in_tag cs)"

section \<open>Asking a service\<close>

definition BRIDGE :: string where "BRIDGE = ''cafe-mcp-bridge''"

text \<open>The session of a call lives as long as the one subscription with its role.\<close>

definition call_session :: "string \<Rightarrow> client_message" where
  "call_session uuid =
     CreateSession (''_cafe_mcp_'' @ uuid) BRIDGE
       (default_session_config\<lparr>cfg_ephemeral := Some \<lparr>keepalive_secs = 0, count_role = Some ''mcp-rpc''\<rparr>\<rparr>)"

definition call_chunk ::
  "string \<Rightarrow> int \<Rightarrow> string \<Rightarrow> string \<Rightarrow> (string \<times> json) list \<Rightarrow> chunk" where
  "call_chunk uuid now_ms call_id meth args =
     with_retain 60 (as_transient (with_annotation CAFE_JSONRPC_REQUEST
       (request_to_json \<lparr>req_jsonrpc = ''2.0'', req_id = call_id, req_method = meth, req_params = JObj args\<rparr>)
       (new_null uuid now_ms BRIDGE)))"

text \<open>The subscription's messages, and whether they stopped because it closed or because a minute was over.\<close>

datatype feed_end = BusClosed | MinuteOver

fun drain_until_history :: "server_message list \<Rightarrow> server_message list" where
  "drain_until_history [] = []"
| "drain_until_history (m # ms) = (case m of HistoryComplete _ _ \<Rightarrow> ms | _ \<Rightarrow> drain_until_history ms)"

definition rpc_answer :: "(json \<Rightarrow> string) \<Rightarrow> json_rpc_response \<Rightarrow> string + string" where
  "rpc_answer pretty r =
     (case resp_result r of
        Some v \<Rightarrow> Inr (pretty v)
      | None \<Rightarrow>
          (case resp_error r of
             Some e \<Rightarrow> Inl (''RPC error ('' @ show_int (err_code e) @ ''): '' @ err_message e)
           | None \<Rightarrow> Inr ''{}''))"

fun wait_for_rpc_response ::
  "(json \<Rightarrow> string) \<Rightarrow> string \<Rightarrow> feed_end \<Rightarrow> server_message list \<Rightarrow> string + string" where
  "wait_for_rpc_response pretty call_id e [] =
     Inl (case e of BusClosed \<Rightarrow> ''bus disconnected while waiting for response''
                  | MinuteOver \<Rightarrow> ''timeout waiting for RPC response'')"
| "wait_for_rpc_response pretty call_id e (m # ms) =
     (case m of
        Chunk _ c \<Rightarrow>
          (case as_rpc_response c of
             Some r \<Rightarrow>
               if resp_id r = call_id then rpc_answer pretty r
               else wait_for_rpc_response pretty call_id e ms
           | None \<Rightarrow> wait_for_rpc_response pretty call_id e ms)
      | _ \<Rightarrow> wait_for_rpc_response pretty call_id e ms)"

text \<open>The outcomes of creating the session, of subscribing, with what was received, and of publishing.\<close>

record rpc_outcomes =
  ro_created :: "string + unit"
  ro_subscribed :: "string + server_message list \<times> feed_end"
  ro_published :: "string + unit"

definition rpc_dispatch :: "(json \<Rightarrow> string) \<Rightarrow> string \<Rightarrow> rpc_outcomes \<Rightarrow> string + string" where
  "rpc_dispatch pretty call_id o' =
     (case ro_created o' of
        Inl e \<Rightarrow> Inl e
      | Inr _ \<Rightarrow>
          (case ro_subscribed o' of
             Inl e \<Rightarrow> Inl e
           | Inr (ms, en) \<Rightarrow>
               (case ro_published o' of
                  Inl e \<Rightarrow> Inl e
                | Inr _ \<Rightarrow> wait_for_rpc_response pretty call_id en (drain_until_history ms))))"

section \<open>Outcomes\<close>

record mcp_world =
  mw_uuid :: string
  mw_call_id :: string
  mw_pretty :: "json \<Rightarrow> string"
  mw_compact :: "json \<Rightarrow> string"
  mw_encode :: "byte list \<Rightarrow> string"
  mw_ping :: "string + unit"
  mw_sessions :: "string + session_info list"
  mw_history :: "string \<Rightarrow> string + chunk list"
  mw_publish :: "string \<Rightarrow> string \<Rightarrow> string + unit"
  mw_delete :: "string \<Rightarrow> string + unit"
  mw_fork :: "string \<Rightarrow> string \<Rightarrow> string + string"
  mw_agent_files :: "string + (string \<times> string option) list"
  mw_agent_name :: "string \<Rightarrow> string option"
  mw_server_url :: "string option"
  mw_get :: "string \<Rightarrow> string + string"
  mw_rpc :: "string \<Rightarrow> (string \<times> json) list \<Rightarrow> rpc_outcomes"

text \<open>\<open>Path::extension\<close> of a file name: what follows the last dot, when something precedes it.\<close>

definition file_extension :: "string \<Rightarrow> string option" where
  "file_extension name =
     (let r = rev name; rest = dropWhile (\<lambda>c. c \<noteq> CHR ''.'') r
      in if name = ''..'' \<or> rest = [] \<or> tl rest = [] then None
         else Some (rev (takeWhile (\<lambda>c. c \<noteq> CHR ''.'') r)))"

text \<open>The files of the directory of agents, each with its text when it can be read.\<close>

definition listed_agents :: "(string \<Rightarrow> string option) \<Rightarrow> (string \<times> string option) list \<Rightarrow> json list" where
  "listed_agents agent_name files =
     List.map_filter
       (\<lambda>(file, txt).
          if file_extension file \<noteq> Some ''toml'' then None
          else map_option (\<lambda>n. json_obj [(''name'', JStr n), (''file'', JStr file)])
                 (Option.bind txt agent_name)) files"

definition perform :: "mcp_world \<Rightarrow> mcp_action \<Rightarrow> string + string" where
  "perform w a =
     (case a of
        PingBus \<Rightarrow>
          (case mw_ping w of
             Inl e \<Rightarrow> Inl e
           | Inr _ \<Rightarrow> Inr (mw_compact w (json_obj [(''status'', JStr ''ok''), (''pong'', JBool True)])))
      | ListAllSessions \<Rightarrow>
          (case mw_sessions w of
             Inl e \<Rightarrow> Inl e
           | Inr infos \<Rightarrow> Inr (mw_pretty w (JArr (map (\<lambda>i. json_obj [(''session_id'', JStr (si_session_id i)),
                                                     (''agent_id'', JStr (si_agent_id i))]) infos))))
      | ReadHistory s \<Rightarrow>
          (case mw_history w s of
             Inl e \<Rightarrow> Inl e
           | Inr cs \<Rightarrow> Inr (mw_pretty w (JArr (map (chunk_to_json (mw_encode w)) cs))))
      | PublishText s t \<Rightarrow>
          (case mw_publish w s t of
             Inl e \<Rightarrow> Inl e | Inr _ \<Rightarrow> Inr (mw_compact w (json_obj [(''published'', JBool True)])))
      | RemoveSession s \<Rightarrow>
          (case mw_delete w s of
             Inl e \<Rightarrow> Inl e | Inr _ \<Rightarrow> Inr (mw_compact w (json_obj [(''deleted'', JBool True)])))
      | ForkInto p s \<Rightarrow>
          (case mw_fork w p s of
             Inl e \<Rightarrow> Inl e
           | Inr i \<Rightarrow> Inr (mw_compact w (json_obj [(''id'', JStr i), (''parent_id'', JStr p)])))
      | ReadAgents \<Rightarrow>
          (case mw_agent_files w of
             Inl e \<Rightarrow> Inl e
           | Inr files \<Rightarrow> Inr (mw_pretty w (JArr (listed_agents (mw_agent_name w) files))))
      | ReadModels \<Rightarrow>
          mw_get w (trim_end (CHR ''/'') (case mw_server_url w of Some u \<Rightarrow> u | None \<Rightarrow> ''http://localhost:4000'')
                    @ ''/api/models'')
      | FetchPage u \<Rightarrow> (case mw_get w u of Inl e \<Rightarrow> Inl e | Inr page \<Rightarrow> Inr (strip_markup False page))
      | CallService meth args \<Rightarrow> rpc_dispatch (mw_pretty w) (mw_call_id w) (mw_rpc w meth args))"

section \<open>Requests\<close>

text \<open>A request is answered, passed over or fatal; with it comes what it made the bridge do.\<close>

datatype mcp_reply = Crashed | Silent | Reply json

definition mcp_result :: "json \<Rightarrow> json \<Rightarrow> json" where
  "mcp_result i result = json_obj [(''jsonrpc'', JStr ''2.0''), (''id'', i), (''result'', result)]"

definition mcp_error :: "json \<Rightarrow> int \<Rightarrow> string \<Rightarrow> json" where
  "mcp_error i code txt =
     json_obj [(''jsonrpc'', JStr ''2.0''), (''id'', i),
               (''error'', json_obj [(''code'', json_int code), (''message'', JStr txt)])]"

definition tool_content :: "string \<Rightarrow> bool \<Rightarrow> json" where
  "tool_content txt failed =
     json_obj [(''content'', JArr [json_obj [(''type'', JStr ''text''), (''text'', JStr txt)]]),
               (''isError'', JBool failed)]"

definition tool_entry :: "tool_def \<Rightarrow> json" where
  "tool_entry t =
     json_obj [(''name'', JStr (td_name t)), (''description'', JStr (td_description t)),
               (''inputSchema'', td_schema t)]"

definition visible_tools :: "tool_def list \<Rightarrow> string list option \<Rightarrow> tool_def list" where
  "visible_tools tools patterns =
     (case patterns of
        None \<Rightarrow> tools
      | Some ps \<Rightarrow> filter (\<lambda>t. list_ex (matches_pattern (td_name t)) ps) tools)"

definition str_field :: "string \<Rightarrow> json \<Rightarrow> string" where
  "str_field k v = (case as_str (json_index v k) of Some s \<Rightarrow> s | None \<Rightarrow> [])"

definition call_tool :: "mcp_world \<Rightarrow> json \<Rightarrow> json \<Rightarrow> mcp_reply \<times> mcp_action list" where
  "call_tool w i ps =
     (case dispatch_tool (mw_uuid w) (str_field ''name'' ps) (json_index ps ''arguments'') of
        Panics \<Rightarrow> (Crashed, [])
      | Refused e \<Rightarrow> (Reply (mcp_result i (tool_content (''Error: '' @ e) True)), [])
      | Performs a \<Rightarrow>
          (Reply (mcp_result i (case perform w a of
             Inr txt \<Rightarrow> tool_content txt False
           | Inl e \<Rightarrow> tool_content (''Error: '' @ e) True)), [a]))"

definition handle_mcp_request ::
  "mcp_world \<Rightarrow> tool_def list \<Rightarrow> string list option \<Rightarrow> json \<Rightarrow> mcp_reply \<times> mcp_action list" where
  "handle_mcp_request w tools patterns req =
     (let meth = str_field ''method'' req; i = json_index req ''id''
      in if meth = ''initialize'' then
           (Reply (mcp_result i (json_obj [(''protocolVersion'', JStr ''2024-11-05''),
              (''serverInfo'', json_obj [(''name'', JStr BRIDGE), (''version'', JStr ''0.1.0'')]),
              (''capabilities'', json_obj [(''tools'', JObj [])])])), [])
         else if meth = ''notifications/initialized'' then (Silent, [])
         else if meth = ''tools/list'' then
           (Reply (mcp_result i (json_obj [(''tools'', JArr (map tool_entry (visible_tools tools patterns)))])), [])
         else if meth = ''tools/call'' then call_tool w i (json_index req ''params'')
         else (Reply (mcp_error i (- 32601) (''Method not found: '' @ meth)), []))"

definition all_tools :: "bool \<Rightarrow> tool_def list" where
  "all_tools meta = TOOLS @ (if meta then META_TOOLS else [])"

section \<open>Standard input and output\<close>

definition stdio_patterns :: "string list \<Rightarrow> string list option" where
  "stdio_patterns ps = (if ''*'' \<in> set ps then None else Some ps)"

text \<open>The lines written, up to a panic; blank lines and lines that are not JSON are passed over.\<close>

fun stdio_run ::
  "(string \<Rightarrow> json option) \<Rightarrow> (nat \<Rightarrow> mcp_world) \<Rightarrow> tool_def list \<Rightarrow> string list option \<Rightarrow> nat \<Rightarrow> string list
    \<Rightarrow> string list" where
  "stdio_run parse w tools patterns n [] = []"
| "stdio_run parse w tools patterns n (line # lines) =
     (if str_trim line = [] then stdio_run parse w tools patterns n lines
      else (case parse line of
              None \<Rightarrow> stdio_run parse w tools patterns n lines
            | Some req \<Rightarrow>
                (case fst (handle_mcp_request (w n) tools patterns req) of
                   Crashed \<Rightarrow> []
                 | Silent \<Rightarrow> stdio_run parse w tools patterns (Suc n) lines
                 | Reply v \<Rightarrow> (mw_compact (w n) v @ [LF]) # stdio_run parse w tools patterns (Suc n) lines)))"

section \<open>HTTP\<close>

text \<open>Percent decoding that keeps what is malformed.\<close>

fun url_decode_bytes :: "string \<Rightarrow> string" where
  "url_decode_bytes [] = []"
| "url_decode_bytes (c # cs) =
     (if c = CHR ''%'' then
        (case cs of
           a # b # rest \<Rightarrow>
             (case hex_byte a b of
                Some n \<Rightarrow> char_of n # url_decode_bytes rest
              | None \<Rightarrow> c # a # b # url_decode_bytes rest)
         | [a] \<Rightarrow> [c, a]
         | [] \<Rightarrow> [c])
      else c # url_decode_bytes cs)"

definition url_decode :: "string \<Rightarrow> string" where
  "url_decode s = from_utf8_lossy (url_decode_bytes s)"

definition parse_tool_query :: "string option \<Rightarrow> string list" where
  "parse_tool_query query =
     (case query of
        None \<Rightarrow> []
      | Some q \<Rightarrow>
          List.map_filter
            (\<lambda>pair. case find_sub ''='' pair of
                      None \<Rightarrow> None
                    | Some i \<Rightarrow>
                        (let key = take i pair; val = drop (Suc i) pair
                         in if eq_ignore_ascii_case key ''tool'' \<and> val \<noteq> [] then Some (url_decode val) else None))
            (split_on (CHR ''&'') q))"

record sse_session =
  ss_queue :: "string list"
  ss_patterns :: "string list option"

type_synonym sse_sessions = "(string, sse_session) kv"

definition query_patterns :: "string option \<Rightarrow> string list option" where
  "query_patterns raw_query =
     (let ps = filter (\<lambda>p. p \<noteq> ''*'') (parse_tool_query raw_query)
      in if ps = [] then None else Some ps)"

text \<open>A connecting client gets a session, and an event that tells where to post.\<close>

definition build_sse_response ::
  "string \<Rightarrow> string option \<Rightarrow> sse_sessions \<Rightarrow> (string \<times> string) \<times> sse_sessions" where
  "build_sse_response uuid raw_query st =
     ((''endpoint'', ''/message?sessionId='' @ uuid),
      kv_insert uuid \<lparr>ss_queue = [], ss_patterns = query_patterns raw_query\<rparr> st)"

definition remove_session :: "string \<Rightarrow> sse_sessions \<Rightarrow> sse_sessions" where
  "remove_session sid st = kv_remove sid st"

text \<open>A post is answered before its reply is seen: the reply is an event of the stream.  A panic
  leaves the request without an answer.\<close>

definition message_handler ::
  "mcp_world \<Rightarrow> tool_def list \<Rightarrow> string \<Rightarrow> json \<Rightarrow> sse_sessions
    \<Rightarrow> http_response option \<times> mcp_action list \<times> sse_sessions" where
  "message_handler w tools sid body st =
     (case kv_get st sid of
        None \<Rightarrow> (Some (error_response 404 ''session not found''), [], st)
      | Some s \<Rightarrow>
          (case handle_mcp_request w tools (ss_patterns s) body of
             (Crashed, acts) \<Rightarrow> (None, acts, st)
           | (Silent, acts) \<Rightarrow> (Some (json_response 202 (json_obj [(''ok'', JBool True)])), acts, st)
           | (Reply v, acts) \<Rightarrow>
               (Some (json_response 202 (json_obj [(''ok'', JBool True)])), acts,
                kv_insert sid (s\<lparr>ss_queue := ss_queue s @ [mw_compact w v]\<rparr>) st)))"

section \<open>What patterns mean\<close>

text \<open>A pattern describes the names that can be cut into one piece for each of its characters.\<close>

definition glob_piece :: "string \<Rightarrow> string list \<Rightarrow> bool" where
  "glob_piece p w = (if p = ''*'' then True else if p = ''?'' then length w = 1 else w = [p])"

lemma glob_stars: "list_all (\<lambda>c. c = ''*'') ps \<longleftrightarrow> (\<exists>ws. concat ws = [] \<and> list_all2 glob_piece ps ws)"
proof
  assume "list_all (\<lambda>c. c = ''*'') ps"
  then have "list_all2 glob_piece ps (map (\<lambda>_. []) ps)" by (induction ps) (simp_all add: glob_piece_def)
  then show "\<exists>ws. concat ws = [] \<and> list_all2 glob_piece ps ws"
    by (intro exI [of _ "map (\<lambda>_. []) ps"]) simp
next
  assume "\<exists>ws. concat ws = [] \<and> list_all2 glob_piece ps ws"
  then obtain ws where "list_all2 glob_piece ps ws" "\<forall>w \<in> set ws. w = []" by auto
  then show "list_all (\<lambda>c. c = ''*'') ps"
    by (induction rule: list_all2_induct) (auto simp: glob_piece_def split: if_splits)
qed

text \<open>
  Patterns of tool names.  The backtracking match accepts exactly the names that the pattern
  describes: a star stands for any sequence of characters, a question mark for any one, and every other
  character for itself.
\<close>

theorem glob_match_spec:
  "glob_match ps name \<longleftrightarrow> (\<exists>ws. concat ws = name \<and> list_all2 glob_piece ps ws)"
proof (induction ps name rule: glob_match.induct)
  case (1 name)
  then show ?case by auto
next
  case (2 p ps)
  show ?case using glob_stars [of "p # ps"] by simp
next
  case (3 p ps n ns)
  show ?case
  proof (cases "p = ''*''")
    case True
    have "(\<exists>ws. concat ws = n # ns \<and> list_all2 glob_piece (p # ps) ws)
        \<longleftrightarrow> (\<exists>ws. concat ws = n # ns \<and> list_all2 glob_piece ps ws)
          \<or> (\<exists>ws. concat ws = ns \<and> list_all2 glob_piece (p # ps) ws)" (is "?A \<longleftrightarrow> ?B \<or> ?C")
    proof
      assume ?A
      then obtain w ws where w: "w @ concat ws = n # ns" "list_all2 glob_piece ps ws"
        by (auto simp: list_all2_Cons1)
      show "?B \<or> ?C"
      proof (cases w)
        case Nil
        with w show ?thesis by auto
      next
        case (Cons m w')
        with w True show ?thesis by (intro disjI2 exI [of _ "w' # ws"]) (simp add: glob_piece_def)
      qed
    next
      assume "?B \<or> ?C"
      then show ?A
      proof
        assume ?B
        then obtain ws where "concat ws = n # ns" "list_all2 glob_piece ps ws" by blast
        with True show ?A by (intro exI [of _ "[] # ws"]) (simp add: glob_piece_def)
      next
        assume ?C
        then obtain w ws where "w @ concat ws = ns" "list_all2 glob_piece ps ws" by (auto simp: list_all2_Cons1)
        with True show ?A by (intro exI [of _ "(n # w) # ws"]) (simp add: glob_piece_def)
      qed
    qed
    with True 3 show ?thesis by simp
  next
    case False
    have "(\<exists>ws. concat ws = n # ns \<and> list_all2 glob_piece (p # ps) ws)
        \<longleftrightarrow> (p = ''?'' \<or> p = n) \<and> (\<exists>ws. concat ws = ns \<and> list_all2 glob_piece ps ws)" (is "?A \<longleftrightarrow> ?B")
    proof
      assume ?A
      then show ?B
        using False by (auto simp: list_all2_Cons1 glob_piece_def length_Suc_conv split: if_splits)
    next
      assume ?B
      then obtain ws where "p = ''?'' \<or> p = n" "concat ws = ns" "list_all2 glob_piece ps ws" by blast
      with False show ?A by (intro exI [of _ "[n] # ws"]) (auto simp: glob_piece_def)
    qed
    with False 3 show ?thesis by auto
  qed
qed

section \<open>The table\<close>

lemmas tool_table =
  knowledge_tools_def speech_tools_def dice_tools_def fetch_tools_def task_tools_def sheet_tools_def
  image_tools_def light_tools_def

lemma tool_fields [simp]: "td_name (tool n d ps rs m) = n" "td_method (tool n d ps rs m) = m"
  by (simp_all add: tool_def)

definition required_params :: "tool_def \<Rightarrow> string list" where
  "required_params t =
     (case json_get (td_schema t) ''required'' of Some (JArr xs) \<Rightarrow> List.map_filter as_str xs | _ \<Rightarrow> [])"

lemma required_params_tool [simp]: "required_params (tool n d ps rs m) = rs"
  by (simp add: required_params_def tool_def json_obj_def kv_simps comp_def List.map_filter_def)

lemma tool_names_distinct: "distinct (map td_name TOOLS)"
  by (simp add: TOOLS_def tool_table)

lemma find_distinct: "distinct (map f xs) \<Longrightarrow> x \<in> set xs \<Longrightarrow> List.find (\<lambda>y. f y = f x) xs = Some x"
  by (induction xs) (auto simp: rev_image_eqI)

lemma tools_have_methods:
  "t \<in> set TOOLS \<Longrightarrow> td_name t \<noteq> ''web_fetch'' \<Longrightarrow> strip_prefix ''cafe_meta_'' (td_name t) = None \<and> td_method t \<noteq> None"
  by (simp add: TOOLS_def tool_table) (elim disjE; simp)

text \<open>
  Every tool on offer can be called.  For each tool of the two tables, a call with texts for
  the parameters its schema requires is carried out: it is neither unknown nor without a handler, and
  no argument is missed.
\<close>

theorem offered_tools_callable:
  assumes "t \<in> set (all_tools True)"
    and "\<forall>k \<in> set (required_params t). \<exists>s. kv_get args k = Some (JStr s)"
  shows "\<exists>a. dispatch_tool uuid (td_name t) (JObj args) = Performs a"
proof (cases "t \<in> set TOOLS")
  case True
  show ?thesis
  proof (cases "td_name t = ''web_fetch''")
    case web: True
    then have "t = hd fetch_tools"
      using find_distinct [OF tool_names_distinct True] find_distinct [OF tool_names_distinct, of "hd fetch_tools"]
      by (simp add: TOOLS_def fetch_tools_def)
    then show ?thesis using assms(2) by (auto simp: dispatch_tool_def fetch_tools_def)
  next
    case False
    obtain m where "td_method t = Some m" using tools_have_methods [OF True False] by auto
    then show ?thesis
      using tools_have_methods [OF True False] find_distinct [OF tool_names_distinct True] False
      by (simp add: dispatch_tool_def plan_rpc_def)
  qed
next
  case False
  then have "t \<in> set META_TOOLS" using assms(1) by (simp add: all_tools_def)
  then show ?thesis
    using assms(2)
    by (simp add: META_TOOLS_def) (elim disjE; auto simp: dispatch_tool_def plan_meta_def needed_def)
qed

theorem offered_tools_callable_witness:
  "\<exists>a. dispatch_tool ''u'' ''dice_roll'' (JObj []) = Performs a"
  using offered_tools_callable [of "hd dice_tools" "[]" "''u''"]
  by (simp add: all_tools_def TOOLS_def dice_tools_def)

section \<open>Patterns are no guard\<close>

definition call_request :: "json \<Rightarrow> string \<Rightarrow> json \<Rightarrow> json" where
  "call_request i name arguments =
     json_obj [(''jsonrpc'', JStr ''2.0''), (''id'', i), (''method'', JStr ''tools/call''),
               (''params'', json_obj [(''name'', JStr name), (''arguments'', arguments)])]"

lemma handle_call:
  "handle_mcp_request w tools patterns (call_request i name arguments)
     = call_tool w i (json_obj [(''name'', JStr name), (''arguments'', arguments)])"
  by (simp add: handle_mcp_request_def call_request_def str_field_def json_index_def json_obj_def kv_simps Let_def)

lemma call_tool_plan:
  "call_tool w i (json_obj [(''name'', JStr name), (''arguments'', arguments)])
     = (case dispatch_tool (mw_uuid w) name arguments of
          Panics \<Rightarrow> (Crashed, [])
        | Refused e \<Rightarrow> (Reply (mcp_result i (tool_content (''Error: '' @ e) True)), [])
        | Performs a \<Rightarrow>
            (Reply (mcp_result i (case perform w a of
               Inr txt \<Rightarrow> tool_content txt False | Inl e \<Rightarrow> tool_content (''Error: '' @ e) True)), [a]))"
  by (simp add: call_tool_def str_field_def json_index_def json_obj_def kv_simps)


text \<open>
  A missing argument ends the bridge.  On standard input, a call of a management tool that
  leaves out the session panics, although the code has a message for the case: nothing is written
  for it or for any line after it.
\<close>

theorem missing_argument_ends_bridge:
  assumes "str_trim line \<noteq> []" and "parse line = Some (call_request i name (JObj []))"
    and "name \<in> {''cafe_meta_get_history'', ''cafe_meta_publish_chunk'', ''cafe_meta_delete_session'', ''cafe_meta_fork_session''}"
  shows "stdio_run parse w tools patterns n (line # lines) = []"
  using assms
  by (auto simp: handle_call call_tool_plan dispatch_tool_def plan_meta_def needed_def)

theorem missing_argument_ends_bridge_witness:
  "\<forall>w. stdio_run (\<lambda>_. Some (call_request JNull ''cafe_meta_get_history'' (JObj []))) w [] None 0 [''{'', ''{''] = []"
proof -
  have "str_trim ''{'' = ''{''"
    by (rule str_trim_plain) (simp_all add: plain_char_def is_continuation_def byte_val_def char_is_whitespace_def)
  then show ?thesis
    by (intro allI missing_argument_ends_bridge [where i = JNull and name = "''cafe_meta_get_history''"]) simp_all
qed

section \<open>A call answered by a service\<close>

text \<open>What a subscriber sees of a published chunk: the mark of the connection that published it.\<close>

definition seen :: "string \<Rightarrow> chunk \<Rightarrow> chunk" where
  "seen conn c = with_annotation CAFE_SOURCE_CONNECTION (JStr conn) c"

lemma call_chunk_request:
  "as_rpc_request (seen conn (call_chunk u t call_id meth args))
     = Some \<lparr>req_jsonrpc = ''2.0'', req_id = call_id, req_method = meth, req_params = JObj args\<rparr>"
  "as_rpc_response (seen conn (call_chunk u t call_id meth args)) = None"
  by (simp_all add: seen_def call_chunk_def with_retain_def as_transient_def as_rpc_request_def as_rpc_response_def
      get_annotation_def request_roundtrip)

lemma response_seen:
  "rpc_response_wf r \<Longrightarrow> as_rpc_response (seen conn (response_for r c)) = Some r"
  by (simp add: seen_def response_for_def with_retain_def as_transient_def as_rpc_response_def get_annotation_def
      response_roundtrip)

text \<open>What the service receives in a session made for one request.\<close>

definition asked :: "string \<Rightarrow> chunk \<Rightarrow> server_message list" where
  "asked sid c = [HistoryComplete sid 0, Chunk sid c]"

text \<open>
  C26: Rolling dice from outside.  A call of the dice tool reaches the dice service in the session
  made for it, and what the service publishes there becomes the result of the call: the total of the
  dice that were rolled, or the reason why there were none.
\<close>

theorem dice_tool_call:
  "dispatch_tool uuid ''dice_roll'' (JObj args) = Performs (CallService ''dice.roll'' args)
   \<and> rpc_dispatch pretty call_id
       \<lparr>ro_created = Inr (),
        ro_subscribed = Inr (asked sid (seen conn (call_chunk u t call_id ''dice.roll'' args))
          @ map (\<lambda>c. Chunk sid (seen conn' c))
              (dice_session gen ids t (asked sid (seen conn (call_chunk u t call_id ''dice.roll'' args)))), en),
        ro_published = Inr ()\<rparr>
     = (case roll_dice (gen 0) (u64_or 1 (json_index (JObj args) ''count'')) (u64_or 6 (json_index (JObj args) ''sides'')) of
          Inr rolls \<Rightarrow> Inr (pretty (json_obj [(''result'', json_i64 (dice_total rolls))]))
        | Inl e \<Rightarrow> Inl (''RPC error (-32602): invalid dice parameters: '' @ e))"
proof
  have "List.find (\<lambda>t. td_name t = ''dice_roll'') TOOLS = Some (hd dice_tools)"
    by (simp add: TOOLS_def tool_table)
  then show "dispatch_tool uuid ''dice_roll'' (JObj args) = Performs (CallService ''dice.roll'' args)"
    by (simp add: dispatch_tool_def plan_rpc_def dice_tools_def)
  let ?c = "seen conn (call_chunk u t call_id ''dice.roll'' args)"
  let ?rolled = "roll_dice (gen 0) (u64_or 1 (json_index (JObj args) ''count'')) (u64_or 6 (json_index (JObj args) ''sides''))"
  have session: "dice_session gen ids t (asked sid ?c)
      = dice_handler gen ids t 0 \<lparr>req_jsonrpc = ''2.0'', req_id = call_id, req_method = ''dice.roll'', req_params = JObj args\<rparr>"
    by (simp add: dice_session_def asked_def call_chunk_request)
  have code: "show_int INVALID_PARAMS = ''-32602''"
    by (simp add: show_int_def INVALID_PARAMS_def show_nat.simps char_of_def bit_simps)
  show "rpc_dispatch pretty call_id
       \<lparr>ro_created = Inr (), ro_subscribed = Inr (asked sid ?c @ map (\<lambda>c. Chunk sid (seen conn' c)) (dice_session gen ids t (asked sid ?c)), en),
        ro_published = Inr ()\<rparr>
     = (case ?rolled of
          Inr rolls \<Rightarrow> Inr (pretty (json_obj [(''result'', json_i64 (dice_total rolls))]))
        | Inl e \<Rightarrow> Inl (''RPC error (-32602): invalid dice parameters: '' @ e))"
    unfolding session
    by (cases ?rolled)
      (simp_all add: rpc_dispatch_def asked_def call_chunk_request dice_handler_def Let_def response_seen
        dice_responses_wf rpc_answer_def code, simp_all add: rpc_response_ok_def rpc_response_err_def code)
qed

section \<open>The HTTP transport\<close>

text \<open>
  Sessions of the HTTP transport are apart.  A post acts and answers for its own session only:
  the others keep their queues and patterns, a reply is appended to the queue of the session, and a
  post to a session that does not exist does nothing.
\<close>

theorem mcp_sessions_apart:
  "case message_handler w tools sid body st of
     (resp, acts, st') \<Rightarrow>
       (\<forall>other. other = sid \<or> kv_get st' other = kv_get st other)
       \<and> (if kv_get st sid = None then resp = Some (error_response 404 ''session not found'') \<and> acts = [] \<and> st' = st
          else \<exists>s replies. kv_get st sid = Some s \<and> length replies \<le> 1
            \<and> kv_get st' sid = Some (s\<lparr>ss_queue := ss_queue s @ replies\<rparr>))"
proof (cases "kv_get st sid")
  case None
  then show ?thesis by (simp add: message_handler_def)
next
  case (Some s)
  obtain r acts where r: "handle_mcp_request w tools (ss_patterns s) body = (r, acts)" by (cases "handle_mcp_request w tools (ss_patterns s) body")
  show ?thesis
  proof (cases r)
    case (Reply v)
    then have "message_handler w tools sid body st
        = (Some (json_response 202 (json_obj [(''ok'', JBool True)])), acts,
           kv_insert sid (s\<lparr>ss_queue := ss_queue s @ [mw_compact w v]\<rparr>) st)"
      by (simp add: message_handler_def Some r)
    with Some show ?thesis by (auto simp: kv_simps intro: exI [of _ "[mw_compact w v]"])
  qed (auto simp: message_handler_def Some r intro: exI [of _ "[]"])
qed

text \<open>
  Over HTTP the pattern for everything is dropped from the query, so together with another one
  it narrows the list, where on the command line it opens it.
\<close>

lemma star_narrows_over_http:
  "query_patterns (Some ''tool=*&tool=kb_*'') = Some [''kb_*'']"
  "stdio_patterns [''*'', ''kb_*''] = None"
proof -
  have "url_decode x = x" if "\<forall>c \<in> set x. byte_val c < 128 \<and> c \<noteq> CHR ''%''" for x
  proof -
    have "url_decode_bytes x = x" using that by (induction x) auto
    then show ?thesis using that by (simp add: url_decode_def from_utf8_lossy_ascii)
  qed
  from this [of "''*''"] this [of "''kb_*''"]
  show "query_patterns (Some ''tool=*&tool=kb_*'') = Some [''kb_*'']"
    by (simp add: query_patterns_def parse_tool_query_def List.map_filter_def byte_val_def eq_ignore_ascii_case_def Let_def)
qed (simp add: stdio_patterns_def)

definition hex_char :: "nat \<Rightarrow> char" where
  "hex_char n = char_of (if n < 10 then 48 + n else 55 + n)"

definition url_escape :: "string \<Rightarrow> string" where
  "url_escape s = concat (map (\<lambda>c. [CHR ''%'', hex_char (byte_val c div 16), hex_char (byte_val c mod 16)]) s)"

text \<open>Text that was escaped byte by byte is decoded to itself.\<close>

lemma hex_char_val:
  assumes "n < 16"
  shows "hex_digit_val (hex_char n) = Some n" and "hex_char n \<noteq> CHR ''+''"
proof -
  have b: "byte_val (hex_char n) = (if n < 10 then 48 + n else 55 + n)"
    using assms by (simp add: hex_char_def byte_val_char_of)
  then show "hex_digit_val (hex_char n) = Some n" using assms by (simp add: hex_digit_val_def)
  have "byte_val (CHR ''+'') = 43" by (simp add: byte_val_def)
  moreover have "byte_val (hex_char n) \<noteq> 43" unfolding b by simp
  ultimately show "hex_char n \<noteq> CHR ''+''" by metis
qed

lemma url_escape_roundtrip: "is_utf8 s \<Longrightarrow> url_decode (url_escape s) = s"
proof -
  have "hex_byte (hex_char (n div 16)) (hex_char (n mod 16)) = Some n" if "n < 256" for n
    using that hex_char_val [of "n div 16"] hex_char_val [of "n mod 16"] by (simp add: hex_byte_def)
  moreover have "byte_val c < 256" for c by (simp add: byte_val_def)
  moreover have "char_of (byte_val c) = c" for c by (simp add: byte_val_def)
  ultimately have "url_decode_bytes (url_escape s) = s" by (induction s) (simp_all add: url_escape_def)
  then show "is_utf8 s \<Longrightarrow> url_decode (url_escape s) = s" by (simp add: url_decode_def from_utf8_lossy_valid)
qed

end
