(* ===== verification/Mcp_Client.thy ===== *)
theory Mcp_Client
  imports Streams Chunks Envelope
begin

text \<open>
  The client of MCP servers, \<open>cafe-mcp-client/src/main.rs\<close>: starting the servers and collecting
  their tools, the exchange over the lines of a server process, the reading of results, and the task
  of a session.  A server is the queue of lines it has written that nobody has read; what arrives
  during an exchange, and whether its output closed, is an argument.  JSON text is written by
  the fields of \<open>mcp_codec\<close> and read by \<open>parse\<close>.
\<close>

section \<open>Servers\<close>

record mcp_server_config =
  mc_name :: string
  mc_command :: string
  mc_args :: "string list"

record mcp_server =
  mv_sent :: "json list"
  mv_unread :: "string list"

record mcp_registry =
  mr_servers :: "(string, mcp_server) kv"
  mr_tool_map :: "(string, string) kv"

text \<open>The outcome of writing a request, the lines that come before the deadline, and whether the output
  then closed.\<close>

record arrival =
  ar_written :: "string + unit"
  ar_lines :: "string list"
  ar_closed :: bool

definition jsonrpc_message :: "64 word \<Rightarrow> string \<Rightarrow> json \<Rightarrow> json" where
  "jsonrpc_message i meth params =
     json_obj [(''jsonrpc'', JStr ''2.0''), (''id'', JNum (PosInt (unat i))), (''method'', JStr meth),
               (''params'', params)]"

text \<open>Lines are taken until one is a value with the expected id; the others are lost.\<close>

fun read_lines :: "(string \<Rightarrow> json option) \<Rightarrow> 64 word \<Rightarrow> string list \<Rightarrow> json option \<times> string list" where
  "read_lines parse i [] = (None, [])"
| "read_lines parse i (l # ls) =
     (case parse l of
        Some v \<Rightarrow>
          if Option.bind (json_get v ''id'') as_u64 = Some (unat i) then (Some v, ls) else read_lines parse i ls
      | None \<Rightarrow> read_lines parse i ls)"

definition exchange ::
  "(string \<Rightarrow> json option) \<Rightarrow> 64 word \<Rightarrow> string \<Rightarrow> json \<Rightarrow> arrival \<Rightarrow> mcp_server \<Rightarrow> (string + json) \<times> mcp_server" where
  "exchange parse i meth params a s =
     (case ar_written a of
        Inl e \<Rightarrow> (Inl e, s\<lparr>mv_unread := mv_unread s @ ar_lines a\<rparr>)
      | Inr _ \<Rightarrow>
          (let (found, rest) = read_lines parse i (mv_unread s @ ar_lines a);
               s' = s\<lparr>mv_sent := mv_sent s @ [jsonrpc_message i meth params], mv_unread := rest\<rparr>
           in case found of
                Some v \<Rightarrow> (Inr v, s')
              | None \<Rightarrow> (Inl (if ar_closed a then ''MCP server disconnected'' else ''timeout waiting for MCP response''), s')))"

text \<open>Each configured server is started, greeted and asked for its tools; the first failure ends the process.\<close>

definition tool_names :: "json \<Rightarrow> string list" where
  "tool_names resp =
     (case json_index (json_index resp ''result'') ''tools'' of
        JArr ts \<Rightarrow> List.map_filter (\<lambda>t. as_str (json_index t ''name'')) ts
      | _ \<Rightarrow> [])"

fun start_servers ::
  "(string \<Rightarrow> json option) \<Rightarrow> (mcp_server_config \<Rightarrow> string + arrival \<times> arrival) \<Rightarrow> mcp_server_config list
    \<Rightarrow> mcp_registry \<Rightarrow> string + mcp_registry" where
  "start_servers parse run [] reg = Inr reg"
| "start_servers parse run (cfg # cfgs) reg =
     (case run cfg of
        Inl e \<Rightarrow> Inl e
      | Inr (a1, a2) \<Rightarrow>
          (case exchange parse 1 ''initialize'' (JObj []) a1 \<lparr>mv_sent = [], mv_unread = []\<rparr> of
             (Inl e, _) \<Rightarrow> Inl e
           | (Inr _, s1) \<Rightarrow>
               (case exchange parse 2 ''tools/list'' (JObj []) a2 s1 of
                  (Inl e, _) \<Rightarrow> Inl e
                | (Inr resp, s2) \<Rightarrow>
                    start_servers parse run cfgs
                      \<lparr>mr_servers = kv_insert (mc_name cfg) s2 (mr_servers reg),
                       mr_tool_map = fold (\<lambda>t. kv_insert t (mc_name cfg)) (tool_names resp) (mr_tool_map reg)\<rparr>)))"

section \<open>Results\<close>

definition extract_text :: "json \<Rightarrow> string option" where
  "extract_text result =
     (case json_get result ''content'' of
        Some (JArr xs) \<Rightarrow>
          (let t = concat (List.map_filter
                 (\<lambda>x. if Option.bind (json_get x ''type'') as_str = Some ''text''
                      then Option.bind (json_get x ''text'') as_str else None) xs)
           in if t = [] then None else Some t)
      | _ \<Rightarrow> None)"

definition build_output :: "(string \<Rightarrow> json option) \<Rightarrow> json \<Rightarrow> json" where
  "build_output parse result =
     (case json_get result ''content'' of
        Some (JArr xs) \<Rightarrow>
          (case (case xs of
                   [] \<Rightarrow> None
                 | x # _ \<Rightarrow> if Option.bind (json_get x ''type'') as_str = Some ''text''
                             then Option.bind (json_get x ''text'') as_str else None) of
             Some t \<Rightarrow> (case parse t of Some v \<Rightarrow> v | None \<Rightarrow> json_obj [(''text'', JStr t)])
           | None \<Rightarrow> json_obj [(''content'', JArr xs)])
      | _ \<Rightarrow> result)"

definition parse_tool_result ::
  "(string \<Rightarrow> json option) \<Rightarrow> (json \<Rightarrow> string) \<Rightarrow> json \<Rightarrow> string \<Rightarrow> tool_result" where
  "parse_tool_result parse ser resp name =
     (case json_get resp ''error'' of
        Some e \<Rightarrow>
          \<lparr>res_name = name, res_output = JNull,
           res_error = Some (case e of JStr s \<Rightarrow> s | _ \<Rightarrow> ser e), res_provider = Some ''mcp''\<rparr>
      | None \<Rightarrow>
          (let result = json_index resp ''result''
           in if Option.bind (json_get result ''isError'') as_bool = Some True
              then \<lparr>res_name = name, res_output = JNull,
                    res_error = Some (case extract_text result of Some t \<Rightarrow> t | None \<Rightarrow> []),
                    res_provider = Some ''mcp''\<rparr>
              else \<lparr>res_name = name, res_output = build_output parse result, res_error = None,
                    res_provider = Some ''mcp''\<rparr>))"

section \<open>The task of a session\<close>

definition MCP_CLIENT :: string where "MCP_CLIENT = ''com.nominal.cafe-mcp-client''"

record mcp_codec =
  mx_parse :: "string \<Rightarrow> json option"
  mx_compact :: "json \<Rightarrow> string"
  mx_pretty :: "json \<Rightarrow> string"
  mx_ids :: "nat \<Rightarrow> string"
  mx_now :: int

definition result_chunk :: "mcp_codec \<Rightarrow> nat \<Rightarrow> tool_result \<Rightarrow> chunk" where
  "result_chunk x n r =
     with_retain 60 (as_transient (with_annotation CAFE_TOOL_RESULT (tool_result_to_json r)
       (new_null (mx_ids x (2 * n)) (mx_now x) MCP_CLIENT)))"

definition fenced :: "string \<Rightarrow> string" where
  "fenced s = LF # ''```'' @ LF # s @ LF # ''```''"

definition report_chunk :: "mcp_codec \<Rightarrow> nat \<Rightarrow> tool_call \<Rightarrow> tool_result \<Rightarrow> chunk" where
  "report_chunk x n call r =
     with_annotation CHAT_ROLE (JStr ''assistant'')
       (new_text (mx_ids x (2 * n + 1)) (mx_now x)
         (case res_error r of
            Some e \<Rightarrow> ''MCP tool failed: '' @ call_name call @ fenced e
          | None \<Rightarrow> ''MCP tool completed: '' @ call_name call @ fenced (mx_pretty x (res_output r))) MCP_CLIENT)"

text \<open>A session's task has a counter of its own for the ids of its calls, which starts at 4.\<close>

record mcp_session =
  mt_next_id :: "64 word"
  mt_live :: bool
  mt_calls :: nat

definition mcp_session_new :: mcp_session where
  "mcp_session_new = \<lparr>mt_next_id = 4, mt_live = False, mt_calls = 0\<rparr>"

text \<open>A message of the session: the chunks published for it, the task and the registry afterwards.\<close>

definition mcp_message ::
  "mcp_codec \<Rightarrow> arrival \<Rightarrow> server_message \<Rightarrow> mcp_session \<times> mcp_registry
    \<Rightarrow> chunk list \<times> mcp_session \<times> mcp_registry" where
  "mcp_message x a m st =
     (let (t, reg) = st in
      case m of
        HistoryComplete _ _ \<Rightarrow> ([], t\<lparr>mt_live := True\<rparr>, reg)
      | Chunk _ c \<Rightarrow>
          if \<not> mt_live t then ([], t, reg)
          else (case as_tool_call c of
             None \<Rightarrow> ([], t, reg)
           | Some call \<Rightarrow>
               if call_provider call \<noteq> Some ''mcp'' then ([], t, reg)
               else (case Option.bind (kv_get (mr_tool_map reg) (call_name call))
                            (\<lambda>name. map_option (Pair name) (kv_get (mr_servers reg) name)) of
                  None \<Rightarrow> ([], t, reg)
                | Some (name, s) \<Rightarrow>
                    (case exchange (mx_parse x) (mt_next_id t) ''tools/call''
                            (json_obj [(''name'', JStr (call_name call)), (''arguments'', call_parameters call)]) a s of
                       (outcome, s') \<Rightarrow>
                         (let t' = t\<lparr>mt_next_id := mt_next_id t + 1, mt_calls := Suc (mt_calls t)\<rparr>;
                              reg' = reg\<lparr>mr_servers := kv_insert name s' (mr_servers reg)\<rparr>
                          in case outcome of
                               Inr resp \<Rightarrow>
                                 (let r = parse_tool_result (mx_parse x) (mx_compact x) resp (call_name call)
                                  in ([result_chunk x (mt_calls t) r, report_chunk x (mt_calls t) call r], t', reg'))
                             | Inl e \<Rightarrow>
                                 ([result_chunk x (mt_calls t)
                                     \<lparr>res_name = call_name call, res_output = JNull, res_error = Some e,
                                      res_provider = Some ''mcp''\<rparr>], t', reg')))))
      | _ \<Rightarrow> ([], t, reg))"

primrec mcp_messages ::
  "mcp_codec \<Rightarrow> (arrival \<times> server_message) list \<Rightarrow> mcp_session \<times> mcp_registry
    \<Rightarrow> chunk list \<times> mcp_session \<times> mcp_registry" where
  "mcp_messages x [] st = ([], st)"
| "mcp_messages x (e # es) st =
     (let (cs, st') = mcp_message x (fst e) (snd e) st; (cs', st'') = mcp_messages x es st'
      in (cs @ cs', st''))"

text \<open>The task of a session, on messages that come with what the server writes meanwhile.\<close>

definition mcp_run_session ::
  "mcp_codec \<Rightarrow> (arrival \<times> server_message) list \<Rightarrow> mcp_registry \<Rightarrow> chunk list \<times> mcp_registry" where
  "mcp_run_session x es reg =
     (case mcp_messages x es (mcp_session_new, reg) of (cs, _, reg') \<Rightarrow> (cs, reg'))"

text \<open>The process starts a task for each session it is told of.\<close>

definition mcp_spawned :: "server_message list \<Rightarrow> string list" where
  "mcp_spawned ms = List.map_filter (\<lambda>m. case m of SessionCreated sid _ \<Rightarrow> Some sid | _ \<Rightarrow> None) ms"

section \<open>Each call is answered once\<close>

lemma result_chunk_result [simp]: "as_tool_result (result_chunk x n r) = Some r"
  by (simp add: result_chunk_def with_retain_def as_transient_def as_tool_result_def get_annotation_def tool_result_roundtrip)

lemma report_chunk_result [simp]: "as_tool_result (report_chunk x n call r) = None"
  by (simp add: report_chunk_def as_tool_result_def get_annotation_def)

lemma parse_tool_result_name [simp]: "res_name (parse_tool_result parse ser resp name) = name"
  by (simp add: parse_tool_result_def Let_def split: option.split)

text \<open>The names that a list of chunks reports results for.\<close>

definition answered_names :: "chunk list \<Rightarrow> string list" where
  "answered_names cs = List.map_filter (\<lambda>c. map_option res_name (as_tool_result c)) cs"

lemma answered_names_simps [simp]:
  "answered_names [] = []"
  "answered_names (c # cs) = (case as_tool_result c of Some r \<Rightarrow> [res_name r] | None \<Rightarrow> []) @ answered_names cs"
  "answered_names (cs @ ds) = answered_names cs @ answered_names ds"
  by (simp_all add: answered_names_def List.map_filter_def split: option.split)

definition has_tool :: "mcp_registry \<Rightarrow> string \<Rightarrow> bool" where
  "has_tool reg nm = (\<exists>name. kv_get (mr_tool_map reg) nm = Some name \<and> kv_contains (mr_servers reg) name)"

text \<open>The calls to be answered: those for an MCP tool that a server has, after the end of the history.\<close>

fun live_calls :: "(string \<Rightarrow> bool) \<Rightarrow> bool \<Rightarrow> server_message list \<Rightarrow> string list" where
  "live_calls known live [] = []"
| "live_calls known live (m # ms) =
     (case m of
        HistoryComplete _ _ \<Rightarrow> live_calls known True ms
      | Chunk _ c \<Rightarrow>
          (case as_tool_call c of
             Some call \<Rightarrow>
               if live \<and> call_provider call = Some ''mcp'' \<and> known (call_name call)
               then call_name call # live_calls known live ms else live_calls known live ms
           | None \<Rightarrow> live_calls known live ms)
      | _ \<Rightarrow> live_calls known live ms)"

text \<open>What a call does, for a tool that no server has and for one that a server has.\<close>

lemma lookup_has_tool:
  "Option.bind (kv_get (mr_tool_map reg) nm) (\<lambda>name. map_option (Pair name) (kv_get (mr_servers reg) name)) = None
     \<longleftrightarrow> \<not> has_tool reg nm"
  by (cases "kv_get (mr_tool_map reg) nm") (auto simp: has_tool_def kv_contains_def)

lemma mcp_call_step:
  assumes "mt_live t" and "as_tool_call c = Some call" and "call_provider call = Some ''mcp''"
    and "has_tool reg (call_name call)" and "mcp_message x a (Chunk sid c) (t, reg) = (cs, t', reg')"
  shows "answered_names cs = [call_name call] \<and> mt_live t' \<and> has_tool reg' = has_tool reg
    \<and> mt_next_id t' = mt_next_id t + 1"
proof -
  obtain name s where n: "kv_get (mr_tool_map reg) (call_name call) = Some name" "kv_get (mr_servers reg) name = Some s"
    using assms(4) by (auto simp: has_tool_def kv_contains_def)
  obtain outcome s' where e: "exchange (mx_parse x) (mt_next_id t) ''tools/call''
      (json_obj [(''name'', JStr (call_name call)), (''arguments'', call_parameters call)]) a s = (outcome, s')" by force
  have keep: "has_tool (reg\<lparr>mr_servers := kv_insert name s' (mr_servers reg)\<rparr>) = has_tool reg"
    using n(2) by (auto simp: has_tool_def kv_contains_def kv_simps fun_eq_iff)
  show ?thesis
    using assms n e keep by (cases outcome) (auto simp: mcp_message_def Let_def)
qed

text \<open>One message: what it answers, and that the tools and the servers stay the same.\<close>

lemma mcp_message_step:
  assumes "mcp_message x a m (t, reg) = (cs, t', reg')"
  shows "answered_names cs = live_calls (has_tool reg) (mt_live t) [m]
    \<and> mt_live t' = (mt_live t \<or> (\<exists>s n. m = HistoryComplete s n))
    \<and> has_tool reg' = has_tool reg
    \<and> mt_next_id t' = mt_next_id t + of_nat (length (answered_names cs))"
proof (cases "\<exists>sid c call. m = Chunk sid c \<and> mt_live t \<and> as_tool_call c = Some call
    \<and> call_provider call = Some ''mcp'' \<and> has_tool reg (call_name call)")
  case True
  then obtain sid c call where "m = Chunk sid c" "mt_live t" "as_tool_call c = Some call"
    "call_provider call = Some ''mcp''" "has_tool reg (call_name call)" by blast
  with mcp_call_step [OF this(2-5), of x a sid cs t' reg'] assms show ?thesis by simp
next
  case False
  show ?thesis
  proof (cases m)
    case (Chunk sid c)
    show ?thesis
    proof (cases "mt_live t \<and> (\<exists>call. as_tool_call c = Some call \<and> call_provider call = Some ''mcp'')")
      case True
      then obtain call where call: "mt_live t" "as_tool_call c = Some call" "call_provider call = Some ''mcp''" by blast
      then have "\<not> has_tool reg (call_name call)" using False Chunk by blast
      then show ?thesis using assms call Chunk by (simp add: mcp_message_def lookup_has_tool [THEN iffD2])
    next
      case other: False
      then show ?thesis
        using assms Chunk by (cases "as_tool_call c") (auto simp: mcp_message_def split: if_splits)
    qed
  qed (use assms in \<open>auto simp: mcp_message_def\<close>)
qed

lemma live_calls_Cons:
  "live_calls known live (m # ms)
     = live_calls known live [m] @ live_calls known (live \<or> (\<exists>s n. m = HistoryComplete s n)) ms"
  by (cases m) (auto split: option.split)

lemma mcp_messages_answers:
  "answered_names (fst (mcp_messages x es (t, reg))) = live_calls (has_tool reg) (mt_live t) (map snd es)"
proof (induction es arbitrary: t reg)
  case (Cons e es)
  obtain cs t' reg' where s: "mcp_message x (fst e) (snd e) (t, reg) = (cs, t', reg')"
    by (cases "mcp_message x (fst e) (snd e) (t, reg)") auto
  note step = mcp_message_step [OF s]
  have "answered_names (fst (mcp_messages x (e # es) (t, reg)))
      = answered_names cs @ answered_names (fst (mcp_messages x es (t', reg')))"
    by (simp add: s split_beta)
  also have "\<dots> = live_calls (has_tool reg) (mt_live t) [snd e] @ live_calls (has_tool reg) (mt_live t') (map snd es)"
    using Cons.IH [of t' reg'] step by (simp only:)
  also have "\<dots> = live_calls (has_tool reg) (mt_live t) (map snd (e # es))"
    using step live_calls_Cons [of "has_tool reg" "mt_live t" "snd e" "map snd es"] by (simp only: list.map)
  finally show ?case .
qed simp

text \<open>
  C27: MCP calls are answered once each.  A session's task reports exactly one result, under the
  name of its tool, for every call of a known MCP tool that comes after the replayed history, in order and
  whether the server answers, fails, stays silent or has gone; replayed calls are not executed again.
\<close>

theorem mcp_answers_each_live_call:
  "answered_names (fst (mcp_run_session x es reg)) = live_calls (has_tool reg) False (map snd es)"
  using mcp_messages_answers [of x es mcp_session_new reg]
  by (simp add: mcp_run_session_def mcp_session_new_def split_beta)

section \<open>Whose answer it is\<close>

text \<open>What is taken as the answer carries the id of the call.\<close>

lemma read_lines_id:
  "read_lines parse i ls = (Some v, rest) \<Longrightarrow> Option.bind (json_get v ''id'') as_u64 = Some (unat i)"
  by (induction ls) (auto split: option.splits if_splits)

text \<open>
  C28: An answer can reach the wrong session.  Every session numbers its calls from 4 while the
  servers are shared.  So when the first call of one session times out and its answer comes later,
  another session's first call of the same server takes it: the second session publishes, as the result
  of its own tool, what the server answered to the first.
\<close>

theorem late_answer_crosses_sessions:
  assumes "kv_get (mr_tool_map reg) (call_name call) = Some name" and "kv_get (mr_tool_map reg) (call_name call') = Some name"
    and "kv_get (mr_servers reg) name = Some s" and "mv_unread s = []"
    and "as_tool_call c = Some call" and "call_provider call = Some ''mcp''"
    and "as_tool_call c' = Some call'" and "call_provider call' = Some ''mcp''"
    and "mx_parse x late = Some v" and "Option.bind (json_get v ''id'') as_u64 = Some 4"
    and "mcp_run_session x [(a, HistoryComplete sid n), (\<lparr>ar_written = Inr (), ar_lines = [], ar_closed = False\<rparr>, Chunk sid c)] reg
      = (out, reg')"
  shows "out = [result_chunk x 0 \<lparr>res_name = call_name call, res_output = JNull,
            res_error = Some ''timeout waiting for MCP response'', res_provider = Some ''mcp''\<rparr>]
    \<and> hd (fst (mcp_run_session x [(a, HistoryComplete sid' n'),
          (\<lparr>ar_written = Inr (), ar_lines = [late], ar_closed = False\<rparr>, Chunk sid' c')] reg'))
        = result_chunk x 0 (parse_tool_result (mx_parse x) (mx_compact x) v (call_name call'))"
proof -
  have first: "out = [result_chunk x 0 \<lparr>res_name = call_name call, res_output = JNull,
            res_error = Some ''timeout waiting for MCP response'', res_provider = Some ''mcp''\<rparr>]"
    and reg': "\<exists>s'. reg' = reg\<lparr>mr_servers := kv_insert name s' (mr_servers reg)\<rparr> \<and> mv_unread s' = []"
    using assms(1,3-6,11)
    by (auto simp: mcp_run_session_def mcp_session_new_def mcp_message_def exchange_def Let_def split_beta)
  then obtain s' where "kv_get (mr_servers reg') name = Some s'" "mv_unread s' = []" "mr_tool_map reg' = mr_tool_map reg"
    by (auto simp: kv_simps)
  then have "hd (fst (mcp_run_session x [(a, HistoryComplete sid' n'),
          (\<lparr>ar_written = Inr (), ar_lines = [late], ar_closed = False\<rparr>, Chunk sid' c')] reg'))
        = result_chunk x 0 (parse_tool_result (mx_parse x) (mx_compact x) v (call_name call'))"
    using assms(2,7-10)
    by (simp add: mcp_run_session_def mcp_session_new_def mcp_message_def exchange_def Let_def split_beta)
  with first show ?thesis by blast
qed

definition demo_codec :: mcp_codec where
  "demo_codec =
     \<lparr>mx_parse = (\<lambda>_. Some (json_obj [(''id'', JNum (PosInt 4)), (''result'', JStr ''for the first'')])),
      mx_compact = (\<lambda>_. []), mx_pretty = (\<lambda>_. []), mx_ids = (\<lambda>_. []), mx_now = 0\<rparr>"

definition demo_call :: "string \<Rightarrow> chunk" where
  "demo_call nm =
     with_annotation CAFE_TOOL_CALL
       (tool_call_to_json \<lparr>call_name = nm, call_parameters = JNull, call_provider = Some ''mcp''\<rparr>) (new_null ''c'' 0 ''p'')"

theorem late_answer_crosses_sessions_witness:
  "\<exists>reg'. as_tool_result (hd (fst (mcp_run_session demo_codec
       [(\<lparr>ar_written = Inr (), ar_lines = [], ar_closed = False\<rparr>, HistoryComplete ''b'' 0),
        (\<lparr>ar_written = Inr (), ar_lines = [''late''], ar_closed = False\<rparr>, Chunk ''b'' (demo_call ''beta''))] reg')))
     = Some \<lparr>res_name = ''beta'', res_output = JStr ''for the first'', res_error = None, res_provider = Some ''mcp''\<rparr>"
proof -
  let ?a = "\<lparr>ar_written = Inr (), ar_lines = [], ar_closed = False\<rparr>"
  let ?reg = "\<lparr>mr_servers = [(''srv'', \<lparr>mv_sent = [], mv_unread = []\<rparr>)], mr_tool_map = [(''alpha'', ''srv''), (''beta'', ''srv'')]\<rparr>"
  let ?call = "\<lambda>nm. \<lparr>call_name = nm, call_parameters = JNull, call_provider = Some ''mcp''\<rparr>"
  have c: "as_tool_call (demo_call nm) = Some (?call nm)" for nm
    by (simp add: demo_call_def as_tool_call_def get_annotation_def tool_call_roundtrip)
  obtain out reg' where r: "mcp_run_session demo_codec [(?a, HistoryComplete ''a'' 0), (?a, Chunk ''a'' (demo_call ''alpha''))] ?reg
      = (out, reg')" by force
  have v: "mx_parse demo_codec ''late'' = Some (json_obj [(''id'', JNum (PosInt 4)), (''result'', JStr ''for the first'')])"
    "Option.bind (json_get (json_obj [(''id'', JNum (PosInt 4)), (''result'', JStr ''for the first'')]) ''id'') as_u64 = Some 4"
    by (simp_all add: demo_codec_def json_obj_def)
  show ?thesis
    using late_answer_crosses_sessions [of ?reg "?call ''alpha''" "''srv''" "?call ''beta''" "\<lparr>mv_sent = [], mv_unread = []\<rparr>",
        OF _ _ _ _ c _ c _ v r, of "''b''" 0]
    by (intro exI [of _ reg']) (simp add: parse_tool_result_def json_obj_def json_index_def build_output_def Let_def)
qed

section \<open>Reading results\<close>

text \<open>A response that carries a null error beside its result counts as a failure.\<close>

lemma null_error_is_failure:
  "res_error (parse_tool_result parse ser (json_obj [(''error'', JNull), (''result'', v)]) name) = Some (ser JNull)"
  by (simp add: parse_tool_result_def json_obj_def)

text \<open>When the first item is a text, the items after it are dropped.\<close>

lemma later_content_dropped:
  "build_output parse (json_obj [(''content'', JArr (json_obj [(''type'', JStr ''text''), (''text'', JStr t)] # more_items))])
     = (case parse t of Some v \<Rightarrow> v | None \<Rightarrow> json_obj [(''text'', JStr t)])"
  by (simp add: build_output_def json_obj_def)

end
