(* ===== verification/Knowledge_Base.thy ===== *)
theory Knowledge_Base
  imports Llm_Backends Services "HOL-Library.Sublist" "HOL-Library.Multiset"
begin

text \<open>
  The knowledge base service \<open>cafe-knowledgebase\<close>: splitting a text into overlapping pieces and
  the queries on the table of documents (\<open>src/index.rs\<close>), the client of the embedding model
  (\<open>src/embed.rs\<close>) and the session task (\<open>src/main.rs\<close>).  The vector database is a list of rows per
  namespace; which rows it finds near a vector, which vectors it takes and which rows a predicate
  selects are arguments.
\<close>

section \<open>Splitting a text\<close>

text \<open>What becomes of a call: it returns, it panics, or it never returns.\<close>

datatype 'a run = Returned 'a | Panicked | Stuck

text \<open>A slice of a string must begin and end at the boundary of a character.\<close>

definition char_boundary :: "string \<Rightarrow> nat \<Rightarrow> bool" where
  "char_boundary s i = (i = length s \<or> i < length s \<and> \<not> is_continuation (s ! i))"

definition slice :: "string \<Rightarrow> nat \<Rightarrow> nat \<Rightarrow> string option" where
  "slice s a b =
     (if a \<le> b \<and> char_boundary s a \<and> char_boundary s b then Some (take (b - a) (drop a s)) else None)"

text \<open>The paragraphs of a text: what stands between two line feeds in a row.\<close>

fun split_paragraphs :: "string \<Rightarrow> string list" where
  "split_paragraphs (a # b # s) =
     (if a = LF \<and> b = LF then [] # split_paragraphs s
      else (case split_paragraphs (b # s) of p # ps \<Rightarrow> (a # p) # ps | [] \<Rightarrow> [[a]]))"
| "split_paragraphs s = [s]"

text \<open>
  A paragraph that is too long is cut by bytes.  The loop returns the pieces, or \<open>None\<close> inside
  when a cut falls into a character; with the overlap as long as a piece it does not advance.
\<close>

definition piece_of :: "nat \<Rightarrow> string \<Rightarrow> bool \<Rightarrow> nat \<Rightarrow> nat \<Rightarrow> string option" where
  "piece_of overlap t any start end =
     Option.bind (slice t start end) (\<lambda>piece.
       if any \<and> 0 < overlap
       then map_option (\<lambda>bridge. bridge @ ''...'' @ piece) (slice t (start - overlap) start)
       else Some piece)"

partial_function (option) hard_split ::
  "nat \<Rightarrow> nat \<Rightarrow> string \<Rightarrow> nat \<Rightarrow> string list \<Rightarrow> string list option option" where
  "hard_split chunk_size overlap t start chunks =
     (if start < length t then
        (let end = min (start + chunk_size) (length t)
         in case piece_of overlap t (chunks \<noteq> []) start end of
              None \<Rightarrow> Some None
            | Some piece \<Rightarrow>
                if end = length t then Some (Some (chunks @ [piece]))
                else hard_split chunk_size overlap t (end - overlap) (chunks @ [piece]))
      else Some (Some chunks))"

text \<open>One paragraph, with the pieces so far and the one that is being filled.\<close>

definition take_paragraph ::
  "nat \<Rightarrow> nat \<Rightarrow> string list \<times> string \<Rightarrow> string \<Rightarrow> (string list \<times> string) run" where
  "take_paragraph chunk_size overlap st para =
     (let (chunks, cur) = st; trimmed = str_trim para
      in if trimmed = [] then Returned (chunks, cur)
         else if chunk_size < length trimmed then
           (case hard_split chunk_size overlap trimmed 0 (if cur \<noteq> [] then chunks @ [cur] else chunks) of
              None \<Rightarrow> Stuck
            | Some None \<Rightarrow> Panicked
            | Some (Some chunks') \<Rightarrow> Returned (chunks', []))
         else
           (case (if cur \<noteq> [] \<and> chunk_size < length cur + length trimmed + 2 then
                    (if 0 < overlap \<and> overlap < length cur
                     then map_option (Pair (chunks @ [cur])) (slice cur (length cur - overlap) (length cur))
                     else Some (chunks @ [cur], []))
                  else Some (chunks, cur)) of
              None \<Rightarrow> Panicked
            | Some (chunks', cur') \<Rightarrow>
                Returned (chunks', (if cur' \<noteq> [] then cur' @ [LF, LF] else cur') @ trimmed)))"

primrec take_paragraphs ::
  "nat \<Rightarrow> nat \<Rightarrow> string list \<times> string \<Rightarrow> string list \<Rightarrow> (string list \<times> string) run" where
  "take_paragraphs chunk_size overlap st [] = Returned st"
| "take_paragraphs chunk_size overlap st (p # ps) =
     (case take_paragraph chunk_size overlap st p of
        Returned st' \<Rightarrow> take_paragraphs chunk_size overlap st' ps
      | Panicked \<Rightarrow> Panicked
      | Stuck \<Rightarrow> Stuck)"

definition chunk_text :: "string \<Rightarrow> nat \<Rightarrow> nat \<Rightarrow> string list run" where
  "chunk_text t chunk_size overlap =
     (if t = [] then Returned []
      else (case take_paragraphs chunk_size overlap ([], []) (split_paragraphs t) of
              Returned (chunks, cur) \<Rightarrow>
                (let all_chunks = (if cur \<noteq> [] then chunks @ [cur] else chunks)
                 in Returned (if all_chunks = [] then [t] else all_chunks))
            | Panicked \<Rightarrow> Panicked
            | Stuck \<Rightarrow> Stuck))"

section \<open>Whether it returns\<close>

lemma slice_ascii: "ascii s \<Longrightarrow> a \<le> b \<Longrightarrow> b \<le> length s \<Longrightarrow> slice s a b = Some (take (b - a) (drop a s))"
proof -
  assume "ascii s" and l: "a \<le> b" "b \<le> length s"
  then have "\<not> is_continuation (s ! i)" if "i < length s" for i
    using that by (auto simp: ascii_def is_continuation_def list_all_length dest: spec [of _ i])
  then show ?thesis using l by (auto simp: slice_def char_boundary_def)
qed


lemma ascii_mem: "ascii s \<longleftrightarrow> (\<forall>c \<in> set s. byte_val c < 128)"
  by (simp add: ascii_def list_all_iff)

lemma ascii_str_trim: "ascii s \<Longrightarrow> ascii (str_trim s)"
proof -
  assume a: "ascii s"
  have "set (str_trim s) \<subseteq> set (concat (str_chars s))"
    by (auto simp: str_trim_def Let_def simp del: concat_str_chars dest!: set_dropWhileD)
  then show ?thesis using a by (auto simp: ascii_mem)
qed

lemma ascii_split_paragraphs: "ascii t \<Longrightarrow> p \<in> set (split_paragraphs t) \<Longrightarrow> ascii p"
  by (induction t arbitrary: p rule: split_paragraphs.induct) (auto split: if_splits list.splits)

lemma piece_of_ascii: "ascii t \<Longrightarrow> start \<le> end \<Longrightarrow> end \<le> length t \<Longrightarrow> piece_of overlap t any start end \<noteq> None"
  by (simp add: piece_of_def slice_ascii)

lemma hard_split_returns:
  "overlap < chunk_size \<Longrightarrow> hard_split chunk_size overlap t start chunks \<noteq> None"
proof (induction "length t - start" arbitrary: start chunks rule: less_induct)
  case less
  show ?case
  proof (cases "start < length t \<and> start + chunk_size < length t")
    case True
    then have "length t - (start + chunk_size - overlap) < length t - start" using less.prems by linarith
    from less.hyps [OF this less.prems] True show ?thesis
      by (subst hard_split.simps) (simp add: Let_def split: option.split)
  qed (subst hard_split.simps, auto simp: Let_def min_def split: option.split)
qed

lemma hard_split_ascii:
  assumes "ascii t"
  shows "hard_split chunk_size overlap t start chunks \<noteq> Some None"
proof
  assume "hard_split chunk_size overlap t start chunks = Some None"
  then have "ascii t \<longrightarrow> (None :: string list option) \<noteq> None"
  proof (rule hard_split.raw_induct [where P = "\<lambda>cs ov t start chunks r. ascii t \<longrightarrow> r \<noteq> None", rotated])
    fix f :: "nat \<Rightarrow> nat \<Rightarrow> string \<Rightarrow> nat \<Rightarrow> string list \<Rightarrow> string list option option"
    fix cs ov :: nat and t :: string and start :: nat and chunks :: "string list" and r :: "string list option"
    assume IH: "\<And>cs ov t start chunks r. f cs ov t start chunks = Some r \<Longrightarrow> ascii t \<longrightarrow> r \<noteq> None"
      and eq: "(if start < length t then
          let end = min (start + cs) (length t)
          in case piece_of ov t (chunks \<noteq> []) start end of
               None \<Rightarrow> Some None
             | Some piece \<Rightarrow>
                 if end = length t then Some (Some (chunks @ [piece]))
                 else f cs ov t (end - ov) (chunks @ [piece])
        else Some (Some chunks)) = Some r"
    show "ascii t \<longrightarrow> r \<noteq> None"
      using eq piece_of_ascii [of t start "min (start + cs) (length t)" ov "chunks \<noteq> []"]
      by (auto simp: Let_def split: if_splits option.splits dest: IH)
  qed
  with assms show False by blast
qed

lemma hard_split_pinned:
  assumes "ascii t" and "chunk_size \<le> overlap" and "chunk_size < length t"
  shows "hard_split chunk_size overlap t 0 chunks = None"
proof (cases "hard_split chunk_size overlap t 0 chunks")
  case (Some r)
  have "\<not> (ascii t \<and> chunk_size \<le> overlap \<and> chunk_size < length t \<and> (0::nat) = 0)"
  proof (rule hard_split.raw_induct [where P =
        "\<lambda>cs ov t start chunks r. \<not> (ascii t \<and> cs \<le> ov \<and> cs < length t \<and> start = 0)", OF _ Some])
    fix f :: "nat \<Rightarrow> nat \<Rightarrow> string \<Rightarrow> nat \<Rightarrow> string list \<Rightarrow> string list option option"
    fix cs ov :: nat and t :: string and start :: nat and chunks :: "string list" and r :: "string list option"
    assume IH: "\<And>cs ov t start chunks r. f cs ov t start chunks = Some r \<Longrightarrow>
          \<not> (ascii t \<and> cs \<le> ov \<and> cs < length t \<and> start = 0)"
      and eq: "(if start < length t then
          let end = min (start + cs) (length t)
          in case piece_of ov t (chunks \<noteq> []) start end of
               None \<Rightarrow> Some None
             | Some piece \<Rightarrow>
                 if end = length t then Some (Some (chunks @ [piece]))
                 else f cs ov t (end - ov) (chunks @ [piece])
        else Some (Some chunks)) = Some r"
    show "\<not> (ascii t \<and> cs \<le> ov \<and> cs < length t \<and> start = 0)"
    proof
      assume a: "ascii t \<and> cs \<le> ov \<and> cs < length t \<and> start = 0"
      then obtain piece where "piece_of ov t (chunks \<noteq> []) 0 cs = Some piece"
        using piece_of_ascii [of t 0 cs] by fastforce
      with eq a have "f cs ov t 0 (chunks @ [piece]) = Some r" by (auto simp: Let_def min_def split: if_splits)
      from IH [OF this] a show False by simp
    qed
  qed
  with assms show ?thesis by simp
qed

lemma take_paragraph_stuck:
  assumes "ascii para"
  shows "take_paragraph chunk_size overlap st para = Stuck \<longleftrightarrow>
      chunk_size \<le> overlap \<and> chunk_size < length (str_trim para)"
proof (cases "chunk_size < length (str_trim para)")
  case True
  then have "str_trim para \<noteq> []" by auto
  moreover have "hard_split chunk_size overlap (str_trim para) 0 chunks = None \<longleftrightarrow> chunk_size \<le> overlap" for chunks
    using hard_split_pinned [OF ascii_str_trim [OF assms] _ True] hard_split_returns [of overlap chunk_size]
    by (meson not_le)
  ultimately show ?thesis
    using True
    by (cases "hard_split chunk_size overlap (str_trim para) 0 (if snd st \<noteq> [] then fst st @ [snd st] else fst st)")
      (simp_all only: take_paragraph_def Let_def split_beta if_False if_True option.case, auto split: option.split)
qed (auto simp: take_paragraph_def Let_def split: prod.split option.split)

definition cur_of :: "(string list \<times> string) run \<Rightarrow> string" where
  "cur_of r = (case r of Returned (_, cur) \<Rightarrow> cur | _ \<Rightarrow> [])"

lemma take_paragraph_ascii:
  assumes "ascii para" and "ascii cur"
  shows "take_paragraph chunk_size overlap (chunks, cur) para \<noteq> Panicked
    \<and> ascii (cur_of (take_paragraph chunk_size overlap (chunks, cur) para))"
proof (cases "str_trim para = [] \<or> chunk_size < length (str_trim para)")
  case True
  have "hard_split chunk_size overlap (str_trim para) 0 cs \<noteq> Some None" for cs
    by (rule hard_split_ascii [OF ascii_str_trim [OF assms(1)]])
  then show ?thesis
    using True assms(2)
    by (cases "hard_split chunk_size overlap (str_trim para) 0 (if cur \<noteq> [] then chunks @ [cur] else chunks)")
      (auto simp: take_paragraph_def cur_of_def Let_def split: option.split)
next
  case False
  have lf: "byte_val LF < 128" by (simp add: byte_val_def)
  have "ascii (drop n cur)" for n using assms(2) by (auto simp: ascii_mem dest!: in_set_dropD)
  then show ?thesis
    using False assms(2) ascii_str_trim [OF assms(1)] lf
    by (simp add: take_paragraph_def cur_of_def Let_def slice_ascii)
qed

lemma take_paragraphs_ascii:
  assumes "\<forall>p \<in> set ps. ascii p" and "ascii cur"
  shows "take_paragraphs chunk_size overlap (chunks, cur) ps \<noteq> Panicked
    \<and> (take_paragraphs chunk_size overlap (chunks, cur) ps = Stuck \<longleftrightarrow>
        chunk_size \<le> overlap \<and> (\<exists>p \<in> set ps. chunk_size < length (str_trim p)))"
  using assms
proof (induction ps arbitrary: chunks cur)
  case (Cons p ps)
  note step = take_paragraph_ascii [of p cur chunk_size overlap chunks] take_paragraph_stuck [of p chunk_size overlap]
  show ?case
  proof (cases "take_paragraph chunk_size overlap (chunks, cur) p")
    case (Returned st)
    obtain chunks' cur' where st: "st = (chunks', cur')" by (cases st)
    have "ascii cur'" using step(1) Cons.prems Returned by (simp add: st cur_of_def)
    moreover have "\<not> (chunk_size \<le> overlap \<and> chunk_size < length (str_trim p))"
      using step(2) [of "(chunks, cur)"] Cons.prems Returned by simp
    ultimately show ?thesis
      using Cons.IH [of cur' chunks'] Cons.prems Returned by (auto simp: st)
  next
    case Panicked
    then show ?thesis using step(1) Cons.prems by simp
  next
    case Stuck
    then show ?thesis using step(2) [of "(chunks, cur)"] Cons.prems by auto
  qed
qed simp

text \<open>
  C31: When the splitting of a text returns.  On ASCII text it never panics, and it hangs exactly when the
  overlap is at least the size of a piece and some paragraph is longer than a piece.  Both numbers
  are parameters of the request, and the default overlap is 64.
\<close>

theorem chunk_text_stuck_iff:
  assumes "ascii t"
  shows "chunk_text t chunk_size overlap \<noteq> Panicked
    \<and> (chunk_text t chunk_size overlap = Stuck \<longleftrightarrow>
        chunk_size \<le> overlap \<and> (\<exists>p \<in> set (split_paragraphs t). chunk_size < length (str_trim p)))"
  using take_paragraphs_ascii [of "split_paragraphs t" "[]" chunk_size overlap "[]"] ascii_split_paragraphs [OF assms]
  by (auto simp: chunk_text_def Let_def str_trim_def split: run.split)

section \<open>What the pieces contain\<close>
















text \<open>A paragraph of three letters and pieces of two with an overlap of one, and of two.\<close>

lemma split_abc: "split_paragraphs ''abc'' = [''abc'']" "str_trim ''abc'' = ''abc''" "ascii ''abc''"
proof -
  show "str_trim ''abc'' = ''abc''"
    by (rule str_trim_plain) (simp_all add: plain_char_def is_continuation_def byte_val_def char_is_whitespace_def)
qed (simp_all add: byte_val_def)

theorem chunk_text_stuck_iff_witness: "chunk_text ''abc'' 2 2 = Stuck \<and> chunk_text ''abc'' 2 1 \<noteq> Stuck"
  using chunk_text_stuck_iff [OF split_abc(3), of 2 2] chunk_text_stuck_iff [OF split_abc(3), of 2 1]
  by (simp add: split_abc)

lemma chunk_abc: "chunk_text ''abc'' 2 1 = Returned [''ab'', ''a...bc'']"
  by (simp add: chunk_text_def split_abc take_paragraph_def hard_split.simps piece_of_def slice_ascii byte_val_def Let_def)


text \<open>A cut within a character panics: a letter of two bytes and pieces of one byte.\<close>

lemma multibyte_cut_panics: "chunk_text [CHR 0xC3, CHR 0xA9] 1 0 = Panicked"
proof -
  have "str_trim [CHR 0xC3, CHR 0xA9] = [CHR 0xC3, CHR 0xA9]"
    by (simp add: str_trim_def is_continuation_def byte_val_def char_is_whitespace_def)
  then show ?thesis
    by (simp add: chunk_text_def take_paragraph_def hard_split.simps piece_of_def slice_def char_boundary_def
        is_continuation_def byte_val_def)
qed

section \<open>The table\<close>

record kb_row =
  kr_doc_id :: string
  kr_text :: string
  kr_metadata :: string
  kr_created_at :: string
  kr_parent :: string
  kr_index :: int
  kr_embedding :: "ieee list"

type_synonym kb_db = "(string, kb_row list) kv"

text \<open>
  The vector database: the error for a namespace without a table, whether a vector fits the column,
  the rows near a vector with their distances, and the rows a predicate selects.
\<close>

record kb_engine =
  ke_missing :: "string \<Rightarrow> string"
  ke_fits :: "nat \<Rightarrow> ieee list \<Rightarrow> string + unit"
  ke_near :: "ieee list \<Rightarrow> nat \<Rightarrow> kb_row list \<Rightarrow> string + (kb_row \<times> ieee) list"
  ke_selects :: "string \<Rightarrow> kb_row \<Rightarrow> bool"

record search_result =
  sr_doc_id :: string
  sr_text :: string
  sr_metadata :: string
  sr_score :: ieee
  sr_created_at :: string
  sr_parent :: "string option"
  sr_index :: "int option"

definition FULL_DOC :: int where "FULL_DOC = - 1"

definition kb_add :: "kb_engine \<Rightarrow> nat \<Rightarrow> kb_db \<Rightarrow> string \<Rightarrow> kb_row \<Rightarrow> (string + unit) \<times> kb_db" where
  "kb_add e width db ns row =
     (let db' = (case kv_get db ns of Some _ \<Rightarrow> db | None \<Rightarrow> kv_insert ns [] db);
          rows = (case kv_get db' ns of Some rs \<Rightarrow> rs | None \<Rightarrow> [])
      in case ke_fits e width (kr_embedding row) of
           Inl err \<Rightarrow> (Inl err, db')
         | Inr _ \<Rightarrow> (Inr (), kv_insert ns (rows @ [row]) db'))"

definition result_of :: "kb_row \<Rightarrow> ieee \<Rightarrow> search_result" where
  "result_of r score =
     \<lparr>sr_doc_id = kr_doc_id r, sr_text = kr_text r, sr_metadata = kr_metadata r, sr_score = score,
      sr_created_at = kr_created_at r,
      sr_parent = (if kr_index r = FULL_DOC then None else Some (kr_parent r)),
      sr_index = (if kr_index r = FULL_DOC then None else Some (kr_index r))\<rparr>"

definition near_rows ::
  "kb_engine \<Rightarrow> kb_db \<Rightarrow> string \<Rightarrow> ieee list \<Rightarrow> nat \<Rightarrow> string + (kb_row \<times> ieee) list" where
  "near_rows e db ns q k =
     (case kv_get db ns of None \<Rightarrow> Inl (ke_missing e ns) | Some rows \<Rightarrow> ke_near e q k rows)"

definition kb_search ::
  "kb_engine \<Rightarrow> kb_db \<Rightarrow> string \<Rightarrow> ieee list \<Rightarrow> nat \<Rightarrow> string + search_result list" where
  "kb_search e db ns q k =
     (case near_rows e db ns q k of
        Inl err \<Rightarrow> Inl err | Inr found \<Rightarrow> Inr (map (\<lambda>(r, d). result_of r d) found))"

text \<open>A search with the zero vector and the largest limit reads the whole table.\<close>

definition ALL_ROWS :: nat where "ALL_ROWS = 2147483647"

definition whole_table :: "kb_engine \<Rightarrow> nat \<Rightarrow> kb_db \<Rightarrow> string \<Rightarrow> string + kb_row list" where
  "whole_table e width db ns =
     (case near_rows e db ns (replicate width (Finite 0)) ALL_ROWS of
        Inl err \<Rightarrow> Inl err | Inr found \<Rightarrow> Inr (map fst found))"

definition kb_list :: "kb_engine \<Rightarrow> nat \<Rightarrow> kb_db \<Rightarrow> string \<Rightarrow> string + search_result list" where
  "kb_list e width db ns =
     (case whole_table e width db ns of
        Inl err \<Rightarrow> Inl err | Inr rows \<Rightarrow> Inr (map (\<lambda>r. result_of r (Finite 0)) rows))"

definition get_chunk_context ::
  "kb_engine \<Rightarrow> nat \<Rightarrow> kb_db \<Rightarrow> string \<Rightarrow> string \<Rightarrow> int option \<Rightarrow> nat \<Rightarrow> string + string list \<times> string list" where
  "get_chunk_context e width db ns parent index ctx =
     (case whole_table e width db ns of
        Inl err \<Rightarrow> Inl err
      | Inr rows \<Rightarrow>
          (let own = sort_key kr_index (filter (\<lambda>r. kr_parent r = parent \<and> kr_index r \<noteq> FULL_DOC) rows)
           in Inr (case Option.bind index (\<lambda>i. position (\<lambda>r. kr_index r = i) own) of
                     None \<Rightarrow> ([], [])
                   | Some pos \<Rightarrow> (map kr_text (rev (take ctx (rev (take pos own)))),
                                  map kr_text (take ctx (drop (pos + 1) own))))))"

definition kb_search_with_context ::
  "kb_engine \<Rightarrow> nat \<Rightarrow> kb_db \<Rightarrow> string \<Rightarrow> ieee list \<Rightarrow> nat \<Rightarrow> nat
    \<Rightarrow> string + (search_result \<times> string list \<times> string list) list" where
  "kb_search_with_context e width db ns q k ctx =
     (case kb_search e db ns q k of
        Inl err \<Rightarrow> Inl err
      | Inr results \<Rightarrow>
          Inr (map (\<lambda>r.
            (r, case get_chunk_context e width db ns
                       (case sr_parent r of Some p \<Rightarrow> p | None \<Rightarrow> sr_doc_id r) (sr_index r) ctx of
                  Inl _ \<Rightarrow> ([], []) | Inr c \<Rightarrow> c)) results))"

text \<open>The predicate of a deletion, with the quotes of the id doubled.\<close>

fun double_quotes :: "string \<Rightarrow> string" where
  "double_quotes [] = []"
| "double_quotes (c # s) = (if c = CHR 0x27 then [c, c] else [c]) @ double_quotes s"

definition delete_predicate :: "string \<Rightarrow> string" where
  "delete_predicate doc_id =
     (let lit = [CHR 0x27] @ double_quotes doc_id @ [CHR 0x27]
      in ''doc_id = '' @ lit @ '' OR parent_doc_id = '' @ lit)"

definition kb_delete :: "kb_engine \<Rightarrow> kb_db \<Rightarrow> string \<Rightarrow> string \<Rightarrow> (string + unit) \<times> kb_db" where
  "kb_delete e db ns doc_id =
     (case kv_get db ns of
        None \<Rightarrow> (Inl (ke_missing e ns), db)
      | Some rows \<Rightarrow>
          (Inr (), kv_insert ns (filter (\<lambda>r. \<not> ke_selects e (delete_predicate doc_id) r) rows) db))"

section \<open>Embeddings\<close>

record embed_config =
  ec_url :: string
  ec_model :: string
  ec_dim :: nat

definition vector_of :: "float_ops \<Rightarrow> json list \<Rightarrow> ieee list" where
  "vector_of fl xs = map (\<lambda>v. case v of JNum n \<Rightarrow> fp_narrow fl n | _ \<Rightarrow> Finite 0) xs"

fun as_array :: "json \<Rightarrow> json list option" where
  "as_array (JArr xs) = Some xs"
| "as_array _ = None"

text \<open>The three shapes an answer may have, in the order in which they are tried.\<close>

definition embedding_of :: "float_ops \<Rightarrow> json \<Rightarrow> ieee list option" where
  "embedding_of fl body =
     (case as_array (json_index body ''embeddings'') of
        Some (x # _) \<Rightarrow> Some (vector_of fl (case as_array x of Some xs \<Rightarrow> xs | None \<Rightarrow> []))
      | _ \<Rightarrow>
          (case Option.bind (as_array (json_index body ''data''))
                  (\<lambda>ds. case ds of x # _ \<Rightarrow> as_array (json_index x ''embedding'') | [] \<Rightarrow> None) of
             Some xs \<Rightarrow> Some (vector_of fl xs)
           | None \<Rightarrow> map_option (vector_of fl) (as_array (json_index body ''embedding''))))"

definition embed_text ::
  "float_ops \<Rightarrow> json_parser \<Rightarrow> (json \<Rightarrow> string) \<Rightarrow> poster \<Rightarrow> embed_config \<Rightarrow> string \<Rightarrow> string + ieee list" where
  "embed_text fl parse ser post cfg txt =
     (case post \<lparr>hc_url = ec_url cfg, hc_headers = [],
                 hc_body = json_obj [(''model'', JStr (ec_model cfg)), (''input'', JStr txt)]\<rparr> of
        Inl err \<Rightarrow> Inl err
      | Inr a \<Rightarrow>
          if \<not> is_success a
          then Inl (''embed API error '' @ ha_status_line a @ '': '' @ (case ha_text a of Inr b \<Rightarrow> b | Inl _ \<Rightarrow> []))
          else (case ha_text a of
                  Inl err \<Rightarrow> Inl err
                | Inr b \<Rightarrow>
                    (case parse b of
                       Inl err \<Rightarrow> Inl err
                     | Inr body \<Rightarrow>
                         (case embedding_of fl body of
                            Some v \<Rightarrow> Inr v
                          | None \<Rightarrow> Inl (''unable to parse embedding from response: '' @ ser body)))))"

section \<open>Requests\<close>

definition KNOWLEDGE_BASE :: string where "KNOWLEDGE_BASE = ''com.nominal.cafe-knowledgebase''"

record kb_app =
  ka_width :: nat
  ka_chunk_size :: nat
  ka_overlap :: nat

text \<open>The database, the embedding of a text, and the time at which the row of a piece is written.\<close>

record kb_world =
  kw_engine :: kb_engine
  kw_embed :: "string \<Rightarrow> string + ieee list"
  kw_clock :: "int \<Rightarrow> string"

definition search_result_entries :: "search_result \<Rightarrow> (string \<times> json) list" where
  "search_result_entries r =
     [(''doc_id'', JStr (sr_doc_id r)), (''text'', JStr (sr_text r)), (''metadata'', JStr (sr_metadata r)),
      (''score'', Llm_Backends.json_f32 (sr_score r)), (''created_at'', JStr (sr_created_at r))]
     @ opt_entry ''parent_doc_id'' JStr (sr_parent r) @ opt_entry ''chunk_index'' json_int (sr_index r)"

definition search_result_to_json :: "search_result \<Rightarrow> json" where
  "search_result_to_json r = json_obj (search_result_entries r)"

definition context_result_to_json :: "search_result \<times> string list \<times> string list \<Rightarrow> json" where
  "context_result_to_json x =
     (case x of (r, before, after) \<Rightarrow>
        json_obj (search_result_entries r
          @ [(''context_before'', JArr (map JStr before)), (''context_after'', JArr (map JStr after))]))"

definition kb_row_of ::
  "kb_world \<Rightarrow> string \<Rightarrow> string option \<Rightarrow> string \<Rightarrow> string \<Rightarrow> int \<Rightarrow> ieee list \<Rightarrow> kb_row" where
  "kb_row_of w doc_id metadata parent txt idx v =
     \<lparr>kr_doc_id = doc_id, kr_text = txt, kr_metadata = (case metadata of Some m \<Rightarrow> m | None \<Rightarrow> ''{}''),
      kr_created_at = kw_clock w idx, kr_parent = parent, kr_index = idx, kr_embedding = v\<rparr>"

definition piece_id :: "string \<Rightarrow> nat \<Rightarrow> string" where
  "piece_id doc_id i = doc_id @ ''--chunk-'' @ show_nat i"

definition i32_of :: "nat \<Rightarrow> int" where
  "i32_of i = sint (of_nat i :: 32 word)"

primrec kb_index_pieces ::
  "kb_world \<Rightarrow> nat \<Rightarrow> string \<Rightarrow> string \<Rightarrow> string option \<Rightarrow> nat \<Rightarrow> string list \<Rightarrow> kb_db
    \<Rightarrow> (string + unit) \<times> kb_db" where
  "kb_index_pieces w width ns doc_id metadata i [] db = (Inr (), db)"
| "kb_index_pieces w width ns doc_id metadata i (p # ps) db =
     (case kw_embed w p of
        Inl err \<Rightarrow> (Inl err, db)
      | Inr v \<Rightarrow>
          (case kb_add (kw_engine w) width db ns (kb_row_of w (piece_id doc_id i) metadata doc_id p (i32_of i) v) of
             (Inl err, db') \<Rightarrow> (Inl err, db')
           | (Inr _, db') \<Rightarrow> kb_index_pieces w width ns doc_id metadata (Suc i) ps db'))"

definition text_param :: "string \<Rightarrow> json \<Rightarrow> string + string" where
  "text_param k params =
     (case as_str (json_index params k) of Some t \<Rightarrow> Inr t | None \<Rightarrow> Inl (''missing '' @ k))"

definition num_param :: "string \<Rightarrow> json \<Rightarrow> nat \<Rightarrow> nat" where
  "num_param k params dflt = u64_or dflt (json_index params k)"

text \<open>A failure half-way leaves the rows written so far, and so does a text that is not split.\<close>

definition handle_index ::
  "kb_world \<Rightarrow> kb_app \<Rightarrow> string \<Rightarrow> json \<Rightarrow> kb_db \<Rightarrow> (string + json) run \<times> kb_db" where
  "handle_index w a uuid params db =
     (case (text_param ''namespace'' params, text_param ''text'' params) of
        (Inl err, _) \<Rightarrow> (Returned (Inl err), db)
      | (Inr _, Inl err) \<Rightarrow> (Returned (Inl err), db)
      | (Inr ns, Inr txt) \<Rightarrow>
          (let doc_id = (case as_str (json_index params ''doc_id'') of Some d \<Rightarrow> d | None \<Rightarrow> uuid);
               metadata = as_str (json_index params ''metadata'')
           in case kw_embed w txt of
                Inl err \<Rightarrow> (Returned (Inl err), db)
              | Inr v \<Rightarrow>
                  (case kb_add (kw_engine w) (ka_width a) db ns
                          (kb_row_of w doc_id metadata doc_id txt FULL_DOC v) of
                     (Inl err, db1) \<Rightarrow> (Returned (Inl err), db1)
                   | (Inr _, db1) \<Rightarrow>
                       (case chunk_text txt (num_param ''chunk_size'' params (ka_chunk_size a))
                               (num_param ''chunk_overlap'' params (ka_overlap a)) of
                          Panicked \<Rightarrow> (Panicked, db1)
                        | Stuck \<Rightarrow> (Stuck, db1)
                        | Returned ps \<Rightarrow>
                            (case kb_index_pieces w (ka_width a) ns doc_id metadata 0 ps db1 of
                               (Inl err, db2) \<Rightarrow> (Returned (Inl err), db2)
                             | (Inr _, db2) \<Rightarrow>
                                 (Returned (Inr (json_obj [(''doc_id'', JStr doc_id),
                                    (''chunk_count'', JNum (PosInt (length ps)))])), db2))))))"

definition handle_embed :: "kb_world \<Rightarrow> json \<Rightarrow> string + json" where
  "handle_embed w params =
     (case text_param ''text'' params of
        Inl err \<Rightarrow> Inl err
      | Inr txt \<Rightarrow>
          (case kw_embed w txt of
             Inl err \<Rightarrow> Inl err
           | Inr v \<Rightarrow> Inr (json_obj [(''embedding'', JArr (map Llm_Backends.json_f32 v))])))"

definition with_query ::
  "kb_world \<Rightarrow> json \<Rightarrow> (string \<Rightarrow> ieee list \<Rightarrow> string + json list) \<Rightarrow> string + json" where
  "with_query w params search =
     (case (text_param ''namespace'' params, text_param ''query'' params) of
        (Inl err, _) \<Rightarrow> Inl err
      | (Inr _, Inl err) \<Rightarrow> Inl err
      | (Inr ns, Inr q) \<Rightarrow>
          (case kw_embed w q of
             Inl err \<Rightarrow> Inl err
           | Inr v \<Rightarrow>
               (case search ns v of Inl err \<Rightarrow> Inl err | Inr rs \<Rightarrow> Inr (json_obj [(''results'', JArr rs)]))))"

definition handle_search :: "kb_world \<Rightarrow> json \<Rightarrow> kb_db \<Rightarrow> string + json" where
  "handle_search w params db =
     with_query w params (\<lambda>ns v.
       case kb_search (kw_engine w) db ns v (num_param ''k'' params 5) of
         Inl err \<Rightarrow> Inl err | Inr rs \<Rightarrow> Inr (map search_result_to_json rs))"

definition handle_search_with_context :: "kb_world \<Rightarrow> kb_app \<Rightarrow> json \<Rightarrow> kb_db \<Rightarrow> string + json" where
  "handle_search_with_context w a params db =
     with_query w params (\<lambda>ns v.
       case kb_search_with_context (kw_engine w) (ka_width a) db ns v (num_param ''k'' params 5)
              (num_param ''context_chunks'' params 2) of
         Inl err \<Rightarrow> Inl err | Inr rs \<Rightarrow> Inr (map context_result_to_json rs))"

definition handle_delete :: "kb_world \<Rightarrow> json \<Rightarrow> kb_db \<Rightarrow> (string + json) \<times> kb_db" where
  "handle_delete w params db =
     (case (text_param ''namespace'' params, text_param ''doc_id'' params) of
        (Inl err, _) \<Rightarrow> (Inl err, db)
      | (Inr _, Inl err) \<Rightarrow> (Inl err, db)
      | (Inr ns, Inr d) \<Rightarrow>
          (case kb_delete (kw_engine w) db ns d of
             (Inl err, db') \<Rightarrow> (Inl err, db')
           | (Inr _, db') \<Rightarrow> (Inr (json_obj [(''deleted'', JBool True)]), db')))"

definition handle_list :: "kb_world \<Rightarrow> kb_app \<Rightarrow> json \<Rightarrow> kb_db \<Rightarrow> string + json" where
  "handle_list w a params db =
     (case text_param ''namespace'' params of
        Inl err \<Rightarrow> Inl err
      | Inr ns \<Rightarrow>
          (case kb_list (kw_engine w) (ka_width a) db ns of
             Inl err \<Rightarrow> Inl err
           | Inr rs \<Rightarrow> Inr (json_obj [(''documents'', JArr (map search_result_to_json rs))])))"

definition kb_methods :: "string list" where
  "kb_methods = [''knowledgebase.embed'', ''knowledgebase.index'', ''knowledgebase.search'',
     ''knowledgebase.search_with_context'', ''knowledgebase.delete'', ''knowledgebase.list'']"

definition kb_request ::
  "kb_world \<Rightarrow> kb_app \<Rightarrow> string \<Rightarrow> json_rpc_request \<Rightarrow> kb_db \<Rightarrow> ((string + json) run \<times> kb_db) option" where
  "kb_request w a uuid request db =
     (let m = req_method request; ps = req_params request
      in if m = ''knowledgebase.embed'' then Some (Returned (handle_embed w ps), db)
         else if m = ''knowledgebase.index'' then Some (handle_index w a uuid ps db)
         else if m = ''knowledgebase.search'' then Some (Returned (handle_search w ps db), db)
         else if m = ''knowledgebase.search_with_context''
         then Some (Returned (handle_search_with_context w a ps db), db)
         else if m = ''knowledgebase.delete''
         then (case handle_delete w ps db of (r, db') \<Rightarrow> Some (Returned r, db'))
         else if m = ''knowledgebase.list'' then Some (Returned (handle_list w a ps db), db)
         else None)"

definition kb_answer :: "string \<Rightarrow> int \<Rightarrow> string \<Rightarrow> string + json \<Rightarrow> chunk" where
  "kb_answer uuid now_ms call_id r =
     response_for (case r of Inr v \<Rightarrow> rpc_response_ok call_id v | Inl err \<Rightarrow> rpc_response_err call_id (- 1) err)
       (new_null uuid now_ms KNOWLEDGE_BASE)"

text \<open>The task of a session: it ends with a panic, and waits for ever for a request that is stuck.\<close>

fun kb_session ::
  "kb_world \<Rightarrow> kb_app \<Rightarrow> (nat \<Rightarrow> string) \<Rightarrow> int \<Rightarrow> nat \<Rightarrow> bool \<Rightarrow> kb_db \<Rightarrow> server_message list
    \<Rightarrow> chunk list \<times> kb_db" where
  "kb_session w a uuid now_ms n live db [] = ([], db)"
| "kb_session w a uuid now_ms n live db (m # ms) =
     (case m of
        HistoryComplete _ _ \<Rightarrow> kb_session w a uuid now_ms n True db ms
      | Chunk _ c \<Rightarrow>
          if \<not> live then kb_session w a uuid now_ms n live db ms
          else (case as_rpc_request c of
                  None \<Rightarrow> kb_session w a uuid now_ms n live db ms
                | Some request \<Rightarrow>
                    (case kb_request w a (uuid (2 * n)) request db of
                       None \<Rightarrow> kb_session w a uuid now_ms n live db ms
                     | Some (Returned r, db') \<Rightarrow>
                         (case kb_session w a uuid now_ms (Suc n) live db' ms of
                            (cs, db'') \<Rightarrow>
                              (kb_answer (uuid (2 * n + 1)) now_ms (req_id request) r # cs, db''))
                     | Some (_, db') \<Rightarrow> ([], db')))
      | _ \<Rightarrow> kb_session w a uuid now_ms n live db ms)"

section \<open>A document in the table\<close>

definition piece_rows :: "kb_world \<Rightarrow> string \<Rightarrow> string option \<Rightarrow> nat \<Rightarrow> string list \<Rightarrow> kb_row list" where
  "piece_rows w doc_id metadata i ps =
     map (\<lambda>(j, p). kb_row_of w (piece_id doc_id j) metadata doc_id p (i32_of j) (projr (kw_embed w p)))
       (zip [i..<i + length ps] ps)"

definition document_rows :: "kb_world \<Rightarrow> string \<Rightarrow> string option \<Rightarrow> string \<Rightarrow> string list \<Rightarrow> kb_row list" where
  "document_rows w doc_id metadata txt ps =
     kb_row_of w doc_id metadata doc_id txt FULL_DOC (projr (kw_embed w txt)) # piece_rows w doc_id metadata 0 ps"

text \<open>The rows of a namespace, none when it has no table.\<close>

definition rows_in :: "kb_db \<Rightarrow> string \<Rightarrow> kb_row list" where
  "rows_in db ns = (case kv_get db ns of Some rows \<Rightarrow> rows | None \<Rightarrow> [])"

definition embeds :: "kb_world \<Rightarrow> nat \<Rightarrow> string \<Rightarrow> bool" where
  "embeds w width txt \<longleftrightarrow> (\<exists>v. kw_embed w txt = Inr v \<and> ke_fits (kw_engine w) width v = Inr ())"

lemma piece_rows_Cons:
  "piece_rows w d md i (p # ps) =
     kb_row_of w (piece_id d i) md d p (i32_of i) (projr (kw_embed w p)) # piece_rows w d md (Suc i) ps"
  by (simp add: piece_rows_def upt_conv_Cons del: upt_Suc)

lemma kb_add_fits:
  assumes "ke_fits e width (kr_embedding row) = Inr ()"
  shows "\<exists>db'. kb_add e width db ns row = (Inr (), db') \<and> rows_in db' ns = rows_in db ns @ [row]
    \<and> kv_get db' ns \<noteq> None \<and> (\<forall>ns'. ns' \<noteq> ns \<longrightarrow> kv_get db' ns' = kv_get db ns')"
  using assms by (auto simp: kb_add_def rows_in_def Let_def kv_simps split: option.split)

lemma kb_index_pieces_ok:
  assumes "\<forall>p \<in> set ps. embeds w width p" and "kv_get db ns \<noteq> None"
  shows "\<exists>db'. kb_index_pieces w width ns d md i ps db = (Inr (), db')
    \<and> rows_in db' ns = rows_in db ns @ piece_rows w d md i ps
    \<and> kv_get db' ns \<noteq> None \<and> (\<forall>ns'. ns' \<noteq> ns \<longrightarrow> kv_get db' ns' = kv_get db ns')"
  using assms
proof (induction ps arbitrary: i db)
  case Nil
  then show ?case by (simp add: piece_rows_def)
next
  case (Cons p ps)
  then obtain v where v: "kw_embed w p = Inr v" "ke_fits (kw_engine w) width v = Inr ()" by (auto simp: embeds_def)
  define row where "row = kb_row_of w (piece_id d i) md d p (i32_of i) v"
  have "ke_fits (kw_engine w) width (kr_embedding row) = Inr ()" using v(2) by (simp add: row_def kb_row_of_def)
  from kb_add_fits [OF this, of db ns] obtain db1 where 1: "kb_add (kw_engine w) width db ns row = (Inr (), db1)"
    "rows_in db1 ns = rows_in db ns @ [row]" "kv_get db1 ns \<noteq> None" "\<forall>ns'. ns' \<noteq> ns \<longrightarrow> kv_get db1 ns' = kv_get db ns'"
    by blast
  from Cons.IH [of db1 "Suc i"] Cons.prems 1(3) obtain db2 where
    2: "kb_index_pieces w width ns d md (Suc i) ps db1 = (Inr (), db2)"
    "rows_in db2 ns = rows_in db1 ns @ piece_rows w d md (Suc i) ps" "kv_get db2 ns \<noteq> None"
    "\<forall>ns'. ns' \<noteq> ns \<longrightarrow> kv_get db2 ns' = kv_get db1 ns'" by auto
  show ?case
    by (intro exI [of _ db2]) (use v 1 2 in \<open>simp add: piece_rows_Cons row_def\<close>)
qed

text \<open>A request to index a text, and what it leaves when everything it needs succeeds.\<close>

definition index_params :: "string \<Rightarrow> string \<Rightarrow> string \<Rightarrow> json" where
  "index_params ns d txt = json_obj [(''namespace'', JStr ns), (''doc_id'', JStr d), (''text'', JStr txt)]"

lemma handle_index_ok:
  assumes "chunk_text txt (ka_chunk_size a) (ka_overlap a) = Returned ps"
    and "embeds w (ka_width a) txt" and "\<forall>p \<in> set ps. embeds w (ka_width a) p"
  shows "\<exists>db'. handle_index w a uuid (index_params ns d txt) db
      = (Returned (Inr (json_obj [(''doc_id'', JStr d), (''chunk_count'', JNum (PosInt (length ps)))])), db')
    \<and> rows_in db' ns = rows_in db ns @ document_rows w d None txt ps
    \<and> kv_get db' ns \<noteq> None \<and> (\<forall>ns'. ns' \<noteq> ns \<longrightarrow> kv_get db' ns' = kv_get db ns')"
proof -
  obtain v where v: "kw_embed w txt = Inr v" "ke_fits (kw_engine w) (ka_width a) v = Inr ()"
    using assms(2) by (auto simp: embeds_def)
  define row where "row = kb_row_of w d None d txt FULL_DOC v"
  have "ke_fits (kw_engine w) (ka_width a) (kr_embedding row) = Inr ()"
    using v(2) by (simp add: row_def kb_row_of_def)
  from kb_add_fits [OF this, of db ns] obtain db1 where 1: "kb_add (kw_engine w) (ka_width a) db ns row = (Inr (), db1)"
    "rows_in db1 ns = rows_in db ns @ [row]" "kv_get db1 ns \<noteq> None" "\<forall>ns'. ns' \<noteq> ns \<longrightarrow> kv_get db1 ns' = kv_get db ns'"
    by blast
  from kb_index_pieces_ok [OF assms(3) 1(3), of d None 0] obtain db2 where
    2: "kb_index_pieces w (ka_width a) ns d None 0 ps db1 = (Inr (), db2)"
    "rows_in db2 ns = rows_in db1 ns @ piece_rows w d None 0 ps" "kv_get db2 ns \<noteq> None"
    "\<forall>ns'. ns' \<noteq> ns \<longrightarrow> kv_get db2 ns' = kv_get db1 ns'" by blast
  have params: "text_param ''namespace'' (index_params ns d txt) = Inr ns" "text_param ''text'' (index_params ns d txt) = Inr txt"
    "as_str (json_index (index_params ns d txt) ''doc_id'') = Some d"
    "as_str (json_index (index_params ns d txt) ''metadata'') = None"
    "num_param ''chunk_size'' (index_params ns d txt) n = n" "num_param ''chunk_overlap'' (index_params ns d txt) n = n" for n
    by (simp_all add: text_param_def num_param_def u64_or_def json_index_def index_params_def)
  have "handle_index w a uuid (index_params ns d txt) db
      = (Returned (Inr (json_obj [(''doc_id'', JStr d), (''chunk_count'', JNum (PosInt (length ps)))])), db2)"
    using v(1) 1(1) 2(1) assms(1) by (simp add: handle_index_def params Let_def row_def)
  then show ?thesis using 1 2 v(1) by (intro exI [of _ db2]) (simp add: document_rows_def row_def)
qed

text \<open>Indexing a document again keeps what was there: the old pieces stay beside the new ones.\<close>

lemma reindex_keeps_old:
  assumes "chunk_text x (ka_chunk_size a) (ka_overlap a) = Returned ps" and "embeds w (ka_width a) x"
    and "\<forall>p \<in> set ps. embeds w (ka_width a) p"
    and "chunk_text y (ka_chunk_size a) (ka_overlap a) = Returned qs" and "embeds w (ka_width a) y"
    and "\<forall>p \<in> set qs. embeds w (ka_width a) p"
  shows "rows_in (snd (handle_index w a u' (index_params ns d y) (snd (handle_index w a u (index_params ns d x) db)))) ns
    = rows_in db ns @ document_rows w d None x ps @ document_rows w d None y qs"
proof -
  obtain db1 where "snd (handle_index w a u (index_params ns d x) db) = db1"
    "rows_in db1 ns = rows_in db ns @ document_rows w d None x ps"
    using handle_index_ok [OF assms(1-3), of u ns d db] by force
  moreover obtain db2 where "snd (handle_index w a u' (index_params ns d y) db1) = db2"
    "rows_in db2 ns = rows_in db1 ns @ document_rows w d None y qs"
    using handle_index_ok [OF assms(4-6), of u' ns d db1] by force
  ultimately show ?thesis by simp
qed

text \<open>A string literal of SQL, and what the deletion relies on: the predicate means what it says.\<close>

definition sql_literal :: "string \<Rightarrow> string" where
  "sql_literal s = CHR 0x27 # concat (map (\<lambda>c. if c = CHR 0x27 then [c, c] else [c]) s) @ [CHR 0x27]"

definition sql_ok :: "kb_engine \<Rightarrow> bool" where
  "sql_ok e \<longleftrightarrow>
     (\<forall>a b r. ke_selects e (''doc_id = '' @ sql_literal a @ '' OR parent_doc_id = '' @ sql_literal b) r
        \<longleftrightarrow> kr_doc_id r = a \<or> kr_parent r = b)"

lemma delete_predicate_literal:
  "delete_predicate d = ''doc_id = '' @ sql_literal d @ '' OR parent_doc_id = '' @ sql_literal d"
proof -
  have "double_quotes s = concat (map (\<lambda>c. if c = CHR 0x27 then [c, c] else [c]) s)" for s
    by (induction s) simp_all
  then show ?thesis by (simp add: delete_predicate_def sql_literal_def Let_def)
qed

lemma document_rows_parent: "r \<in> set (document_rows w d md txt ps) \<Longrightarrow> kr_parent r = d"
  by (auto simp: document_rows_def piece_rows_def kb_row_of_def)

definition delete_params :: "string \<Rightarrow> string \<Rightarrow> json" where
  "delete_params ns d = json_obj [(''namespace'', JStr ns), (''doc_id'', JStr d)]"

text \<open>
  C33: A document comes and goes as a whole.  When its text can be split and embedded, indexing a
  document that the namespace does not have adds its row and one for every piece, and deleting it afterwards
  removes exactly these, whatever its id contains; other namespaces are not touched.
\<close>

theorem document_lifecycle:
  assumes "chunk_text txt (ka_chunk_size a) (ka_overlap a) = Returned ps"
    and "embeds w (ka_width a) txt" and "\<forall>p \<in> set ps. embeds w (ka_width a) p"
    and "\<forall>r \<in> set (rows_in db ns). kr_doc_id r \<noteq> d \<and> kr_parent r \<noteq> d" and "sql_ok (kw_engine w)"
    and "handle_index w a uuid (index_params ns d txt) db = (indexed, db1)"
    and "handle_delete w (delete_params ns d) db1 = (deleted, db2)"
  shows "indexed = Returned (Inr (json_obj [(''doc_id'', JStr d), (''chunk_count'', JNum (PosInt (length ps)))]))
    \<and> rows_in db1 ns = rows_in db ns @ document_rows w d None txt ps
    \<and> deleted = Inr (json_obj [(''deleted'', JBool True)]) \<and> rows_in db2 ns = rows_in db ns
    \<and> (\<forall>ns'. ns' \<noteq> ns \<longrightarrow> kv_get db2 ns' = kv_get db ns')"
proof -
  from handle_index_ok [OF assms(1-3), of uuid ns d db] assms(6)
  have i: "indexed = Returned (Inr (json_obj [(''doc_id'', JStr d), (''chunk_count'', JNum (PosInt (length ps)))]))"
    and rows: "rows_in db1 ns = rows_in db ns @ document_rows w d None txt ps"
    and some: "kv_get db1 ns \<noteq> None" and other: "\<forall>ns'. ns' \<noteq> ns \<longrightarrow> kv_get db1 ns' = kv_get db ns'" by auto
  have params: "text_param ''namespace'' (delete_params ns d) = Inr ns" "text_param ''doc_id'' (delete_params ns d) = Inr d"
    by (simp_all add: text_param_def json_index_def delete_params_def)
  have selects: "ke_selects (kw_engine w) (delete_predicate d) r \<longleftrightarrow> kr_doc_id r = d \<or> kr_parent r = d" for r
    using assms(5) by (simp add: sql_ok_def delete_predicate_literal)
  have gone: "deleted = Inr (json_obj [(''deleted'', JBool True)])"
    "db2 = kv_insert ns (filter (\<lambda>r. \<not> (kr_doc_id r = d \<or> kr_parent r = d)) (rows_in db1 ns)) db1"
    using assms(7) some by (auto simp: handle_delete_def params kb_delete_def selects rows_in_def)
  have "filter (\<lambda>r. \<not> (kr_doc_id r = d \<or> kr_parent r = d)) (rows_in db1 ns) = rows_in db ns"
    using assms(4) document_rows_parent [of _ w d None "txt" ps] by (auto simp: rows filter_empty_conv)
  then have "rows_in db2 ns = rows_in db ns" by (simp add: gone(2) rows_in_def kv_simps)
  then show ?thesis using i rows gone other by (simp add: kv_simps)
qed

text \<open>A reader of such predicates, which shows that what is relied on can be had.\<close>

fun read_literal :: "string \<Rightarrow> string \<times> string" where
  "read_literal [] = ([], [])"
| "read_literal (c # s) =
     (if c = CHR 0x27
      then (case s of c' # s' \<Rightarrow> if c' = CHR 0x27 then apfst (Cons c) (read_literal s') else ([], s) | [] \<Rightarrow> ([], []))
      else apfst (Cons c) (read_literal s))"

definition demo_selects :: "string \<Rightarrow> kb_row \<Rightarrow> bool" where
  "demo_selects p r =
     (case strip_prefix [CHR 0x27] (drop (length ''doc_id = '') p) of
        None \<Rightarrow> False
      | Some x \<Rightarrow>
          (case read_literal x of (a, y) \<Rightarrow>
             (case strip_prefix ('' OR parent_doc_id = '' @ [CHR 0x27]) y of
                None \<Rightarrow> False
              | Some z \<Rightarrow> kr_doc_id r = a \<or> kr_parent r = fst (read_literal z))))"

lemma read_literal_quoted:
  "rest = [] \<or> hd rest \<noteq> CHR 0x27 \<Longrightarrow>
     read_literal (concat (map (\<lambda>c. if c = CHR 0x27 then [c, c] else [c]) s) @ CHR 0x27 # rest) = (s, rest)"
  by (induction s) (auto split: list.split)

definition demo_engine :: kb_engine where
  "demo_engine =
     \<lparr>ke_missing = (\<lambda>ns. ''Table not found: '' @ ns), ke_fits = (\<lambda>_ _. Inr ()),
      ke_near = (\<lambda>_ k rows. Inr (map (\<lambda>r. (r, Finite 0)) (take k rows))), ke_selects = demo_selects\<rparr>"

definition demo_world :: kb_world where
  "demo_world = \<lparr>kw_engine = demo_engine, kw_embed = (\<lambda>_. Inr [Finite 1]), kw_clock = (\<lambda>_. ''0'')\<rparr>"

lemma demo_sql_ok: "sql_ok demo_engine"
proof -
  have "strip_prefix ('' OR parent_doc_id = '' @ [CHR 0x27]) ('' OR parent_doc_id = '' @ CHR 0x27 # z) = Some z" for z
    by (simp add: strip_prefix_eq)
  then show ?thesis
    using read_literal_quoted [of "[]"] read_literal_quoted [of "'' OR parent_doc_id = '' @ x" for x]
    by (simp add: sql_ok_def demo_engine_def demo_selects_def sql_literal_def)
qed

lemma demo_embeds: "embeds demo_world n x"
  by (simp add: embeds_def demo_world_def demo_engine_def)

theorem document_lifecycle_witness:
  "\<exists>db. rows_in db ''n'' = document_rows demo_world ''it's'' None ''abc'' [''ab'', ''a...bc'']
     \<and> fst (handle_delete demo_world (delete_params ''n'' ''it's'') db) = Inr (json_obj [(''deleted'', JBool True)])"
proof -
  let ?a = "\<lparr>ka_width = 1, ka_chunk_size = 2, ka_overlap = 1\<rparr>"
  obtain i db1 where 1: "handle_index demo_world ?a ''u'' (index_params ''n'' ''it's'' ''abc'') [] = (i, db1)" by fastforce
  obtain d db2 where 2: "handle_delete demo_world (delete_params ''n'' ''it's'') db1 = (d, db2)" by fastforce
  have "sql_ok (kw_engine demo_world)" by (simp add: demo_world_def demo_sql_ok)
  from document_lifecycle [OF _ demo_embeds _ _ this 1 2, of "[''ab'', ''a...bc'']"] chunk_abc demo_embeds
  show ?thesis by (intro exI [of _ db1]) (simp add: 2 rows_in_def)
qed

section \<open>Neighbouring pieces\<close>

text \<open>A search whose limit the table does not exceed finds every row, in some order.\<close>

definition reads_all :: "kb_engine \<Rightarrow> nat \<Rightarrow> bool" where
  "reads_all e width \<longleftrightarrow>
     (\<forall>rows. length rows \<le> ALL_ROWS \<longrightarrow>
        (\<exists>found. ke_near e (replicate width (Finite 0)) ALL_ROWS rows = Inr found
           \<and> mset (map fst found) = mset rows))"

lemma i32_of_small: "i < 2 ^ 31 \<Longrightarrow> i32_of i = int i"
  by (simp add: i32_of_def signed_of_nat signed_take_bit_int_eq_self)

lemma map_piece_rows:
  "map kr_text (piece_rows w d md i ps) = ps"
  "map kr_index (piece_rows w d md i ps) = map i32_of [i..<i + length ps]"
proof -
  have "map (kr_text \<circ> (\<lambda>(j, p). kb_row_of w (piece_id d j) md d p (i32_of j) (f p))) (zip [i..<i + length ps] ps) = map snd (zip [i..<i + length ps] ps)"
    for f by (rule map_cong) (auto simp: kb_row_of_def)
  then show "map kr_text (piece_rows w d md i ps) = ps" by (simp add: piece_rows_def)
  have "map (kr_index \<circ> (\<lambda>(j, p). kb_row_of w (piece_id d j) md d p (i32_of j) (f p))) (zip [i..<i + length ps] ps)
      = map (i32_of \<circ> fst) (zip [i..<i + length ps] ps)"
    for f by (rule map_cong) (auto simp: kb_row_of_def)
  then show "map kr_index (piece_rows w d md i ps) = map i32_of [i..<i + length ps]"
    by (simp add: piece_rows_def flip: map_map)
qed

lemma position_nth: "distinct xs \<Longrightarrow> i < length xs \<Longrightarrow> position (\<lambda>x. x = xs ! i) xs = Some i"
  by (induction xs arbitrary: i) (auto simp: less_Suc_eq_0_disj)

lemma position_map: "position P (map f xs) = position (P \<circ> f) xs"
  by (induction xs) auto

lemma sort_key_mset:
  assumes "mset xs = mset ys" and "sorted (map f ys)" and "distinct (map f ys)"
  shows "sort_key f xs = ys"
proof (rule properties_for_sort_key)
  show "mset ys = mset xs" using assms(1) by simp
  have s: "set xs = set ys" and len: "\<And>P. length (filter P xs) = length (filter P ys)"
    using assms(1) by (metis set_mset_mset, metis mset_filter size_mset)
  show "filter (\<lambda>x. f k = f x) ys = filter (\<lambda>x. f k = f x) xs" if k: "k \<in> set ys" for k
  proof -
    have inj: "inj_on f (set ys)" using assms(3) distinct_map by blast
    have "filter (\<lambda>x. f k = f x) ys = filter (\<lambda>x. x = k) ys"
      by (rule filter_cong) (use inj k in \<open>auto dest: inj_onD\<close>)
    moreover have "filter (\<lambda>x. f k = f x) xs = filter (\<lambda>x. x = k) xs"
      by (rule filter_cong) (use inj k s in \<open>auto dest: inj_onD\<close>)
    moreover have "filter (\<lambda>x. x = k) zs = replicate (length (filter (\<lambda>x. x = k) zs)) k" for zs :: "'a list"
      by (induction zs) auto
    ultimately show ?thesis using len by metis
  qed
  show "sorted (map f ys)" by (rule assms(2))
qed

lemma piece_rows_sorted:
  assumes "length ps < 2 ^ 31"
  shows "map kr_index (piece_rows w d md 0 ps) = map int [0..<length ps]"
  using assms i32_of_small by (auto simp: map_piece_rows)

text \<open>
  What surrounds a hit.  In a namespace that holds a document once, with fewer than \<open>2 ^ 31\<close> rows,
  the context of its \<open>i\<close>-th piece is the pieces before and after it in the text, as many as were
  asked for and there are, in their order, whatever other documents the namespace holds.
\<close>

theorem context_is_neighbours:
  assumes "reads_all e width" and "kv_get db ns = Some (others @ document_rows w d md txt ps @ others')"
    and "\<forall>r \<in> set (others @ others'). kr_parent r \<noteq> d"
    and "length (others @ document_rows w d md txt ps @ others') \<le> ALL_ROWS" and "i < length ps"
  shows "get_chunk_context e width db ns d (Some (int i)) ctx
    = Inr (drop (i - ctx) (take i ps), take ctx (drop (Suc i) ps))"
proof -
  let ?rows = "others @ document_rows w d md txt ps @ others'" and ?mine = "piece_rows w d md 0 ps"
  let ?own = "\<lambda>r. kr_parent r = d \<and> kr_index r \<noteq> FULL_DOC"
  have small: "length ps < 2 ^ 31"
    using assms(4) by (simp add: document_rows_def piece_rows_def ALL_ROWS_def)
  note keys = piece_rows_sorted [OF small, of w d md]
  obtain found where f: "ke_near e (replicate width (Finite 0)) ALL_ROWS ?rows = Inr found"
    and m: "mset (map fst found) = mset ?rows"
    using assms(1) [unfolded reads_all_def, rule_format, OF assms(4)] by blast
  have "filter ?own others = []" "filter ?own others' = []" using assms(3) by (auto simp: filter_empty_conv)
  moreover have "filter ?own (document_rows w d md txt ps) = ?mine"
  proof -
    have "kr_index r \<noteq> FULL_DOC" if "r \<in> set ?mine" for r
    proof -
      have "kr_index r \<in> set (map int [0..<length ps])" using that keys by (metis image_eqI set_map)
      then show ?thesis by (auto simp: FULL_DOC_def)
    qed
    moreover have "kr_parent r = d" if "r \<in> set ?mine" for r using that by (auto simp: piece_rows_def kb_row_of_def)
    ultimately have "filter ?own ?mine = ?mine" by (simp add: filter_id_conv)
    then show ?thesis by (simp add: document_rows_def kb_row_of_def)
  qed
  ultimately have "mset (filter ?own (map fst found)) = mset ?mine"
    using m by (simp only: mset_filter filter_append) (simp flip: mset_filter)
  then have own: "sort_key kr_index (filter ?own (map fst found)) = ?mine"
    by (rule sort_key_mset) (simp_all add: keys distinct_map sorted_map strict_sorted_imp_sorted)
  have "position (\<lambda>r. kr_index r = int i) ?mine = position (\<lambda>x. x = int i) (map int [0..<length ps])"
    using position_map [of "\<lambda>x. x = int i" kr_index ?mine] by (simp add: keys comp_def)
  also have "\<dots> = Some i"
    using position_nth [of "map int [0..<length ps]" i] assms(5) by (simp add: distinct_map)
  finally have pos: "position (\<lambda>r. kr_index r = int i) ?mine = Some i" .
  have len: "length ?mine = length ps" by (simp add: piece_rows_def)
  have "take (i - (i - ctx)) (rev (take i ps)) = rev (drop (i - ctx) (take i ps))"
    using assms(5) by (simp add: take_rev)
  then have texts: "map kr_text (rev (take ctx (rev (take i ?mine)))) = drop (i - ctx) (take i ps)"
    "map kr_text (take ctx (drop (Suc i) ?mine)) = take ctx (drop (Suc i) ps)"
    using assms(5) map_piece_rows(1) [of w d md 0 ps]
    by (simp_all add: rev_map take_rev len flip: take_map drop_map)
  show ?thesis
    using f by (simp add: get_chunk_context_def whole_table_def near_rows_def assms(2) own pos texts Let_def)
qed

theorem context_is_neighbours_witness:
  "get_chunk_context demo_engine 1 [(''n'', document_rows demo_world ''d'' None ''abc'' [''ab'', ''a...bc''])] ''n'' ''d'' (Some (int 1)) 5
     = Inr ([''ab''], [])"
proof -
  have "reads_all demo_engine 1" by (simp add: reads_all_def demo_engine_def multiset.map_comp comp_def)
  from context_is_neighbours [OF this, of "[(''n'', document_rows demo_world ''d'' None ''abc'' [''ab'', ''a...bc''])]"
      "''n''" "[]" demo_world "''d''" None "''abc''" "[''ab'', ''a...bc'']" "[]" 1 5]
  show ?thesis by (simp add: document_rows_def piece_rows_def ALL_ROWS_def)
qed

section \<open>The session task\<close>

text \<open>A request to index that does not come back: the text is accepted and cannot be split.\<close>

definition kb_hangs :: "kb_world \<Rightarrow> kb_app \<Rightarrow> json_rpc_request \<Rightarrow> bool" where
  "kb_hangs w a request =
     (req_method request = ''knowledgebase.index''
      \<and> (case (text_param ''namespace'' (req_params request), text_param ''text'' (req_params request)) of
           (Inr _, Inr txt) \<Rightarrow>
             embeds w (ka_width a) txt
             \<and> (case chunk_text txt (num_param ''chunk_size'' (req_params request) (ka_chunk_size a))
                       (num_param ''chunk_overlap'' (req_params request) (ka_overlap a)) of
                  Returned _ \<Rightarrow> False | _ \<Rightarrow> True)
         | _ \<Rightarrow> False))"

lemma handle_index_returns:
  assumes "req_method request = ''knowledgebase.index''"
  shows "(\<exists>r. fst (handle_index w a uuid (req_params request) db) = Returned r) \<longleftrightarrow> \<not> kb_hangs w a request"
proof (cases "text_param ''namespace'' (req_params request)")
  case ns: (Inr ns)
  show ?thesis
  proof (cases "text_param ''text'' (req_params request)")
    case t: (Inr x)
    show ?thesis
    proof (cases "kw_embed w x")
      case v: (Inr v)
      have emb: "embeds w (ka_width a) x \<longleftrightarrow> ke_fits (kw_engine w) (ka_width a) v = Inr ()"
        by (simp add: embeds_def v)
      show ?thesis
        using assms
        by (auto simp: kb_hangs_def handle_index_def ns t v emb kb_add_def kb_row_of_def Let_def
            split: sum.splits run.splits prod.splits)
    qed (use assms in \<open>simp add: kb_hangs_def handle_index_def ns t embeds_def Let_def\<close>)
  qed (use assms in \<open>simp add: kb_hangs_def handle_index_def ns\<close>)
qed (use assms in \<open>simp add: kb_hangs_def handle_index_def\<close>)

lemma kb_request_cases:
  "(req_method request \<notin> set kb_methods \<and> kb_request w a uuid request db = None)
   \<or> (req_method request \<in> set kb_methods \<and> kb_hangs w a request
        \<and> (\<exists>db'. kb_request w a uuid request db = Some (Panicked, db') \<or> kb_request w a uuid request db = Some (Stuck, db')))
   \<or> (req_method request \<in> set kb_methods \<and> \<not> kb_hangs w a request
        \<and> (\<exists>r db'. kb_request w a uuid request db = Some (Returned r, db')))"
proof (cases "req_method request = ''knowledgebase.index''")
  case True
  have "kb_request w a uuid request db = Some (handle_index w a uuid (req_params request) db)"
    by (simp add: kb_request_def True)
  then show ?thesis
    using handle_index_returns [OF True, of w a uuid db] True
    by (cases "handle_index w a uuid (req_params request) db"; cases "fst (handle_index w a uuid (req_params request) db)")
      (auto simp: kb_methods_def)
qed (auto simp: kb_request_def kb_methods_def kb_hangs_def Let_def split: prod.split)

definition object_result :: "string + json \<Rightarrow> bool" where
  "object_result r = (case r of Inr v \<Rightarrow> v \<noteq> JNull | Inl _ \<Rightarrow> True)"

lemma kb_request_object: "kb_request w a uuid request db = Some (Returned r, db') \<Longrightarrow> object_result r"
  by (auto simp: kb_request_def Let_def handle_embed_def handle_index_def handle_search_def handle_search_with_context_def
      with_query_def handle_delete_def handle_list_def object_result_def json_obj_def
      split: if_splits sum.splits prod.splits run.splits)

lemma kb_answer_response: "object_result r \<Longrightarrow> answered_ids (kb_answer u t i r # cs) = i # answered_ids cs"
proof -
  assume o: "object_result r"
  let ?r = "case r of Inr v \<Rightarrow> rpc_response_ok i v | Inl err \<Rightarrow> rpc_response_err i (- 1) err"
  have "rpc_response_wf ?r"
    using o by (auto simp: object_result_def rpc_response_wf_def rpc_response_ok_def rpc_response_err_def rpc_error_ok_def split: sum.split)
  from as_rpc_response_response_for [OF this] have "as_rpc_response (kb_answer u t i r) = Some ?r"
    by (simp add: kb_answer_def)
  moreover have "resp_id ?r = i" by (simp split: sum.split)
  ultimately show ?thesis by simp
qed

definition own_requests :: "json_rpc_request list \<Rightarrow> json_rpc_request list" where
  "own_requests rs = filter (\<lambda>r. req_method r \<in> set kb_methods) rs"

lemma kb_session_live:
  "answered_ids (fst (kb_session w a uuid t n True db ms))
     = map req_id (takeWhile (\<lambda>r. \<not> kb_hangs w a r) (own_requests (List.map_filter request_of ms)))"
proof (induction ms arbitrary: n db)
  case (Cons m ms)
  show ?case
  proof (cases "request_of m")
    case None
    then show ?thesis
      using Cons.IH by (cases m) (auto simp: request_of_def map_filter_simps split: option.splits)
  next
    case (Some request)
    then obtain sid c where m: "m = Chunk sid c" and r: "as_rpc_request c = Some request"
      by (cases m) (auto simp: request_of_def)
    have list: "request_of (Chunk sid c) = Some request" using Some by (simp add: m)
    from kb_request_cases [of request w a "uuid (2 * n)" db] show ?thesis
    proof (elim disjE conjE exE)
      fix res db' assume own: "req_method request \<in> set kb_methods" "\<not> kb_hangs w a request"
        and req: "kb_request w a (uuid (2 * n)) request db = Some (Returned res, db')"
      show ?thesis
        using kb_answer_response [OF kb_request_object [OF req]] Cons.IH own
        by (simp add: m r req list split_beta own_requests_def)
    qed (simp_all add: m r list Cons.IH own_requests_def)
  qed
qed (simp add: map_filter_simps own_requests_def)

text \<open>
  Every request is answered until one hangs.  The session task of the knowledge base answers
  each live request of its methods exactly once and in order, errors included, up to the first request to
  index a text that cannot be split with the asked sizes; from then on nothing is answered.
\<close>

theorem kb_answers_until_stuck:
  "answered_ids (fst (kb_session w a uuid t n False db ms))
     = map req_id (takeWhile (\<lambda>r. \<not> kb_hangs w a r) (own_requests (live_requests ms)))"
proof (induction ms)
  case (Cons m ms)
  then show ?case
    by (cases m) (simp_all add: live_requests_def ends_history_def kb_session_live map_filter_simps request_of_def)
qed (simp add: live_requests_def map_filter_simps own_requests_def)

section \<open>Indexing from the command line\<close>

text \<open>
  \<open>cafe-knowledgebase-index\<close>: the arguments after the program's name, the request it publishes
  in a session of its own, and its wait for the response.
\<close>

record index_args =
  xa_namespace :: string
  xa_file :: string
  xa_doc_id :: "string option"
  xa_metadata :: "string option"
  xa_bus :: string
  xa_chunk_size :: "nat option"
  xa_overlap :: "nat option"

datatype args_error = UsageShown | ValueMissing | BadNumber | UnknownFlag string

fun parse_flags :: "string list \<Rightarrow> index_args \<Rightarrow> args_error + index_args" where
  "parse_flags [] x = Inr x"
| "parse_flags (flag # args) x =
     (if flag \<in> {''--doc-id'', ''--metadata'', ''--bus'', ''--chunk-size'', ''--chunk-overlap''} then
        (case args of
           [] \<Rightarrow> Inl ValueMissing
         | v # rest \<Rightarrow>
             if flag = ''--doc-id'' then parse_flags rest (x\<lparr>xa_doc_id := Some v\<rparr>)
             else if flag = ''--metadata'' then parse_flags rest (x\<lparr>xa_metadata := Some v\<rparr>)
             else if flag = ''--bus'' then parse_flags rest (x\<lparr>xa_bus := v\<rparr>)
             else (case parse_uint u64_bound v of
                     None \<Rightarrow> Inl BadNumber
                   | Some n \<Rightarrow>
                       if flag = ''--chunk-size'' then parse_flags rest (x\<lparr>xa_chunk_size := Some n\<rparr>)
                       else parse_flags rest (x\<lparr>xa_overlap := Some n\<rparr>)))
      else Inl (UnknownFlag flag))"

definition parse_index_args :: "string \<Rightarrow> string list \<Rightarrow> args_error + index_args" where
  "parse_index_args bus args =
     (case args of
        ns # file # flags \<Rightarrow>
          parse_flags flags \<lparr>xa_namespace = ns, xa_file = file, xa_doc_id = None, xa_metadata = None, xa_bus = bus,
                             xa_chunk_size = None, xa_overlap = None\<rparr>
      | _ \<Rightarrow> Inl UsageShown)"

definition index_request_params :: "index_args \<Rightarrow> string \<Rightarrow> string \<Rightarrow> json" where
  "index_request_params x uuid txt =
     json_obj ([(''namespace'', JStr (xa_namespace x)),
                (''doc_id'', JStr (case xa_doc_id x of Some d \<Rightarrow> d | None \<Rightarrow> uuid)), (''text'', JStr txt),
                (''metadata'', opt_json JStr (xa_metadata x))]
       @ opt_entry ''chunk_size'' (\<lambda>n. JNum (PosInt n)) (xa_chunk_size x)
       @ opt_entry ''chunk_overlap'' (\<lambda>n. JNum (PosInt n)) (xa_overlap x))"

definition index_request_chunk :: "string \<Rightarrow> int \<Rightarrow> string \<Rightarrow> json \<Rightarrow> chunk" where
  "index_request_chunk uuid now_ms call_id params =
     as_transient (with_annotation CAFE_JSONRPC_REQUEST
       (request_to_json \<lparr>req_jsonrpc = ''2.0'', req_id = call_id, req_method = ''knowledgebase.index'', req_params = params\<rparr>)
       (new_null uuid now_ms ''com.nominal.cafe-knowledgebase-index''))"

text \<open>The wait ends with the first response to the call, or when the bus is gone; it has no time limit.\<close>

fun index_wait :: "string \<Rightarrow> server_message list \<Rightarrow> (string + json) option" where
  "index_wait call_id [] = None"
| "index_wait call_id (m # ms) =
     (case m of
        Chunk _ c \<Rightarrow>
          (case as_rpc_response c of
             Some r \<Rightarrow>
               if resp_id r = call_id
               then (case resp_result r of
                       Some v \<Rightarrow> Some (Inr v)
                     | None \<Rightarrow> map_option (\<lambda>err. Inl (err_message err)) (resp_error r))
               else index_wait call_id ms
           | None \<Rightarrow> index_wait call_id ms)
      | _ \<Rightarrow> index_wait call_id ms)"

text \<open>
  The request is published as soon as the session exists, and neither kept in its history nor
  retained: a service that subscribes after it, when it has heard of the session, never sees it.
\<close>

lemma early_index_request_is_lost:
  "session_publish now (index_request_chunk uuid now_ms call_id params) s
     = Some (tx_send (index_request_chunk uuid now_ms call_id params) s)"
proof -
  let ?c = "index_request_chunk uuid now_ms call_id params"
  have "is_transient ?c" by (simp add: index_request_chunk_def is_transient_as_transient)
  moreover have "annotation ?c k = None" if "k \<notin> {CAFE_TRANSIENT, CAFE_JSONRPC_REQUEST}" for k
    using that by (simp add: index_request_chunk_def as_transient_def annotation_with)
  then have "delete_target ?c = None" "retain_secs ?c = None"
    by (simp_all add: delete_target_def retain_secs_def get_annotation_def)
  ultimately show ?thesis by (simp add: session_publish_def)
qed

end
