(* ===== verification/Workers.thy ===== *)
theory Workers
  imports Http_Client Mcp_Bridge "HOL-Library.Log_Nat"
begin

text \<open>
  Three services that pass the requests of a session on to an HTTP service: task sheets
  (\<open>cafe-sheetbot\<close>), image generation (\<open>cafe-comfy\<close>) and lights (\<open>cafe-hue\<close>).  A session task is
  \<open>serve\<close> over a handler; \<open>send n i\<close> is the outcome of the \<open>i\<close>-th exchange that the \<open>n\<close>-th request of the
  task makes.  They are put against the tool tables of the MCP bridge.
\<close>

section \<open>Responses that stay\<close>

text \<open>Two of the services publish their responses as lasting chunks.\<close>

definition lasting_response :: "json_rpc_response \<Rightarrow> chunk \<Rightarrow> chunk" where
  "lasting_response r c = with_annotation CAFE_JSONRPC_RESPONSE (response_to_json r) c"

definition outcome_response :: "string \<Rightarrow> string + json \<Rightarrow> json_rpc_response" where
  "outcome_response call_id r =
     (case r of Inr v \<Rightarrow> rpc_response_ok call_id v | Inl e \<Rightarrow> rpc_response_err call_id UPSTREAM_ERROR e)"

definition text_or_empty :: "string \<Rightarrow> json \<Rightarrow> string" where
  "text_or_empty k params = (case as_str (json_index params k) of Some t \<Rightarrow> t | None \<Rightarrow> [])"

section \<open>Task sheets\<close>

definition SHEETBOT :: string where "SHEETBOT = ''com.nominal.cafe-sheetbot''"

record sheetbot =
  sb_base_url :: string
  sb_api_key :: string
  sb_jwt :: "string option"

definition sheetbot_new :: "string \<Rightarrow> string \<Rightarrow> sheetbot" where
  "sheetbot_new url key = \<lparr>sb_base_url = url, sb_api_key = key, sb_jwt = None\<rparr>"

text \<open>The body of a response that is not an error, and what its JSON says.\<close>

definition exchange_text :: "string \<Rightarrow> string \<Rightarrow> api_outcome \<Rightarrow> string + (string + string)" where
  "exchange_text verb path r =
     (case r of
        Inl _ \<Rightarrow> Inl (verb @ '' '' @ path @ '' failed'')
      | Inr (status, body) \<Rightarrow>
          if 400 \<le> status \<and> status < 600 then Inl (verb @ '' '' @ path @ '' returned error'') else Inr body)"

definition json_text :: "json_parser \<Rightarrow> string \<Rightarrow> string + string \<Rightarrow> string + json" where
  "json_text parse err body =
     (case body of Inl _ \<Rightarrow> Inl err | Inr t \<Rightarrow> (case parse t of Inl _ \<Rightarrow> Inl err | Inr v \<Rightarrow> Inr v))"

definition login_request :: "sheetbot \<Rightarrow> api_request" where
  "login_request c =
     \<lparr>aq_verb = ''POST'', aq_url = sb_base_url c @ ''/login'', aq_headers = [],
      aq_body = Some (json_obj [(''apiKey'', JStr (sb_api_key c))])\<rparr>"

text \<open>A key with a dot is exchanged for a token, any other is taken as the token.\<close>

definition sheetbot_login ::
  "json_parser \<Rightarrow> (api_request \<Rightarrow> api_outcome) \<Rightarrow> sheetbot \<Rightarrow> (string + unit) \<times> sheetbot" where
  "sheetbot_login parse send c =
     (if sb_api_key c = [] then (Inr (), c)
      else if CHR ''.'' \<in> set (sb_api_key c) then
        (case exchange_text ''POST'' ''/login'' (send (login_request c)) of
           Inl e \<Rightarrow> (Inl e, c)
         | Inr body \<Rightarrow>
             (case json_text parse ''failed to parse /login response'' body of
                Inl e \<Rightarrow> (Inl e, c)
              | Inr v \<Rightarrow>
                  (case as_str (json_index v ''token'') of
                     None \<Rightarrow> (Inl (''login response missing '' @ CHR 0x27 # ''token'' @ [CHR 0x27]), c)
                   | Some t \<Rightarrow> (Inr (), c\<lparr>sb_jwt := Some t\<rparr>))))
      else (Inr (), c\<lparr>sb_jwt := Some (sb_api_key c)\<rparr>))"

text \<open>A method and its parameters become one request, or are refused.\<close>

type_synonym sheet_call = "string \<times> string \<times> json option"

definition with_param :: "string \<Rightarrow> string \<Rightarrow> json \<Rightarrow> (string \<Rightarrow> string + 'a) \<Rightarrow> string + 'a" where
  "with_param m k params f =
     (if text_or_empty k params = [] then Inl (m @ '': '' @ k @ '' is required'')
      else f (text_or_empty k params))"

definition task_path :: "string \<Rightarrow> string \<Rightarrow> string" where
  "task_path i rest = ''/tasks/'' @ i @ rest"

definition artefact_call ::
  "string \<Rightarrow> json \<Rightarrow> (string \<Rightarrow> string \<Rightarrow> sheet_call) \<Rightarrow> string + sheet_call" where
  "artefact_call m params call =
     with_param m ''task_id'' params (\<lambda>t. with_param m ''filename'' params (\<lambda>f. Inr (call t f)))"

text \<open>The methods of the client, each the call it makes.\<close>

definition sb_create_task :: "json \<Rightarrow> sheet_call" where
  "sb_create_task params = (''POST'', ''/tasks'', Some params)"

definition sb_list_tasks :: "sheet_call" where
  "sb_list_tasks = (''GET'', ''/tasks'', None)"

definition sb_get_task :: "string \<Rightarrow> sheet_call" where
  "sb_get_task i = (''GET'', task_path i [], None)"

definition sb_update_task :: "string \<Rightarrow> json \<Rightarrow> sheet_call" where
  "sb_update_task i params = (''PATCH'', task_path i [], Some params)"

definition sb_delete_task :: "string \<Rightarrow> sheet_call" where
  "sb_delete_task i = (''DELETE'', task_path i [], None)"

definition sb_accept_task :: "string \<Rightarrow> sheet_call" where
  "sb_accept_task i = (''POST'', task_path i ''/accept'', Some JNull)"

definition sb_complete_task :: "string \<Rightarrow> json \<Rightarrow> sheet_call" where
  "sb_complete_task i params = (''POST'', task_path i ''/complete'', Some params)"

definition sb_fail_task :: "string \<Rightarrow> json \<Rightarrow> sheet_call" where
  "sb_fail_task i params = (''POST'', task_path i ''/failed'', Some params)"

definition sb_update_task_data :: "string \<Rightarrow> json \<Rightarrow> sheet_call" where
  "sb_update_task_data i params = (''POST'', task_path i ''/data'', Some params)"

definition sb_clone_task :: "string \<Rightarrow> sheet_call" where
  "sb_clone_task i = (''POST'', task_path i ''/clone'', Some JNull)"

definition sb_get_next_task :: "sheet_call" where
  "sb_get_next_task = (''POST'', ''/tasks/get'', Some (JObj []))"

definition sb_list_sheets :: "sheet_call" where
  "sb_list_sheets = (''GET'', ''/sheets'', None)"

definition sb_get_sheet :: "string \<Rightarrow> sheet_call" where
  "sb_get_sheet i = (''GET'', ''/sheets/'' @ i, None)"

definition sb_upsert_sheet_data :: "string \<Rightarrow> json \<Rightarrow> sheet_call" where
  "sb_upsert_sheet_data i params = (''POST'', ''/sheets/'' @ i @ ''/data'', Some params)"

definition sb_delete_sheet_row :: "string \<Rightarrow> string \<Rightarrow> sheet_call" where
  "sb_delete_sheet_row i k = (''DELETE'', ''/sheets/'' @ i @ ''/data/'' @ k, None)"

definition sb_upload_artefact :: "string \<Rightarrow> string \<Rightarrow> json \<Rightarrow> sheet_call" where
  "sb_upload_artefact t f d =
     (''POST'', task_path t ''/artefacts'', Some (json_obj [(''filename'', JStr f), (''data'', d)]))"

definition sb_get_artefact :: "string \<Rightarrow> string \<Rightarrow> sheet_call" where
  "sb_get_artefact t f = (''GET'', task_path t (''/artefacts/'' @ f), None)"

definition sb_delete_artefact :: "string \<Rightarrow> string \<Rightarrow> sheet_call" where
  "sb_delete_artefact t f = (''DELETE'', task_path t (''/artefacts/'' @ f), None)"

definition sb_list_library :: "sheet_call" where
  "sb_list_library = (''GET'', ''/library'', None)"

lemmas sheet_calls =
  sb_create_task_def sb_list_tasks_def sb_get_task_def sb_update_task_def
  sb_delete_task_def sb_accept_task_def sb_complete_task_def sb_fail_task_def
  sb_update_task_data_def sb_clone_task_def sb_get_next_task_def sb_list_sheets_def
  sb_get_sheet_def sb_upsert_sheet_data_def sb_delete_sheet_row_def sb_upload_artefact_def
  sb_get_artefact_def sb_delete_artefact_def sb_list_library_def

definition sheetbot_plan :: "string \<Rightarrow> json \<Rightarrow> string + sheet_call" where
  "sheetbot_plan m params =
     (if m = ''create_task'' then Inr (sb_create_task params)
      else if m = ''list_tasks'' then Inr sb_list_tasks
      else if m = ''get_task'' then with_param m ''id'' params (\<lambda>i. Inr (sb_get_task i))
      else if m = ''update_task'' then with_param m ''id'' params (\<lambda>i. Inr (sb_update_task i params))
      else if m = ''delete_task'' then with_param m ''id'' params (\<lambda>i. Inr (sb_delete_task i))
      else if m = ''accept_task'' then with_param m ''id'' params (\<lambda>i. Inr (sb_accept_task i))
      else if m = ''complete_task'' then
           with_param m ''id'' params (\<lambda>i. Inr (sb_complete_task i params))
      else if m = ''fail_task'' then with_param m ''id'' params (\<lambda>i. Inr (sb_fail_task i params))
      else if m = ''update_task_data'' then
           with_param m ''id'' params (\<lambda>i. Inr (sb_update_task_data i params))
      else if m = ''clone_task'' then with_param m ''id'' params (\<lambda>i. Inr (sb_clone_task i))
      else if m = ''get_next_task'' then Inr sb_get_next_task
      else if m = ''list_sheets'' then Inr sb_list_sheets
      else if m = ''get_sheet'' then with_param m ''id'' params (\<lambda>i. Inr (sb_get_sheet i))
      else if m = ''upsert_sheet_data'' then
           with_param m ''id'' params (\<lambda>i. Inr (sb_upsert_sheet_data i params))
      else if m = ''delete_sheet_row'' then
           with_param m ''id'' params (\<lambda>i. with_param m ''key'' params (\<lambda>k. Inr (sb_delete_sheet_row i k)))
      else if m = ''upload_artefact'' then artefact_call m params (\<lambda>t f. sb_upload_artefact t f params)
      else if m = ''get_artefact'' then artefact_call m params sb_get_artefact
      else if m = ''delete_artefact'' then artefact_call m params sb_delete_artefact
      else if m = ''list_library'' then Inr sb_list_library
      else Inl (''unknown sheetbot method: '' @ m))"

definition auth_headers :: "(string \<Rightarrow> bool) \<Rightarrow> sheetbot \<Rightarrow> (string \<times> string) list" where
  "auth_headers header_ok c =
     (case sb_jwt c of
        Some t \<Rightarrow> if header_ok (''Bearer '' @ t) then [bearer t] else []
      | None \<Rightarrow> [])"

definition sheetbot_request :: "(string \<Rightarrow> bool) \<Rightarrow> sheetbot \<Rightarrow> sheet_call \<Rightarrow> api_request" where
  "sheetbot_request header_ok c call =
     (case call of (verb, path, body) \<Rightarrow>
        \<lparr>aq_verb = verb, aq_url = sb_base_url c @ path, aq_headers = auth_headers header_ok c, aq_body = body\<rparr>)"

text \<open>A deletion may be answered with an empty body.\<close>

definition sheetbot_result :: "json_parser \<Rightarrow> sheet_call \<Rightarrow> api_outcome \<Rightarrow> string + json" where
  "sheetbot_result parse call r =
     (case call of (verb, path, _) \<Rightarrow>
        (case exchange_text verb path r of
           Inl e \<Rightarrow> Inl e
         | Inr body \<Rightarrow>
             if verb = ''DELETE'' then
               (case body of
                  Inl _ \<Rightarrow> Inl (''failed to read DELETE '' @ path @ '' response'')
                | Inr t \<Rightarrow>
                    if t = [] then Inr (json_obj [(''deleted'', JBool True)])
                    else json_text parse (''failed to parse DELETE '' @ path @ '' response'') (Inr t))
             else json_text parse (''failed to parse '' @ verb @ '' '' @ path @ '' response'') body))"

record sheet_world =
  sw_parse :: json_parser
  sw_print :: "json \<Rightarrow> string"
  sw_header_ok :: "string \<Rightarrow> bool"
  sw_send :: "nat \<Rightarrow> api_request \<Rightarrow> api_outcome"

definition sheetbot_dispatch :: "sheet_world \<Rightarrow> sheetbot \<Rightarrow> nat \<Rightarrow> string \<Rightarrow> json \<Rightarrow> string + json" where
  "sheetbot_dispatch w c n m params =
     (case sheetbot_plan m params of
        Inl e \<Rightarrow> Inl e
      | Inr call \<Rightarrow> sheetbot_result (sw_parse w) call (sw_send w n (sheetbot_request (sw_header_ok w) c call)))"

definition sheetbot_handler ::
  "sheet_world \<Rightarrow> sheetbot \<Rightarrow> (nat \<Rightarrow> string) \<Rightarrow> int \<Rightarrow> nat \<Rightarrow> json_rpc_request \<Rightarrow> chunk list" where
  "sheetbot_handler w c uuid now_ms n request =
     (case strip_prefix ''sheetbot.'' (req_method request) of
        None \<Rightarrow> []
      | Some m \<Rightarrow>
          (let result = sheetbot_dispatch w c n m (req_params request);
               answer = (\<lambda>r. lasting_response (outcome_response (req_id request) r)
                                (new_null (uuid (2 * n + 1)) now_ms SHEETBOT))
           in case result of
                Inl e \<Rightarrow> [answer (Inl e)]
              | Inr v \<Rightarrow>
                  [with_annotation ''mime_type'' (JStr ''application/json'')
                     (new_text (uuid (2 * n)) now_ms (sw_print w v) SHEETBOT),
                   answer (Inr (json_obj [(''chunk_id'', JStr (uuid (2 * n)))]))]))"

section \<open>Images\<close>

definition COMFY :: string where "COMFY = ''com.nominal.cafe-comfy''"

definition resolve_text :: "json \<Rightarrow> string + string" where
  "resolve_text params =
     (let t = (case as_str (json_index params ''text'') of
                 Some t \<Rightarrow> t | None \<Rightarrow> text_or_empty ''prompt'' params)
      in if t = [] then Inl ''comfy.invoke: text param is empty'' else Inr t)"

definition resolve_workflow ::
  "(string \<Rightarrow> string + string) \<Rightarrow> json_parser \<Rightarrow> json \<Rightarrow> json \<Rightarrow> string + json" where
  "resolve_workflow read_file parse dflt params =
     (let path = text_or_empty ''workflow_path'' params; q = (\<lambda>s. CHR 0x27 # s @ [CHR 0x27])
      in if path = [] then Inr dflt
         else (case read_file path of
                 Inl e \<Rightarrow> Inl (''reading workflow override '' @ q path @ '': '' @ e)
               | Inr body \<Rightarrow>
                   (case parse body of
                      Inl e \<Rightarrow> Inl (''parsing workflow override '' @ q path @ '': '' @ e)
                    | Inr v \<Rightarrow> Inr v)))"

definition resolve_input_node :: "string \<Rightarrow> json \<Rightarrow> string" where
  "resolve_input_node dflt params =
     (if text_or_empty ''input_node'' params = [] then dflt else text_or_empty ''input_node'' params)"

definition json_update :: "string \<Rightarrow> (json \<Rightarrow> json) \<Rightarrow> json \<Rightarrow> json" where
  "json_update k f v = (case v of JObj kvs \<Rightarrow> JObj (kv_adjust k f kvs) | _ \<Rightarrow> v)"

text \<open>The text of the input node is replaced where it exists; nothing is added.\<close>

definition inject_prompt :: "string \<Rightarrow> string \<Rightarrow> json \<Rightarrow> json" where
  "inject_prompt node t workflow =
     json_update node (json_update ''inputs'' (json_update ''text'' (\<lambda>_. JStr t))) workflow"

record generated_image =
  gi_filename :: string
  gi_subfolder :: string
  gi_type :: string

record history_entry =
  he_outputs :: "(string, generated_image list option) kv"
  he_completed :: bool

definition image_from_json :: "json \<Rightarrow> generated_image option" where
  "image_from_json v =
     (case struct_fields [''filename'', ''subfolder'', ''type''] v of
        Some [a, b, c] \<Rightarrow>
          (case (field_string a, field_string b, field_string c) of
             (Some a', Some b', Some c') \<Rightarrow> Some \<lparr>gi_filename = a', gi_subfolder = b', gi_type = c'\<rparr>
           | _ \<Rightarrow> None)
      | _ \<Rightarrow> None)"

definition map_from_json :: "(json \<Rightarrow> 'a option) \<Rightarrow> json \<Rightarrow> (string, 'a) kv option" where
  "map_from_json dec v =
     (case v of JObj kvs \<Rightarrow> those (map (\<lambda>(k, x). map_option (Pair k) (dec x)) kvs) | _ \<Rightarrow> None)"

definition node_output_from_json :: "json \<Rightarrow> generated_image list option option" where
  "node_output_from_json v =
     (case struct_fields [''images''] v of
        Some [x] \<Rightarrow> field_option (json_list image_from_json) x
      | _ \<Rightarrow> None)"

definition history_entry_from_json :: "json \<Rightarrow> history_entry option" where
  "history_entry_from_json v =
     (case struct_fields [''outputs'', ''status''] v of
        Some [Some o', Some st] \<Rightarrow>
          (case (map_from_json node_output_from_json o', struct_fields [''completed''] st) of
             (Some outs, Some [Some (JBool b)]) \<Rightarrow> Some \<lparr>he_outputs = outs, he_completed = b\<rparr>
           | _ \<Rightarrow> None)
      | _ \<Rightarrow> None)"

definition prompt_id_from_json :: "json \<Rightarrow> string option" where
  "prompt_id_from_json v =
     (case struct_fields [''prompt_id'', ''number''] v of
        Some [a, b] \<Rightarrow> Option.bind (field_string a) (\<lambda>i. map_option (\<lambda>_. i) (Option.bind b as_u64))
      | _ \<Rightarrow> None)"

text \<open>An exchange whose status is checked, with the messages its failures get.\<close>

definition comfy_exchange :: "string \<Rightarrow> api_outcome \<Rightarrow> string + (string + string)" where
  "comfy_exchange what r =
     (case r of
        Inl _ \<Rightarrow> Inl (what @ '' request failed'')
      | Inr (status, body) \<Rightarrow>
          if 400 \<le> status \<and> status < 600 then Inl (what @ '' returned error status'') else Inr body)"

definition comfy_json ::
  "json_parser \<Rightarrow> (json \<Rightarrow> 'a option) \<Rightarrow> string \<Rightarrow> string \<Rightarrow> api_outcome \<Rightarrow> string + 'a" where
  "comfy_json parse dec what err r =
     (case comfy_exchange what r of
        Inl e \<Rightarrow> Inl e
      | Inr body \<Rightarrow>
          (case json_text parse err body of
             Inl e \<Rightarrow> Inl e
           | Inr v \<Rightarrow> (case dec v of None \<Rightarrow> Inl err | Some x \<Rightarrow> Inr x)))"

definition plain_get :: "string \<Rightarrow> api_request" where
  "plain_get url = \<lparr>aq_verb = ''GET'', aq_url = url, aq_headers = [], aq_body = None\<rparr>"

definition plain_post :: "string \<Rightarrow> json \<Rightarrow> api_request" where
  "plain_post url body = \<lparr>aq_verb = ''POST'', aq_url = url, aq_headers = [], aq_body = Some body\<rparr>"

definition prompt_request :: "string \<Rightarrow> json \<Rightarrow> api_request" where
  "prompt_request base workflow =
     plain_post (base @ ''/prompt'') (json_obj [(''prompt'', workflow), (''client_id'', JStr ''cafe-comfy'')])"

text \<open>
  The history is asked for until the prompt has completed: \<open>send i\<close> is the outcome of the
  \<open>i\<close>-th question, and the number of questions left is the fuel of the loop.
\<close>

definition COMFY_POLLS :: nat where "COMFY_POLLS = 120"

fun poll_history ::
  "json_parser \<Rightarrow> (nat \<Rightarrow> api_request \<Rightarrow> api_outcome) \<Rightarrow> string \<Rightarrow> string \<Rightarrow> nat \<Rightarrow> nat \<Rightarrow> string + history_entry"
where
  "poll_history parse send base pid i 0 = Inl (''ComfyUI prompt '' @ pid @ '' did not complete within 60s'')"
| "poll_history parse send base pid i (Suc k) =
     (case comfy_json parse (map_from_json history_entry_from_json) ''GET /history''
             ''failed to parse /history response'' (send i (plain_get (base @ ''/history/'' @ pid))) of
        Inl e \<Rightarrow> Inl e
      | Inr prompts \<Rightarrow>
          (case kv_get prompts pid of
             Some entry \<Rightarrow> if he_completed entry then Inr entry else poll_history parse send base pid (Suc i) k
           | None \<Rightarrow> poll_history parse send base pid (Suc i) k))"

text \<open>The outputs are looked at in the order in which the hash map gives them.\<close>

definition first_image ::
  "((string, generated_image list option) kv \<Rightarrow> generated_image list option list)
    \<Rightarrow> history_entry \<Rightarrow> generated_image option" where
  "first_image hash_order e =
     (case List.map_filter (\<lambda>o'. case o' of Some (g # _) \<Rightarrow> Some g | _ \<Rightarrow> None) (hash_order (he_outputs e)) of
        [] \<Rightarrow> None
      | g # _ \<Rightarrow> Some g)"

definition view_request :: "string \<Rightarrow> generated_image \<Rightarrow> api_request" where
  "view_request base g =
     plain_get (base @ ''/view?filename='' @ gi_filename g @ ''&subfolder='' @ gi_subfolder g
                @ ''&type='' @ gi_type g)"

definition download_image :: "api_outcome \<Rightarrow> string + byte list" where
  "download_image r =
     (case comfy_exchange ''GET /view'' r of
        Inl e \<Rightarrow> Inl e
      | Inr (Inl _) \<Rightarrow> Inl ''failed to read image bytes''
      | Inr (Inr s) \<Rightarrow> Inr (map (\<lambda>c. of_nat (byte_val c)) s))"

record comfy_world =
  cw_parse :: json_parser
  cw_read_file :: "string \<Rightarrow> string + string"
  cw_hash_order :: "(string, generated_image list option) kv \<Rightarrow> generated_image list option list"
  cw_prompt :: "nat \<Rightarrow> api_request \<Rightarrow> api_outcome"
  cw_poll :: "nat \<Rightarrow> nat \<Rightarrow> api_request \<Rightarrow> api_outcome"
  cw_view :: "nat \<Rightarrow> api_request \<Rightarrow> api_outcome"

definition comfy_generate :: "comfy_world \<Rightarrow> string \<Rightarrow> nat \<Rightarrow> json \<Rightarrow> string \<Rightarrow> string \<Rightarrow> string + byte list" where
  "comfy_generate w base n workflow t node =
     (case comfy_json (cw_parse w) prompt_id_from_json ''POST /prompt'' ''failed to parse /prompt response''
             (cw_prompt w n (prompt_request base (inject_prompt node t workflow))) of
        Inl e \<Rightarrow> Inl e
      | Inr pid \<Rightarrow>
          (case poll_history (cw_parse w) (cw_poll w n) base pid 0 COMFY_POLLS of
             Inl e \<Rightarrow> Inl e
           | Inr entry \<Rightarrow>
               (case first_image (cw_hash_order w) entry of
                  None \<Rightarrow> Inl ''no images in ComfyUI output''
                | Some g \<Rightarrow> download_image (cw_view w n (view_request base g)))))"

record comfy_service =
  cs_base_url :: string
  cs_workflow :: json
  cs_input_node :: string

definition comfy_request :: "comfy_world \<Rightarrow> comfy_service \<Rightarrow> nat \<Rightarrow> json \<Rightarrow> string + byte list" where
  "comfy_request w c n params =
     (case resolve_text params of
        Inl e \<Rightarrow> Inl e
      | Inr t \<Rightarrow>
          (case resolve_workflow (cw_read_file w) (cw_parse w) (cs_workflow c) params of
             Inl e \<Rightarrow> Inl e
           | Inr workflow \<Rightarrow>
               (let url = text_or_empty ''endpoint'' params
                in comfy_generate w (if url = [] then cs_base_url c else url) n workflow t
                     (resolve_input_node (cs_input_node c) params))))"

definition comfy_handler ::
  "comfy_world \<Rightarrow> comfy_service \<Rightarrow> (nat \<Rightarrow> string) \<Rightarrow> int \<Rightarrow> nat \<Rightarrow> json_rpc_request \<Rightarrow> chunk list" where
  "comfy_handler w c uuid now_ms n request =
     (if strip_prefix ''comfy.'' (req_method request) = None then []
      else
        (let answer = (\<lambda>r. lasting_response (outcome_response (req_id request) r)
                              (new_null (uuid (2 * n + 1)) now_ms COMFY))
         in case comfy_request w c n (req_params request) of
              Inl e \<Rightarrow> [answer (Inl e)]
            | Inr bytes \<Rightarrow>
                [with_annotation CHAT_ROLE (JStr ASSISTANT)
                   (new_binary (uuid (2 * n)) now_ms bytes ''image/png'' COMFY),
                 answer (Inr (json_obj [(''chunk_id'', JStr (uuid (2 * n)))]))]))"

section \<open>Lights\<close>

fun join_with :: "string \<Rightarrow> string list \<Rightarrow> string" where
  "join_with sep [] = []"
| "join_with sep [x] = x"
| "join_with sep (x # y # ys) = x @ sep @ join_with sep (y # ys)"

definition HUE :: string where "HUE = ''com.nominal.cafe-hue''"

text \<open>
  Numbers of a request as 64-bit integers and floats.  An integer of more than 53 bits is
  rounded to the nearest float, to the even one of two.
\<close>

fun as_i64 :: "json \<Rightarrow> int option" where
  "as_i64 (JNum (PosInt n)) = (if int n < 2 ^ 63 then Some (int n) else None)"
| "as_i64 (JNum (NegInt i)) = Some i"
| "as_i64 _ = None"

definition round_f64 :: "nat \<Rightarrow> nat" where
  "round_f64 n =
     (let u = 2 ^ (floorlog 2 n - 53); q = n div u; r = n mod u
      in (if u < 2 * r \<or> u = 2 * r \<and> odd q then q + 1 else q) * u)"

fun as_f64 :: "json \<Rightarrow> rat option" where
  "as_f64 (JNum (PosInt n)) = Some (of_nat (round_f64 n))"
| "as_f64 (JNum (NegInt i)) = Some (- of_nat (round_f64 (nat (- i))))"
| "as_f64 (JNum (Float q)) = Some q"
| "as_f64 _ = None"

definition state_entry :: "string \<Rightarrow> json option \<Rightarrow> (string \<times> json) list" where
  "state_entry k v = (case v of Some x \<Rightarrow> [(k, x)] | None \<Rightarrow> [])"

definition color_from_json :: "json \<Rightarrow> json option" where
  "color_from_json v =
     (case v of
        JArr [a, b] \<Rightarrow>
          (case (as_f64 a, as_f64 b) of
             (Some x, Some y) \<Rightarrow>
               Some (json_obj [(''xy'', json_obj [(''x'', JNum (Float x)), (''y'', JNum (Float y))])])
           | _ \<Rightarrow> None)
      | _ \<Rightarrow> None)"

definition param_with :: "json \<Rightarrow> string \<Rightarrow> (json \<Rightarrow> 'a option) \<Rightarrow> 'a option" where
  "param_with params k f = Option.bind (json_get params k) f"

definition build_state :: "json \<Rightarrow> json" where
  "build_state params = json_obj
     (state_entry ''on'' (map_option (\<lambda>b. json_obj [(''on'', JBool b)]) (param_with params ''on'' as_bool))
      @ state_entry ''dimming''
          (map_option (\<lambda>b. json_obj [(''brightness'', JNum (Float (max 0 (min 100 b))))])
             (param_with params ''brightness'' as_f64))
      @ state_entry ''color'' (param_with params ''color_xy'' color_from_json)
      @ state_entry ''color_temperature''
          (map_option (\<lambda>i. json_obj [(''mirek'', json_int i)]) (param_with params ''color_temp'' as_i64))
      @ state_entry ''dynamics''
          (map_option (\<lambda>i. json_obj [(''duration'', json_int i)]) (param_with params ''transition_time'' as_i64)))"

record hue_config =
  hue_bridge_url :: string
  hue_api_key :: string

record hue_world =
  hw_parse :: json_parser
  hw_print :: "json \<Rightarrow> string"
  hw_client :: "string + unit"
  hw_discover :: "nat \<Rightarrow> api_request \<Rightarrow> api_outcome"
  hw_send :: "nat \<Rightarrow> api_request \<Rightarrow> api_outcome"

text \<open>The status of an answer of the bridge is not looked at, only the errors its body lists.\<close>

definition check_clip_errors :: "json \<Rightarrow> string + unit" where
  "check_clip_errors body =
     (case json_get body ''errors'' of
        Some (JArr (e # es)) \<Rightarrow>
          Inl (''Hue bridge error: '' @
               join_with ''; '' (List.map_filter (\<lambda>x. Option.bind (json_get x ''description'') as_str) (e # es)))
      | _ \<Rightarrow> Inr ())"

definition body_json :: "json_parser \<Rightarrow> string \<Rightarrow> string \<Rightarrow> api_outcome \<Rightarrow> string + json" where
  "body_json parse err parse_err r =
     (case r of Inl _ \<Rightarrow> Inl err | Inr (_, body) \<Rightarrow> json_text parse parse_err body)"

definition hue_result :: "json_parser \<Rightarrow> string \<Rightarrow> api_outcome \<Rightarrow> string + json" where
  "hue_result parse verb r =
     (case body_json parse (''Hue bridge '' @ verb @ '' request failed'') ''Hue bridge response parse failed'' r of
        Inl e \<Rightarrow> Inl e
      | Inr v \<Rightarrow> (case check_clip_errors v of Inl e \<Rightarrow> Inl e | Inr _ \<Rightarrow> Inr v))"

definition param_string :: "json \<Rightarrow> string \<Rightarrow> string + string" where
  "param_string params k =
     (case Option.bind (json_get params k) as_str of
        Some t \<Rightarrow> Inr t | None \<Rightarrow> Inl (''missing required parameter: '' @ k))"

definition with_string :: "string \<Rightarrow> json \<Rightarrow> (string \<Rightarrow> 'a) \<Rightarrow> string + 'a" where
  "with_string k params f = (case param_string params k of Inl e \<Rightarrow> Inl e | Inr t \<Rightarrow> Inr (f t))"

definition resource_path :: "string \<Rightarrow> string" where
  "resource_path p = ''/clip/v2/resource/'' @ p"

definition hue_list_lights :: "sheet_call" where
  "hue_list_lights = (''GET'', resource_path ''light'', None)"

definition hue_get_light :: "string \<Rightarrow> sheet_call" where
  "hue_get_light i = (''GET'', resource_path (''light/'' @ i), None)"

definition hue_set_light :: "string \<Rightarrow> json \<Rightarrow> sheet_call" where
  "hue_set_light i st = (''PUT'', resource_path (''light/'' @ i), Some st)"

definition hue_list_grouped_lights :: "sheet_call" where
  "hue_list_grouped_lights = (''GET'', resource_path ''grouped_light'', None)"

definition hue_get_grouped_light :: "string \<Rightarrow> sheet_call" where
  "hue_get_grouped_light i = (''GET'', resource_path (''grouped_light/'' @ i), None)"

definition hue_set_grouped_light :: "string \<Rightarrow> json \<Rightarrow> sheet_call" where
  "hue_set_grouped_light i st = (''PUT'', resource_path (''grouped_light/'' @ i), Some st)"

definition hue_list_scenes :: "sheet_call" where
  "hue_list_scenes = (''GET'', resource_path ''scene'', None)"

definition hue_activate_scene :: "string \<Rightarrow> sheet_call" where
  "hue_activate_scene i =
     (''PUT'', resource_path (''scene/'' @ i), Some (json_obj [(''recall'', json_obj [(''action'', JStr ''active'')])]))"

definition hue_plan :: "string \<Rightarrow> json \<Rightarrow> string + sheet_call" where
  "hue_plan m params =
     (if m = ''hue.list_lights'' then Inr hue_list_lights
      else if m = ''hue.get_light'' then with_string ''light_id'' params hue_get_light
      else if m = ''hue.set_light''
      then with_string ''light_id'' params (\<lambda>i. hue_set_light i (build_state params))
      else if m = ''hue.list_groups'' then Inr hue_list_grouped_lights
      else if m = ''hue.get_group'' then with_string ''group_id'' params hue_get_grouped_light
      else if m = ''hue.set_group''
      then with_string ''group_id'' params (\<lambda>i. hue_set_grouped_light i (build_state params))
      else if m = ''hue.list_scenes'' then Inr hue_list_scenes
      else if m = ''hue.activate_scene'' then with_string ''scene_id'' params hue_activate_scene
      else Inl (''unknown hue method: '' @ m))"

definition hue_http :: "hue_config \<Rightarrow> sheet_call \<Rightarrow> api_request" where
  "hue_http c call =
     (case call of (verb, path, body) \<Rightarrow>
        \<lparr>aq_verb = verb, aq_url = hue_bridge_url c @ path,
         aq_headers = [(''hue-application-key'', hue_api_key c)], aq_body = body\<rparr>)"

definition discover_bridge :: "hue_world \<Rightarrow> nat \<Rightarrow> string + string" where
  "discover_bridge w n =
     (case hw_client w of
        Inl e \<Rightarrow> Inl e
      | Inr _ \<Rightarrow>
          (case body_json (hw_parse w) ''Failed to contact meethue.com discovery service''
                  ''Failed to parse discovery response''
                  (hw_discover w n (plain_get ''https://discovery.meethue.com/'')) of
             Inl e \<Rightarrow> Inl e
           | Inr (JArr []) \<Rightarrow> Inl ''No Hue bridge found on the network''
           | Inr (JArr (b # _)) \<Rightarrow>
               (case as_str (json_index b ''internalipaddress'') of
                  None \<Rightarrow> Inl ''No internalipaddress in discovery response''
                | Some ip \<Rightarrow> Inr (''https://'' @ ip))
           | Inr _ \<Rightarrow> Inl ''Failed to parse discovery response''))"

definition registration_error :: "json \<Rightarrow> string" where
  "registration_error e =
     (let kind = (case as_u64 (json_index e ''type'') of Some k \<Rightarrow> k | None \<Rightarrow> 0)
      in if kind = 101
         then ''Link button not pressed. Press the button on your Hue bridge, then call hue.register again.''
         else ''Hue bridge registration error (type '' @ show_nat kind @ ''): ''
              @ (case as_str (json_index e ''description'') of Some d \<Rightarrow> d | None \<Rightarrow> ''unknown error''))"

definition registered_key :: "(json \<Rightarrow> string) \<Rightarrow> json list \<Rightarrow> string + string" where
  "registered_key print regs =
     (let unexpected = Inl (''Unexpected registration response: '' @ print (JArr regs))
      in case regs of
           [] \<Rightarrow> unexpected
         | entry # _ \<Rightarrow>
             (case json_get entry ''error'' of
                Some e \<Rightarrow> Inl (registration_error e)
              | None \<Rightarrow>
                  (case json_get entry ''success'' of
                     None \<Rightarrow> unexpected
                   | Some ok \<Rightarrow>
                       (case as_str (json_index ok ''username'') of
                          Some u \<Rightarrow> Inr u
                        | None \<Rightarrow> Inl ''No username in registration success response''))))"

definition hue_register :: "hue_world \<Rightarrow> nat \<Rightarrow> string \<Rightarrow> string + string" where
  "hue_register w n url =
     (case hw_client w of
        Inl e \<Rightarrow> Inl e
      | Inr _ \<Rightarrow>
          (case body_json (hw_parse w) ''Failed to register with Hue bridge'' ''Failed to parse registration response''
                  (hw_send w n (plain_post (url @ ''/api'')
                     (json_obj [(''devicetype'', JStr ''cafe-hue#CAFE'')]))) of
             Inl e \<Rightarrow> Inl e
           | Inr (JArr regs) \<Rightarrow> registered_key (hw_print w) regs
           | Inr _ \<Rightarrow> Inl ''Failed to parse registration response''))"

definition hue_request :: "hue_world \<Rightarrow> hue_config \<Rightarrow> nat \<Rightarrow> string \<Rightarrow> json \<Rightarrow> string + json" where
  "hue_request w c n m params =
     (if m = ''hue.register'' then
        (case (case Option.bind (json_get params ''bridge_ip'') as_str of
                 Some ip \<Rightarrow> Inr (''https://'' @ ip) | None \<Rightarrow> discover_bridge w n) of
           Inl e \<Rightarrow> Inl e
         | Inr url \<Rightarrow>
             (case hue_register w n url of
                Inl e \<Rightarrow> Inl e
              | Inr k \<Rightarrow> Inr (json_obj [(''bridge_url'', JStr url), (''api_key'', JStr k)])))
      else
        (case hw_client w of
           Inl e \<Rightarrow>
             Inl (e @ '' '' @ [CHR 0xE2, CHR 0x80, CHR 0x94]
                  @ '' set HUE_BRIDGE_URL and HUE_API_KEY, or call hue.register first'')
         | Inr _ \<Rightarrow>
             (case hue_plan m params of
                Inl e \<Rightarrow> Inl e
              | Inr call \<Rightarrow> hue_result (hw_parse w) (fst call) (hw_send w n (hue_http c call)))))"

definition hue_handler ::
  "hue_world \<Rightarrow> hue_config \<Rightarrow> (nat \<Rightarrow> string) \<Rightarrow> int \<Rightarrow> nat \<Rightarrow> json_rpc_request \<Rightarrow> chunk list" where
  "hue_handler w c uuid now_ms n request =
     (if strip_prefix ''hue.'' (req_method request) = None then []
      else [response_for
              (outcome_response (req_id request) (hue_request w c n (req_method request) (req_params request)))
              (new_null (uuid n) now_ms HUE)])"

section \<open>Session tasks\<close>




section \<open>Every live request is answered once\<close>

definition error_travels :: "json_rpc_response \<Rightarrow> bool" where
  "error_travels r = (case resp_error r of None \<Rightarrow> True | Some e \<Rightarrow> rpc_error_ok e)"

text \<open>A result that is \<open>null\<close> is lost on the way, but the response keeps its id.\<close>

lemma field_option_null: "field_option f (Some JNull) = Some None"
  by (simp add: field_option_def)

lemma response_keeps_id:
  assumes "error_travels r"
  shows "\<exists>r'. response_from_json (response_to_json r) = Some r' \<and> resp_id r' = resp_id r"
proof (cases "resp_result r = Some JNull")
  case False
  then have "rpc_response_wf r" using assms by (simp add: error_travels_def rpc_response_wf_def)
  then show ?thesis by (simp add: response_roundtrip)
next
  case True
  let ?r = "r\<lparr>resp_result := None\<rparr>"
  have "response_from_json (response_to_json ?r) = Some ?r"
    by (rule response_roundtrip) (use assms in \<open>simp add: error_travels_def rpc_response_wf_def\<close>)
  moreover have "response_from_json (response_to_json r) = response_from_json (response_to_json ?r)"
    by (cases "resp_error r")
       (simp_all add: response_from_json_def response_to_json_def struct_fields_obj opt_entry_def True
          field_option_null field_string_def)
  ultimately show ?thesis by simp
qed

lemma outcome_response_travels [simp]:
  "error_travels (outcome_response i r)" "resp_id (outcome_response i r) = i"
  by (simp_all add: error_travels_def outcome_response_def rpc_response_ok_def rpc_response_err_def
      rpc_error_ok_def UPSTREAM_ERROR_def split: sum.split)

lemma outcome_answered [simp]:
  "answered_ids (lasting_response (outcome_response i r) c # cs) = i # answered_ids cs"
  "answered_ids (response_for (outcome_response i r) c # cs) = i # answered_ids cs"
proof -
  obtain r' where "response_from_json (response_to_json (outcome_response i r)) = Some r'" "resp_id r' = i"
    using response_keeps_id [of "outcome_response i r"] by auto
  then have "as_rpc_response (lasting_response (outcome_response i r) c) = Some r'"
    "as_rpc_response (response_for (outcome_response i r) c) = Some r'" "resp_id r' = i"
    by (simp_all add: as_rpc_response_def get_annotation_def lasting_response_def response_for_def)
  then show "answered_ids (lasting_response (outcome_response i r) c # cs) = i # answered_ids cs"
    "answered_ids (response_for (outcome_response i r) c # cs) = i # answered_ids cs"
    by simp_all
qed

lemma product_is_no_response [simp]:
  "answered_ids (with_annotation ''mime_type'' v (new_text u t x p) # cs) = answered_ids cs"
  "answered_ids (with_annotation CHAT_ROLE v (new_binary u t b x p) # cs) = answered_ids cs"
proof -
  have "as_rpc_response (with_annotation ''mime_type'' v (new_text u t x p)) = None"
    "as_rpc_response (with_annotation CHAT_ROLE v (new_binary u t b x p)) = None"
    by (simp_all add: as_rpc_response_def get_annotation_def)
  then show "answered_ids (with_annotation ''mime_type'' v (new_text u t x p) # cs) = answered_ids cs"
    "answered_ids (with_annotation CHAT_ROLE v (new_binary u t b x p) # cs) = answered_ids cs"
    by simp_all
qed

definition has_prefix :: "string \<Rightarrow> string \<Rightarrow> bool" where
  "has_prefix p m = (strip_prefix p m \<noteq> None)"

interpretation sheetbot: responder "sheetbot_handler w c uuid now_ms" "has_prefix ''sheetbot.''" for w c uuid now_ms
  by unfold_locales (auto simp: sheetbot_handler_def has_prefix_def Let_def split: option.split sum.split)

interpretation comfy: responder "comfy_handler w c uuid now_ms" "has_prefix ''comfy.''" for w c uuid now_ms
  by unfold_locales (auto simp: comfy_handler_def has_prefix_def Let_def split: sum.split)

interpretation hue: responder "hue_handler w c uuid now_ms" "has_prefix ''hue.''" for w c uuid now_ms
  by unfold_locales (auto simp: hue_handler_def has_prefix_def)


section \<open>The tools of the bridge reach the services\<close>

text \<open>What an accepted call of a service is: one it turns into an exchange.\<close>

definition sheetbot_accepts :: "string \<Rightarrow> json \<Rightarrow> bool" where
  "sheetbot_accepts meth params =
     (case strip_prefix ''sheetbot.'' meth of
        None \<Rightarrow> False
      | Some m \<Rightarrow> (case sheetbot_plan m params of Inl _ \<Rightarrow> False | Inr _ \<Rightarrow> True))"

definition hue_accepts :: "string \<Rightarrow> json \<Rightarrow> bool" where
  "hue_accepts meth params =
     (meth = ''hue.register'' \<or> (case hue_plan meth params of Inl _ \<Rightarrow> False | Inr _ \<Rightarrow> True))"

lemma text_or_empty_obj: "kv_get args k = Some (JStr t) \<Longrightarrow> text_or_empty k (JObj args) = t"
  by (simp add: text_or_empty_def json_index_def)

lemma sheet_tools_accepted:
  assumes "t \<in> set (task_tools @ sheet_tools)" and "td_method t = Some m"
    and "\<forall>k \<in> set (required_params t). \<exists>s. kv_get args k = Some (JStr s) \<and> s \<noteq> []"
  shows "sheetbot_accepts m (JObj args)"
  using assms unfolding task_tools_def sheet_tools_def
  by (simp, elim disjE; auto simp: sheetbot_accepts_def sheetbot_plan_def with_param_def text_or_empty_obj)

lemma light_tools_accepted:
  assumes "t \<in> set light_tools" and "td_method t = Some m"
    and "\<forall>k \<in> set (required_params t). \<exists>s. kv_get args k = Some (JStr s) \<and> s \<noteq> []"
  shows "hue_accepts m (JObj args)"
  using assms unfolding light_tools_def
  by (simp, elim disjE; clarsimp simp: hue_accepts_def hue_plan_def with_string_def param_string_def)

lemma image_tools_accepted:
  assumes "t \<in> set image_tools" and "td_method t = Some m"
    and "\<forall>k \<in> set (required_params t). \<exists>s. kv_get args k = Some (JStr s) \<and> s \<noteq> []"
  shows "has_prefix ''comfy.'' m \<and> resolve_text (JObj args) = Inr (text_or_empty ''text'' (JObj args))"
  using assms unfolding image_tools_def
  by (auto simp: has_prefix_def resolve_text_def text_or_empty_def json_index_def)

text \<open>
  C35: The schemas of the bridge are those of the services.  A call of a task, sheet or light
  tool of the MCP bridge with texts that are not empty for the parameters its schema requires is accepted by the
  service whose method the tool names: the service knows the method, misses no parameter and makes an exchange
  with its HTTP service (or, for an image, starts with the text of the call).
\<close>

theorem bridge_calls_accepted:
  assumes "td_method t = Some m"
    and "\<forall>k \<in> set (required_params t). \<exists>s. kv_get args k = Some (JStr s) \<and> s \<noteq> []"
  shows "(t \<in> set (task_tools @ sheet_tools) \<longrightarrow> sheetbot_accepts m (JObj args))
    \<and> (t \<in> set light_tools \<longrightarrow> hue_accepts m (JObj args))
    \<and> (t \<in> set image_tools \<longrightarrow>
        has_prefix ''comfy.'' m \<and> resolve_text (JObj args) = Inr (text_or_empty ''text'' (JObj args)))"
  using sheet_tools_accepted light_tools_accepted image_tools_accepted assms by blast

theorem bridge_calls_accepted_witness:
  "sheetbot_accepts ''sheetbot.get_task'' (JObj [(''id'', JStr ''7'')])"
proof -
  let ?t = "task_tools ! 1"
  have "?t \<in> set (task_tools @ sheet_tools)" by (simp add: task_tools_def)
  moreover have "td_method ?t = Some ''sheetbot.get_task''" "required_params ?t = [''id'']"
    by (simp_all add: task_tools_def)
  ultimately show ?thesis
    using bridge_calls_accepted [of ?t "''sheetbot.get_task''" "[(''id'', JStr ''7'')]"] by simp
qed

section \<open>What goes into the requests\<close>

text \<open>
  Identifiers are put into paths as they are: with a slash in its id, a task to delete is an
  artefact that is deleted.
\<close>

lemma slash_in_task_id:
  assumes "t \<noteq> []" "f \<noteq> []"
  shows "sheetbot_plan ''delete_task'' (json_obj [(''id'', JStr (t @ ''/artefacts/'' @ f))])
       = sheetbot_plan ''delete_artefact'' (json_obj [(''task_id'', JStr t), (''filename'', JStr f)])"
  using assms
  by (simp add: sheetbot_plan_def with_param_def artefact_call_def text_or_empty_def json_index_def json_obj_def
      task_path_def sheet_calls kv_simps)

text \<open>The data of an artefact are all the parameters of the call.\<close>

lemma artefact_data_is_call:
  assumes "t \<noteq> []" "f \<noteq> []"
  shows "sheetbot_plan ''upload_artefact'' (json_obj [(''task_id'', JStr t), (''filename'', JStr f), (''data'', d)])
       = Inr (''POST'', ''/tasks/'' @ t @ ''/artefacts'',
              Some (json_obj [(''filename'', JStr f),
                (''data'', json_obj [(''task_id'', JStr t), (''filename'', JStr f), (''data'', d)])]))"
  using assms
  by (simp add: sheetbot_plan_def with_param_def artefact_call_def text_or_empty_def json_index_def json_obj_def
      task_path_def sheet_calls kv_simps)

text \<open>Unlike every other answer, those of the sheets and the images are not transient.\<close>

lemma lasting_response_stays:
  "is_transient (lasting_response r (new_null u t p)) = False" "is_transient (response_for r c) = True"
  by (simp_all add: lasting_response_def response_for_def)

lemma json_get_update:
  "json_get (json_update k f v) j = (if j = k then map_option f (json_get v j) else json_get v j)"
  by (cases v) (simp_all add: json_update_def kv_simps)

definition node_text :: "string \<Rightarrow> json \<Rightarrow> json option" where
  "node_text node workflow =
     Option.bind (Option.bind (json_get workflow node) (\<lambda>n. json_get n ''inputs'')) (\<lambda>i. json_get i ''text'')"

text \<open>
  The text of a prompt goes to one place of a workflow, and only if that place is there.  After
  the injection the input node says the text where it said one before, and nothing where it did not; every other
  node is as it was, no node appears, and injecting another text afterwards forgets the first one.
\<close>

theorem inject_prompt_replaces_text:
  "node_text node (inject_prompt node t workflow) = map_option (\<lambda>_. JStr t) (node_text node workflow)
   \<and> (\<forall>other. other \<noteq> node \<longrightarrow> json_get (inject_prompt node t workflow) other = json_get workflow other)
   \<and> (json_get (inject_prompt node t workflow) node = None \<longleftrightarrow> json_get workflow node = None)
   \<and> inject_prompt node u (inject_prompt node t workflow) = inject_prompt node u workflow"
proof (intro conjI)
  have twice: "json_update k g (json_update k f v) = json_update k (g \<circ> f) v" for k g f v
    by (cases v) (simp_all add: json_update_def kv_adjust_def)
  have const: "(\<lambda>_. JStr u) \<circ> (\<lambda>_. JStr t) = (\<lambda>_. JStr u)" by (simp add: fun_eq_iff)
  have comp: "json_update k f \<circ> json_update k g = json_update k (f \<circ> g)" for k f g
    by (simp add: fun_eq_iff twice)
  show "inject_prompt node u (inject_prompt node t workflow) = inject_prompt node u workflow"
    by (simp add: inject_prompt_def twice comp const)
  show "node_text node (inject_prompt node t workflow) = map_option (\<lambda>_. JStr t) (node_text node workflow)"
    by (simp add: node_text_def inject_prompt_def json_get_update Option.bind_map_option comp_def
        split: option.split bind_splits)
qed (simp_all add: inject_prompt_def json_get_update)

theorem inject_prompt_replaces_text_witness:
  "node_text ''6'' (inject_prompt ''6'' ''a cat'' (JObj [(''6'', JObj [(''inputs'', JObj [(''text'', JNull)])])]))
     = Some (JStr ''a cat'')"
  using inject_prompt_replaces_text
          [of "''6''" "''a cat''" "JObj [(''6'', JObj [(''inputs'', JObj [(''text'', JNull)])])]"]
  by (simp add: node_text_def)

section \<open>Waiting for an image\<close>

text \<open>What an answer to a question for the history says of a prompt.\<close>

definition polled ::
  "json_parser \<Rightarrow> (nat \<Rightarrow> api_request \<Rightarrow> api_outcome) \<Rightarrow> string \<Rightarrow> string \<Rightarrow> nat \<Rightarrow> string + history_entry option"
where
  "polled parse send base pid i =
     (case comfy_json parse (map_from_json history_entry_from_json) ''GET /history''
             ''failed to parse /history response'' (send i (plain_get (base @ ''/history/'' @ pid))) of
        Inl e \<Rightarrow> Inl e
      | Inr prompts \<Rightarrow>
          Inr (case kv_get prompts pid of Some e \<Rightarrow> (if he_completed e then Some e else None) | None \<Rightarrow> None))"

lemma poll_history_step:
  "poll_history parse send base pid i (Suc k) =
     (case polled parse send base pid i of
        Inl e \<Rightarrow> Inl e
      | Inr (Some e) \<Rightarrow> Inr e
      | Inr None \<Rightarrow> poll_history parse send base pid (Suc i) k)"
  by (simp add: polled_def split: sum.split option.split)

declare poll_history.simps(2) [simp del]

lemma poll_history_waits:
  "\<forall>j<d. polled parse send base pid (i + j) = Inr None \<Longrightarrow>
     poll_history parse send base pid i (d + k) = poll_history parse send base pid (i + d) k"
proof (induction d arbitrary: i)
  case (Suc d)
  have "polled parse send base pid i = Inr None" using Suc.prems by force
  moreover have "\<forall>j<d. polled parse send base pid (Suc i + j) = Inr None" using Suc.prems by force
  ultimately show ?case using Suc.IH [of "Suc i"] by (simp add: poll_history_step)
qed simp

text \<open>
  The wait for an image ends with the first decisive answer or after 120 questions.  If the
  first \<open>d\<close> questions, fewer than 120, find the prompt unfinished and the next does not, the wait gives what
  that answer says, its history or its failure, whatever later answers would be; if all 120 find it unfinished,
  the wait fails with the message that names the prompt.
\<close>

theorem poll_history_decides:
  assumes "\<forall>j<d. polled parse send base pid j = Inr None" and "d \<le> COMFY_POLLS"
  shows "poll_history parse send base pid 0 COMFY_POLLS =
    (if d = COMFY_POLLS then Inl (''ComfyUI prompt '' @ pid @ '' did not complete within 60s'')
     else (case polled parse send base pid d of
             Inl e \<Rightarrow> Inl e
           | Inr (Some e) \<Rightarrow> Inr e
           | Inr None \<Rightarrow> poll_history parse send base pid (Suc d) (COMFY_POLLS - Suc d)))"
proof -
  have wait: "poll_history parse send base pid 0 COMFY_POLLS
      = poll_history parse send base pid d (COMFY_POLLS - d)"
    using poll_history_waits [of d parse send base pid 0 "COMFY_POLLS - d"] assms by simp
  show ?thesis
  proof (cases "d = COMFY_POLLS")
    case False
    then have "COMFY_POLLS - d = Suc (COMFY_POLLS - Suc d)" using assms(2) by simp
    then show ?thesis using wait False by (simp only: poll_history_step if_False)
  qed (simp add: wait)
qed

definition demo_history :: "nat \<Rightarrow> api_request \<Rightarrow> api_outcome" where
  "demo_history i q = Inr (200, Inr (if i = 0 then ''{}'' else ''done''))"

definition demo_parse :: json_parser where
  "demo_parse t =
     (if t = ''{}'' then Inr (JObj [])
      else Inr (JObj [(''p'', JObj [(''outputs'', JObj []), (''status'', JObj [(''completed'', JBool True)])])]))"

theorem poll_history_decides_witness:
  "poll_history demo_parse demo_history [] ''p'' 0 COMFY_POLLS = Inr \<lparr>he_outputs = [], he_completed = True\<rparr>"
proof -
  have "polled demo_parse demo_history [] ''p'' 0 = Inr None"
    by (simp add: polled_def comfy_json_def comfy_exchange_def demo_history_def demo_parse_def json_text_def
        map_from_json_def)
  moreover have "polled demo_parse demo_history [] ''p'' 1 = Inr (Some \<lparr>he_outputs = [], he_completed = True\<rparr>)"
    by (simp add: polled_def comfy_json_def comfy_exchange_def demo_history_def demo_parse_def json_text_def
        map_from_json_def history_entry_from_json_def struct_fields_def)
  ultimately show ?thesis
    using poll_history_decides [of 1 demo_parse demo_history "[]" "''p''"] by (simp add: COMFY_POLLS_def)
qed

section \<open>The state asked of a light\<close>

text \<open>Rounding an integer to a float changes nothing below 2 to the 53 and at most half a unit above.\<close>

lemma round_f64_exact: "n < 2 ^ 53 \<Longrightarrow> round_f64 n = n"
proof -
  assume n: "n < 2 ^ 53"
  then have "floorlog 2 n \<le> 53" by (intro floorlog_leI) simp_all
  then show ?thesis by (simp add: round_f64_def)
qed

lemma round_f64_error: "2 * \<bar>int (round_f64 n) - int n\<bar> \<le> 2 ^ (floorlog 2 n - 53)"
proof -
  define u where "u = (2::nat) ^ (floorlog 2 n - 53)"
  define q r where "q = n div u" and "r = n mod u"
  have n: "n = q * u + r" by (simp add: q_def r_def)
  have r: "r < u" by (simp add: r_def u_def)
  have "round_f64 n = (if u < 2 * r \<or> u = 2 * r \<and> odd q then q + 1 else q) * u"
    by (simp add: round_f64_def u_def q_def r_def Let_def)
  moreover have "2 * r \<le> u" if "\<not> (u < 2 * r \<or> u = 2 * r \<and> odd q)" using that by auto
  ultimately have "2 * \<bar>int (round_f64 n) - int n\<bar> \<le> int u"
    using r by (auto simp: n algebra_simps)
  then show ?thesis by (simp add: u_def)
qed

lemma state_entries:
  "json_get (json_obj (state_entry ''on'' a @ state_entry ''dimming'' b @ state_entry ''color'' c
      @ state_entry ''color_temperature'' d @ state_entry ''dynamics'' e)) k
   = (if k = ''on'' then a else if k = ''dimming'' then b else if k = ''color'' then c
      else if k = ''color_temperature'' then d else if k = ''dynamics'' then e else None)"
proof -
  have rev: "rev (state_entry j x) = state_entry j x" for j x
    by (cases x) (simp_all add: state_entry_def)
  have get: "kv_get (state_entry j x @ m) i
      = (if i = j then (case x of Some v \<Rightarrow> Some v | None \<Rightarrow> kv_get m i) else kv_get m i)" for i j x m
    by (cases x) (simp_all add: state_entry_def)
  have last: "kv_get (state_entry j x) i = (if i = j then x else None)" for i j x
    by (cases x) (simp_all add: state_entry_def)
  have obj: "json_get (json_obj kvs) k = kv_get (rev kvs) k" for kvs
    using kv_get_fold_obj_insert [of kvs "[]" k] by (simp add: json_obj_def split: option.split)
  show ?thesis by (simp add: obj get rev last split: option.split)
qed

lemmas build_state_entry = arg_cong2 [where f = json_get, OF build_state_def refl, unfolded state_entries]

text \<open>
  A light is only asked for what the caller names, within bounds.  The state sent for a light
  has only the five known entries, each exactly if its parameter is there with a usable value; the switch is the
  caller's, the brightness is between 0 and 100 percent and is the caller's if that is in the range.
\<close>

theorem build_state_follows_params:
  "(json_get (build_state params) k \<noteq> None \<longrightarrow>
      k \<in> {''on'', ''dimming'', ''color'', ''color_temperature'', ''dynamics''})
   \<and> (json_get (build_state params) ''on'' \<noteq> None \<longleftrightarrow> param_with params ''on'' as_bool \<noteq> None)
   \<and> (\<forall>b. param_with params ''on'' as_bool = Some b \<longrightarrow>
        json_get (build_state params) ''on'' = Some (JObj [(''on'', JBool b)]))
   \<and> (\<forall>v. param_with params ''brightness'' as_f64 = Some v \<longrightarrow>
        (\<exists>x. json_get (build_state params) ''dimming'' = Some (JObj [(''brightness'', JNum (Float x))])
          \<and> 0 \<le> x \<and> x \<le> 100 \<and> (0 \<le> v \<and> v \<le> 100 \<longrightarrow> x = v)))
   \<and> (json_get (build_state params) ''dimming'' \<noteq> None \<longleftrightarrow> param_with params ''brightness'' as_f64 \<noteq> None)"
  by (simp add: build_state_entry json_obj_def min_def max_def)

theorem build_state_follows_params_witness:
  "json_get (build_state (JObj [(''on'', JBool True)])) ''on'' = Some (JObj [(''on'', JBool True)])"
  using build_state_follows_params [of "JObj [(''on'', JBool True)]" "''on''"]
  by (simp add: param_with_def) blast

end
