(* ===== verification/Books.thy ===== *)
theory Books
  imports Services Binary_Store Workers
begin

text \<open>
  The narrator of books, \<open>cafe-epub\<close>: a book is parsed into chapters, each session has a position in
  its book that commands move, a chapter is shown and sent to the speech service, and the book is kept in the
  binary store, from which a restarted process fetches it again.  The reader of the EPUB container and the
  rendering of HTML are parameters.
\<close>

section \<open>Books\<close>

record book_chapter =
  ch_title :: string
  ch_text :: string

record book =
  bk_title :: string
  bk_creator :: "string option"
  bk_chapters :: "book_chapter list"

definition chapter_count :: "book \<Rightarrow> nat" where
  "chapter_count b = length (bk_chapters b)"

text \<open>What the container gives: its metadata, the reading order, resources, and the table of contents.\<close>

datatype nav_point = Nav_Point string string "nav_point list"

record epub_doc =
  ed_title :: "string option"
  ed_creator :: "string option"
  ed_toc :: "nav_point list"
  ed_spine :: "string list"
  ed_resource :: "string \<Rightarrow> (string \<times> string) option"
  ed_chapter_of :: "string \<Rightarrow> nat option"

definition or_insert :: "'k \<Rightarrow> 'v \<Rightarrow> ('k, 'v) kv \<Rightarrow> ('k, 'v) kv" where
  "or_insert k v m = (if kv_contains m k then m else kv_insert k v m)"

fun collect_titles :: "epub_doc \<Rightarrow> nav_point \<Rightarrow> (nat, string) kv \<Rightarrow> (nat, string) kv" where
  "collect_titles doc (Nav_Point target label children) m =
     fold (collect_titles doc) children
       (case ed_chapter_of doc (hd (split_on CHR ''#'' target)) of
          Some i \<Rightarrow> or_insert i label m
        | None \<Rightarrow> m)"

definition build_titles :: "epub_doc \<Rightarrow> (nat, string) kv" where
  "build_titles doc = fold (collect_titles doc) (ed_toc doc) []"

definition str_trim_start :: "string \<Rightarrow> string" where
  "str_trim_start s = concat (dropWhile (\<lambda>c. char_is_whitespace (code_point c)) (str_chars s))"

definition is_html :: "string \<Rightarrow> string \<Rightarrow> bool" where
  "is_html body mime =
     (find_sub ''html'' mime \<noteq> None \<or> find_sub ''xml'' mime \<noteq> None
      \<or> strip_prefix ''<'' (str_trim_start body) \<noteq> None)"

definition fallback_title :: "nat \<Rightarrow> string \<Rightarrow> string" where
  "fallback_title i t =
     (case List.find (\<lambda>l. l \<noteq> []) (map str_trim (str_lines t)) of
        Some heading \<Rightarrow> if length (str_chars heading) \<le> 100 then heading else ''Chapter '' @ show_nat (i + 1)
      | None \<Rightarrow> ''Chapter '' @ show_nat (i + 1))"

text \<open>The loop over the lines of a text: what is written, and whether blank lines are pending.\<close>

definition ends_with :: "string \<Rightarrow> string \<Rightarrow> bool" where
  "ends_with suf s = (strip_suffix suf s \<noteq> None)"

definition normalize_line :: "string \<Rightarrow> string \<times> bool \<Rightarrow> string \<times> bool" where
  "normalize_line line st =
     (case st of (out, pending_blank) \<Rightarrow>
        let trimmed = str_trim line
        in if trimmed = [] then (out, if out \<noteq> [] then True else pending_blank)
           else
             (if pending_blank
              then (if ends_with [LF, LF] out then out
                    else (if ends_with [LF] out then out else out @ [LF]) @ [LF]) @ trimmed
              else (if out \<noteq> [] then out @ [LF] else out) @ trimmed,
              False))"

definition normalize_text :: "string \<Rightarrow> string" where
  "normalize_text t = str_trim (fst (fold normalize_line (str_lines t) ([], False)))"

definition html_to_text :: "(string \<Rightarrow> string option) \<Rightarrow> string \<Rightarrow> string" where
  "html_to_text render html = normalize_text (case render html of Some t \<Rightarrow> t | None \<Rightarrow> [])"

definition doc_chapter :: "(string \<Rightarrow> string option) \<Rightarrow> epub_doc \<Rightarrow> (nat, string) kv \<Rightarrow> nat \<times> string \<Rightarrow> book_chapter" where
  "doc_chapter render doc titles = (\<lambda>(i, idref).
     let t = (case ed_resource doc idref of
                Some (html, mime) \<Rightarrow> if is_html html mime then html_to_text render html else []
              | None \<Rightarrow> [])
     in \<lparr>ch_title = (case kv_get titles i of Some x \<Rightarrow> x | None \<Rightarrow> fallback_title i t), ch_text = t\<rparr>)"

definition parse_doc :: "(string \<Rightarrow> string option) \<Rightarrow> epub_doc \<Rightarrow> book" where
  "parse_doc render doc =
     \<lparr>bk_title = (case ed_title doc of Some t \<Rightarrow> t | None \<Rightarrow> ''Untitled''), bk_creator = ed_creator doc,
      bk_chapters = map (doc_chapter render doc (build_titles doc)) (enumerate 0 (ed_spine doc))\<rparr>"

section \<open>Commands\<close>

datatype command =
    Cmd_Load string
  | Cmd_Next
  | Cmd_Prev
  | Cmd_Chapter nat
  | Cmd_List
  | Cmd_Current
  | Cmd_Help

text \<open>\<open>str::split_once\<close> at the first white space.\<close>

definition split_once_space :: "string \<Rightarrow> (string \<times> string) option" where
  "split_once_space s =
     (let ws = (\<lambda>c. char_is_whitespace (code_point c)); cs = str_chars s; rest = dropWhile (Not \<circ> ws) cs
      in case rest of [] \<Rightarrow> None | _ # r \<Rightarrow> Some (concat (takeWhile (Not \<circ> ws) cs), concat r))"

definition command_of :: "string \<Rightarrow> string \<Rightarrow> command option" where
  "command_of verb arg =
     (if verb = ''load'' then (if arg = [] then None else Some (Cmd_Load arg))
      else if verb \<in> {''next'', ''n''} then Some Cmd_Next
      else if verb \<in> {''prev'', ''p''} then Some Cmd_Prev
      else if verb \<in> {''chapter'', ''ch''} then map_option Cmd_Chapter (parse_uint u64_bound arg)
      else if verb \<in> {''list'', ''l''} then Some Cmd_List
      else if verb \<in> {''current'', ''c''} then Some Cmd_Current
      else if verb \<in> {''help'', ''h''} then Some Cmd_Help
      else None)"

definition parse_command :: "string \<Rightarrow> command option" where
  "parse_command t =
     (case strip_prefix ''!'' (str_trim t) of
        None \<Rightarrow> None
      | Some rest \<Rightarrow>
          (case split_once_space rest of
             Some (v, a) \<Rightarrow> command_of (to_ascii_lowercase v) (str_trim a)
           | None \<Rightarrow> command_of (to_ascii_lowercase rest) []))"

section \<open>The narration of a session\<close>

record narration =
  ss_book :: "book option"
  ss_current :: nat
  ss_started :: bool
  ss_blob :: "string option"
  ss_path :: "string option"

definition no_state :: narration where
  "no_state = \<lparr>ss_book = None, ss_current = 0, ss_started = False, ss_blob = None, ss_path = None\<rparr>"

definition current_chapter :: "narration \<Rightarrow> book_chapter option" where
  "current_chapter s =
     (case ss_book s of
        None \<Rightarrow> None
      | Some b \<Rightarrow> if ss_current s < chapter_count b then Some (bk_chapters b ! ss_current s) else None)"

definition next_chapter :: "narration \<Rightarrow> nat option \<times> narration" where
  "next_chapter s =
     (case ss_book s of
        None \<Rightarrow> (None, s)
      | Some b \<Rightarrow>
          if \<not> ss_started s then (Some (ss_current s), s\<lparr>ss_started := True\<rparr>)
          else if ss_current s + 1 < chapter_count b
          then (Some (ss_current s + 1), s\<lparr>ss_current := ss_current s + 1\<rparr>)
          else (None, s))"

definition prev_chapter :: "narration \<Rightarrow> nat option \<times> narration" where
  "prev_chapter s =
     (if \<not> ss_started s \<or> ss_current s = 0 then (None, s)
      else (Some (ss_current s - 1), s\<lparr>ss_current := ss_current s - 1\<rparr>))"

definition goto_chapter :: "nat \<Rightarrow> narration \<Rightarrow> nat option \<times> narration" where
  "goto_chapter n s =
     (case ss_book s of
        None \<Rightarrow> (None, s)
      | Some b \<Rightarrow>
          if 1 \<le> n \<and> n \<le> chapter_count b then (Some (n - 1), s\<lparr>ss_started := True, ss_current := n - 1\<rparr>)
          else (None, s))"

type_synonym narrator = "(string, narration) kv"

definition session_or_default :: "narrator \<Rightarrow> string \<Rightarrow> narration" where
  "session_or_default m sid = (case kv_get m sid of Some s \<Rightarrow> s | None \<Rightarrow> no_state)"

definition with_session :: "string \<Rightarrow> (narration \<Rightarrow> 'a \<times> narration) \<Rightarrow> narrator \<Rightarrow> 'a \<times> narrator" where
  "with_session sid f m =
     (case f (session_or_default m sid) of (x, s) \<Rightarrow> (x, kv_insert sid s m))"

definition peek :: "string \<Rightarrow> (narration \<Rightarrow> 'a) \<Rightarrow> narrator \<Rightarrow> 'a" where
  "peek sid f m = f (session_or_default m sid)"

section \<open>The session task\<close>

text \<open>
  What the task meets outside: files, containers, the outcome of its \<open>n\<close>-th publish, of the
  \<open>n\<close>-th look at the history, and of waiting for the speech service after \<open>n\<close> publishes (the messages
  received, and whether the connection ends after them or the time runs out).
\<close>

record epub_world =
  ew_read_file :: "string \<Rightarrow> string + byte list"
  ew_open :: "byte list \<Rightarrow> string + epub_doc"
  ew_open_path :: "string \<Rightarrow> string + epub_doc"
  ew_render :: "string \<Rightarrow> string option"
  ew_uuid :: "nat \<Rightarrow> string"
  ew_call_id :: "nat \<Rightarrow> string"
  ew_now_ms :: int
  ew_publish :: "nat \<Rightarrow> string option"
  ew_history :: "nat \<Rightarrow> string + chunk list"
  ew_wait :: "nat \<Rightarrow> string + server_message list \<times> bool"
  ew_fetch :: "string \<Rightarrow> string + nat \<times> (string + byte list)"

record epub_task =
  et_narrator :: narrator
  et_pending :: "(string, byte list) kv"
  et_uploads :: "(string \<times> byte list) list"
  et_out :: "chunk list"
  et_seq :: nat

text \<open>A step gives a value or an error, or panics; it may have published before.\<close>

datatype 'a epub_outcome = Went 'a | Failed string | Died

type_synonym 'a task_step = "epub_task \<Rightarrow> 'a epub_outcome \<times> epub_task"

definition returning :: "'a \<Rightarrow> 's \<Rightarrow> 'a epub_outcome \<times> 's" where
  "returning x t = (Went x, t)"

definition and_then ::
  "('s \<Rightarrow> 'a epub_outcome \<times> 's) \<Rightarrow> ('a \<Rightarrow> 's \<Rightarrow> 'b epub_outcome \<times> 's) \<Rightarrow> 's \<Rightarrow> 'b epub_outcome \<times> 's" where
  "and_then p f t =
     (case p t of
        (Went x, t1) \<Rightarrow> f x t1
      | (Failed e, t1) \<Rightarrow> (Failed e, t1)
      | (Died, t1) \<Rightarrow> (Died, t1))"

definition lift_result :: "string + 'a \<Rightarrow> 's \<Rightarrow> 'a epub_outcome \<times> 's" where
  "lift_result r t = (case r of Inl e \<Rightarrow> (Failed e, t) | Inr x \<Rightarrow> (Went x, t))"

definition EPUB :: string where "EPUB = ''com.nominal.cafe-epub''"

definition EPUB_MIME :: string where "EPUB_MIME = ''application/epub+zip''"

text \<open>A published chunk is made with a fresh id, which the step returns.\<close>

definition epub_publish :: "epub_world \<Rightarrow> (string \<Rightarrow> chunk) \<Rightarrow> string task_step" where
  "epub_publish w mk t =
     (let i = ew_uuid w (et_seq t); t1 = t\<lparr>et_seq := Suc (et_seq t)\<rparr>
      in case ew_publish w (et_seq t) of
           Some e \<Rightarrow> (Failed e, t1)
         | None \<Rightarrow> (Went i, t1\<lparr>et_out := et_out t @ [mk i]\<rparr>))"

definition publish_assistant_text :: "epub_world \<Rightarrow> string \<Rightarrow> string task_step" where
  "publish_assistant_text w x =
     epub_publish w (\<lambda>i. with_annotation CHAT_ROLE (JStr ASSISTANT) (new_text i (ew_now_ms w) x EPUB))"

definition state_chunk :: "string \<Rightarrow> int \<Rightarrow> narration \<Rightarrow> chunk" where
  "state_chunk i now_ms s =
     with_annotation ''config.epub.started'' (JBool (ss_started s))
       (with_annotation ''config.epub.chapter'' (JNum (PosInt (ss_current s)))
         (let c = with_annotation ''config.type'' (JStr ''runtime'') (new_null i now_ms EPUB)
          in case ss_path s of Some p \<Rightarrow> with_annotation ''config.epub.path'' (JStr p) c | None \<Rightarrow> c))"

definition publish_state_annotations :: "epub_world \<Rightarrow> string \<Rightarrow> string task_step" where
  "publish_state_annotations w sid t =
     epub_publish w (\<lambda>i. state_chunk i (ew_now_ms w) (peek sid id (et_narrator t))) t"

definition in_session :: "string \<Rightarrow> (narration \<Rightarrow> 'a epub_outcome \<times> narration) \<Rightarrow> 'a task_step" where
  "in_session sid f t =
     (case with_session sid f (et_narrator t) of (r, m) \<Rightarrow> (r, t\<lparr>et_narrator := m\<rparr>))"

definition quoted :: "string \<Rightarrow> string" where
  "quoted s = CHR 0x27 # s @ [CHR 0x27]"

definition DASH :: string where "DASH = [CHR 0xE2, CHR 0x80, CHR 0x94]"

definition blob_chunk :: "string \<Rightarrow> int \<Rightarrow> byte list \<Rightarrow> chunk" where
  "blob_chunk i now_ms bytes =
     with_annotation ''cafe.binary.byte_size'' (JNum (PosInt (length bytes)))
       (with_annotation CHAT_ROLE (JStr ASSISTANT) (new_binary_ref i now_ms EPUB_MIME EPUB))"

definition load_summary :: "book \<Rightarrow> string" where
  "load_summary b =
     ''Loaded '' @ CHR 0x22 # bk_title b @ [CHR 0x22]
     @ (case bk_creator b of Some c \<Rightarrow> '' by '' @ c | None \<Rightarrow> []) @ ''. '' @ show_nat (chapter_count b)
     @ '' chapters. Say !next to start, !list for the table of contents, or !chapter N to jump.''"

definition open_bytes :: "epub_world \<Rightarrow> byte list \<Rightarrow> string + book" where
  "open_bytes w bytes =
     (case ew_open w bytes of
        Inl e \<Rightarrow> Inl (''failed to open EPUB: '' @ e) | Inr doc \<Rightarrow> Inr (parse_doc (ew_render w) doc))"

definition open_path :: "epub_world \<Rightarrow> string \<Rightarrow> string + book" where
  "open_path w path =
     (case ew_open_path w path of
        Inl e \<Rightarrow> Inl (''failed to open EPUB '' @ quoted path @ '': '' @ e)
      | Inr doc \<Rightarrow> Inr (parse_doc (ew_render w) doc))"

definition epub_load :: "epub_world \<Rightarrow> string \<Rightarrow> string \<Rightarrow> json task_step" where
  "epub_load w sid path =
     and_then (lift_result (case ew_read_file w path of
        Inl e \<Rightarrow> Inl (''cannot read '' @ quoted path @ '': '' @ e) | Inr b \<Rightarrow> Inr b)) (\<lambda>bytes.
     and_then (lift_result (case open_bytes w bytes of
        Inl e \<Rightarrow> Inl (''failed to parse '' @ quoted path @ '': '' @ e) | Inr b \<Rightarrow> Inr b)) (\<lambda>b.
     and_then (epub_publish w (\<lambda>i. blob_chunk i (ew_now_ms w) bytes)) (\<lambda>blob.
     and_then (\<lambda>t. (Went (), t\<lparr>et_pending := kv_insert blob bytes (et_pending t)\<rparr>)) (\<lambda>_.
     and_then (in_session sid (\<lambda>s. (Went (),
        s\<lparr>ss_book := Some b, ss_current := 0, ss_blob := Some blob, ss_path := Some path\<rparr>))) (\<lambda>_.
     and_then (publish_state_annotations w sid) (\<lambda>_.
     and_then (publish_assistant_text w (load_summary b)) (\<lambda>_.
     returning (json_obj [(''handled'', JBool True), (''book'', JStr (bk_title b)),
                          (''chapters'', JNum (PosInt (chapter_count b)))]))))))))"

section \<open>Reading aloud\<close>

datatype chapter_move = Move_Next | Move_Prev | Move_Chapter nat

definition NO_BOOK :: string where "NO_BOOK = ''No book loaded. Use !load <path> first.''"

definition move_session :: "chapter_move \<Rightarrow> narration \<Rightarrow> nat epub_outcome \<times> narration" where
  "move_session mv s =
     (case ss_book s of
        None \<Rightarrow> (Failed NO_BOOK, s)
      | Some b \<Rightarrow>
          (let moved = (case mv of
                          Move_Next \<Rightarrow> next_chapter s | Move_Prev \<Rightarrow> prev_chapter s | Move_Chapter n \<Rightarrow> goto_chapter n s);
               refusal = (case mv of
                            Move_Next \<Rightarrow> ''Already at the last chapter.''
                          | Move_Prev \<Rightarrow> ''Already at the first chapter.''
                          | Move_Chapter n \<Rightarrow> ''Chapter '' @ show_nat n @ '' is out of range (1-''
                              @ show_nat (chapter_count b) @ '').'')
           in case moved of
                (None, s1) \<Rightarrow> (Failed refusal, s1)
              | (Some _, s1) \<Rightarrow> (Went (ss_current s1), s1)))"

text \<open>The chapter to read; it is missing where the code panics.\<close>

definition the_chapter :: "string \<Rightarrow> book_chapter task_step" where
  "the_chapter sid t =
     (case peek sid current_chapter (et_narrator t) of Some c \<Rightarrow> (Went c, t) | None \<Rightarrow> (Died, t))"

definition chapter_display :: "nat \<Rightarrow> book_chapter \<Rightarrow> string" where
  "chapter_display i c =
     ''Chapter '' @ show_nat (i + 1) @ '' '' @ DASH @ '' '' @ ch_title c @ [LF, LF] @ ch_text c"

definition tts_profile :: "chunk list \<Rightarrow> string option" where
  "tts_profile cs =
     (case List.map_filter (\<lambda>c. Option.bind (kv_get (annotations c) ''config.tts.profile'') as_str) (rev cs) of
        [] \<Rightarrow> None | p # _ \<Rightarrow> Some p)"

definition resolve_tts_profile :: "epub_world \<Rightarrow> epub_task \<Rightarrow> string option" where
  "resolve_tts_profile w t = (case ew_history w (et_seq t) of Inl _ \<Rightarrow> None | Inr cs \<Rightarrow> tts_profile cs)"

definition tts_request :: "string \<Rightarrow> string \<Rightarrow> string option \<Rightarrow> json_rpc_request" where
  "tts_request call_id x profile =
     rpc_request_new call_id ''tts.invoke''
       (json_obj ((''text'', JStr x) # (case profile of Some p \<Rightarrow> [(''profile'', JStr p)] | None \<Rightarrow> [])))"

definition tts_outcome :: "json_rpc_response \<Rightarrow> string + unit" where
  "tts_outcome r =
     (case resp_error r of
        None \<Rightarrow> Inr ()
      | Some e \<Rightarrow> Inl (''TTS error ['' @ show_int (err_code e) @ '']: '' @ err_message e))"

text \<open>The first response to the call decides; an end of the connection or of the time is an error.\<close>

fun await_tts :: "string \<Rightarrow> bool \<Rightarrow> server_message list \<Rightarrow> string + unit" where
  "await_tts call_id closes [] =
     Inl (if closes then ''bus disconnected while awaiting tts response'' else ''timed out after 120s waiting for TTS'')"
| "await_tts call_id closes (m # ms) =
     (case m of
        Chunk _ c \<Rightarrow>
          if is_rpc_response_for call_id c
          then (case as_rpc_response c of
                  Some r \<Rightarrow> tts_outcome r | None \<Rightarrow> Inl (''malformed tts response for call '' @ call_id))
          else await_tts call_id closes ms
      | _ \<Rightarrow> await_tts call_id closes ms)"

definition emit_tts :: "epub_world \<Rightarrow> string \<Rightarrow> string option \<Rightarrow> unit task_step" where
  "emit_tts w x profile t =
     (if str_trim x = [] then (Failed ''chapter has no readable text'', t)
      else
        (let call = ew_call_id w (et_seq t)
         in and_then (epub_publish w (\<lambda>i. with_retain 60 (as_transient
              (with_annotation CAFE_JSONRPC_REQUEST (request_to_json (tts_request call x profile))
                 (new_null i (ew_now_ms w) EPUB)))))
              (\<lambda>_ t1. case ew_wait w (et_seq t1) of
                 Inl e \<Rightarrow> (Failed e, t1)
               | Inr (ms, closes) \<Rightarrow> lift_result (await_tts call closes ms) t1) t))"

definition narrated :: "nat \<Rightarrow> string option \<Rightarrow> json" where
  "narrated i e =
     json_obj ([(''handled'', JBool True), (''chapter'', JNum (PosInt (i + 1))), (''narrated'', JBool (e = None))]
               @ (case e of Some x \<Rightarrow> [(''error'', JStr x)] | None \<Rightarrow> []))"

definition epub_read :: "epub_world \<Rightarrow> string \<Rightarrow> chapter_move \<Rightarrow> json task_step" where
  "epub_read w sid mv =
     and_then (in_session sid (move_session mv)) (\<lambda>i.
     and_then (the_chapter sid) (\<lambda>c.
     and_then (publish_assistant_text w (chapter_display i c)) (\<lambda>_.
     and_then (publish_state_annotations w sid) (\<lambda>_ t.
       (case emit_tts w (ch_text c) (resolve_tts_profile w t) t of
          (Went _, t1) \<Rightarrow> (Went (narrated i None), t1)
        | (Failed e, t1) \<Rightarrow>
            and_then (publish_assistant_text w (''(TTS failed: '' @ e @ '')''))
              (\<lambda>_. returning (narrated i (Some e))) t1
        | (Died, t1) \<Rightarrow> (Died, t1))))))"

section \<open>Answers without a move\<close>

definition pad3 :: "string \<Rightarrow> string" where
  "pad3 s = replicate (3 - length s) CHR '' '' @ s"

definition list_line :: "nat \<Rightarrow> nat \<times> book_chapter \<Rightarrow> string" where
  "list_line current = (\<lambda>(i, c). (if i = current then ''*'' else '' '') @ '' '' @ pad3 (show_nat (i + 1)) @ ''. '' @ ch_title c)"

definition book_listing :: "book \<Rightarrow> nat \<Rightarrow> string" where
  "book_listing b current =
     join_with [LF]
       ((CHR 0x22 # bk_title b @ [CHR 0x22] @ '' '' @ DASH @ '' '' @ show_nat (chapter_count b) @ '' chapters:'')
        # map (list_line current) (enumerate 0 (bk_chapters b)))"

definition epub_list :: "epub_world \<Rightarrow> string \<Rightarrow> json task_step" where
  "epub_list w sid t =
     (let s = peek sid id (et_narrator t)
      in case ss_book s of
           Some b \<Rightarrow>
             if bk_chapters b = []
             then and_then (publish_assistant_text w NO_BOOK)
                    (\<lambda>_. returning (json_obj [(''handled'', JBool True), (''chapters'', JNum (PosInt 0))])) t
             else and_then (publish_assistant_text w (book_listing b (ss_current s)))
                    (\<lambda>_. returning (json_obj [(''handled'', JBool True), (''chapters'', JNum (PosInt (chapter_count b))),
                                              (''current'', JNum (PosInt (ss_current s)))])) t
         | None \<Rightarrow>
             and_then (publish_assistant_text w NO_BOOK)
               (\<lambda>_. returning (json_obj [(''handled'', JBool True), (''chapters'', JNum (PosInt 0))])) t)"

definition position_text :: "narration \<Rightarrow> string" where
  "position_text s =
     (case (ss_book s, current_chapter s) of
        (Some b, Some c) \<Rightarrow>
          CHR 0x22 # bk_title b @ [CHR 0x22] @ '' '' @ DASH @ '' chapter '' @ show_nat (ss_current s + 1) @ '' of ''
          @ show_nat (chapter_count b) @ '': '' @ ch_title c
      | _ \<Rightarrow> NO_BOOK)"

definition handled :: json where
  "handled = json_obj [(''handled'', JBool True)]"

definition epub_current :: "epub_world \<Rightarrow> string \<Rightarrow> json task_step" where
  "epub_current w sid t =
     and_then (publish_assistant_text w (position_text (peek sid id (et_narrator t)))) (\<lambda>_. returning handled) t"

definition help_text :: string where
  "help_text =
     join_with [LF]
       [''EPUB narrator commands:'',
        ''!load <path> '' @ DASH @ '' load an EPUB'',
        ''!next / !n '' @ DASH @ '' read the next chapter aloud'',
        ''!prev / !p '' @ DASH @ '' read the previous chapter'',
        ''!chapter <n> / !ch <n> '' @ DASH @ '' jump to chapter n'',
        ''!list / !l '' @ DASH @ '' list all chapters'',
        ''!current / !c '' @ DASH @ '' show current chapter'',
        ''!help '' @ DASH @ '' show this help'']"

definition epub_help :: "epub_world \<Rightarrow> json task_step" where
  "epub_help w = and_then (publish_assistant_text w help_text) (\<lambda>_. returning handled)"

section \<open>Requests and messages\<close>

definition epub_request :: "epub_world \<Rightarrow> string \<Rightarrow> json_rpc_request \<Rightarrow> json task_step" where
  "epub_request w sid request =
     (case parse_command (text_or_empty ''text'' (req_params request)) of
        None \<Rightarrow> returning (json_obj [(''handled'', JBool False)])
      | Some (Cmd_Load path) \<Rightarrow> epub_load w sid path
      | Some Cmd_Next \<Rightarrow> epub_read w sid Move_Next
      | Some Cmd_Prev \<Rightarrow> epub_read w sid Move_Prev
      | Some (Cmd_Chapter n) \<Rightarrow> epub_read w sid (Move_Chapter n)
      | Some Cmd_List \<Rightarrow> epub_list w sid
      | Some Cmd_Current \<Rightarrow> epub_current w sid
      | Some Cmd_Help \<Rightarrow> epub_help w)"

definition INTERNAL_ERROR :: int where "INTERNAL_ERROR = - 32603"

definition epub_response :: "string \<Rightarrow> string + json \<Rightarrow> json_rpc_response" where
  "epub_response call_id r =
     (case r of Inr v \<Rightarrow> rpc_response_ok call_id v | Inl e \<Rightarrow> rpc_response_err call_id INTERNAL_ERROR e)"

text \<open>
  The response is published whatever becomes of it; a panic, the first component of the result, ends
  the task without one.
\<close>

definition epub_answer :: "epub_world \<Rightarrow> string \<Rightarrow> json_rpc_request \<Rightarrow> epub_task \<Rightarrow> bool \<times> epub_task" where
  "epub_answer w sid request t =
     (let respond = (\<lambda>r t1. (False, snd (epub_publish w (\<lambda>i.
            response_for (epub_response (req_id request) r) (new_null i (ew_now_ms w) EPUB)) t1)))
      in case epub_request w sid request t of
           (Went v, t1) \<Rightarrow> respond (Inr v) t1
         | (Failed e, t1) \<Rightarrow> respond (Inl e) t1
         | (Died, t1) \<Rightarrow> (True, t1))"

definition upload_url :: "string \<Rightarrow> string \<Rightarrow> string \<Rightarrow> string" where
  "upload_url url token sid = url @ ''?token='' @ token @ ''&session_id='' @ sid"

definition blob_credentials :: "string \<Rightarrow> string \<Rightarrow> chunk \<Rightarrow> epub_task \<Rightarrow> epub_task" where
  "blob_credentials sid target c t =
     (case kv_get (et_pending t) target of
        None \<Rightarrow> t
      | Some bytes \<Rightarrow>
          (let t1 = t\<lparr>et_pending := kv_remove target (et_pending t)\<rparr>
           in case (get_annotation as_str ''cafe.binary.write_url'' c,
                    get_annotation as_str ''cafe.binary.write_token'' c) of
                (Some url, Some token) \<Rightarrow>
                  t1\<lparr>et_uploads := et_uploads t @ [(upload_url url token sid, bytes)]\<rparr>
              | _ \<Rightarrow> t1))"

definition for_store :: "chunk \<Rightarrow> string option" where
  "for_store c = (if producer c = STORE then is_mutation c else None)"

definition epub_chunk :: "epub_world \<Rightarrow> string \<Rightarrow> chunk \<Rightarrow> epub_task \<Rightarrow> bool \<times> epub_task" where
  "epub_chunk w sid c t =
     (case for_store c of
        Some target \<Rightarrow> (False, blob_credentials sid target c t)
      | None \<Rightarrow>
          (case as_rpc_request c of
             None \<Rightarrow> (False, t)
           | Some request \<Rightarrow> if req_method request \<noteq> ''epub.invoke'' then (False, t) else epub_answer w sid request t))"

fun epub_messages :: "epub_world \<Rightarrow> string \<Rightarrow> bool \<Rightarrow> server_message list \<Rightarrow> epub_task \<Rightarrow> bool \<times> epub_task" where
  "epub_messages w sid live [] t = (False, t)"
| "epub_messages w sid live (m # ms) t =
     (case m of
        Chunk _ c \<Rightarrow>
          if \<not> live then epub_messages w sid live ms t
          else (case epub_chunk w sid c t of
                  (True, t1) \<Rightarrow> (True, t1)
                | (False, t1) \<Rightarrow> epub_messages w sid live ms t1)
      | HistoryComplete _ _ \<Rightarrow> epub_messages w sid True ms t
      | _ \<Rightarrow> epub_messages w sid live ms t)"

section \<open>After a restart\<close>

text \<open>The first chunk that is about the blob decides, also when it has no credentials.\<close>

definition is_about :: "string \<Rightarrow> chunk \<Rightarrow> bool" where
  "is_about i c =
     (chunk_type c = Null
      \<and> Option.bind (kv_get (annotations c) ''cafe.mutates.target_id'') as_str = Some i)"

definition find_read_credentials :: "chunk list \<Rightarrow> string \<Rightarrow> (string \<times> string) option" where
  "find_read_credentials hist i =
     (case List.find (is_about i) hist of
        None \<Rightarrow> None
      | Some c \<Rightarrow>
          (case (Option.bind (kv_get (annotations c) ''cafe.binary.read_url'') as_str,
                 Option.bind (kv_get (annotations c) ''cafe.binary.read_token'') as_str) of
             (Some url, Some token) \<Rightarrow> Some (url, token)
           | _ \<Rightarrow> None))"

definition latest_annotation :: "chunk list \<Rightarrow> string \<Rightarrow> json option" where
  "latest_annotation hist k =
     (case List.map_filter (\<lambda>c. kv_get (annotations c) k) (rev hist) of [] \<Rightarrow> None | v # _ \<Rightarrow> Some v)"

definition is_book_blob :: "chunk \<Rightarrow> bool" where
  "is_book_blob c = (chunk_type c = BinaryRef \<and> producer c = EPUB \<and> mime_type c = Some EPUB_MIME)"

definition fetch_bytes :: "epub_world \<Rightarrow> string \<Rightarrow> string \<Rightarrow> byte list option" where
  "fetch_bytes w url token =
     (case ew_fetch w (url @ ''?token='' @ token) of
        Inr (status, Inr bytes) \<Rightarrow> if 200 \<le> status \<and> status < 300 then Some bytes else None
      | _ \<Rightarrow> None)"

definition restored_book :: "epub_world \<Rightarrow> chunk list \<Rightarrow> string \<Rightarrow> string option \<Rightarrow> book option" where
  "restored_book w hist i path =
     (let stored = Option.bind (find_read_credentials hist i) (\<lambda>(url, token).
            Option.bind (fetch_bytes w url token) (\<lambda>bytes.
              case open_bytes w bytes of Inl _ \<Rightarrow> None | Inr b \<Rightarrow> Some b))
      in case stored of
           Some b \<Rightarrow> Some b
         | None \<Rightarrow> Option.bind path (\<lambda>p. case open_path w p of Inl _ \<Rightarrow> None | Inr b \<Rightarrow> Some b))"

definition restore_from :: "epub_world \<Rightarrow> string \<Rightarrow> chunk list \<Rightarrow> narrator \<Rightarrow> narrator" where
  "restore_from w sid hist m =
     (case List.find is_book_blob (rev hist) of
        None \<Rightarrow> m
      | Some blob \<Rightarrow>
          (let path = Option.bind (latest_annotation hist ''config.epub.path'') as_str;
               current = (case Option.bind (latest_annotation hist ''config.epub.chapter'') as_u64 of
                            Some n \<Rightarrow> n | None \<Rightarrow> 0);
               started = (case Option.bind (latest_annotation hist ''config.epub.started'') as_bool of
                            Some b \<Rightarrow> b | None \<Rightarrow> 0 < current)
           in case restored_book w hist (chunk_id blob) path of
                None \<Rightarrow> m
              | Some b \<Rightarrow>
                  snd (with_session sid (\<lambda>s. ((), s\<lparr>ss_book := Some b,
                    ss_current := min current (chapter_count b - 1), ss_started := started,
                    ss_blob := Some (chunk_id blob), ss_path := path\<rparr>)) m)))"

definition restore_state :: "epub_world \<Rightarrow> string \<Rightarrow> narrator \<Rightarrow> narrator" where
  "restore_state w sid m = (case ew_history w 0 of Inl _ \<Rightarrow> m | Inr hist \<Rightarrow> restore_from w sid hist m)"

definition epub_session :: "epub_world \<Rightarrow> string \<Rightarrow> server_message list \<Rightarrow> narrator \<Rightarrow> bool \<times> epub_task" where
  "epub_session w sid ms m =
     epub_messages w sid False ms
       \<lparr>et_narrator = restore_state w sid m, et_pending = [], et_uploads = [], et_out = [], et_seq = 1\<rparr>"

section \<open>Every command is answered\<close>

text \<open>The position lies within the book, so that the chapter to read is there.\<close>

definition narration_ok :: "narration \<Rightarrow> bool" where
  "narration_ok s = (case ss_book s of None \<Rightarrow> True | Some b \<Rightarrow> ss_current s < chapter_count b)"

definition task_keeps :: "string \<Rightarrow> string list \<Rightarrow> epub_task \<Rightarrow> bool" where
  "task_keeps sid ids t =
     (narration_ok (session_or_default (et_narrator t) sid) \<and> answered_ids (et_out t) = ids)"

text \<open>A step is harmless if it does not panic, keeps the position in the book, and answers nothing.\<close>

definition harmless :: "string \<Rightarrow> 'a task_step \<Rightarrow> bool" where
  "harmless sid p =
     (\<forall>ids t. task_keeps sid ids t \<longrightarrow> fst (p t) \<noteq> Died \<and> task_keeps sid ids (snd (p t)))"

lemma harmlessI:
  "(\<And>ids t. task_keeps sid ids t \<Longrightarrow> fst (p t) \<noteq> Died \<and> task_keeps sid ids (snd (p t))) \<Longrightarrow> harmless sid p"
  by (simp add: harmless_def)

lemma harmless_and_then:
  assumes p: "harmless sid p" and f: "\<And>x. harmless sid (f x)"
  shows "harmless sid (and_then p f)"
proof (rule harmlessI)
  fix ids t assume "task_keeps sid ids t"
  with p have "fst (p t) \<noteq> Died" "task_keeps sid ids (snd (p t))" by (simp_all add: harmless_def)
  with f show "fst (and_then p f t) \<noteq> Died \<and> task_keeps sid ids (snd (and_then p f t))"
    by (cases "p t"; cases "fst (p t)") (simp_all add: and_then_def harmless_def)
qed

lemma harmless_simple:
  "harmless sid (returning x)" "harmless sid (lift_result r)"
  by (auto simp: harmless_def returning_def lift_result_def split: sum.split)

lemma harmless_publish:
  "(\<And>i. as_rpc_response (mk i) = None) \<Longrightarrow> harmless sid (epub_publish w mk)"
  by (auto simp: harmless_def epub_publish_def task_keeps_def Let_def split: option.split)

lemma session_or_default_insert [simp]: "session_or_default (kv_insert sid s m) sid = s"
  by (simp add: session_or_default_def kv_simps)

lemma harmless_in_session:
  assumes "\<And>s. narration_ok s \<Longrightarrow> fst (f s) \<noteq> Died \<and> narration_ok (snd (f s))"
  shows "harmless sid (in_session sid f)"
proof (rule harmlessI)
  fix ids t assume "task_keeps sid ids t"
  with assms [of "session_or_default (et_narrator t) sid"]
  show "fst (in_session sid f t) \<noteq> Died \<and> task_keeps sid ids (snd (in_session sid f t))"
    by (cases "f (session_or_default (et_narrator t) sid)")
       (simp add: task_keeps_def in_session_def with_session_def)
qed

lemma published_kinds:
  "as_rpc_response (with_annotation CHAT_ROLE v (new_text i n x p)) = None"
  "as_rpc_response (blob_chunk i n bytes) = None"
  "as_rpc_response (state_chunk i n s) = None"
  "as_rpc_response (with_retain k (as_transient (with_annotation CAFE_JSONRPC_REQUEST v (new_null i n p)))) = None"
  by (simp_all add: as_rpc_response_def get_annotation_def blob_chunk_def state_chunk_def Let_def split: option.split)

lemma harmless_text: "harmless sid (publish_assistant_text w x)"
  unfolding publish_assistant_text_def by (rule harmless_publish) (rule published_kinds)

lemma harmless_state: "harmless sid (publish_state_annotations w sid)"
proof -
  have "harmless sid (epub_publish w (\<lambda>i. state_chunk i (ew_now_ms w) s))" for s
    by (rule harmless_publish) (rule published_kinds)
  then show ?thesis by (simp add: harmless_def publish_state_annotations_def)
qed

lemmas harmless_steps = harmless_simple harmless_text harmless_state

lemma move_session_ok:
  "narration_ok s \<Longrightarrow> fst (move_session mv s) \<noteq> Died \<and> narration_ok (snd (move_session mv s))"
  by (cases mv)
     (auto simp: move_session_def narration_ok_def next_chapter_def prev_chapter_def goto_chapter_def Let_def
       split: option.splits if_splits)

text \<open>Once a move has succeeded, the session has a book, and the chapter is there.\<close>

lemma harmless_move_read:
  assumes "\<And>i c. harmless sid (f i c)"
  shows "harmless sid (and_then (in_session sid (move_session mv)) (\<lambda>i. and_then (the_chapter sid) (f i)))"
proof (rule harmlessI)
  fix ids t assume t: "task_keeps sid ids t"
  let ?s = "session_or_default (et_narrator t) sid"
  obtain r s1 where m: "move_session mv ?s = (r, s1)" by fastforce
  have ok: "r \<noteq> Died" "narration_ok s1"
    using move_session_ok [of ?s mv] t by (simp_all add: m task_keeps_def)
  let ?t = "t\<lparr>et_narrator := kv_insert sid s1 (et_narrator t)\<rparr>"
  have step: "in_session sid (move_session mv) t = (r, ?t)"
    by (simp add: in_session_def with_session_def m)
  have keeps: "task_keeps sid ids ?t" using ok t by (simp add: task_keeps_def)
  show "fst (and_then (in_session sid (move_session mv)) (\<lambda>i. and_then (the_chapter sid) (f i)) t) \<noteq> Died
      \<and> task_keeps sid ids (snd (and_then (in_session sid (move_session mv)) (\<lambda>i. and_then (the_chapter sid) (f i)) t))"
  proof (cases r)
    case (Went i)
    then have "ss_book s1 \<noteq> None"
      using m by (auto simp: move_session_def next_chapter_def prev_chapter_def goto_chapter_def Let_def
          split: option.splits if_splits chapter_move.splits)
    then obtain c where "current_chapter s1 = Some c"
      using ok(2) by (auto simp: current_chapter_def narration_ok_def)
    then have "the_chapter sid ?t = (Went c, ?t)" by (simp add: the_chapter_def peek_def)
    then show ?thesis
      using assms [of i c] keeps Went by (simp add: and_then_def step harmless_def)
  qed (use ok keeps in \<open>simp_all add: and_then_def step\<close>)
qed

lemma harmless_call:
  "harmless sid (and_then (epub_publish w (\<lambda>i. with_retain 60 (as_transient (with_annotation CAFE_JSONRPC_REQUEST v
      (new_null i (ew_now_ms w) EPUB))))) (\<lambda>_ t1. case ew_wait w (et_seq t1) of Inl e \<Rightarrow> (Failed e, t1)
      | Inr (ms, closes) \<Rightarrow> lift_result (await_tts c closes ms) t1))"
proof (rule harmless_and_then)
  show "harmless sid (epub_publish w (\<lambda>i. with_retain 60 (as_transient (with_annotation CAFE_JSONRPC_REQUEST v
      (new_null i (ew_now_ms w) EPUB)))))"
    by (rule harmless_publish) (rule published_kinds)
  show "harmless sid (\<lambda>t1. case ew_wait w (et_seq t1) of Inl e \<Rightarrow> (Failed e, t1)
      | Inr (ms, closes) \<Rightarrow> lift_result (await_tts c closes ms) t1)"
    by (auto simp: harmless_def lift_result_def split: sum.split prod.split)
qed

lemma harmless_emit: "harmless sid (\<lambda>t. emit_tts w x (profile t) t)"
proof (rule harmlessI)
  fix ids t assume t: "task_keeps sid ids t"
  show "fst (emit_tts w x (profile t) t) \<noteq> Died \<and> task_keeps sid ids (snd (emit_tts w x (profile t) t))"
  proof (cases "str_trim x = []")
    case False
    show ?thesis
      unfolding emit_tts_def Let_def if_not_P [OF False]
      by (rule harmless_call [unfolded harmless_def, rule_format, OF t])
  qed (simp add: emit_tts_def t)
qed

lemma harmless_read: "harmless sid (epub_read w sid mv)"
  unfolding epub_read_def
proof (intro harmless_move_read harmless_and_then harmless_steps)
  fix i c
  show "harmless sid (\<lambda>t. case emit_tts w (ch_text c) (resolve_tts_profile w t) t of
      (Went _, t1) \<Rightarrow> (Went (narrated i None), t1)
    | (Failed e, t1) \<Rightarrow> and_then (publish_assistant_text w (''(TTS failed: '' @ e @ '')''))
          (\<lambda>_. returning (narrated i (Some e))) t1
    | (Died, t1) \<Rightarrow> (Died, t1))"
  proof (rule harmlessI)
    fix ids t assume "task_keeps sid ids t"
    with harmless_emit [of sid w "ch_text c" "resolve_tts_profile w", unfolded harmless_def]
    obtain r t1 where e: "emit_tts w (ch_text c) (resolve_tts_profile w t) t = (r, t1)" "r \<noteq> Died"
      "task_keeps sid ids t1"
      by (metis prod.collapse)
    have "harmless sid (and_then (publish_assistant_text w x) (\<lambda>_. returning y))" for x and y :: json
      by (intro harmless_and_then harmless_steps)
    with e show "fst (case emit_tts w (ch_text c) (resolve_tts_profile w t) t of
        (Went _, t1) \<Rightarrow> (Went (narrated i None), t1)
      | (Failed e, t1) \<Rightarrow> and_then (publish_assistant_text w (''(TTS failed: '' @ e @ '')''))
            (\<lambda>_. returning (narrated i (Some e))) t1
      | (Died, t1) \<Rightarrow> (Died, t1)) \<noteq> Died
      \<and> task_keeps sid ids (snd (case emit_tts w (ch_text c) (resolve_tts_profile w t) t of
        (Went _, t1) \<Rightarrow> (Went (narrated i None), t1)
      | (Failed e, t1) \<Rightarrow> and_then (publish_assistant_text w (''(TTS failed: '' @ e @ '')''))
            (\<lambda>_. returning (narrated i (Some e))) t1
      | (Died, t1) \<Rightarrow> (Died, t1)))"
      by (cases r) (simp_all add: harmless_def)
  qed
qed

text \<open>Every book that can be opened has a chapter.\<close>

definition books_have_chapters :: "epub_world \<Rightarrow> bool" where
  "books_have_chapters w =
     ((\<forall>bytes doc. ew_open w bytes = Inr doc \<longrightarrow> ed_spine doc \<noteq> [])
      \<and> (\<forall>path doc. ew_open_path w path = Inr doc \<longrightarrow> ed_spine doc \<noteq> []))"

lemma chapter_count_parse [simp]: "chapter_count (parse_doc render doc) = length (ed_spine doc)"
  by (simp add: chapter_count_def parse_doc_def)

lemma opened_books:
  assumes "books_have_chapters w"
  shows "open_bytes w bytes = Inr b \<Longrightarrow> 0 < chapter_count b" "open_path w path = Inr b \<Longrightarrow> 0 < chapter_count b"
  using assms by (auto simp: open_bytes_def open_path_def books_have_chapters_def split: sum.splits)

lemma harmless_load:
  assumes "books_have_chapters w"
  shows "harmless sid (epub_load w sid path)"
proof -
  have rest: "harmless sid (and_then (epub_publish w (\<lambda>i. blob_chunk i (ew_now_ms w) bytes)) (\<lambda>blob.
      and_then (\<lambda>t. (Went (), t\<lparr>et_pending := kv_insert blob bytes (et_pending t)\<rparr>)) (\<lambda>_.
      and_then (in_session sid (\<lambda>s. (Went (),
         s\<lparr>ss_book := Some b, ss_current := 0, ss_blob := Some blob, ss_path := Some path\<rparr>))) (\<lambda>_.
      and_then (publish_state_annotations w sid) (\<lambda>_.
      and_then (publish_assistant_text w (load_summary b)) (\<lambda>_.
      returning v))))))"
    if "0 < chapter_count b" for b bytes and v :: json
  proof (intro harmless_and_then harmless_steps harmless_in_session)
    show "harmless sid (epub_publish w (\<lambda>i. blob_chunk i (ew_now_ms w) bytes))"
      by (rule harmless_publish) (rule published_kinds)
  qed (use that in \<open>auto simp: harmless_def task_keeps_def narration_ok_def\<close>)
  show ?thesis
  proof (cases "ew_read_file w path")
    case (Inr bytes)
    show ?thesis
    proof (cases "open_bytes w bytes")
      case open_ok: (Inr b)
      show ?thesis
        using rest [OF opened_books(1) [OF assms open_ok], of bytes
            "json_obj [(''handled'', JBool True), (''book'', JStr (bk_title b)),
                       (''chapters'', JNum (PosInt (chapter_count b)))]"]
        by (simp add: epub_load_def Inr open_ok harmless_def and_then_def [of "lift_result _"] lift_result_def)
    qed (simp add: epub_load_def Inr harmless_def and_then_def lift_result_def)
  qed (simp add: epub_load_def harmless_def and_then_def lift_result_def)
qed

lemma harmless_list: "harmless sid (epub_list w sid)"
proof -
  have "harmless sid (and_then (publish_assistant_text w x) (\<lambda>_. returning y))" for x and y :: json
    by (intro harmless_and_then harmless_steps)
  then show ?thesis by (simp add: harmless_def epub_list_def Let_def split: option.split)
qed

lemma harmless_current: "harmless sid (epub_current w sid)"
proof -
  have "harmless sid (and_then (publish_assistant_text w x) (\<lambda>_. returning y))" for x and y :: json
    by (intro harmless_and_then harmless_steps)
  then show ?thesis by (simp add: harmless_def epub_current_def)
qed

lemma harmless_request:
  assumes "books_have_chapters w"
  shows "harmless sid (epub_request w sid request)"
proof -
  have h: "harmless sid (epub_help w)"
    unfolding epub_help_def by (intro harmless_and_then harmless_steps)
  show ?thesis
    using harmless_load [OF assms] harmless_read harmless_list harmless_current h
    by (simp add: epub_request_def harmless_simple split: option.split command.split)
qed

definition epub_asked :: "server_message \<Rightarrow> json_rpc_request option" where
  "epub_asked m =
     (case m of
        Chunk _ c \<Rightarrow>
          if for_store c = None
          then Option.bind (as_rpc_request c) (\<lambda>r. if req_method r = ''epub.invoke'' then Some r else None)
          else None
      | _ \<Rightarrow> None)"

definition epub_requests :: "server_message list \<Rightarrow> json_rpc_request list" where
  "epub_requests ms = List.map_filter epub_asked (dropWhile (\<lambda>m. \<not> ends_history m) ms)"

definition publishes :: "epub_world \<Rightarrow> bool" where
  "publishes w = (\<forall>n. ew_publish w n = None)"

lemma epub_request_object:
  assumes "epub_request w sid request t = (Went v, t1)"
  shows "v \<noteq> JNull"
proof -
  have went: "and_then p f t = (Went v, t1) \<Longrightarrow> \<exists>x t0. f x t0 = (Went v, t1)"
    for p :: "'z task_step" and f t and v :: json
    by (auto simp: and_then_def split: prod.splits epub_outcome.splits)
  show ?thesis
    using assms
    by (auto simp: epub_request_def epub_load_def epub_read_def epub_list_def epub_current_def epub_help_def Let_def
        returning_def handled_def narrated_def split: option.splits command.splits if_splits prod.splits epub_outcome.splits
        dest!: went)
qed

lemma epub_answer_once:
  assumes "books_have_chapters w" "publishes w" "task_keeps sid ids t"
  shows "\<not> fst (epub_answer w sid request t) \<and> task_keeps sid (ids @ [req_id request]) (snd (epub_answer w sid request t))"
proof -
  obtain r t1 where e: "epub_request w sid request t = (r, t1)" by fastforce
  then have ok: "r \<noteq> Died" "task_keeps sid ids t1"
    using harmless_request [OF assms(1), of sid request, unfolded harmless_def, rule_format, OF assms(3)] by simp_all
  have wf: "rpc_response_wf (epub_response i (Inr v))" if "v \<noteq> JNull" for i v
    using that by (simp add: epub_response_def rpc_response_wf_def rpc_response_ok_def)
  have wf': "rpc_response_wf (epub_response i (Inl x))" for i x
    by (simp add: epub_response_def rpc_response_wf_def rpc_response_err_def rpc_error_ok_def INTERNAL_ERROR_def)
  have answer: "\<not> fst (False, snd (epub_publish w (\<lambda>i. response_for (epub_response (req_id request) x)
        (new_null i (ew_now_ms w) EPUB)) t1))
      \<and> task_keeps sid (ids @ [req_id request]) (snd (False, snd (epub_publish w (\<lambda>i.
        response_for (epub_response (req_id request) x) (new_null i (ew_now_ms w) EPUB)) t1)))"
    if "rpc_response_wf (epub_response (req_id request) x)" for x
    using ok(2) assms(2) as_rpc_response_response_for [OF that]
    by (cases x) (simp_all add: epub_publish_def publishes_def task_keeps_def Let_def epub_response_def)
  show ?thesis
  proof (cases r)
    case (Went v)
    then show ?thesis using answer wf epub_request_object e by (simp add: epub_answer_def Let_def)
  next
    case (Failed x)
    then show ?thesis using answer wf' e by (simp add: epub_answer_def Let_def)
  qed (use ok in simp)
qed

lemma epub_chunk_answers:
  assumes "books_have_chapters w" "publishes w" "task_keeps sid ids t"
  shows "\<not> fst (epub_chunk w sid c t) \<and>
    task_keeps sid (ids @ (case epub_asked (Chunk x c) of Some r \<Rightarrow> [req_id r] | None \<Rightarrow> [])) (snd (epub_chunk w sid c t))"
proof (cases "for_store c")
  case (Some target)
  have "task_keeps sid ids (blob_credentials sid target c t)"
    using assms(3) by (auto simp: blob_credentials_def task_keeps_def Let_def split: option.split)
  with Some show ?thesis by (simp add: epub_chunk_def epub_asked_def)
next
  case None
  then show ?thesis
    using assms epub_answer_once [OF assms] by (simp add: epub_chunk_def epub_asked_def split: option.split)
qed

lemma epub_messages_live:
  assumes "books_have_chapters w" "publishes w"
  shows "task_keeps sid ids t \<Longrightarrow>
    \<not> fst (epub_messages w sid True ms t)
    \<and> task_keeps sid (ids @ map req_id (List.map_filter epub_asked ms)) (snd (epub_messages w sid True ms t))"
proof (induction ms arbitrary: ids t)
  case (Cons m ms)
  show ?case
  proof (cases m)
    case (Chunk x c)
    obtain d t1 where e: "epub_chunk w sid c t = (d, t1)" by fastforce
    have "\<not> d" "task_keeps sid (ids @ (case epub_asked m of Some r \<Rightarrow> [req_id r] | None \<Rightarrow> [])) t1"
      using epub_chunk_answers [OF assms Cons.prems, of c x] by (simp_all add: e Chunk)
    with Cons.IH [OF this(2)] show ?thesis
      by (cases "epub_asked (Chunk x c)") (simp_all add: Chunk e map_filter_simps)
  qed (use Cons in \<open>simp_all add: map_filter_simps epub_asked_def\<close>)
qed (simp add: map_filter_simps)

lemma epub_messages_replay:
  "epub_messages w sid False ms t =
     epub_messages w sid True (drop 1 (dropWhile (\<lambda>m. \<not> ends_history m) ms)) t"
proof (induction ms)
  case (Cons m ms)
  then show ?case by (cases m) (simp_all add: ends_history_def)
qed simp

lemma restore_keeps_ok:
  assumes "books_have_chapters w" "narration_ok (session_or_default m sid)"
  shows "narration_ok (session_or_default (restore_state w sid m) sid)"
proof -
  have pos: "0 < chapter_count b" if "restored_book w hist i path = Some b" for hist i path b
    using that opened_books [OF assms(1)]
    by (auto simp: restored_book_def Let_def split: option.splits sum.splits Option.bind_splits)
  have least: "min k (chapter_count b - Suc 0) < chapter_count b" if "restored_book w hist i path = Some b" for k hist i path b
    using pos [OF that] by (metis One_nat_def diff_less less_one min_less_iff_disj)
  then show ?thesis
    using assms(2) pos least
    by (auto simp: restore_state_def restore_from_def with_session_def narration_ok_def Let_def
        split: sum.split option.split)
qed

text \<open>
  C36: The narrator answers every command, and is never outside its book.  When publishing
  succeeds and no book is without chapters, a session task that starts with a position inside its book, or with
  none, neither panics nor leaves the book, however it was restored, and it answers each live \<open>epub.invoke\<close> request
  exactly once and in order, whatever becomes of files, speech and history.
\<close>

theorem narrator_answers_each:
  assumes "books_have_chapters w" "publishes w" "narration_ok (session_or_default m sid)"
  shows "\<not> fst (epub_session w sid ms m)
    \<and> answered_ids (et_out (snd (epub_session w sid ms m))) = map req_id (epub_requests ms)
    \<and> narration_ok (session_or_default (et_narrator (snd (epub_session w sid ms m))) sid)"
proof -
  let ?t = "\<lparr>et_narrator = restore_state w sid m, et_pending = [], et_uploads = [], et_out = [], et_seq = 1\<rparr>"
  let ?live = "dropWhile (\<lambda>m. \<not> ends_history m) ms"
  have "task_keeps sid [] ?t"
    using restore_keeps_ok [OF assms(1,3)] by (simp add: task_keeps_def)
  from epub_messages_live [OF assms(1,2) this, of "drop 1 ?live"]
  have "\<not> fst (epub_session w sid ms m)
      \<and> task_keeps sid (map req_id (List.map_filter epub_asked (drop 1 ?live))) (snd (epub_session w sid ms m))"
    by (simp add: epub_session_def epub_messages_replay)
  moreover have "List.map_filter epub_asked (drop 1 ?live) = List.map_filter epub_asked ?live"
  proof (cases ?live)
    case (Cons a as)
    then have "ends_history a" using hd_dropWhile [of "\<lambda>m. \<not> ends_history m" ms] by force
    then have "epub_asked a = None" by (cases a) (simp_all add: ends_history_def epub_asked_def)
    with Cons show ?thesis by (simp add: map_filter_simps)
  qed (simp only: drop_Nil)
  ultimately show ?thesis by (simp add: task_keeps_def epub_requests_def)
qed

text \<open>A world for examples: one book of two chapters, whatever the bytes; nothing fails.\<close>

definition demo_doc :: epub_doc where
  "demo_doc = \<lparr>ed_title = Some ''T'', ed_creator = None, ed_toc = [], ed_spine = [''a'', ''b''],
     ed_resource = (\<lambda>i. Some (''<p>'', ''text/html'')), ed_chapter_of = (\<lambda>_. None)\<rparr>"

definition demo_epub :: epub_world where
  "demo_epub = \<lparr>ew_read_file = (\<lambda>_. Inr [1]), ew_open = (\<lambda>_. Inr demo_doc), ew_open_path = (\<lambda>_. Inr demo_doc),
     ew_render = (\<lambda>_. Some ''x''), ew_uuid = show_nat, ew_call_id = show_nat, ew_now_ms = 0, ew_publish = (\<lambda>_. None),
     ew_history = (\<lambda>_. Inr []), ew_wait = (\<lambda>_. Inr ([], True)), ew_fetch = (\<lambda>_. Inl ''offline'')\<rparr>"

definition demo_command :: "string \<Rightarrow> string \<Rightarrow> server_message" where
  "demo_command i x = Chunk ''s'' (with_annotation CAFE_JSONRPC_REQUEST
     (request_to_json (rpc_request_new i ''epub.invoke'' (json_obj [(''text'', JStr x)]))) (new_null ''c'' 0 ''user''))"

lemma demo_command_asked:
  "epub_asked (demo_command i x) = Some (rpc_request_new i ''epub.invoke'' (json_obj [(''text'', JStr x)]))"
  by (simp add: epub_asked_def demo_command_def for_store_def is_mutation_def get_annotation_def as_rpc_request_def
      request_roundtrip rpc_request_new_def)

theorem narrator_answers_each_witness:
  "answered_ids (et_out (snd (epub_session demo_epub ''s''
     [demo_command ''0'' ''!next'', HistoryComplete ''s'' 0, demo_command ''1'' ''!load x'', demo_command ''2'' ''!next'']
     []))) = [''1'', ''2'']"
proof -
  let ?ms = "[demo_command ''0'' ''!next'', HistoryComplete ''s'' 0, demo_command ''1'' ''!load x'',
              demo_command ''2'' ''!next'']"
  have "books_have_chapters demo_epub" "publishes demo_epub" "narration_ok (session_or_default [] ''s'')"
    by (simp_all add: books_have_chapters_def demo_epub_def demo_doc_def publishes_def narration_ok_def
        session_or_default_def no_state_def)
  from narrator_answers_each [OF this, of ?ms]
  have "answered_ids (et_out (snd (epub_session demo_epub ''s'' ?ms []))) = map req_id (epub_requests ?ms)" by blast
  also have "epub_requests ?ms = [rpc_request_new ''1'' ''epub.invoke'' (json_obj [(''text'', JStr ''!load x'')]),
      rpc_request_new ''2'' ''epub.invoke'' (json_obj [(''text'', JStr ''!next'')])]"
  proof -
    have "\<not> ends_history (demo_command i x)" for i x by (simp add: ends_history_def demo_command_def)
    moreover have "ends_history (HistoryComplete ''s'' 0)" "epub_asked (HistoryComplete ''s'' 0) = None"
      by (simp_all add: ends_history_def epub_asked_def)
    ultimately show ?thesis by (simp add: epub_requests_def demo_command_asked map_filter_simps)
  qed
  finally show ?thesis by (simp add: rpc_request_new_def)
qed

section \<open>The order of reading\<close>

text \<open>What \<open>k\<close> times \<open>!next\<close> reads.\<close>

primrec nexts :: "nat \<Rightarrow> narration \<Rightarrow> nat option list \<times> narration" where
  "nexts 0 s = ([], s)"
| "nexts (Suc k) s =
     (case next_chapter s of (r, s1) \<Rightarrow> case nexts k s1 of (rs, s2) \<Rightarrow> (r # rs, s2))"

lemma nexts_started:
  assumes "ss_book s = Some b" "ss_started s" "ss_current s < chapter_count b"
  shows "nexts k s =
    (map (\<lambda>i. if i < chapter_count b then Some i else None) [Suc (ss_current s)..<Suc (ss_current s + k)],
     s\<lparr>ss_current := min (ss_current s + k) (chapter_count b - 1)\<rparr>)"
  using assms
proof (induction k arbitrary: s)
  case 0
  then show ?case by (simp add: min_def)
next
  case (Suc k)
  show ?case
  proof (cases "Suc (ss_current s) < chapter_count b")
    case True
    let ?s = "s\<lparr>ss_current := Suc (ss_current s)\<rparr>"
    have "nexts k ?s = (map (\<lambda>i. if i < chapter_count b then Some i else None) [Suc (Suc (ss_current s))..<Suc (Suc (ss_current s) + k)],
       s\<lparr>ss_current := min (Suc (ss_current s) + k) (chapter_count b - 1)\<rparr>)"
      using Suc.IH [of ?s] Suc.prems True by simp
    then show ?thesis
      using True Suc.prems by (simp add: next_chapter_def upt_rec [of "Suc (ss_current s)"])
  next
    case False
    then have "min (ss_current s + k) (chapter_count b - 1) = ss_current s"
      "min (ss_current s + Suc k) (chapter_count b - 1) = ss_current s"
      using Suc.prems(3) by linarith+
    moreover have none: "map (\<lambda>i. if i < chapter_count b then Some i else None) [Suc (ss_current s)..<Suc (ss_current s + j)]
        = replicate j None" for j
      using False by (intro nth_equalityI) (auto simp del: upt_Suc)
    ultimately show ?thesis
      using Suc.IH [OF Suc.prems] Suc.prems False none [of "Suc k"] by (simp add: next_chapter_def del: upt_Suc)
  qed
qed

text \<open>
  A book is read from the first chapter to the last.  In a session that has read nothing yet,
  repeated \<open>!next\<close> after loading a book with chapters reads each chapter once and in order, and refuses from then on.
\<close>

theorem nexts_read_in_order:
  assumes "ss_book s = Some b" "\<not> ss_started s" "ss_current s = 0" "0 < chapter_count b"
  shows "fst (nexts k s) = map (\<lambda>i. if i < chapter_count b then Some i else None) [0..<k]"
proof (cases k)
  case (Suc j)
  have "nexts j (s\<lparr>ss_started := True\<rparr>) = (map (\<lambda>i. if i < chapter_count b then Some i else None) [Suc 0..<Suc j],
      s\<lparr>ss_started := True, ss_current := min j (chapter_count b - 1)\<rparr>)"
    using nexts_started [of "s\<lparr>ss_started := True\<rparr>" b j] assms by simp
  then show ?thesis
    using assms by (simp add: Suc next_chapter_def upt_rec [of 0] del: upt_Suc)
qed simp

theorem nexts_read_in_order_witness:
  "fst (nexts 3 (no_state\<lparr>ss_book := Some (parse_doc (\<lambda>_. None) demo_doc)\<rparr>)) = [Some 0, Some 1, None]"
  using nexts_read_in_order [of "no_state\<lparr>ss_book := Some (parse_doc (\<lambda>_. None) demo_doc)\<rparr>" "parse_doc (\<lambda>_. None) demo_doc" 3]
  by (simp add: no_state_def demo_doc_def upt_rec)

text \<open>
  Loading does not reset that reading has started: after one book, the first \<open>!next\<close> of another
  reads its second chapter.
\<close>

lemma second_book_skips_first_chapter:
  assumes "ss_started s" "1 < chapter_count b"
  shows "fst (next_chapter (s\<lparr>ss_book := Some b, ss_current := 0, ss_blob := i, ss_path := p\<rparr>)) = Some 1"
  using assms by (simp add: next_chapter_def)

text \<open>A book without chapters ends the session task: \<open>!next\<close> finds position 0 and no chapter there.\<close>

lemma empty_book_panics:
  assumes "kv_get (et_narrator t) sid = Some s" "ss_book s = Some b" "bk_chapters b = []" "\<not> ss_started s"
  shows "fst (epub_read w sid Move_Next t) = Died"
  using assms
  by (simp add: epub_read_def and_then_def in_session_def with_session_def session_or_default_def move_session_def
      next_chapter_def the_chapter_def peek_def current_chapter_def chapter_count_def kv_simps)

section \<open>A book survives a restart\<close>


definition served :: "response \<Rightarrow> string + nat \<times> (string + byte list)" where
  "served r = (case r of Response n (Content d _) \<Rightarrow> Inr (n, Inr d) | Response n _ \<Rightarrow> Inr (n, Inr []) | response.Crashed \<Rightarrow> Inl [])"

lemma upload_requested:
  assumes "kv_get (et_pending t) i = Some bytes"
  shows "epub_chunk w sid (write_credentials e i token) t =
    (False, t\<lparr>et_pending := kv_remove i (et_pending t),
       et_uploads := et_uploads t @ [(upload_url (binary_url e i) token sid, bytes)]\<rparr>)"
proof -
  have "producer (write_credentials e i token) = STORE"
    by (simp add: write_credentials_def as_transient_def with_annotation_def mutation_def new_null_def)
  moreover have "is_mutation (write_credentials e i token) = Some i"
    "get_annotation as_str ''cafe.binary.write_url'' (write_credentials e i token) = Some (binary_url e i)"
    "get_annotation as_str ''cafe.binary.write_token'' (write_credentials e i token) = Some token"
    by (simp_all add: is_mutation_def get_annotation_def write_credentials_def mutation_def)
  ultimately show ?thesis
    using assms by (simp add: epub_chunk_def for_store_def blob_credentials_def)
qed










text \<open>
  A book of more than eight mebibytes comes back cut: the store serves that much of it as a
  complete response, which the narrator takes for the book.
\<close>

lemma large_book_comes_back_cut:
  assumes "authorize e ''read'' i rt = Inr ()" "shard_ok i"
    and "kv_get (st_files st) (chunk_path i) = Some f" "\<not> kv_contains (st_files st) (writing_path i)"
    and "1024 * 1024 * 8 < length f"
    and "ew_fetch w (binary_url e i @ ''?token='' @ rt) = served (read_handler e i rt None st)"
  shows "fetch_bytes w (binary_url e i) rt = Some (take (1024 * 1024 * 8) f)"
  using assms(6) large_read_is_cut [OF assms(1-5)] by (simp add: fetch_bytes_def served_def)

text \<open>A chunk about the blob without credentials hides the credentials that follow it.\<close>

lemma first_chunk_about_blob_decides:
  assumes "is_about i c" "kv_get (annotations c) ''cafe.binary.read_url'' = None"
  shows "find_read_credentials (c # rest) i = None"
  using assms by (simp add: find_read_credentials_def)

text \<open>A command to read a chapter is read back.\<close>

lemma chapter_command_roundtrip:
  assumes "n < u64_bound"
  shows "parse_command (''!chapter '' @ show_nat n) = Some (Cmd_Chapter n)"
proof -
  have digits: "show_nat n \<noteq> []" "\<forall>c \<in> set (show_nat n). 48 \<le> byte_val c \<and> byte_val c \<le> 57"
    using show_nat_digits [of n] by (simp_all add: list_all_iff)
  then have "ascii (show_nat n)" using digits_ascii [of "show_nat n"] by (simp add: list_all_iff)
  have last: "48 \<le> byte_val (last (show_nat n))" "byte_val (last (show_nat n)) \<le> 57"
    using digits last_in_set by blast+
  have "ascii (''!chapter '' @ show_nat n)"
    using \<open>ascii (show_nat n)\<close> by (simp only: ascii_simps) (simp add: byte_val_def)
  then have trim: "str_trim (''!chapter '' @ show_nat n) = ''!chapter '' @ show_nat n"
    using digit_no_space [OF last] digits(1)
    by (intro str_trim_ascii) (simp_all add: byte_val_def char_is_whitespace_def)
  have "ascii (''chapter '' @ show_nat n)"
    using \<open>ascii (show_nat n)\<close> by (simp only: ascii_simps) (simp add: byte_val_def)
  then have "str_chars (''chapter '' @ show_nat n) = map (\<lambda>c. [c]) (''chapter '' @ show_nat n)"
    by (rule str_chars_ascii)
  then have "split_once_space (''chapter '' @ show_nat n) = Some (''chapter'', show_nat n)"
    using concat_singletons [of "show_nat n"]
    by (simp add: split_once_space_def byte_val_def char_is_whitespace_def)
  moreover have "to_ascii_lowercase ''chapter'' = ''chapter''"
    by (simp add: to_ascii_lowercase_def byte_val_def)
  ultimately show ?thesis
    using assms trim by (simp add: parse_command_def command_of_def)
qed







end
