(* ===== verification/Speech.thy ===== *)
theory Speech
  imports Books
begin

text \<open>
  The speech services.  \<open>cafe-tts\<close> splits a text into pieces that the speech server survives, joins the
  audio of the pieces, and hands it to the binary store when asked; \<open>cafe-stt\<close> finds the audio of a session,
  waits for its credentials and has it transcribed.  The exchanges over HTTP and the audio converter are parameters.
\<close>

section \<open>Splitting a text\<close>

text \<open>A text is the list of its characters, each given by its encoding.\<close>

definition uspace :: "string \<Rightarrow> bool" where
  "uspace c = char_is_whitespace (code_point c)"

definition trim_start_chars :: "string list \<Rightarrow> string list" where
  "trim_start_chars cs = dropWhile uspace cs"

definition trim_chars :: "string list \<Rightarrow> string list" where
  "trim_chars cs = rev (dropWhile uspace (rev (dropWhile uspace cs)))"

definition ends_sentence :: "string \<Rightarrow> bool" where
  "ends_sentence c = (c \<in> {''.'', ''!'', ''?''})"

definition closes_sentence :: "string \<Rightarrow> bool" where
  "closes_sentence c = (c \<in> {[CHR 0x22], [CHR 0x27], '')'', '']''})"

definition ascii_space :: "string \<Rightarrow> bool" where
  "ascii_space c = (c \<in> {'' '', [CHR 0x09], [CHR 0x0A], [CHR 0x0C], [CHR 0x0D]})"

function scan_sentences :: "string list \<Rightarrow> string list \<Rightarrow> string list list" where
  "scan_sentences cur [] = [trim_chars cur]"
| "scan_sentences cur (c # cs) =
     (let closing = takeWhile closes_sentence cs; rest = dropWhile closes_sentence cs
      in if ends_sentence c \<and> (rest = [] \<or> ascii_space (hd rest))
         then trim_chars (cur @ c # closing) # scan_sentences [] rest
         else scan_sentences (cur @ [c]) cs)"
  by pat_completeness auto
termination
  by (relation "measure (length \<circ> snd)") (auto simp: le_imp_less_Suc length_dropWhile_le)

definition sentences_of :: "string list \<Rightarrow> string list list" where
  "sentences_of cs = filter (\<lambda>s. s \<noteq> []) (scan_sentences [] cs)"

text \<open>
  The position of a cut: the last space within the limit, unless there is none after the first
  character.  The loop that cuts a long sentence need not end for the limit zero.
\<close>

definition cut_at :: "nat \<Rightarrow> string list \<Rightarrow> nat" where
  "cut_at mx rest =
     (case List.find (\<lambda>i. rest ! i = '' '') (rev [1..<mx]) of Some i \<Rightarrow> i | None \<Rightarrow> mx)"

partial_function (option) cut_sentence ::
  "nat \<Rightarrow> string list \<Rightarrow> string list list \<Rightarrow> (string list list \<times> string list) option" where
  "cut_sentence mx rest pieces =
     (if length rest \<le> mx then Some (pieces, rest)
      else cut_sentence mx (trim_start_chars (drop (cut_at mx rest) rest))
             (pieces @ [trim_chars (take (cut_at mx rest) rest)]))"

definition flush :: "string list \<Rightarrow> string list list \<Rightarrow> string list list" where
  "flush cur pieces = (if cur \<noteq> [] then pieces @ [cur] else pieces)"

type_synonym packing = "string list list \<times> string list \<times> nat"

definition pack_sentence :: "nat \<Rightarrow> string list \<Rightarrow> packing \<Rightarrow> packing option" where
  "pack_sentence mx s st =
     (case st of (pieces, cur, cur_len) \<Rightarrow>
        if mx < length s
        then map_option (\<lambda>(pieces', rest). (pieces', rest, length rest)) (cut_sentence mx s (flush cur pieces))
        else
          (let full = 0 < cur_len \<and> mx < cur_len + 1 + length s;
               pieces1 = (if full then flush cur pieces else pieces);
               cur1 = (if full then [] else cur); len1 = (if full then 0 else cur_len);
               cur2 = (if cur1 \<noteq> [] then cur1 @ ['' ''] else cur1);
               len2 = (if cur1 \<noteq> [] then len1 + 1 else len1)
           in Some (pieces1, cur2 @ s, len2 + length s)))"

primrec pack_sentences :: "nat \<Rightarrow> string list list \<Rightarrow> packing \<Rightarrow> packing option" where
  "pack_sentences mx [] st = Some st"
| "pack_sentences mx (s # ss) st = Option.bind (pack_sentence mx s st) (pack_sentences mx ss)"

definition speech_pieces :: "nat \<Rightarrow> string \<Rightarrow> string list list option" where
  "speech_pieces mx t =
     map_option (\<lambda>(pieces, cur, _). flush cur pieces) (pack_sentences mx (sentences_of (str_chars t)) ([], [], 0))"

definition speech_chunk_text :: "nat \<Rightarrow> string \<Rightarrow> string list option" where
  "speech_chunk_text mx t = map_option (map concat) (speech_pieces mx t)"

section \<open>No piece is too long and nothing is lost\<close>

abbreviation inked :: "string list \<Rightarrow> string list" where
  "inked cs \<equiv> filter (\<lambda>c. \<not> uspace c) cs"

lemma inked_dropWhile [simp]: "inked (dropWhile uspace cs) = inked cs"
  by (induction cs) auto

lemma inked_trim [simp]: "inked (trim_chars cs) = inked cs" "inked (trim_start_chars cs) = inked cs"
proof -
  have "inked (rev (dropWhile uspace (rev xs))) = inked xs" for xs
    by (simp flip: rev_filter)
  then show "inked (trim_chars cs) = inked cs" by (simp add: trim_chars_def)
qed (simp add: trim_start_chars_def)

lemma trim_chars_nonempty: "cs \<noteq> [] \<Longrightarrow> \<not> uspace (hd cs) \<Longrightarrow> trim_chars cs \<noteq> []"
  by (cases cs) (auto simp: trim_chars_def)

lemma hd_trim_chars: "trim_chars cs \<noteq> [] \<Longrightarrow> \<not> uspace (hd (trim_chars cs))"
proof -
  assume t: "trim_chars cs \<noteq> []"
  let ?y = "dropWhile uspace cs"
  have "?y = trim_chars cs @ rev (takeWhile uspace (rev ?y))"
    unfolding trim_chars_def by (metis rev_append rev_rev_ident takeWhile_dropWhile_id)
  then have "?y \<noteq> []" "hd (trim_chars cs) = hd ?y" using t by (metis append_is_Nil_conv, metis hd_append2)
  then show ?thesis using hd_dropWhile [of uspace cs] by simp
qed

lemma length_trim_chars: "length (trim_chars cs) \<le> length cs"
  unfolding trim_chars_def by (metis le_trans length_dropWhile_le length_rev)

lemma scan_sentences_inked: "inked (concat (scan_sentences cur cs)) = inked cur @ inked cs"
proof (induction cur cs rule: scan_sentences.induct)
  case (2 cur c cs)
  let ?closing = "takeWhile closes_sentence cs" and ?rest = "dropWhile closes_sentence cs"
  have split: "inked cs = inked ?closing @ inked ?rest" by (metis filter_append takeWhile_dropWhile_id)
  show ?case
    using 2(1) [OF refl refl] 2(2) [OF refl refl] split by (simp add: Let_def)
qed simp

lemma sentences_of_inked: "inked (concat (sentences_of cs)) = inked cs"
proof -
  have "concat (filter (\<lambda>s. s \<noteq> []) xs) = concat xs" for xs :: "string list list"
    by (induction xs) auto
  then show ?thesis using scan_sentences_inked [of "[]" cs] by (simp add: sentences_of_def)
qed

lemma scan_sentences_trimmed: "s \<in> set (scan_sentences cur cs) \<Longrightarrow> \<exists>x. s = trim_chars x"
  by (induction cur cs rule: scan_sentences.induct) (auto simp: Let_def split: if_splits)

lemma sentences_of_start: "s \<in> set (sentences_of cs) \<Longrightarrow> s \<noteq> [] \<and> \<not> uspace (hd s)"
  using scan_sentences_trimmed [of s "[]" cs] hd_trim_chars by (auto simp: sentences_of_def)

lemma cut_at_bounds: "0 < mx \<Longrightarrow> 0 < cut_at mx rest \<and> cut_at mx rest \<le> mx"
  by (cases "List.find (\<lambda>i. rest ! i = '' '') (rev [1..<mx])") (auto simp: cut_at_def dest!: find_mem)

text \<open>What holds of the pieces made so far, whose ink is a given text.\<close>

definition fitting :: "nat \<Rightarrow> string list list \<Rightarrow> bool" where
  "fitting mx pieces = (\<forall>p \<in> set pieces. p \<noteq> [] \<and> length p \<le> mx)"

lemma fitting_simps [simp]:
  "fitting mx []" "fitting mx (a @ b) \<longleftrightarrow> fitting mx a \<and> fitting mx b" "fitting mx [p] \<longleftrightarrow> p \<noteq> [] \<and> length p \<le> mx"
  by (auto simp: fitting_def)

lemma cut_sentence_fits:
  assumes "0 < mx" and "rest \<noteq> [] \<longrightarrow> \<not> uspace (hd rest)" and "fitting mx pieces"
  shows "\<exists>pieces' rest'. cut_sentence mx rest pieces = Some (pieces', rest') \<and> fitting mx pieces' \<and> length rest' \<le> mx
    \<and> inked (concat pieces' @ rest') = inked (concat pieces @ rest)"
  using assms(2,3)
proof (induction "length rest" arbitrary: rest pieces rule: less_induct)
  case less
  show ?case
  proof (cases "length rest \<le> mx")
    case True
    then show ?thesis using less.prems by (simp add: cut_sentence.simps)
  next
    case False
    let ?at = "cut_at mx rest"
    let ?piece = "trim_chars (take ?at rest)" and ?rest = "trim_start_chars (drop ?at rest)"
    have "0 < ?at" "?at \<le> mx" using cut_at_bounds [OF assms(1)] by simp_all
    moreover have "rest \<noteq> []" using False by auto
    moreover have "length ?rest \<le> length rest - ?at"
      using length_dropWhile_le [of uspace "drop ?at rest"] by (simp add: trim_start_chars_def)
    moreover have "0 < length rest" using False by linarith
    ultimately have "length ?rest < length rest" "?piece \<noteq> []" "length ?piece \<le> mx"
      using less.prems(1) trim_chars_nonempty [of "take ?at rest"] length_trim_chars [of "take ?at rest"]
      by (linarith, auto simp: hd_take)
    moreover have "?rest \<noteq> [] \<longrightarrow> \<not> uspace (hd ?rest)"
      using hd_dropWhile [of uspace "drop ?at rest"] by (auto simp: trim_start_chars_def)
    ultimately obtain pieces' rest' where
      r: "cut_sentence mx ?rest (pieces @ [?piece]) = Some (pieces', rest')" "fitting mx pieces'" "length rest' \<le> mx"
        "inked (concat pieces' @ rest') = inked (concat (pieces @ [?piece]) @ ?rest)"
      using less.hyps [of ?rest "pieces @ [?piece]"] less.prems(2) by auto
    have "inked rest = inked (take ?at rest) @ inked (drop ?at rest)"
      by (metis append_take_drop_id filter_append)
    then have "inked (concat pieces' @ rest') = inked (concat pieces @ rest)" using r(4) by simp
    with r False show ?thesis by (subst cut_sentence.simps) simp
  qed
qed

definition packing_ok :: "nat \<Rightarrow> string list \<Rightarrow> packing \<Rightarrow> bool" where
  "packing_ok mx ink st =
     (case st of (pieces, cur, cur_len) \<Rightarrow>
        fitting mx pieces \<and> cur_len = length cur \<and> length cur \<le> mx \<and> inked (concat pieces @ cur) = ink)"

lemma inked_space [simp]: "uspace '' ''"
  by (simp add: uspace_def byte_val_def char_is_whitespace_def)

lemma flush_fits: "fitting mx pieces \<Longrightarrow> length cur \<le> mx \<Longrightarrow> fitting mx (flush cur pieces)"
  "concat (flush cur pieces) = concat pieces @ cur"
  by (auto simp: flush_def)

lemma pack_sentence_ok:
  assumes "0 < mx" "s \<noteq> []" "\<not> uspace (hd s)" "packing_ok mx ink st"
  shows "\<exists>st'. pack_sentence mx s st = Some st' \<and> packing_ok mx (ink @ inked s) st'"
proof -
  obtain pieces cur n where st: "st = (pieces, cur, n)" by (cases st)
  with assms(4) have ok: "fitting mx pieces" "n = length cur" "length cur \<le> mx" "inked (concat pieces @ cur) = ink"
    by (simp_all add: packing_ok_def)
  show ?thesis
  proof (cases "mx < length s")
    case True
    obtain pieces' rest' where "cut_sentence mx s (flush cur pieces) = Some (pieces', rest')" "fitting mx pieces'"
      "length rest' \<le> mx" "inked (concat pieces' @ rest') = inked (concat (flush cur pieces) @ s)"
      using cut_sentence_fits [OF assms(1) _ flush_fits(1) [OF ok(1,3)], of s] assms(3) by auto
    then show ?thesis using True ok by (simp add: pack_sentence_def st packing_ok_def flush_fits(2))
  next
    case False
    show ?thesis
    proof (cases "0 < n \<and> mx < n + 1 + length s")
      case full: True
      then show ?thesis
        using False ok flush_fits(1) [OF ok(1,3)]
        by (simp add: pack_sentence_def st packing_ok_def Let_def flush_fits(2))
    next
      case fits: False
      then show ?thesis
        using False ok by (auto simp: pack_sentence_def st packing_ok_def Let_def)
    qed
  qed
qed

lemma pack_sentences_ok:
  assumes "0 < mx"
  shows "\<forall>s \<in> set ss. s \<noteq> [] \<and> \<not> uspace (hd s) \<Longrightarrow> packing_ok mx ink st \<Longrightarrow>
    \<exists>st'. pack_sentences mx ss st = Some st' \<and> packing_ok mx (ink @ inked (concat ss)) st'"
proof (induction ss arbitrary: ink st)
  case (Cons s ss)
  then obtain st1 where "pack_sentence mx s st = Some st1" "packing_ok mx (ink @ inked s) st1"
    using pack_sentence_ok [OF assms, of s ink st] by auto
  with Cons.IH [of "ink @ inked s" st1] Cons.prems show ?case by simp
qed simp

text \<open>
  A text is spoken whole, in pieces the server survives.  For every limit above zero the
  splitting of a text returns; each piece has at least one and at most as many characters as the limit, and the
  characters of the pieces that are not white space are those of the text, each once and in order.
\<close>

theorem speech_pieces_fit:
  assumes "0 < mx"
  shows "\<exists>ps. speech_pieces mx t = Some ps
    \<and> (\<forall>p \<in> set ps. p \<noteq> [] \<and> length p \<le> mx)
    \<and> filter (\<lambda>c. \<not> uspace c) (concat ps) = filter (\<lambda>c. \<not> uspace c) (str_chars t)"
proof -
  obtain pieces cur n where st: "pack_sentences mx (sentences_of (str_chars t)) ([], [], 0) = Some (pieces, cur, n)"
    "packing_ok mx (inked (str_chars t)) (pieces, cur, n)"
    using pack_sentences_ok [OF assms, of "sentences_of (str_chars t)" "[]" "([], [], 0)"] sentences_of_start
      sentences_of_inked [of "str_chars t"]
    by (auto simp: packing_ok_def)
  then have "fitting mx (flush cur pieces)" "inked (concat (flush cur pieces)) = inked (str_chars t)"
    by (simp_all add: packing_ok_def flush_fits)
  with st show ?thesis by (auto simp: speech_pieces_def fitting_def)
qed

theorem speech_pieces_fit_witness:
  "\<exists>ps. speech_pieces 4 ''One. Two three.'' = Some ps \<and> (\<forall>p \<in> set ps. p \<noteq> [] \<and> length p \<le> 4)"
  using speech_pieces_fit [of 4 "''One. Two three.''"] by auto

section \<open>Audio files\<close>

record pcm_wav =
  pw_fmt :: "byte list"
  pw_data :: "byte list"

definition bytes_of :: "string \<Rightarrow> byte list" where
  "bytes_of s = map (\<lambda>c. of_nat (byte_val c)) s"

text \<open>Little-endian numbers of 32 bits; a length is cast to 32 bits first.\<close>

definition le32 :: "nat \<Rightarrow> byte list" where
  "le32 n = [of_nat n, of_nat (n div 256), of_nat (n div 65536), of_nat (n div 16777216)]"

fun of_le :: "byte list \<Rightarrow> nat" where
  "of_le [] = 0"
| "of_le (b # bs) = unat b + 256 * of_le bs"

definition window :: "nat \<Rightarrow> nat \<Rightarrow> byte list \<Rightarrow> byte list" where
  "window a n bytes = take n (drop a bytes)"

definition split_wav :: "byte list \<Rightarrow> string + pcm_wav" where
  "split_wav bytes =
     (let fmt_len = of_le (window 16 4 bytes); data_at = 20 + fmt_len;
          data_len = of_le (window (data_at + 4) 4 bytes); data_start = data_at + 8
      in if length bytes < 44 \<or> window 0 4 bytes \<noteq> bytes_of ''RIFF'' \<or> window 8 4 bytes \<noteq> bytes_of ''WAVE''
            \<or> window 12 4 bytes \<noteq> bytes_of ''fmt ''
         then Inl ''unexpected WAV layout (not RIFF/WAVE/fmt)''
         else if fmt_len < 16 \<or> length bytes < 20 + fmt_len + 8 then Inl ''unexpected WAV fmt chunk''
         else if of_le (window 20 2 bytes) \<noteq> 1 then Inl ''only PCM WAV concatenation is supported''
         else if window data_at 4 bytes \<noteq> bytes_of ''data''
         then Inl ''unexpected WAV layout (data chunk not where expected)''
         else if length bytes < data_start + data_len then Inl ''truncated WAV data''
         else Inr \<lparr>pw_fmt = window 20 fmt_len bytes, pw_data = window data_start data_len bytes\<rparr>)"

definition riff_size :: "byte list \<Rightarrow> byte list \<Rightarrow> nat" where
  "riff_size fmt data = unat (36 + of_nat (length fmt) - 16 + of_nat (length data) :: 32 word)"

definition join_wav :: "byte list \<Rightarrow> byte list \<Rightarrow> byte list" where
  "join_wav fmt data =
     bytes_of ''RIFF'' @ le32 (riff_size fmt data) @ bytes_of ''WAVEfmt '' @ le32 (length fmt) @ fmt
     @ bytes_of ''data'' @ le32 (length data) @ data"


lemma wav_lengths [simp]: "length (bytes_of s) = length s" "length (le32 n) = 4"
  by (simp_all add: bytes_of_def le32_def)


section \<open>The speech server\<close>

text \<open>The outcome of a request for audio: an error, or a status, a content type and the bytes.\<close>

type_synonym audio_outcome = "string + nat \<times> string option \<times> (string + byte list)"

definition audio_answer :: "string \<Rightarrow> string \<Rightarrow> audio_outcome \<Rightarrow> string + byte list \<times> string" where
  "audio_answer what read_error r =
     (case r of
        Inl _ \<Rightarrow> Inl (what @ '' request failed'')
      | Inr (status, mime, body) \<Rightarrow>
          if 400 \<le> status \<and> status < 600 then Inl (what @ '' returned error status'')
          else (case body of
                  Inl _ \<Rightarrow> Inl read_error
                | Inr bytes \<Rightarrow>
                    if bytes = [] then Inl (what @ '' returned an empty body'')
                    else Inr (bytes, case mime of Some m \<Rightarrow> m | None \<Rightarrow> ''audio/wav'')))"

definition speak_request :: "string \<Rightarrow> string \<Rightarrow> string option \<Rightarrow> string option \<Rightarrow> api_request" where
  "speak_request base t engine language =
     plain_post (trim_end CHR ''/'' base @ ''/speak'')
       (json_obj ((''text'', JStr t)
          # (case engine of Some e \<Rightarrow> (''engine'', JStr e) | None \<Rightarrow> (''model'', JStr ''cosyvoice-3''))
          # (case language of Some l \<Rightarrow> [(''language'', JStr l)] | None \<Rightarrow> [])))"

definition synthesize_single ::
  "(api_request \<Rightarrow> audio_outcome) \<Rightarrow> string \<Rightarrow> string \<Rightarrow> string option \<Rightarrow> string option
    \<Rightarrow> string + byte list \<times> string" where
  "synthesize_single send base t engine language =
     audio_answer ''POST /speak'' ''Failed to read response body'' (send (speak_request base t engine language))"

text \<open>The pieces are spoken one after the other; \<open>send i\<close> is the outcome of the \<open>i\<close>-th request.\<close>

fun speak_pieces ::
  "(nat \<Rightarrow> string \<Rightarrow> string + byte list \<times> string) \<Rightarrow> nat \<Rightarrow> byte list option \<Rightarrow> byte list \<Rightarrow> string list
    \<Rightarrow> string + byte list" where
  "speak_pieces speak i fmt data [] = Inr (join_wav (case fmt of Some f \<Rightarrow> f | None \<Rightarrow> []) data)"
| "speak_pieces speak i fmt data (p # ps) =
     (case speak i p of
        Inl e \<Rightarrow> Inl e
      | Inr (wav, _) \<Rightarrow>
          (case split_wav wav of
             Inl e \<Rightarrow> Inl e
           | Inr pc \<Rightarrow>
               if fmt \<noteq> None \<and> fmt \<noteq> Some (pw_fmt pc)
               then Inl ''chunked speak returned mismatched WAV formats''
               else speak_pieces speak (Suc i) (Some (pw_fmt pc)) (data @ pw_data pc) ps))"

definition MAX_CHUNK_CHARS :: nat where "MAX_CHUNK_CHARS = 300"

text \<open>\<open>None\<close> would mean that the splitting does not return.\<close>

definition speech_server_synthesize ::
  "(nat \<Rightarrow> api_request \<Rightarrow> audio_outcome) \<Rightarrow> string \<Rightarrow> string \<Rightarrow> string option \<Rightarrow> string option
    \<Rightarrow> (string + byte list \<times> string) option" where
  "speech_server_synthesize send base t engine language =
     (if t = [] then Some (Inl ''synthesize: text is empty'')
      else if length (str_chars t) \<le> MAX_CHUNK_CHARS
      then Some (synthesize_single (send 0) base t engine language)
      else map_option (\<lambda>ps.
             case speak_pieces (\<lambda>i p. synthesize_single (send i) base p engine language) 0 None [] ps of
               Inl e \<Rightarrow> Inl e | Inr wav \<Rightarrow> Inr (wav, ''audio/wav''))
             (speech_chunk_text MAX_CHUNK_CHARS t))"

section \<open>The voice box\<close>





section \<open>The choice between them\<close>

datatype tts_backend = Voicebox | SpeechServer

definition tts_backend_name :: "tts_backend \<Rightarrow> string" where
  "tts_backend_name b = (case b of Voicebox \<Rightarrow> ''voicebox'' | SpeechServer \<Rightarrow> ''speech-server'')"


record tts_config =
  tc_voicebox_url :: string
  tc_speech_server_url :: string
  tc_backend :: tts_backend

definition tts_config_from_env :: "(string \<Rightarrow> string option) \<Rightarrow> tts_config" where
  "tts_config_from_env env =
     \<lparr>tc_voicebox_url = (case env ''VOICEBOX_URL'' of Some u \<Rightarrow> u | None \<Rightarrow> ''http://127.0.0.1:17493''),
      tc_speech_server_url = (case env ''SPEECH_SERVER_URL'' of Some u \<Rightarrow> u | None \<Rightarrow> ''http://127.0.0.1:6900''),
      tc_backend = (if env ''TTS_BACKEND'' = Some ''speech-server'' then SpeechServer else Voicebox)\<rparr>"





section \<open>The session task of speech\<close>

















section \<open>A long text is spoken as one\<close>








section \<open>Every request is answered\<close>












section \<open>Transcription\<close>

datatype stt_backend = Stt_Voicebox | Stt_SpeechServer

record stt_config =
  st_voicebox_url :: string
  st_speech_server_url :: string
  st_backend :: stt_backend

definition stt_config_from_env :: "(string \<Rightarrow> string option) \<Rightarrow> stt_config" where
  "stt_config_from_env env =
     \<lparr>st_voicebox_url = (case env ''VOICEBOX_URL'' of Some u \<Rightarrow> u | None \<Rightarrow> ''http://127.0.0.1:17493''),
      st_speech_server_url = (case env ''SPEECH_SERVER_URL'' of Some u \<Rightarrow> u | None \<Rightarrow> ''http://127.0.0.1:6900''),
      st_backend = (if env ''STT_BACKEND'' = Some ''speech-server'' then Stt_SpeechServer else Stt_Voicebox)\<rparr>"







section \<open>Finding the audio\<close>











definition STT :: string where "STT = ''com.nominal.cafe-stt''"

text \<open>The id that is returned is a fresh one, not that of the published chunk.\<close>

definition stt_answer :: "(nat \<Rightarrow> string) \<Rightarrow> int \<Rightarrow> nat \<Rightarrow> string \<Rightarrow> string + string \<times> rat \<Rightarrow> chunk list" where
  "stt_answer uuid now_ms n call_id r =
     (case r of
        Inl e \<Rightarrow> [response_for (rpc_response_err call_id (- 1) e) (new_null (uuid (3 * n + 2)) now_ms STT)]
      | Inr (t, d) \<Rightarrow>
          [with_annotation CHAT_ROLE (JStr ASSISTANT) (new_text (uuid (3 * n + 1)) now_ms t STT),
           response_for (rpc_response_ok call_id
             (json_obj [(''chunk_id'', JStr (uuid (3 * n))), (''text'', JStr t), (''duration'', JNum (Float d))]))
             (new_null (uuid (3 * n + 2)) now_ms STT)])"



section \<open>The wait for credentials ends\<close>













text \<open>The id in the answer to a transcription is that of no chunk the service publishes.\<close>

lemma returned_id_names_no_chunk:
  assumes "inj uuid" "c \<in> set (stt_answer uuid now_ms n call_id (Inr (t, d)))"
  shows "chunk_id c \<noteq> uuid (3 * n)"
  using assms by (auto simp: stt_answer_def response_for_def with_annotation_def new_text_def new_null_def
      as_transient_def with_retain_def inj_eq)

text \<open>A long text of white space alone is answered by a file without a format.\<close>

lemma silent_text_has_no_format:
  assumes "inked (str_chars t) = []" "MAX_CHUNK_CHARS < length (str_chars t)"
  shows "speech_server_synthesize send base t engine language = Some (Inr (join_wav [] [], ''audio/wav''))"
proof -
  have "sentences_of (str_chars t) = []"
  proof (rule ccontr)
    assume "sentences_of (str_chars t) \<noteq> []"
    then obtain s where "s \<in> set (sentences_of (str_chars t))" by (meson last_in_set)
    then have "hd s \<in> set (inked (concat (sentences_of (str_chars t))))"
      using sentences_of_start [of s "str_chars t"] by (auto intro!: bexI [of _ s])
    then show False using assms(1) sentences_of_inked [of "str_chars t"] by simp
  qed
  then have "speech_chunk_text MAX_CHUNK_CHARS t = Some []"
    by (simp add: speech_chunk_text_def speech_pieces_def flush_def)
  moreover have "t \<noteq> []" using assms(2) by auto
  ultimately show ?thesis using assms(2) by (simp add: speech_server_synthesize_def)
qed

end
