(* ===== verification/Feeds.thy ===== *)
theory Feeds
  imports Workers
begin

text \<open>
  The feed reader, \<open>cafe-rss\<close>: the walk over the XML of an RSS or Atom document that gives its
  title and items (\<open>feed.rs\<close>), and the service \<open>rss-fetch.invoke\<close> (\<open>main.rs\<close>).  The XML tokenizer and
  the HTTP client are parameters: the tokenizer gives the events of a text.
\<close>

section \<open>Feeds\<close>

record feed_item =
  fi_title :: string
  fi_link :: string
  fi_published :: string
  fi_summary :: string

record feed =
  fd_title :: string
  fd_items :: "feed_item list"

definition empty_item :: feed_item where
  "empty_item = \<lparr>fi_title = [], fi_link = [], fi_published = [], fi_summary = []\<rparr>"

definition empty_feed :: feed where
  "empty_feed = \<lparr>fd_title = [], fd_items = []\<rparr>"

definition FEED_TITLE :: string where "FEED_TITLE = ''__feed_title__''"

definition is_captured :: "string \<Rightarrow> bool" where
  "is_captured name =
     (name \<in> {''title'', ''link'', ''description'', ''summary'', ''pubdate'', ''updated'', ''content''})"

text \<open>
  What the tokenizer reports: the tags with their names (a start tag with the unescaped
  \<open>href\<close> attribute it may have), text (raw, and unescaped where it can be), literal text, references to entities,
  what the walk skips, the end, and a document that is not well formed.
\<close>

datatype xml_event =
    Start_Tag string "string option"
  | Empty_Tag string "string option"
  | Char_Data string "string option"
  | CData string
  | General_Ref string
  | End_Tag string
  | Other_Event
  | Eof
  | Malformed

section \<open>Entities\<close>

text \<open>\<open>char::from_u32\<close> and \<open>String::push\<close>.\<close>

definition is_scalar :: "nat \<Rightarrow> bool" where
  "is_scalar n = (n < 55296 \<or> 57344 \<le> n \<and> n < 1114112)"

definition char_utf8 :: "nat \<Rightarrow> string" where
  "char_utf8 n =
     (if n < 128 then [char_of n]
      else if n < 2048 then [char_of (192 + n div 64), char_of (128 + n mod 64)]
      else if n < 65536 then
        [char_of (224 + n div 4096), char_of (128 + n div 64 mod 64), char_of (128 + n mod 64)]
      else [char_of (240 + n div 262144), char_of (128 + n div 4096 mod 64),
            char_of (128 + n div 64 mod 64), char_of (128 + n mod 64)])"

text \<open>\<open>u32::from_str_radix\<close> at base 16.\<close>

fun parse_hex_digits :: "nat \<Rightarrow> nat \<Rightarrow> string \<Rightarrow> nat option" where
  "parse_hex_digits bound acc [] = Some acc"
| "parse_hex_digits bound acc (c # cs) =
     (case hex_digit_val c of
        None \<Rightarrow> None
      | Some d \<Rightarrow> if acc * 16 + d < bound then parse_hex_digits bound (acc * 16 + d) cs else None)"

definition parse_hex :: "nat \<Rightarrow> string \<Rightarrow> nat option" where
  "parse_hex bound s =
     (let ds = (case s of [] \<Rightarrow> [] | c # cs \<Rightarrow> if c = CHR ''+'' then cs else s)
      in if ds = [] then None else parse_hex_digits bound 0 ds)"

definition char_reference :: "string \<Rightarrow> nat option" where
  "char_reference code =
     (case code of
        [] \<Rightarrow> parse_uint u32_bound code
      | c # hex \<Rightarrow>
          if c = CHR ''x'' \<or> c = CHR ''X'' then parse_hex u32_bound hex else parse_uint u32_bound code)"

definition resolve_entity :: "string \<Rightarrow> string option" where
  "resolve_entity name =
     (if name = ''amp'' then Some ''&''
      else if name = ''lt'' then Some ''<''
      else if name = ''gt'' then Some ''>''
      else if name = ''quot'' then Some [CHR 0x22]
      else if name = ''apos'' then Some [CHR 0x27]
      else if name = ''nbsp'' then Some (char_utf8 160)
      else case strip_prefix ''#'' name of
             None \<Rightarrow> None
           | Some code \<Rightarrow>
               Option.bind (char_reference code) (\<lambda>v. if is_scalar v then Some (char_utf8 v) else None))"

section \<open>The walk over the document\<close>

definition local_name_lower :: "string \<Rightarrow> string" where
  "local_name_lower raw = to_ascii_lowercase (last (split_on CHR '':'' raw))"

definition atom_link_href :: "string \<Rightarrow> string option \<Rightarrow> string option" where
  "atom_link_href name href =
     (if local_name_lower name \<noteq> ''link'' then None
      else case href of Some s \<Rightarrow> if s = [] then None else Some s | None \<Rightarrow> None)"

record feed_reader =
  fr_feed :: feed
  fr_item :: "feed_item option"
  fr_capture :: "string option"
  fr_buf :: string

definition reader_start :: feed_reader where
  "reader_start = \<lparr>fr_feed = empty_feed, fr_item = None, fr_capture = None, fr_buf = []\<rparr>"

definition set_link :: "string \<Rightarrow> feed_reader \<Rightarrow> feed_reader" where
  "set_link l st = st\<lparr>fr_item := map_option (\<lambda>it. it\<lparr>fi_link := l\<rparr>) (fr_item st)\<rparr>"

definition on_start :: "string \<Rightarrow> string option \<Rightarrow> feed_reader \<Rightarrow> feed_reader" where
  "on_start raw href st =
     (let name = local_name_lower raw
      in if name = ''item'' \<or> name = ''entry'' then st\<lparr>fr_item := Some empty_item\<rparr>
         else case atom_link_href raw href of
                Some l \<Rightarrow> set_link l st
              | None \<Rightarrow>
                  if fr_item st \<noteq> None then
                    (if is_captured name then st\<lparr>fr_capture := Some name, fr_buf := []\<rparr> else st)
                  else if name = ''title'' then st\<lparr>fr_capture := Some FEED_TITLE, fr_buf := []\<rparr>
                  else st)"

definition on_empty :: "string \<Rightarrow> string option \<Rightarrow> feed_reader \<Rightarrow> feed_reader" where
  "on_empty raw href st = (case atom_link_href raw href of Some l \<Rightarrow> set_link l st | None \<Rightarrow> st)"

definition on_chars :: "string \<Rightarrow> feed_reader \<Rightarrow> feed_reader" where
  "on_chars s st = (if fr_capture st = None then st else st\<lparr>fr_buf := fr_buf st @ s\<rparr>)"

definition set_field :: "string \<Rightarrow> string \<Rightarrow> feed_item \<Rightarrow> feed_item" where
  "set_field kind s it =
     (if kind = ''title'' then it\<lparr>fi_title := s\<rparr>
      else if kind = ''link'' then it\<lparr>fi_link := s\<rparr>
      else if kind = ''description'' \<or> kind = ''summary'' then it\<lparr>fi_summary := s\<rparr>
      else if kind = ''pubdate'' \<or> kind = ''updated'' then it\<lparr>fi_published := s\<rparr>
      else if kind = ''content'' \<and> fi_summary it = [] then it\<lparr>fi_summary := s\<rparr>
      else it)"

definition on_end :: "string \<Rightarrow> feed_reader \<Rightarrow> feed_reader" where
  "on_end raw st =
     (let name = local_name_lower raw
      in if name = ''item'' \<or> name = ''entry'' then
           (case fr_item st of
              None \<Rightarrow> st
            | Some it \<Rightarrow>
                st\<lparr>fr_item := None, fr_feed := (fr_feed st)\<lparr>fd_items := fd_items (fr_feed st) @ [it]\<rparr>\<rparr>)
         else case fr_capture st of
                None \<Rightarrow> st
              | Some kind \<Rightarrow>
                  if kind = name \<or> kind = FEED_TITLE \<and> name = ''title'' then
                    (let s = str_trim (fr_buf st);
                         st' = (if kind = FEED_TITLE then
                                  (if fd_title (fr_feed st) = []
                                   then st\<lparr>fr_feed := (fr_feed st)\<lparr>fd_title := s\<rparr>\<rparr> else st)
                                else st\<lparr>fr_item := map_option (set_field kind s) (fr_item st)\<rparr>)
                     in st'\<lparr>fr_capture := None\<rparr>)
                  else st)"

fun feed_step :: "xml_event \<Rightarrow> feed_reader \<Rightarrow> feed_reader" where
  "feed_step (Start_Tag name href) st = on_start name href st"
| "feed_step (Empty_Tag name href) st = on_empty name href st"
| "feed_step (Char_Data raw unescaped) st =
     on_chars (case unescaped of Some s \<Rightarrow> s | None \<Rightarrow> raw) st"
| "feed_step (CData s) st = on_chars s st"
| "feed_step (General_Ref name) st =
     (case resolve_entity name of Some ch \<Rightarrow> on_chars ch st | None \<Rightarrow> st)"
| "feed_step (End_Tag name) st = on_end name st"
| "feed_step _ st = st"

text \<open>The loop: the events come until the end of the document or an error of the tokenizer.\<close>

fun feed_loop :: "xml_event list \<Rightarrow> feed_reader \<Rightarrow> string + feed" where
  "feed_loop [] st = Inr (fr_feed st)"
| "feed_loop (e # es) st =
     (case e of
        Malformed \<Rightarrow> Inl ''malformed feed XML''
      | Eof \<Rightarrow> Inr (fr_feed st)
      | _ \<Rightarrow> feed_loop es (feed_step e st))"

definition parse_feed :: "(string \<Rightarrow> xml_event list) \<Rightarrow> string \<Rightarrow> string + feed" where
  "parse_feed tokens xml = feed_loop (tokens xml) reader_start"

section \<open>The service\<close>

definition FEEDS :: string where "FEEDS = ''com.nominal.cafe-rss''"

definition DEFAULT_LIMIT :: nat where "DEFAULT_LIMIT = 10"

text \<open>
  The outcome of the \<open>n\<close>-th fetch, the texts of the client's error statuses, and the
  tokenizer.
\<close>

record feed_world =
  fw_fetch :: "nat \<Rightarrow> string \<Rightarrow> api_outcome"
  fw_status_error :: "nat \<Rightarrow> string \<Rightarrow> string"
  fw_tokens :: "string \<Rightarrow> xml_event list"

definition fetch_feed :: "feed_world \<Rightarrow> nat \<Rightarrow> string \<Rightarrow> nat \<Rightarrow> string + feed" where
  "fetch_feed w n url limit =
     (case fw_fetch w n url of
        Inl e \<Rightarrow> Inl e
      | Inr (status, body) \<Rightarrow>
          if 400 \<le> status \<and> status < 600 then Inl (fw_status_error w status url)
          else case body of
                 Inl e \<Rightarrow> Inl e
               | Inr xml \<Rightarrow>
                   map_sum id (\<lambda>f. f\<lparr>fd_items := take limit (fd_items f)\<rparr>) (parse_feed (fw_tokens w) xml))"

definition feed_item_to_json :: "feed_item \<Rightarrow> json" where
  "feed_item_to_json it =
     json_obj [(''title'', JStr (fi_title it)), (''link'', JStr (fi_link it)),
               (''published'', JStr (fi_published it)), (''summary'', JStr (fi_summary it))]"

definition feed_to_json :: "feed \<Rightarrow> json" where
  "feed_to_json f =
     json_obj [(''title'', JStr (fd_title f)), (''items'', JArr (map feed_item_to_json (fd_items f)))]"

definition feed_url :: "json \<Rightarrow> string" where
  "feed_url params =
     str_trim (case as_str (json_index params ''url'') of Some u \<Rightarrow> u | None \<Rightarrow> text_or_empty ''text'' params)"

definition feed_limit :: "json \<Rightarrow> nat" where
  "feed_limit params = u64_or DEFAULT_LIMIT (json_index params ''limit'')"

definition feed_response :: "feed_world \<Rightarrow> nat \<Rightarrow> json_rpc_request \<Rightarrow> json_rpc_response" where
  "feed_response w n request =
     (let url = feed_url (req_params request)
      in if url = [] then
           rpc_response_err (req_id request) INVALID_PARAMS ''rss-fetch.invoke: url param is required''
         else case fetch_feed w n url (feed_limit (req_params request)) of
                Inr f \<Rightarrow> rpc_response_ok (req_id request) (feed_to_json f)
              | Inl e \<Rightarrow> rpc_response_err (req_id request) UPSTREAM_ERROR e)"

definition feed_handler :: "feed_world \<Rightarrow> (nat \<Rightarrow> string) \<Rightarrow> int \<Rightarrow> nat \<Rightarrow> json_rpc_request \<Rightarrow> chunk list" where
  "feed_handler w uuid now_ms n request =
     (if req_method request \<noteq> ''rss-fetch.invoke'' then []
      else [response_for (feed_response w n request) (new_null (uuid n) now_ms FEEDS)])"

definition feed_session :: "feed_world \<Rightarrow> (nat \<Rightarrow> string) \<Rightarrow> int \<Rightarrow> server_message list \<Rightarrow> chunk list" where
  "feed_session w uuid now_ms ms = serve (feed_handler w uuid now_ms) 0 False ms"

definition feed_schema :: evaluator_schema where
  "feed_schema =
     \<lparr>schema_name = ''rss-fetch'',
      schema_description = ''RSS/Atom feed fetch + parse '' @ char_utf8 8212 @ '' returns feed items as RPC result'',
      config_schema = json_obj
        [(''type'', JStr ''object''),
         (''properties'', json_obj
           [(''config.rss.url'', json_obj [(''type'', JStr ''string''), (''description'', JStr ''Feed URL'')])])],
      rpc_params_schema = json_obj
        [(''type'', JStr ''object''),
         (''properties'', json_obj
           [(''url'', json_obj [(''type'', JStr ''string''), (''description'', JStr ''Feed URL to fetch'')]),
            (''limit'', json_obj [(''type'', JStr ''integer''),
                                  (''description'', JStr ''Max items to return (default 10)'')])]),
         (''required'', JArr [JStr ''url''])]\<rparr>"

section \<open>Characters\<close>

text \<open>A character that is pushed reads back as its code point.\<close>

lemma continuation_byte: "(128 + k mod 64) mod 64 = k mod (64::nat)" "128 + k mod 64 < (256::nat)"
proof -
  have "k mod 64 < (64::nat)" by simp
  then show "128 + k mod 64 < (256::nat)" by linarith
  have "(128 + k mod 64) mod 64 = ((128 mod 64) + k mod 64) mod (64::nat)" by (rule mod_add_left_eq [symmetric])
  then show "(128 + k mod 64) mod 64 = k mod (64::nat)" by simp
qed

lemma lead_byte: "d < m \<Longrightarrow> (b * m + d) mod m = (d::nat)"
  by simp

lemma sextets:
  "(n::nat) div 64 * 64 + n mod 64 = n"
  "(n::nat) div 4096 * 4096 + n div 64 mod 64 * 64 + n mod 64 = n"
  "(n::nat) div 262144 * 262144 + n div 4096 mod 64 * 4096 + n div 64 mod 64 * 64 + n mod 64 = n"
proof -
  have a: "n = n div 64 * 64 + n mod 64" by simp
  have b: "n div 64 = n div 4096 * 64 + n div 64 mod 64"
    using div_mult_mod_eq [of "n div 64" 64] by (simp add: div_mult2_eq [symmetric])
  have c: "n div 4096 = n div 262144 * 64 + n div 4096 mod 64"
    using div_mult_mod_eq [of "n div 4096" 64] by (simp add: div_mult2_eq [symmetric])
  show "n div 64 * 64 + n mod 64 = n" by simp
  show "n div 4096 * 4096 + n div 64 mod 64 * 64 + n mod 64 = n" using a b by linarith
  show "n div 262144 * 262144 + n div 4096 mod 64 * 4096 + n div 64 mod 64 * 64 + n mod 64 = n"
    using a b c by linarith
qed

lemma code_point_char_utf8:
  assumes "n < 1114112"
  shows "code_point (char_utf8 n) = n"
proof -
  consider "n < 128" | "128 \<le> n" "n < 2048" | "2048 \<le> n" "n < 65536" | "65536 \<le> n" using assms by linarith
  then show ?thesis
  proof cases
    case 1
    then show ?thesis by (simp add: char_utf8_def byte_val_char_of)
  next
    case 2
    then have d: "n div 64 < 32" by (simp add: less_mult_imp_div_less)
    then show ?thesis
      using 2 lead_byte [OF d, of 6] sextets(1) [of n] by (simp add: char_utf8_def byte_val_char_of continuation_byte)
  next
    case 3
    then have d: "n div 4096 < 16" by (simp add: less_mult_imp_div_less)
    then show ?thesis
      using 3 lead_byte [OF d, of 14] sextets(2) [of n] by (simp add: char_utf8_def byte_val_char_of continuation_byte)
  next
    case 4
    have d: "n div 262144 < 8" using assms by (simp add: less_mult_imp_div_less)
    then show ?thesis
      using 4 lead_byte [OF d, of 30] sextets(3) [of n] by (simp add: char_utf8_def byte_val_char_of continuation_byte)
  qed
qed

section \<open>Documents\<close>

text \<open>The events of a text: what is markup comes as references, the rest in runs.\<close>

definition entity_name :: "char \<Rightarrow> string option" where
  "entity_name c =
     (if c = CHR ''&'' then Some ''amp'' else if c = CHR ''<'' then Some ''lt''
      else if c = CHR ''>'' then Some ''gt'' else None)"

abbreviation unmarked :: "char \<Rightarrow> bool" where "unmarked c \<equiv> entity_name c = None"

function text_events :: "string \<Rightarrow> xml_event list" where
  "text_events [] = []"
| "text_events (c # cs) =
     (case entity_name c of
        Some e \<Rightarrow> General_Ref e # text_events cs
      | None \<Rightarrow> (let run = c # takeWhile unmarked cs
                in Char_Data run (Some run) # text_events (dropWhile unmarked cs)))"
  by pat_completeness auto
termination
  by (relation "measure length") (auto simp: le_imp_less_Suc length_dropWhile_le)

definition field_events :: "string \<Rightarrow> string \<Rightarrow> xml_event list" where
  "field_events name s = Start_Tag name None # text_events s @ [End_Tag name]"

text \<open>
  The two dialects, with other elements and white space (\<open>noise\<close>) between the elements that the
  walk reads.
\<close>

datatype dialect = Rss | Atom











section \<open>Reading a document\<close>

lemma tag_names [simp]:
  "local_name_lower ''title'' = ''title''" "local_name_lower ''link'' = ''link''"
  "local_name_lower ''description'' = ''description''" "local_name_lower ''summary'' = ''summary''"
  "local_name_lower ''pubDate'' = ''pubdate''" "local_name_lower ''updated'' = ''updated''"
  "local_name_lower ''item'' = ''item''" "local_name_lower ''entry'' = ''entry''"
  "local_name_lower ''source'' = ''source''"
  by code_simp+

lemma no_href [simp]: "atom_link_href name None = None"
  by (simp add: atom_link_href_def)

lemma entities:
  "entity_name c = Some e \<Longrightarrow> resolve_entity e = Some [c]"
  by (auto simp: entity_name_def resolve_entity_def split: if_splits)


lemma read_text:
  "fr_capture st = Some k \<Longrightarrow> fold feed_step (text_events s) st = st\<lparr>fr_buf := fr_buf st @ s\<rparr>"
proof (induction s arbitrary: st rule: text_events.induct)
  case (2 c cs)
  then show ?case
    by (cases "entity_name c") (simp_all add: entities on_chars_def Let_def)
qed simp

lemma read_field:
  assumes "fr_item st = Some it" and "is_captured (local_name_lower name)"
  shows "fold feed_step (field_events name s) st =
    st\<lparr>fr_item := Some (set_field (local_name_lower name) (str_trim s) it), fr_capture := None, fr_buf := s\<rparr>"
proof -
  let ?k = "local_name_lower name"
  have k: "?k \<noteq> ''item''" "?k \<noteq> ''entry''" "?k \<noteq> FEED_TITLE"
    using assms(2) by (auto simp: is_captured_def FEED_TITLE_def)
  have "feed_step (Start_Tag name None) st = st\<lparr>fr_capture := Some ?k, fr_buf := []\<rparr>"
    using assms k by (simp add: on_start_def)
  then show ?thesis
    using assms(1) k by (simp add: field_events_def read_text on_end_def Let_def)
qed





text \<open>Events before the end are read one after the other.\<close>

lemma feed_loop_append:
  "Malformed \<notin> set es \<Longrightarrow> Eof \<notin> set es \<Longrightarrow> feed_loop (es @ rest) st = feed_loop rest (fold feed_step es st)"
proof (induction es arbitrary: st)
  case (Cons e es)
  then show ?case by (cases e) simp_all
qed simp





section \<open>What the service answers\<close>

lemma feed_response_wf: "rpc_response_wf (feed_response w n request)"
proof -
  have "feed_to_json f \<noteq> JNull" for f by (simp add: feed_to_json_def json_obj_def)
  then show ?thesis
    by (simp add: feed_response_def Let_def rpc_response_wf_def rpc_response_ok_def rpc_response_err_def
        rpc_error_ok_def INVALID_PARAMS_def UPSTREAM_ERROR_def split: sum.split)
qed

lemma feed_response_id [simp]: "resp_id (feed_response w n request) = req_id request"
  by (simp add: feed_response_def Let_def split: sum.split)

interpretation feeds: responder "feed_handler w uuid now_ms" "\<lambda>m. m = ''rss-fetch.invoke''" for w uuid now_ms
  by unfold_locales (simp add: feed_handler_def as_rpc_response_response_for [OF feed_response_wf])







text \<open>
  Every live fetch request gets one response.  Whatever the fetch and the document are, the
  responses that the service publishes in a session carry, in order, the ids of its requests that arrive after
  the replay; a request without a URL is answered with an error as well.
\<close>

theorem feed_answers_once:
  "answered_ids (feed_session w uuid now_ms ms)
     = map req_id (filter (\<lambda>r. req_method r = ''rss-fetch.invoke'') (live_requests ms))"
  unfolding feed_session_def by (rule feeds.serve_answers)

text \<open>The errors: no URL, and a document that is not well formed, which alone makes the walk fail.\<close>

lemma feed_needs_url:
  "feed_url (req_params request) = [] \<Longrightarrow>
     feed_response w n request
       = rpc_response_err (req_id request) INVALID_PARAMS ''rss-fetch.invoke: url param is required''"
  by (simp add: feed_response_def)

lemma feed_loop_error: "feed_loop es st = Inl e \<Longrightarrow> Malformed \<in> set es \<and> e = ''malformed feed XML''"
proof (induction es arbitrary: st)
  case (Cons x es)
  then show ?case by (cases x) auto
qed simp

lemma malformed_feed:
  assumes "Malformed \<notin> set es" "Eof \<notin> set es"
  shows "feed_loop (es @ Malformed # rest) st = Inl ''malformed feed XML''"
  by (simp add: feed_loop_append [OF assms])

lemma fetched_items_bounded: "fetch_feed w n url limit = Inr f \<Longrightarrow> length (fd_items f) \<le> limit"
  by (cases "parse_feed (fw_tokens w) (projr (snd (projr (fw_fetch w n url))))")
     (auto simp: fetch_feed_def split: sum.splits if_splits prod.splits)

text \<open>
  Tags are told by their local names at any depth: the title of an element inside an item becomes
  the title of the item, and of several links the last one stays.
\<close>

lemma nested_title_wins:
  assumes "fr_item st = Some it"
  shows "map_option fi_title (fr_item (fold feed_step
      (field_events ''title'' t @ [Start_Tag ''source'' None] @ field_events ''title'' u @ [End_Tag ''source'']) st))
    = Some (str_trim u)"
proof -
  let ?st = "fold feed_step (field_events ''title'' t) st"
  let ?su = "feed_step (Start_Tag ''source'' None) ?st"
  have "fr_item ?su = Some (it\<lparr>fi_title := str_trim t\<rparr>)"
    using assms by (simp add: read_field is_captured_def on_start_def set_field_def)
  then have "fr_item (fold feed_step (field_events ''title'' u) ?su) = Some (it\<lparr>fi_title := str_trim u\<rparr>)"
    "fr_capture (fold feed_step (field_events ''title'' u) ?su) = None"
    by (simp_all add: read_field is_captured_def set_field_def del: feed_step.simps)
  then show ?thesis by (simp add: on_end_def del: feed_step.simps(1))
qed

lemma last_link_wins:
  assumes "fr_item st = Some it" and "a \<noteq> []" "b \<noteq> []"
  shows "fr_item (fold feed_step [Empty_Tag ''link'' (Some a), Empty_Tag ''link'' (Some b)] st)
    = Some (it\<lparr>fi_link := b\<rparr>)"
  using assms by (simp add: on_empty_def atom_link_href_def set_link_def)

text \<open>An item that is not closed before the next one starts is lost.\<close>

lemma unclosed_item_lost:
  "fr_item (feed_step (Start_Tag ''item'' h) st) = Some empty_item
   \<and> fr_feed (feed_step (Start_Tag ''item'' h) st) = fr_feed st"
  by (simp add: on_start_def)

end
