(* ===== verification/Spec2Isabelle.thy ===== *)
theory Spec2Isabelle
  imports Bus_Machine Llm_Service Session_Loop Routes Services Binary_Store Http_Api Persistence Proxy Accounts Allowlist Js_Runtime
    Http_Client Mcp_Bridge Mcp_Client Knowledge_Base Workers Books Speech Feeds
begin

text \<open>
  Verification library for CAFE, a message bus with services around it: agents, language models,
  a web server, a store of binary assets and small tool services, all of which are separate
  processes that speak to one bus.

  \<^bold>\<open>The program.\<close>  A \<^emph>\<open>chunk\<close> is the unit of data.  The bus keeps sessions, each with a history of
  lasting chunks and a buffer of retained transient ones, and broadcasts what is published to the
  subscribers of the session.  A subscription replays the history first and then says that it is
  complete.  Services subscribe to sessions and answer JSON-RPC requests that travel as annotations
  of transient chunks; the agent runtime fires pipelines of steps on user messages, finished answers
  and scheduler ticks, and each step is such a request.

  \<^bold>\<open>Theories and the code they model.\<close>
  \<^item> \<open>Prelude\<close>: the hash maps, UTF-8 strings, numbers and clock readings that all components share,
    with the laws of maps stated as the locale \<open>hash_map\<close>, and the
    locale \<open>safe_system\<close>, which carries invariants and refusals over the reachable states of a
    transition system.
  \<^item> \<open>Json\<close>, \<open>Chunks\<close>, \<open>Envelope\<close>, \<open>Codec\<close> (\<open>cafe-types/src\<close>): JSON values and the JSON-RPC, tool
    and schema structures; chunks and their annotations; the messages between clients and the bus,
    tags, errors and the model catalog; the two wire codecs and the framing reader of \<open>client.rs\<close>,
    with the locale \<open>framing\<close> for what a codec promises a stream.
  \<^item> \<open>Streams\<close>: what the processes use of the standard library to read text from a stream (lines,
    trimming, UTF-8 decoding) and the locale \<open>incremental\<close> for readers whose results do not depend on
    where the stream is cut, interpreted for event frames and for event lines.  \<open>Chunk_Json\<close>
    (\<open>cafe-types/src\<close>): the derived JSON form of chunks and session listings.
  \<^item> \<open>Session\<close>, \<open>Registry\<close>, \<open>Bus_Client\<close>, \<open>Bus_Connection\<close>, \<open>Bus_Machine\<close> (\<open>cafe-bus/src\<close>): the
    session state, the registry with its deletion timers, the handler of each client message, the
    background tasks, negotiation and cleanup of a connection, and the bus as a transition system
    whose steps are the critical sections of all connections and timers in any order, two instances
    of \<open>safe_system\<close>.
  \<^item> \<open>Allowlist\<close> (\<open>cafe-bus/src/allowlist.rs\<close>): the cached list of admitted peers and its file.
  \<^item> \<open>Client_Sdk\<close> (\<open>cafe-sdk/src\<close>): the client's side of the protocol, from the codec it negotiates to
    the loop that waits for each reply, and, put against the handlers of the bus, what its operations
    report; \<open>Http_Client\<close> (\<open>http\<close> and \<open>ws.rs\<close> there): the client of the web server, put against the handlers it
    calls.
  \<^item> \<open>Persistence\<close> (\<open>cafe-store/src\<close>): the two tables with every statement on them, the messages the
    store follows and the restoring of sessions on a fresh bus.
  \<^item> \<open>Llm_Context\<close>, \<open>Llm_Service\<close> (\<open>cafe-llm/src\<close>): from a history to a prompt and a configuration,
    compaction, the router over backends, streaming, and the evaluation loop; \<open>Llm_Backends\<close>
    (\<open>cafe-llm/src/backends\<close>, \<open>config.rs\<close>): the requests to the three providers and the reading of
    their streams, and which of them a process is configured with.
  \<^item> \<open>Agent_Config\<close>, \<open>Pipeline\<close>, \<open>Session_Loop\<close> (\<open>cafe-agent-runtime/src\<close>): agent files, schemas and
    merged configuration; steps, the work queue, the RPC exchange and tools (locales \<open>work_queue\<close> and
    \<open>tracked_queue\<close>); the routing of messages to triggers.
  \<^item> \<open>Services\<close> (\<open>cafe-dice\<close>, \<open>cafe-rot13\<close>): two tool services as instances of the locale \<open>responder\<close>.
  \<^item> \<open>Routes\<close>, \<open>Http_Api\<close> (\<open>cafe-server/src\<close>): the proxy's route registry and query decoding;
    authentication, the session, chunk and chat handlers, and event streams.
  \<^item> \<open>Proxy\<close> (\<open>cafe-http-proxy-sdk\<close>, the proxy of \<open>cafe-server\<close>, \<open>cafe-web-fetch\<close>): routes announced over
    the bus, calls put through and answered, and page fetching; \<open>Accounts\<close> (\<open>cafe-server/src\<close>): the
    database of tokens, and the admin, quickie, model and agent handlers.
  \<^item> \<open>Js_Agents\<close>, \<open>Js_Bridge\<close>, \<open>Js_Runtime\<close> (\<open>cafe-js-manifest\<close>, \<open>cafe-agent-js\<close>): the manifests and the
    registry of JavaScript agents, the functions they call, and the process of tasks, sessions and
    agent states as an instance of \<open>safe_system\<close>; the engine that runs a script is a parameter.
  \<^item> \<open>Mcp_Bridge\<close> (\<open>cafe-mcp-bridge\<close>): the services of the bus as tools of the Model Context Protocol,
    with their tables, patterns and both transports; \<open>Mcp_Client\<close> (\<open>cafe-mcp-client\<close>): the tools of external
    servers offered to sessions.
  \<^item> \<open>Knowledge_Base\<close> (\<open>cafe-knowledgebase\<close>, \<open>cafe-knowledgebase-index\<close>): splitting texts into pieces, the
    table of documents and pieces with its queries, and the session task.
  \<^item> \<open>Workers\<close> (\<open>cafe-sheetbot\<close>, \<open>cafe-comfy\<close>, \<open>cafe-hue\<close>): the services in front of HTTP services for task
    sheets, images and lights, three more instances of \<open>responder\<close>, put against the tools of the bridge.
  \<^item> \<open>Books\<close> (\<open>cafe-epub\<close>): the narrator of books with its commands, positions, uploads and restarts, put
    against the binary store.
  \<^item> \<open>Speech\<close> (\<open>cafe-tts\<close>, \<open>cafe-stt\<close>): texts cut into pieces and their audio joined again, the choice of
    engines, and the search for the audio to transcribe.
  \<^item> \<open>Feeds\<close> (\<open>cafe-rss\<close>): the walk over the events of an RSS or Atom document, character references, and
    the service that fetches a feed.
  \<^item> \<open>Binary_Store\<close> (\<open>cafe-binary-store/src\<close>): files, tokens, the HTTP handlers, the table of assets,
    the bus listener and the garbage collection.

  \<^bold>\<open>State and operations.\<close>  A Rust structure is a record with the same fields; a method that
  changes it returns the changed record; \<open>Result\<close> and \<open>Option\<close> are sums and options, and a panic is
  \<open>None\<close> (or \<open>Crashed\<close> for the binary store).  Maps are association lists (\<open>kv\<close>) because the code
  iterates over them.  Fresh UUIDs, clock readings, random numbers and the outcomes of writes and bus
  calls are arguments.  What comes from libraries (the parsing and printing of JSON text, bincode, base64,
  HMAC, floating-point parsing, the exchange of an HTTP request) is a parameter, with hypotheses only where a theorem needs them.

  \<^bold>\<open>What the theorems show.\<close>  The claims are numbered in the order of importance and stand in the
  theory of their component.  They show that a subscription is gapless, what invariants every
  reachable state of the bus has and why a session can disappear; that codecs, uploads, tokens,
  routes and configurations read back what was written; that the prompt is the conversation and
  compaction loses no more than it must; that every pipeline ends, keeps to its session and gets
  its answers, and that services act on live requests only and answer each exactly once.  They show
  that the client reports what happened on the bus, that the tables of the store follow the histories
  and bring sessions back, and that forks and tags are the exceptions; that a proxied call comes back
  as it was answered, when its route can be reached at all; and that JavaScript agents hear each live
  event once, wake as pipelines do, and run the source that was installed last; that the tokens of a
  provider arrive whole however its stream is cut; and that tool calls are answered in both directions of
  the Model Context Protocol, by whom, and which of them should not have been.

  \<^bold>\<open>Bounds and fuel.\<close>  Four loops take fuel.  A pipeline's work queue gets \<open>(n + 2) ^ (D + 1)\<close> rounds
  for \<open>n\<close> steps and maximal depth \<open>D\<close>, which is enough for every run because each event adds at most
  \<open>n + 1\<close> events that are one level deeper; the connection handler gets one round per byte received,
  which is enough because a message takes at least one byte; and so does the reader of an event stream,
  each of whose results takes at least one byte too.  These facts are theorems.  The wait for an image asks
  120 times, as the code does.  Three loops may not end and are partial functions: the splitting of a long
  paragraph and of a long sentence, and the wait for read credentials; the theorems say for which sizes and clocks
  they return.

  \<^bold>\<open>Not modelled.\<close>  Sockets, TLS, iroh transport, signal handling and process start-up; SQLite itself
  (its tables are maps and lists of rows); the tokenizer of XML, the reader of the EPUB container and
  the rendering of HTML, which are parameters; the JavaScript engine and the audio converter; the user interfaces.  The manifest lists them one by one.
\<close>

end
